(* ===== verification/Prelude.thy ===== *)
theory Prelude
  imports Main "HOL-Library.AList" "HOL-Library.Multiset"
begin

text \<open>
  What the components share: errors as values and their sequencing, Go's signed 64-bit
  integers with the wrap-around written out, Go maps as association lists (and the interface
  the components use them through), stable insertion sort for \<^verbatim>\<open>sort.Slice\<close>, JSON column
  values (\<^verbatim>\<open>json.RawMessage\<close>) and the few string functions the sources call.

  A Go map is an association list with distinct keys. The order of the list stands for the order
  in which the runtime happens to iterate, so a theorem over all lists covers every order.
\<close>

named_theorems res_simps \<open>results: when a sequence of fallible steps succeeds\<close>
named_theorems gomap_simps \<open>Go maps: lookup after an update\<close>

section \<open>Errors as values\<close>

text \<open>
  The errors the modelled functions return: a row that is not there
  (\<^verbatim>\<open>gorm.ErrRecordNotFound\<close>), data that does not decode, a message built with
  \<^verbatim>\<open>common.NewError\<close>, and a failing statement of the database.
\<close>

datatype err = ENotFound | EDecode | EMsg string | EDb

type_synonym 'a res = "err + 'a"

definition rbind :: "'a res \<Rightarrow> ('a \<Rightarrow> 'b res) \<Rightarrow> 'b res" where
  "rbind r f = (case r of Inl e \<Rightarrow> Inl e | Inr x \<Rightarrow> f x)"

text \<open>\<^verbatim>\<open>if cond { return err }\<close>.\<close>

definition guard_err :: "bool \<Rightarrow> err \<Rightarrow> 'a res \<Rightarrow> 'a res" where
  "guard_err b e k = (if b then Inl e else k)"

lemma rbind_Inl [simp]: "rbind (Inl e) f = Inl e"
  by (simp add: rbind_def)

lemma rbind_Inr [simp]: "rbind (Inr x) f = f x"
  by (simp add: rbind_def)

lemma rbind_eq_Inr [res_simps]: "rbind r f = Inr y \<longleftrightarrow> (\<exists>x. r = Inr x \<and> f x = Inr y)"
  by (cases r) auto

lemma guard_err_eq_Inr [res_simps]: "guard_err b e k = Inr y \<longleftrightarrow> \<not> b \<and> k = Inr y"
  by (simp add: guard_err_def)

lemma guard_err_False [simp]: "guard_err False e k = k"
  by (simp add: guard_err_def)

lemma guard_err_True [simp]: "guard_err True e k = Inl e"
  by (simp add: guard_err_def)

text \<open>A loop over a slice whose body may return early with an error.\<close>

fun fold_res :: "('a \<Rightarrow> 's \<Rightarrow> 's res) \<Rightarrow> 'a list \<Rightarrow> 's \<Rightarrow> 's res" where
  "fold_res f [] s = Inr s"
| "fold_res f (x # xs) s = rbind (f x s) (fold_res f xs)"

fun map_res :: "('a \<Rightarrow> 'b res) \<Rightarrow> 'a list \<Rightarrow> 'b list res" where
  "map_res f [] = Inr []"
| "map_res f (x # xs) = rbind (f x) (\<lambda>y. rbind (map_res f xs) (\<lambda>ys. Inr (y # ys)))"

lemma map_res_length: "map_res f xs = Inr ys \<Longrightarrow> length ys = length xs"
  by (induction xs arbitrary: ys) (auto simp: res_simps)

lemma map_res_nth: "map_res f xs = Inr ys \<Longrightarrow> i < length xs \<Longrightarrow> f (xs ! i) = Inr (ys ! i)"
  by (induction xs arbitrary: ys i) (auto simp: res_simps nth_Cons split: nat.splits)

lemma map_res_set: "map_res f xs = Inr ys \<Longrightarrow> y \<in> set ys \<Longrightarrow> \<exists>x \<in> set xs. f x = Inr y"
  by (induction xs arbitrary: ys) (auto simp: res_simps)

lemma map_res_ok: "(\<And>x. x \<in> set xs \<Longrightarrow> f x = Inr (g x)) \<Longrightarrow> map_res f xs = Inr (map g xs)"
  by (induction xs) auto

lemma map_res_proj:
  assumes "map_res f xs = Inr ys" and "\<And>x y. x \<in> set xs \<Longrightarrow> f x = Inr y \<Longrightarrow> h y = k x"
  shows "map h ys = map k xs"
  using assms
proof (induction xs arbitrary: ys)
  case (Cons x xs)
  then obtain y zs where "f x = Inr y" "map_res f xs = Inr zs" "ys = y # zs"
    by (auto simp: res_simps)
  with Cons.IH [of zs] Cons.prems show ?case by auto
qed simp

lemma fold_res_invariant:
  assumes "fold_res f xs s = Inr t" and "P s"
    and "\<And>x s t. x \<in> set xs \<Longrightarrow> P s \<Longrightarrow> f x s = Inr t \<Longrightarrow> P t"
  shows "P t"
  using assms
proof (induction xs arbitrary: s)
  case (Cons x xs)
  then obtain u where u: "f x s = Inr u" "fold_res f xs u = Inr t"
    by (auto simp: res_simps)
  from Cons.prems(2) u(1) have "P u"
    using Cons.prems(3) [of x s u] by simp
  show ?case
    by (rule Cons.IH [OF u(2) \<open>P u\<close>]) (use Cons.prems(3) in auto)
qed simp

section \<open>Signed 64-bit integers\<close>

text \<open>Go's \<^verbatim>\<open>int64\<close> (and \<^verbatim>\<open>int\<close> on 64-bit targets) wraps around.\<close>

definition i64 :: "int \<Rightarrow> int" where
  "i64 x = (x + 2 ^ 63) mod 2 ^ 64 - 2 ^ 63"

definition in_i64 :: "int \<Rightarrow> bool" where
  "in_i64 x \<longleftrightarrow> - (2 ^ 63) \<le> x \<and> x < 2 ^ 63"

lemma i64_id: "in_i64 x \<Longrightarrow> i64 x = x"
  by (simp add: i64_def in_i64_def)

lemma i64_range: "in_i64 (i64 x)"
proof -
  have "0 \<le> (x + 2 ^ 63) mod 2 ^ 64" "(x + 2 ^ 63) mod 2 ^ 64 < 2 ^ 64"
    by simp_all
  then show ?thesis by (simp add: i64_def in_i64_def)
qed

lemma i64_add_i64 [simp]: "i64 (i64 a + b) = i64 (a + b)"
proof -
  have "(((a + 2 ^ 63) mod 2 ^ 64 - 2 ^ 63) + b + 2 ^ 63) mod 2 ^ 64 = (a + b + 2 ^ 63) mod (2 ^ 64 :: int)"
    by (simp add: mod_simps algebra_simps)
  then show ?thesis by (simp add: i64_def)
qed

text \<open>Division truncates toward zero.\<close>

definition go_div :: "int \<Rightarrow> int \<Rightarrow> int" where
  "go_div a b = sgn a * sgn b * (\<bar>a\<bar> div \<bar>b\<bar>)"

lemma go_div_pos [simp]: "0 \<le> a \<Longrightarrow> 0 < b \<Longrightarrow> go_div a b = a div b"
  by (cases "a = 0") (simp_all add: go_div_def)

section \<open>Go maps\<close>

type_synonym ('k, 'v) gomap = "('k \<times> 'v) list"

abbreviation gget :: "('k, 'v) gomap \<Rightarrow> 'k \<Rightarrow> 'v option" where
  "gget m k \<equiv> map_of m k"

abbreviation gput :: "'k \<Rightarrow> 'v \<Rightarrow> ('k, 'v) gomap \<Rightarrow> ('k, 'v) gomap" where
  "gput k v m \<equiv> AList.update k v m"

abbreviation gdel :: "'k \<Rightarrow> ('k, 'v) gomap \<Rightarrow> ('k, 'v) gomap" where
  "gdel k m \<equiv> AList.delete k m"

abbreviation gkeys :: "('k, 'v) gomap \<Rightarrow> 'k list" where
  "gkeys m \<equiv> map fst m"

abbreviation gmap_ok :: "('k, 'v) gomap \<Rightarrow> bool" where
  "gmap_ok m \<equiv> distinct (map fst m)"

text \<open>\<^verbatim>\<open>m[k]\<close> on a missing key is the zero value of the element type.\<close>

definition gget0 :: "'v \<Rightarrow> ('k, 'v) gomap \<Rightarrow> 'k \<Rightarrow> 'v" where
  "gget0 z m k = (case map_of m k of None \<Rightarrow> z | Some v \<Rightarrow> v)"

text \<open>The interface the components use a map through.\<close>

locale map_store =
  fixes emp :: "'m"
    and get :: "'m \<Rightarrow> 'k \<Rightarrow> 'v option"
    and put :: "'k \<Rightarrow> 'v \<Rightarrow> 'm \<Rightarrow> 'm"
    and del :: "'k \<Rightarrow> 'm \<Rightarrow> 'm"
    and inv :: "'m \<Rightarrow> bool"
  assumes get_emp: "get emp k = None"
    and get_put: "inv m \<Longrightarrow> get (put k v m) k' = (if k' = k then Some v else get m k')"
    and get_del: "inv m \<Longrightarrow> get (del k m) k' = (if k' = k then None else get m k')"
    and inv_emp: "inv emp"
    and inv_put: "inv m \<Longrightarrow> inv (put k v m)"
    and inv_del: "inv m \<Longrightarrow> inv (del k m)"
begin

lemma inv_fold_put: "inv m \<Longrightarrow> inv (fold (\<lambda>k. put k (f k)) ks m)"
  by (induction ks arbitrary: m) (simp_all add: inv_put)

lemma get_fold_put:
  "inv m \<Longrightarrow> get (fold (\<lambda>k. put k (f k)) ks m) k' = (if k' \<in> set ks then Some (f k') else get m k')"
  by (induction ks arbitrary: m) (auto simp: inv_put get_put)

lemma inv_fold_del: "inv m \<Longrightarrow> inv (fold del ks m)"
  by (induction ks arbitrary: m) (simp_all add: inv_del)

lemma get_fold_del:
  "inv m \<Longrightarrow> get (fold del ks m) k' = (if k' \<in> set ks then None else get m k')"
  by (induction ks arbitrary: m) (auto simp: inv_del get_del)

end

interpretation gmap: map_store "[] :: ('k, 'v) gomap" map_of AList.update AList.delete
  "\<lambda>m. distinct (map fst m)"
  by unfold_locales (auto simp: update_conv' delete_conv' distinct_update distinct_delete)

lemmas gmap_get_put [gomap_simps] = gmap.get_put
lemmas gmap_get_del [gomap_simps] = gmap.get_del

lemma gget_put [simp]: "gget (gput k v m) k' = (if k' = k then Some v else gget m k')"
  by (simp add: update_conv')

lemma gget_del [simp]: "gget (gdel k m) k' = (if k' = k then None else gget m k')"
  by (simp add: delete_conv')

lemma gkeys_put_set [simp]: "fst ` set (gput k v m) = insert k (fst ` set m)"
  by (induction m) auto

lemma gput_in_set: "(k, v) \<in> set (gput k' v' m) \<Longrightarrow> k = k' \<and> v = v' \<or> (k, v) \<in> set m"
  by (induction m) (auto split: if_splits)

lemma gput_fresh: "k \<notin> fst ` set m \<Longrightarrow> gput k v m = m @ [(k, v)]"
  by (induction m) auto

text \<open>Filling a map from a list with distinct keys writes the list.\<close>

lemma fold_gput_fresh:
  assumes "distinct (map fst ps)" and "set (map fst ps) \<inter> fst ` set m = {}"
  shows "fold (\<lambda>(k, x). gput k (f x)) ps m = m @ map (\<lambda>(k, x). (k, f x)) ps"
  using assms
proof (induction ps arbitrary: m)
  case (Cons p ps)
  then have "gput (fst p) (f (snd p)) m = m @ [(fst p, f (snd p))]"
    by (intro gput_fresh) auto
  with Cons show ?case by (auto simp: case_prod_unfold)
qed simp

lemma fold_gdel_filter: "fold gdel ks m = filter (\<lambda>(k, v). k \<notin> set ks) m"
proof (induction ks arbitrary: m)
  case (Cons k ks)
  have "gdel k m = filter (\<lambda>(k', v). k' \<noteq> k) m" by (auto simp: AList.delete_eq intro!: filter_cong)
  with Cons show ?case by (auto intro!: filter_cong simp: case_prod_unfold)
qed simp

text \<open>Deleting inside a \<^verbatim>\<open>range\<close> loop keeps exactly the entries the test keeps.\<close>

lemma gget_filter:
  assumes "gmap_ok m"
  shows "gget (filter P m) k = (case gget m k of None \<Rightarrow> None | Some v \<Rightarrow> if P (k, v) then Some v else None)"
  using assms
proof (induction m)
  case (Cons kv m)
  have "k \<notin> fst ` set m \<Longrightarrow> map_of (filter P m) k = None"
    by (auto simp: map_of_eq_None_iff)
  with Cons show ?case
    by (cases kv) (auto split: option.splits dest: map_of_SomeD)
qed simp

lemma gmap_ok_filter [simp]: "gmap_ok m \<Longrightarrow> gmap_ok (filter P m)"
  by (induction m) auto

lemma gget_in_set: "gmap_ok m \<Longrightarrow> (k, v) \<in> set m \<longleftrightarrow> gget m k = Some v"
  by (meson map_of_SomeD map_of_is_SomeI)

section \<open>Stable insertion sort\<close>

text \<open>
  \<^verbatim>\<open>sort.Slice\<close> with a strict comparison: the result is a permutation in which no element is
  below its predecessor. Elements the comparison does not separate keep their order here; Go
  leaves that order open, which the order of the input list (an iteration order) covers.
\<close>

fun insort_by :: "('a \<Rightarrow> 'a \<Rightarrow> bool) \<Rightarrow> 'a \<Rightarrow> 'a list \<Rightarrow> 'a list" where
  "insort_by lt x [] = [x]"
| "insort_by lt x (y # ys) = (if lt y x then y # insort_by lt x ys else x # y # ys)"

fun sort_by :: "('a \<Rightarrow> 'a \<Rightarrow> bool) \<Rightarrow> 'a list \<Rightarrow> 'a list" where
  "sort_by lt [] = []"
| "sort_by lt (x # xs) = insort_by lt x (sort_by lt xs)"

locale strict_order =
  fixes lt :: "'a \<Rightarrow> 'a \<Rightarrow> bool"
  assumes lt_irrefl: "\<not> lt x x"
    and lt_trans: "lt x y \<Longrightarrow> lt y z \<Longrightarrow> lt x z"
    and lt_weak: "\<not> lt x y \<Longrightarrow> \<not> lt y z \<Longrightarrow> \<not> lt x z"
begin

lemma sorted_insort_by:
  "sorted_wrt (\<lambda>a b. \<not> lt b a) ys \<Longrightarrow> sorted_wrt (\<lambda>a b. \<not> lt b a) (insort_by lt x ys)"
proof (induction ys)
  case (Cons y ys)
  have set_ins: "set (insort_by lt x zs) = insert x (set zs)" for zs
    by (induction zs) auto
  show ?case
  proof (cases "lt y x")
    case True
    then have "\<not> lt x y" using lt_irrefl lt_trans by blast
    with True Cons show ?thesis by (auto simp: set_ins)
  next
    case False
    have "\<not> lt z x" if "z \<in> set ys" for z
      using that Cons.prems lt_weak [of z y x] False by auto
    with False Cons.prems show ?thesis by auto
  qed
qed simp

lemma sorted_sort_by: "sorted_wrt (\<lambda>a b. \<not> lt b a) (sort_by lt xs)"
  by (induction xs) (simp_all add: sorted_insort_by)

end

locale strict_total = strict_order +
  assumes lt_total: "lt x y \<or> x = y \<or> lt y x"

lemma mset_insort_by [simp]: "mset (insort_by lt x ys) = add_mset x (mset ys)"
  by (induction ys) auto

lemma mset_sort_by [simp]: "mset (sort_by lt xs) = mset xs"
  by (induction xs) auto

lemma set_sort_by [simp]: "set (sort_by lt xs) = set xs"
  by (metis mset_sort_by set_mset_mset)

lemma length_sort_by [simp]: "length (sort_by lt xs) = length xs"
  by (metis mset_sort_by size_mset)

lemma distinct_sort_by [simp]: "distinct (sort_by lt xs) = distinct xs"
  by (metis mset_sort_by mset_eq_imp_distinct_iff)

lemma distinct_map_sort_by [simp]: "distinct (map f (sort_by lt xs)) = distinct (map f xs)"
  by (metis mset_sort_by mset_eq_imp_distinct_iff mset_map)

text \<open>A comparison that separates any two elements leaves no choice: the result depends on the elements only.\<close>

lemma sort_by_unique:
  assumes "strict_total lt" and "sorted_wrt (\<lambda>a b. \<not> lt b a) xs" and "sorted_wrt (\<lambda>a b. \<not> lt b a) ys"
    and "mset xs = mset ys"
  shows "xs = ys"
  using assms(2-4)
proof (induction xs arbitrary: ys)
  case (Cons x xs)
  then obtain y ys' where ys: "ys = y # ys'" by (cases ys) auto
  have "x \<in> set ys" "y \<in> set (x # xs)" using Cons.prems(3) ys by (metis list.set_intros(1) set_mset_mset)+
  then have "x = y \<or> (\<not> lt y x \<and> \<not> lt x y)" using Cons.prems(1,2) ys by auto
  then have "x = y" using assms(1) by (auto simp: strict_total_def strict_total_axioms_def)
  with Cons ys show ?case by auto
qed simp

lemma sort_by_mset:
  assumes "strict_total lt" and "mset xs = mset ys"
  shows "sort_by lt xs = sort_by lt ys"
proof -
  have "strict_order lt" using assms(1) by (simp add: strict_total_def)
  then show ?thesis
    using assms by (intro sort_by_unique [OF assms(1)]) (simp_all add: strict_order.sorted_sort_by)
qed

text \<open>Two rows of a table that agree on a key are the same row.\<close>

lemma distinct_map_eqD: "distinct (map f xs) \<Longrightarrow> x \<in> set xs \<Longrightarrow> y \<in> set xs \<Longrightarrow> f x = f y \<Longrightarrow> x = y"
  by (simp add: distinct_map inj_on_def)

lemma find_SomeD: "find P xs = Some x \<Longrightarrow> x \<in> set xs \<and> P x"
  by (auto simp: find_Some_iff)

lemma find_append: "find P (xs @ ys) = (case find P xs of None \<Rightarrow> find P ys | Some x \<Rightarrow> Some x)"
  by (induction xs) auto

lemma fold_max_ge:
  fixes f :: "'a \<Rightarrow> 'b :: linorder"
  shows "l \<le> fold (\<lambda>x. max (f x)) xs l" and "x \<in> set xs \<Longrightarrow> f x \<le> fold (\<lambda>x. max (f x)) xs l"
proof -
  show ge: "l \<le> fold (\<lambda>x. max (f x)) xs l" for xs l
    by (induction xs arbitrary: l) (auto intro: order_trans [OF max.cobounded2])
  show "x \<in> set xs \<Longrightarrow> f x \<le> fold (\<lambda>x. max (f x)) xs l"
    using ge by (induction xs arbitrary: l) (auto intro: order_trans [OF max.cobounded1])
qed

section \<open>JSON columns\<close>

datatype json =
  JNull | JBool bool | JNum string | JStr string | JArr "json list" | JObj "(string \<times> json) list"

text \<open>
  A \<^verbatim>\<open>json.RawMessage\<close> column: no bytes at all, the literal \<^verbatim>\<open>null\<close>, bytes that do not decode
  into the Go type the code asks for (with the text, and with what a failed \<^verbatim>\<open>json.Unmarshal\<close> leaves
  in the destination), or a spelling of a value. Spellings tell apart byte strings that decode to the
  same value: \<open>Compact\<close> is what \<^verbatim>\<open>json.Marshal\<close> prints, \<open>Indented\<close> what
  \<^verbatim>\<open>json.MarshalIndent(v, "", "  ")\<close> prints, \<open>Other\<close> any other text. A text is represented by the
  first of the three that fits, so equality of representations is equality of bytes.
\<close>

datatype spelling = Compact | Indented | Other string

datatype 'a raw = RawNil | RawNull | RawBad string 'a | RawVal spelling 'a

definition unmarshal :: "'a \<Rightarrow> 'a raw \<Rightarrow> 'a res" where
  "unmarshal zero r =
     (case r of RawNil \<Rightarrow> Inl EDecode | RawNull \<Rightarrow> Inr zero
      | RawBad _ _ \<Rightarrow> Inl EDecode | RawVal _ v \<Rightarrow> Inr v)"

text \<open>\<^verbatim>\<open>json.Unmarshal(x, &v)\<close> with the error not looked at.\<close>

definition unmarshal_ignore :: "'a \<Rightarrow> 'a raw \<Rightarrow> 'a" where
  "unmarshal_ignore zero r =
     (case r of RawNil \<Rightarrow> zero | RawNull \<Rightarrow> zero | RawBad _ v \<Rightarrow> v | RawVal _ v \<Rightarrow> v)"

text \<open>An empty slice prints as \<^verbatim>\<open>[]\<close> with and without indentation.\<close>

definition marshal_indent :: "'a list \<Rightarrow> 'a list raw" where
  "marshal_indent xs = (if xs = [] then RawVal Compact xs else RawVal Indented xs)"

definition marshal :: "'a \<Rightarrow> 'a raw" where
  "marshal v = RawVal Compact v"

definition raw_is_empty :: "'a raw \<Rightarrow> bool" where
  "raw_is_empty r \<longleftrightarrow> r = RawNil"

lemma unmarshal_marshal [simp]: "unmarshal z (marshal v) = Inr v"
  by (simp add: unmarshal_def marshal_def)

lemma unmarshal_marshal_indent [simp]: "unmarshal z (marshal_indent v) = Inr v"
  by (simp add: unmarshal_def marshal_indent_def)

lemma unmarshal_ignore_eq: "unmarshal z r = Inr v \<Longrightarrow> unmarshal_ignore z r = v"
  by (cases r) (simp_all add: unmarshal_def unmarshal_ignore_def)

section \<open>Strings\<close>

text \<open>
  A Go string is its bytes. \<^verbatim>\<open>strings.TrimSpace\<close> removes the UTF-8 encodings of the white space
  characters of Unicode from both ends.
\<close>

definition bytes :: "nat list \<Rightarrow> string" where
  "bytes ns = map char_of ns"

definition space_runes :: "string list" where
  "space_runes = map bytes
     ([[9], [10], [11], [12], [13], [32], [0xC2, 0x85], [0xC2, 0xA0], [0xE1, 0x9A, 0x80],
       [0xE2, 0x80, 0xA8], [0xE2, 0x80, 0xA9], [0xE2, 0x80, 0xAF], [0xE2, 0x81, 0x9F], [0xE3, 0x80, 0x80]]
      @ map (\<lambda>b. [0xE2, 0x80, b]) [0x80..<0x8B])"

text \<open>The same table as literals, for evaluation.\<close>

lemma space_runes_code [code]:
  "space_runes =
     [[CHR 0x09], [CHR 0x0A], [CHR 0x0B], [CHR 0x0C], [CHR 0x0D], [CHR 0x20], [CHR 0xC2, CHR 0x85], [CHR 0xC2, CHR 0xA0],
      [CHR 0xE1, CHR 0x9A, CHR 0x80], [CHR 0xE2, CHR 0x80, CHR 0xA8], [CHR 0xE2, CHR 0x80, CHR 0xA9],
      [CHR 0xE2, CHR 0x80, CHR 0xAF], [CHR 0xE2, CHR 0x81, CHR 0x9F], [CHR 0xE3, CHR 0x80, CHR 0x80],
      [CHR 0xE2, CHR 0x80, CHR 0x80], [CHR 0xE2, CHR 0x80, CHR 0x81], [CHR 0xE2, CHR 0x80, CHR 0x82],
      [CHR 0xE2, CHR 0x80, CHR 0x83], [CHR 0xE2, CHR 0x80, CHR 0x84], [CHR 0xE2, CHR 0x80, CHR 0x85],
      [CHR 0xE2, CHR 0x80, CHR 0x86], [CHR 0xE2, CHR 0x80, CHR 0x87], [CHR 0xE2, CHR 0x80, CHR 0x88],
      [CHR 0xE2, CHR 0x80, CHR 0x89], [CHR 0xE2, CHR 0x80, CHR 0x8A]]"
  by (simp add: space_runes_def bytes_def upt_rec char_of_def bit_0)

fun has_prefix :: "string \<Rightarrow> string \<Rightarrow> bool" where
  "has_prefix s [] = True"
| "has_prefix [] (_ # _) = False"
| "has_prefix (c # s) (d # p) = (c = d \<and> has_prefix s p)"

lemma has_prefix_iff: "has_prefix s p \<longleftrightarrow> (\<exists>t. s = p @ t)"
  by (induction s p rule: has_prefix.induct) auto

text \<open>Removes leading elements of \<open>seqs\<close> as long as there is one, at most \<open>n\<close> times.\<close>

fun strip_front :: "string list \<Rightarrow> nat \<Rightarrow> string \<Rightarrow> string" where
  "strip_front seqs 0 s = s"
| "strip_front seqs (Suc n) s =
     (case find (\<lambda>p. p \<noteq> [] \<and> has_prefix s p) seqs of
        None \<Rightarrow> s
      | Some p \<Rightarrow> strip_front seqs n (drop (length p) s))"

definition TrimSpace :: "string \<Rightarrow> string" where
  "TrimSpace s =
     (let l = strip_front space_runes (length s) s
      in rev (strip_front (map rev space_runes) (length l) (rev l)))"

text \<open>Enough rounds: nothing of \<open>seqs\<close> is left in front.\<close>

lemma strip_front_done:
  "length s \<le> n \<Longrightarrow> find (\<lambda>p. p \<noteq> [] \<and> has_prefix (strip_front seqs n s) p) seqs = None"
proof (induction n arbitrary: s)
  case 0
  then have "s = []" by simp
  have "\<not> (p \<noteq> [] \<and> has_prefix [] p)" for p by (cases p) auto
  with \<open>s = []\<close> show ?case by (simp add: find_None_iff)
next
  case (Suc n)
  show ?case
  proof (cases "find (\<lambda>p. p \<noteq> [] \<and> has_prefix s p) seqs")
    case None
    then show ?thesis by simp
  next
    case (Some p)
    then have "p \<noteq> []" "has_prefix s p" by (auto simp: find_Some_iff)
    then have "length (drop (length p) s) \<le> n"
      using Suc.prems by (cases p) auto
    with Some show ?thesis by (simp add: Suc.IH)
  qed
qed

text \<open>\<^verbatim>\<open>strings.Index(s, sub)\<close>: the first position, or none.\<close>

fun index_of :: "string \<Rightarrow> string \<Rightarrow> nat option" where
  "index_of [] sub = (if sub = [] then Some 0 else None)"
| "index_of (c # s) sub =
     (if has_prefix (c # s) sub then Some 0 else map_option Suc (index_of s sub))"

lemma index_of_Some:
  "index_of s sub = Some i \<Longrightarrow> i \<le> length s \<and> (\<exists>t. drop i s = sub @ t)"
proof (induction s arbitrary: i)
  case (Cons c s)
  show ?case
  proof (cases "has_prefix (c # s) sub")
    case True
    with Cons.prems show ?thesis by (auto simp: has_prefix_iff)
  next
    case False
    with Cons.prems obtain j where "index_of s sub = Some j" "i = Suc j" by auto
    with Cons.IH [of j] show ?thesis by auto
  qed
qed (auto split: if_splits)

text \<open>
  \<^verbatim>\<open>strings.ToLower\<close> on ASCII; \<open>lower\<close> is the same function on texts with other characters, which needs the
  Unicode tables.
\<close>

definition ascii_lower :: "char \<Rightarrow> char" where
  "ascii_lower c = (let n = of_char c :: nat in if 65 \<le> n \<and> n \<le> 90 then char_of (n + 32) else c)"

definition ToLower :: "(string \<Rightarrow> string) \<Rightarrow> string \<Rightarrow> string" where
  "ToLower lower s = (if \<forall>c \<in> set s. (of_char c :: nat) < 128 then map ascii_lower s else lower s)"

text \<open>Upper case, in the same way.\<close>

definition ascii_upper :: "char \<Rightarrow> char" where
  "ascii_upper c = (let n = of_char c :: nat in if 97 \<le> n \<and> n \<le> 122 then char_of (n - 32) else c)"

definition ToUpper :: "(string \<Rightarrow> string) \<Rightarrow> string \<Rightarrow> string" where
  "ToUpper upper s = (if \<forall>c \<in> set s. (of_char c :: nat) < 128 then map ascii_upper s else upper s)"

end
