(* ===== verification/GoTime.thy ===== *)
theory GoTime
  imports Prelude
begin

text \<open>
  The part of Go's \<^verbatim>\<open>time\<close> package the reset schedule rests on: the proleptic Gregorian calendar
  on days since 1970-01-01, a location as a table of zone transitions, \<^verbatim>\<open>time.Date\<close> with its
  normalisation of months and its two-step search for the zone offset, and the calendar month of an
  instant in a location. The lemmas show that the calendar is a bijection between days and valid
  dates and bound how far a local midnight lies from the same date's midnight in UTC.
\<close>

section \<open>The calendar\<close>

definition is_leap :: "int \<Rightarrow> bool" where
  "is_leap y \<longleftrightarrow> y mod 4 = 0 \<and> (y mod 100 \<noteq> 0 \<or> y mod 400 = 0)"

definition month_len :: "int \<Rightarrow> int \<Rightarrow> int" where
  "month_len y m =
     (if m = 2 then (if is_leap y then 29 else 28)
      else if m = 4 \<or> m = 6 \<or> m = 9 \<or> m = 11 then 30 else 31)"

text \<open>Days from 1970-01-01 to January 1st of a year, and from January 1st to the first of a month.\<close>

definition days_before_year :: "int \<Rightarrow> int" where
  "days_before_year y = 365 * (y - 1970) + (y - 1) div 4 - (y - 1) div 100 + (y - 1) div 400 - 477"

definition days_before_month :: "int \<Rightarrow> int \<Rightarrow> int" where
  "days_before_month y m =
     [0, 31, 59, 90, 120, 151, 181, 212, 243, 273, 304, 334, 365] ! nat (m - 1)
     + (if is_leap y \<and> 2 < m then 1 else 0)"

text \<open>The day number of a date. Months outside 1 to 12 carry into the year, days are counted on.\<close>

definition civil_days :: "int \<Rightarrow> int \<Rightarrow> int \<Rightarrow> int" where
  "civil_days y m d =
     (let y' = y + (m - 1) div 12; m' = (m - 1) mod 12 + 1
      in days_before_year y' + days_before_month y' m' + d - 1)"

definition year_of_day :: "int \<Rightarrow> int" where
  "year_of_day n =
     (let a = n + 719162; q400 = a div 146097; r400 = a mod 146097;
          q100 = min (r400 div 36524) 3; r100 = r400 - q100 * 36524;
          q4 = r100 div 1461; r4 = r100 mod 1461; q1 = min (r4 div 365) 3
      in 400 * q400 + 100 * q100 + 4 * q4 + q1 + 1)"

text \<open>The month a day of the year lies in: the months are tried in turn, at most \<open>k\<close> more.\<close>

fun month_from :: "int \<Rightarrow> int \<Rightarrow> nat \<Rightarrow> int \<Rightarrow> int" where
  "month_from y yd 0 m = m"
| "month_from y yd (Suc k) m =
     (if yd < days_before_month y (m + 1) then m else month_from y yd k (m + 1))"

definition month_of_yday :: "int \<Rightarrow> int \<Rightarrow> int" where
  "month_of_yday y yd = month_from y yd 11 1"

definition civil_of_days :: "int \<Rightarrow> int \<times> int \<times> int" where
  "civil_of_days n =
     (let y = year_of_day n; yd = n - days_before_year y; m = month_of_yday y yd
      in (y, m, yd - days_before_month y m + 1))"

lemma div_pred:
  fixes y k :: int
  assumes "0 < k"
  shows "y div k = (y - 1) div k + (if y mod k = 0 then 1 else 0)"
proof -
  have y: "y = k * (y div k) + y mod k" and r: "0 \<le> y mod k" "y mod k < k"
    using assms by simp_all
  show ?thesis
  proof (cases "y mod k = 0")
    case True
    then have "y - 1 = k * (y div k - 1) + (k - 1)"
      using y by (simp add: algebra_simps)
    then have "(y - 1) div k = y div k - 1"
      using assms by (intro int_div_pos_eq [where r = "k - 1"]) auto
    with True show ?thesis by simp
  next
    case False
    have "y - 1 = k * (y div k) + (y mod k - 1)" using y by simp
    then have "(y - 1) div k = y div k"
      using False r by (intro int_div_pos_eq [where r = "y mod k - 1"]) auto
    with False show ?thesis by simp
  qed
qed

lemma mod_top:
  fixes a b k :: int
  assumes "1 \<le> b" and "b \<le> k"
  shows "(k * a + b) mod k = 0 \<longleftrightarrow> b = k"
proof (cases "b = k")
  case False
  with assms have "b mod k = b" by simp
  with False assms show ?thesis by (simp only: mod_mult_self4) simp
qed simp

lemma leap_count_step:
  fixes a b c y :: int
  assumes "a' = a + (if p then 1 else 0)" and "b' = b + (if q then 1 else 0)"
    and "c' = c + (if r then 1 else 0)" and "q \<Longrightarrow> p" and "r \<Longrightarrow> q"
  shows "365 * (y + 1 - 1970) + a' - b' + c' - 477
    = 365 * (y - 1970) + a - b + c - 477 + (if p \<and> (\<not> q \<or> r) then 366 else 365)"
  using assms by (cases p; cases q; cases r; simp)

lemma days_before_year_Suc: "days_before_year (y + 1) = days_before_year y + (if is_leap y then 366 else 365)"
proof -
  have 4: "y mod 4 = 0" if "y mod 100 = 0"
    unfolding mod_eq_0_iff_dvd by (rule dvd_trans [OF _ that [unfolded mod_eq_0_iff_dvd]]) simp
  have 100: "y mod 100 = 0" if "y mod 400 = 0"
    unfolding mod_eq_0_iff_dvd by (rule dvd_trans [OF _ that [unfolded mod_eq_0_iff_dvd]]) simp
  have "y + 1 - 1 = y" by simp
  then show ?thesis
    unfolding days_before_year_def is_leap_def
    using leap_count_step [OF div_pred [of 4 y] div_pred [of 100 y] div_pred [of 400 y] 4 100] by (simp only:)
qed

lemma year_of_day_bounds:
  "days_before_year (year_of_day n) \<le> n \<and> n < days_before_year (year_of_day n + 1)"
proof -
  define a where "a = n + 719162"
  define q400 where "q400 = a div 146097"
  define r400 where "r400 = a mod 146097"
  define q100 where "q100 = min (r400 div 36524) 3"
  define r100 where "r100 = r400 - q100 * 36524"
  define q4 where "q4 = r100 div 1461"
  define r4 where "r4 = r100 mod 1461"
  define q1 where "q1 = min (r4 div 365) 3"
  have y: "year_of_day n = 400 * q400 + 100 * q100 + 4 * q4 + q1 + 1"
    by (simp only: year_of_day_def Let_def a_def q400_def r400_def q100_def r100_def q4_def r4_def q1_def)
  have a_eq: "a = 146097 * q400 + r400" "0 \<le> r400" "r400 < 146097"
    by (simp_all add: q400_def r400_def)
  have q100: "0 \<le> q100" "q100 \<le> 3" "0 \<le> r100" "r100 \<le> 36524" "q100 < 3 \<Longrightarrow> r100 < 36524"
    using a_eq unfolding q100_def r100_def by linarith+
  have q4: "r100 = 1461 * q4 + r4" "0 \<le> r4" "r4 < 1461" "0 \<le> q4" "q4 \<le> 24"
    using q100 unfolding q4_def r4_def by (simp, simp, simp, linarith, linarith)
  have q4': "q4 = 24 \<Longrightarrow> r4 \<le> 1460"
    using q4 by linarith
  have q1: "0 \<le> q1" "q1 \<le> 3" "365 * q1 \<le> r4" "q1 < 3 \<Longrightarrow> r4 < 365 * q1 + 365" "r4 \<le> 1460"
    using q4 unfolding q1_def by linarith+
  let ?y0 = "400 * q400 + 100 * q100 + 4 * q4 + q1"
  have d4: "?y0 div 4 = 100 * q400 + 25 * q100 + q4"
    using q1 by linarith
  have d100: "?y0 div 100 = 4 * q400 + q100"
    using q1 q4 by linarith
  have d400: "?y0 div 400 = q400"
    using q1 q4 q100 by linarith
  have m4: "(?y0 + 1) mod 4 = 0 \<longleftrightarrow> q1 = 3"
    using q1 mod_top [of "q1 + 1" 4 "100 * q400 + 25 * q100 + q4"] by (simp add: algebra_simps)
  have m100: "(?y0 + 1) mod 100 = 0 \<longleftrightarrow> q1 = 3 \<and> q4 = 24"
    using q1(1,2) q4(4,5) mod_top [of "4 * q4 + q1 + 1" 100 "4 * q400 + q100"] by (simp add: algebra_simps, linarith)
  have m400: "(?y0 + 1) mod 400 = 0 \<longleftrightarrow> q1 = 3 \<and> q4 = 24 \<and> q100 = 3"
    using q1(1,2) q4(4,5) q100(1,2) mod_top [of "100 * q100 + 4 * q4 + q1 + 1" 400 q400]
    by (simp add: algebra_simps, linarith)
  have lo: "days_before_year (year_of_day n) = 146097 * q400 + 36524 * q100 + 1461 * q4 + 365 * q1 - 719162"
    unfolding y days_before_year_def using d4 d100 d400 by (simp add: algebra_simps)
  have n: "n = 146097 * q400 + 36524 * q100 + 1461 * q4 + r4 - 719162"
    using a_def a_eq q4(1) r100_def by linarith
  have leap: "is_leap (year_of_day n) \<longleftrightarrow> q1 = 3 \<and> (q4 \<noteq> 24 \<or> q100 = 3)"
    unfolding y is_leap_def using m4 m100 m400 by auto
  have r4_last: "q4 = 24 \<Longrightarrow> q100 < 3 \<Longrightarrow> r4 < 1460"
    using q100(5) q4 by linarith
  show ?thesis
    unfolding days_before_year_Suc using lo n leap q1 r4_last q100(2) by auto
qed

lemma days_before_month_Suc:
  assumes "1 \<le> m" and "m \<le> 12"
  shows "days_before_month y (m + 1) = days_before_month y m + month_len y m"
proof -
  have "m \<in> {1, 2, 3, 4, 5, 6, 7, 8, 9, 10, 11, 12}" using assms by simp presburger
  then show ?thesis by (auto simp: days_before_month_def month_len_def)
qed

lemma days_before_month_1 [simp]: "days_before_month y 1 = 0"
  by (simp add: days_before_month_def)

lemma days_before_month_13: "days_before_month y 13 = (if is_leap y then 366 else 365)"
  by (simp add: days_before_month_def)

lemma month_len_bounds: "28 \<le> month_len y m \<and> month_len y m \<le> 31"
  by (simp add: month_len_def)

lemma month_from_bounds:
  assumes "1 \<le> m" and "m + int k = 12" and "days_before_month y m \<le> yd" and "yd < days_before_month y 13"
  shows "1 \<le> month_from y yd k m \<and> month_from y yd k m \<le> 12
    \<and> days_before_month y (month_from y yd k m) \<le> yd
    \<and> yd < days_before_month y (month_from y yd k m + 1)"
  using assms by (induction k arbitrary: m) auto

lemma month_of_yday_bounds:
  assumes "0 \<le> yd" and "yd < days_before_month y 13"
  shows "1 \<le> month_of_yday y yd \<and> month_of_yday y yd \<le> 12
    \<and> days_before_month y (month_of_yday y yd) \<le> yd
    \<and> yd < days_before_month y (month_of_yday y yd + 1)"
  unfolding month_of_yday_def using assms by (intro month_from_bounds) simp_all

lemma civil_days_valid:
  assumes "1 \<le> m" and "m \<le> 12"
  shows "civil_days y m d = days_before_year y + days_before_month y m + d - 1"
proof -
  have "(m - 1) div 12 = 0" "(m - 1) mod 12 = m - 1" using assms by auto
  then show ?thesis by (simp add: civil_days_def)
qed

lemma civil_of_days_correct:
  assumes "civil_of_days n = (y, m, d)"
  shows "1 \<le> m \<and> m \<le> 12 \<and> 1 \<le> d \<and> d \<le> month_len y m \<and> civil_days y m d = n"
proof -
  let ?yd = "n - days_before_year (year_of_day n)"
  have eqs: "y = year_of_day n" "m = month_of_yday y ?yd" "d = ?yd - days_before_month y m + 1"
    using assms by (auto simp: civil_of_days_def Let_def)
  have "0 \<le> ?yd" "?yd < days_before_month y 13"
    using year_of_day_bounds [of n] eqs(1) days_before_year_Suc [of y] days_before_month_13 [of y] by auto
  then have m: "1 \<le> m" "m \<le> 12" "days_before_month y m \<le> ?yd" "?yd < days_before_month y (m + 1)"
    using month_of_yday_bounds [of ?yd y] eqs(2) by auto
  then show ?thesis
    using days_before_month_Suc [of m y] civil_days_valid [of m y d] eqs by auto
qed

lemma days_before_year_mono: "y \<le> y' \<Longrightarrow> days_before_year y \<le> days_before_year y'"
proof (induction y' rule: int_ge_induct)
  case (step i)
  then show ?case using days_before_year_Suc [of i] by (auto split: if_splits)
qed simp

lemma days_before_month_mono:
  "m \<le> m' \<Longrightarrow> 1 \<le> m \<Longrightarrow> m' \<le> 13 \<Longrightarrow> days_before_month y m \<le> days_before_month y m'"
proof (induction m' rule: int_ge_induct)
  case (step i)
  then show ?case using days_before_month_Suc [of i y] month_len_bounds [of y i] by auto
qed simp

text \<open>A valid date lies inside its year and its month, and is determined by its day number.\<close>

lemma valid_date_year:
  assumes "1 \<le> m" and "m \<le> 12" and "1 \<le> d" and "d \<le> month_len y m"
  shows "days_before_year y \<le> civil_days y m d" and "civil_days y m d < days_before_year (y + 1)"
proof -
  have "days_before_month y 1 \<le> days_before_month y m" "days_before_month y (m + 1) \<le> days_before_month y 13"
    using assms(1,2) by (intro days_before_month_mono; simp)+
  then show "days_before_year y \<le> civil_days y m d" and "civil_days y m d < days_before_year (y + 1)"
    using assms days_before_month_Suc [of m y] days_before_month_13 [of y] days_before_year_Suc [of y]
    by (auto simp: civil_days_valid)
qed

lemma civil_days_inj:
  assumes "1 \<le> m" and "m \<le> 12" and "1 \<le> d" and "d \<le> month_len y m"
    and "1 \<le> m'" and "m' \<le> 12" and "1 \<le> d'" and "d' \<le> month_len y' m'"
    and eq: "civil_days y m d = civil_days y' m' d'"
  shows "y = y' \<and> m = m' \<and> d = d'"
proof -
  have y: "y = y'"
  proof (rule ccontr)
    assume "y \<noteq> y'"
    then have "y + 1 \<le> y' \<or> y' + 1 \<le> y" by linarith
    then show False
      using valid_date_year [OF assms(1-4)] valid_date_year [OF assms(5-8)] eq
        days_before_year_mono [of "y + 1" y'] days_before_year_mono [of "y' + 1" y] by linarith
  qed
  have "m = m'"
  proof (rule ccontr)
    assume "m \<noteq> m'"
    then have "m + 1 \<le> m' \<or> m' + 1 \<le> m" by linarith
    then show False
      using assms y days_before_month_mono [of "m + 1" m' y] days_before_month_mono [of "m' + 1" m y]
        days_before_month_Suc [of m y] days_before_month_Suc [of m' y] by (auto simp: civil_days_valid)
  qed
  with y eq show ?thesis using assms by (simp add: civil_days_valid)
qed

text \<open>The first day of the month after the one a date lies in.\<close>

lemma civil_days_next_month:
  assumes "1 \<le> m" and "m \<le> 12"
  shows "civil_days y (m + 1) 1 = civil_days y m 1 + month_len y m"
proof (cases "m = 12")
  case True
  then have "civil_days y (m + 1) 1 = days_before_year (y + 1)"
    by (simp add: civil_days_def)
  then show ?thesis
    using True days_before_year_Suc [of y] by (simp add: civil_days_valid days_before_month_def month_len_def)
next
  case False
  then show ?thesis
    using assms days_before_month_Suc [of m y] by (simp add: civil_days_valid)
qed

lemma civil_days_carry: "civil_days y 13 d = civil_days (y + 1) 1 d"
  by (simp add: civil_days_def)

lemma civil_days_day: "civil_days y m d = civil_days y m 1 + (d - 1)"
  by (simp add: civil_days_def Let_def)

section \<open>Locations\<close>

text \<open>
  A location: the offset (seconds east of UTC) before the first transition, and the transitions in
  order of time, each with the instant it happens and the offset from then on.
\<close>

record location =
  loc_base :: int
  loc_trans :: "(int \<times> int) list"

definition utc :: location where
  "utc = \<lparr>loc_base = 0, loc_trans = []\<rparr>"

text \<open>\<^verbatim>\<open>Location.lookup\<close>: the offset in force at an instant, and the interval it is in force.\<close>

fun zone_scan :: "int \<Rightarrow> int \<Rightarrow> (int \<times> int) list \<Rightarrow> int \<Rightarrow> int \<times> int \<times> int" where
  "zone_scan off start [] sec = (off, start, 2 ^ 63 - 1)"
| "zone_scan off start ((t, o') # ts) sec =
     (if sec < t then (off, start, t) else zone_scan o' t ts sec)"

definition zone_lookup :: "location \<Rightarrow> int \<Rightarrow> int \<times> int \<times> int" where
  "zone_lookup loc sec = zone_scan (loc_base loc) (- (2 ^ 63)) (loc_trans loc) sec"

definition zone_offset :: "location \<Rightarrow> int \<Rightarrow> int" where
  "zone_offset loc sec = fst (zone_lookup loc sec)"

text \<open>
  \<^verbatim>\<open>time.Date(y, m, d, 0, 0, 0, 0, loc).Unix()\<close>: the offset is looked up at the local time taken
  as UTC, and looked up again when the corrected instant falls outside that offset's interval.
\<close>

definition go_date :: "int \<Rightarrow> int \<Rightarrow> int \<Rightarrow> location \<Rightarrow> int" where
  "go_date y m d loc =
     (let unix = civil_days y m d * 86400;
          (off, start, end') = zone_lookup loc unix
      in if off = 0 then unix
         else let u = unix - off
              in if u < start \<or> end' \<le> u then unix - zone_offset loc u else u)"

text \<open>\<^verbatim>\<open>time.Unix(sec, 0).In(loc)\<close>, read as a calendar date.\<close>

definition local_civil :: "location \<Rightarrow> int \<Rightarrow> int \<times> int \<times> int" where
  "local_civil loc sec = civil_of_days ((sec + zone_offset loc sec) div 86400)"

text \<open>Every offset of the location is at most a day.\<close>

definition loc_ok :: "location \<Rightarrow> bool" where
  "loc_ok loc \<longleftrightarrow> \<bar>loc_base loc\<bar> \<le> 86400 \<and> (\<forall>(t, off) \<in> set (loc_trans loc). \<bar>off\<bar> \<le> 86400)"

lemma zone_scan_fst: "fst (zone_scan off start ts sec) = off \<or> fst (zone_scan off start ts sec) \<in> snd ` set ts"
  by (induction off start ts sec rule: zone_scan.induct) auto

lemma zone_offset_bound:
  assumes "loc_ok loc"
  shows "\<bar>zone_offset loc sec\<bar> \<le> 86400"
  using zone_scan_fst [of "loc_base loc" "- (2 ^ 63)" "loc_trans loc" sec] assms
  unfolding loc_ok_def zone_offset_def zone_lookup_def by auto

lemma go_date_bound:
  assumes "loc_ok loc"
  shows "\<bar>go_date y m d loc - civil_days y m d * 86400\<bar> \<le> 86400"
proof -
  obtain off start end' where z: "zone_lookup loc (civil_days y m d * 86400) = (off, start, end')"
    by (cases "zone_lookup loc (civil_days y m d * 86400)") auto
  have "\<bar>off\<bar> \<le> 86400"
    using zone_offset_bound [OF assms, of "civil_days y m d * 86400"] z by (simp add: zone_offset_def)
  then show ?thesis
    using zone_offset_bound [OF assms, of "civil_days y m d * 86400 - off"] z
    by (simp add: go_date_def Let_def)
qed

lemma go_date_utc [simp]: "go_date y m d utc = civil_days y m d * 86400"
  by (simp add: go_date_def utc_def zone_lookup_def)

lemma loc_ok_utc [simp]: "loc_ok utc"
  by (simp add: loc_ok_def utc_def)

text \<open>An instant lies in the month its local date names, up to the zone's offset.\<close>

lemma local_civil_month:
  assumes "loc_ok loc" and "local_civil loc sec = (y, m, d)"
  shows "1 \<le> m" and "m \<le> 12"
    and "civil_days y m 1 * 86400 \<le> sec + 86400"
    and "sec < civil_days y (m + 1) 1 * 86400 + 86400"
proof -
  let ?day = "(sec + zone_offset loc sec) div 86400"
  have c: "1 \<le> m" "m \<le> 12" "1 \<le> d" "d \<le> month_len y m" "civil_days y m d = ?day"
    using civil_of_days_correct [of ?day y m d] assms(2) by (auto simp: local_civil_def)
  then show "1 \<le> m" "m \<le> 12" by simp_all
  have off: "\<bar>zone_offset loc sec\<bar> \<le> 86400" by (rule zone_offset_bound [OF assms(1)])
  have day: "?day * 86400 \<le> sec + zone_offset loc sec" "sec + zone_offset loc sec < ?day * 86400 + 86400"
    by linarith+
  have first: "civil_days y m 1 \<le> ?day" "?day + 1 \<le> civil_days y (m + 1) 1"
    using c civil_days_day [of y m d] civil_days_next_month [of m y] by linarith+
  show "civil_days y m 1 * 86400 \<le> sec + 86400"
    using off day first by linarith
  show "sec < civil_days y (m + 1) 1 * 86400 + 86400"
    using off day first by linarith
qed

end
