(* ===== verification/ClientModel.thy ===== *)
theory ClientModel
  imports GoTime
begin

text \<open>
  The rows the client service works on (\<^verbatim>\<open>database/model/model.go\<close>): clients, inbounds, the change
  log, and the part of the database they live in. Timestamps and byte counters are Go's \<^verbatim>\<open>int64\<close>,
  kept as integers; the operations that add to them say where they wrap.
\<close>

type_synonym link = "(string, string) gomap"
type_synonym proto_config = "(string, (string, json) gomap option) gomap"

record client =
  c_id :: nat
  c_enable :: bool
  c_name :: string
  c_config :: "proto_config raw"
  c_inbounds :: "nat list raw"
  c_links :: "link list raw"
  c_volume :: int
  c_expiry :: int
  c_down :: int
  c_up :: int
  c_desc :: string
  c_group :: string
  c_remark :: string
  c_created_at :: int
  c_online_at :: int
  c_limit_ip :: int
  c_tg_id :: int
  c_delay_start :: bool
  c_auto_reset :: bool
  c_reset_days :: int
  c_reset_dom :: int
  c_next_reset :: int
  c_total_up :: int
  c_total_down :: int

text \<open>Go's zero value of the struct.\<close>

definition zero_client :: client where
  "zero_client =
     \<lparr>c_id = 0, c_enable = False, c_name = [], c_config = RawNil, c_inbounds = RawNil, c_links = RawNil,
      c_volume = 0, c_expiry = 0, c_down = 0, c_up = 0, c_desc = [], c_group = [], c_remark = [],
      c_created_at = 0, c_online_at = 0, c_limit_ip = 0, c_tg_id = 0, c_delay_start = False,
      c_auto_reset = False, c_reset_days = 0, c_reset_dom = 0, c_next_reset = 0, c_total_up = 0,
      c_total_down = 0\<rparr>"

text \<open>
  An inbound: what the client service reads of it, and the rest (TLS, addresses, out-JSON, options),
  which only the link generator looks at.
\<close>

record inbound =
  ib_id :: nat
  ib_type :: string
  ib_tag :: string
  ib_node_id :: "nat option"
  ib_body :: json

record change =
  ch_datetime :: int
  ch_actor :: string
  ch_key :: string
  ch_action :: string
  ch_obj :: json

text \<open>
  The tables, in the order of their rows. \<open>db_next_id\<close> is the next id the clients table assigns to a
  row inserted without one.
\<close>

record db =
  db_clients :: "client list"
  db_inbounds :: "inbound list"
  db_nodes :: "string list"
  db_changes :: "change list"
  db_next_id :: nat

definition ids_ok :: "db \<Rightarrow> bool" where
  "ids_ok d \<longleftrightarrow> 0 < db_next_id d \<and> distinct (map c_id (db_clients d)) \<and>
     (\<forall>c \<in> set (db_clients d). 0 < c_id c \<and> c_id c < db_next_id d)"

text \<open>
  Writing a row. An update replaces the row with the same id; a row with id 0 is inserted under the
  next id, one with an unknown id under its own.
\<close>

definition put_client :: "client \<Rightarrow> db \<Rightarrow> db" where
  "put_client c d =
     (if c_id c = 0 then
        d\<lparr>db_clients := db_clients d @ [c\<lparr>c_id := db_next_id d\<rparr>], db_next_id := Suc (db_next_id d)\<rparr>
      else if c_id c \<in> c_id ` set (db_clients d) then
        d\<lparr>db_clients := map (\<lambda>r. if c_id r = c_id c then c else r) (db_clients d)\<rparr>
      else d\<lparr>db_clients := db_clients d @ [c], db_next_id := max (db_next_id d) (Suc (c_id c))\<rparr>)"

definition find_client :: "nat \<Rightarrow> db \<Rightarrow> client res" where
  "find_client i d = (case find (\<lambda>c. c_id c = i) (db_clients d) of None \<Rightarrow> Inl ENotFound | Some c \<Rightarrow> Inr c)"

lemma find_client_Inr: "find_client i d = Inr c \<Longrightarrow> c \<in> set (db_clients d) \<and> c_id c = i"
  by (auto simp: find_client_def find_Some_iff split: option.splits)

lemma find_client_iff:
  assumes "ids_ok d"
  shows "find_client i d = Inr c \<longleftrightarrow> c \<in> set (db_clients d) \<and> c_id c = i"
proof
  assume "c \<in> set (db_clients d) \<and> c_id c = i"
  then obtain c' where c': "find (\<lambda>c. c_id c = i) (db_clients d) = Some c'"
    by (cases "find (\<lambda>c. c_id c = i) (db_clients d)") (auto simp: find_None_iff)
  then have "c' \<in> set (db_clients d)" "c_id c' = i" by (auto simp: find_Some_iff)
  with \<open>c \<in> set (db_clients d) \<and> c_id c = i\<close> assms have "c' = c"
    by (auto simp: ids_ok_def distinct_map dest: inj_onD)
  with c' show "find_client i d = Inr c" by (simp add: find_client_def)
qed (rule find_client_Inr)

lemma map_c_id_replace [simp]:
  "map c_id (map (\<lambda>r. if c_id r = c_id c then c else r) cs) = map c_id cs"
  by simp

lemma ids_ok_put: "ids_ok d \<Longrightarrow> ids_ok (put_client c d)"
  unfolding ids_ok_def put_client_def
  by (auto simp del: map_map simp: image_iff)

text \<open>The rows after a write: the ones with another id, and the written one.\<close>

lemma put_client_rows:
  assumes "r \<in> set (db_clients (put_client c d))"
  shows "r \<in> set (db_clients d) \<or> r = c \<or> r = c\<lparr>c_id := db_next_id d\<rparr>"
  using assms by (auto simp: put_client_def split: if_splits)

lemma put_client_rest [simp]:
  "db_inbounds (put_client c d) = db_inbounds d"
  "db_nodes (put_client c d) = db_nodes d"
  "db_changes (put_client c d) = db_changes d"
  by (simp_all add: put_client_def)

text \<open>\<^verbatim>\<open>model.SaveAll\<close>: the rows in batches of 500, each one written in turn.\<close>

definition InsertBatch :: nat where
  "InsertBatch = 500"

function SaveAll :: "client list \<Rightarrow> db \<Rightarrow> db" where
  "SaveAll rows d =
     (if rows = [] then d
      else SaveAll (drop InsertBatch rows) (fold put_client (take InsertBatch rows) d))"
  by pat_completeness auto
termination
  by (relation "measure (\<lambda>(rows, d). length rows)") (auto simp: InsertBatch_def)

declare SaveAll.simps [simp del, code del]

text \<open>Batching does not show in the result, so evaluation may leave it out.\<close>

lemma SaveAll_eq [code]: "SaveAll rows d = fold put_client rows d"
proof (induction rows d rule: SaveAll.induct)
  case (1 rows d)
  show ?case
  proof (cases "rows = []")
    case True
    then show ?thesis by (simp add: SaveAll.simps)
  next
    case False
    then have "SaveAll rows d = fold put_client (drop InsertBatch rows) (fold put_client (take InsertBatch rows) d)"
      using 1 by (simp add: SaveAll.simps [of rows d])
    also have "\<dots> = fold put_client (take InsertBatch rows @ drop InsertBatch rows) d"
      by (simp only: fold_append comp_apply)
    finally show ?thesis by simp
  qed
qed

lemma ids_ok_SaveAll: "ids_ok d \<Longrightarrow> ids_ok (SaveAll rows d)"
  unfolding SaveAll_eq by (induction rows arbitrary: d) (simp_all add: ids_ok_put)

lemma SaveAll_rest [simp]:
  "db_inbounds (SaveAll rows d) = db_inbounds d"
  "db_nodes (SaveAll rows d) = db_nodes d"
  "db_changes (SaveAll rows d) = db_changes d"
  unfolding SaveAll_eq by (induction rows arbitrary: d) simp_all

text \<open>Rows that exist already are replaced in place, by the last row written under their id.\<close>

lemma fold_put_existing:
  assumes "ids_ok d" and "\<forall>r \<in> set rows. c_id r \<in> c_id ` set (db_clients d)"
  shows "db_clients (fold put_client rows d)
    = map (\<lambda>c. case find (\<lambda>r. c_id r = c_id c) (rev rows) of None \<Rightarrow> c | Some r \<Rightarrow> r) (db_clients d)"
  using assms
proof (induction rows rule: rev_induct)
  case (snoc r rows)
  let ?d = "fold put_client rows d"
  have rows: "db_clients ?d =
      map (\<lambda>c. case find (\<lambda>r. c_id r = c_id c) (rev rows) of None \<Rightarrow> c | Some r \<Rightarrow> r) (db_clients d)"
    using snoc by simp
  have id_eq: "c_id (case find (\<lambda>r. c_id r = c_id c) (rev rows) of None \<Rightarrow> c | Some r \<Rightarrow> r) = c_id c" for c
    by (auto simp: find_Some_iff split: option.splits)
  have ids: "c_id ` set (db_clients ?d) = c_id ` set (db_clients d)"
    unfolding rows by (simp add: image_image id_eq)
  have "c_id r \<in> c_id ` set (db_clients d)" using snoc.prems(2) by simp
  moreover from this have "0 < c_id r" using snoc.prems(1) by (auto simp: ids_ok_def)
  ultimately have "db_clients (put_client r ?d) = map (\<lambda>c. if c_id c = c_id r then r else c) (db_clients ?d)"
    unfolding put_client_def ids by simp
  then show ?case
    unfolding rows by (auto simp: id_eq)
qed simp

end
