(* ===== verification/ResetSchedule.thy ===== *)
theory ResetSchedule
  imports ClientModel
begin

text \<open>
  The periodic reset's calendar (\<^verbatim>\<open>service/client.go\<close>): when a client's counters are cleared next, in
  the N-day and in the day-of-month mode, how a submitted schedule is brought into shape, checked and
  given its next boundary, and how a change of the panel's time zone moves the stored boundaries.
\<close>

section \<open>Boundaries\<close>

definition daysInMonth :: "int \<Rightarrow> int \<Rightarrow> int" where
  "daysInMonth year month = snd (snd (civil_of_days (civil_days year (month + 1) 0)))"

text \<open>The loop of \<^verbatim>\<open>nextMonthlyReset\<close>, with the turns that are left.\<close>

fun next_monthly_loop :: "nat \<Rightarrow> location \<Rightarrow> int \<Rightarrow> int \<Rightarrow> int \<Rightarrow> int \<Rightarrow> int" where
  "next_monthly_loop 0 loc frm mday year month = frm"
| "next_monthly_loop (Suc i) loc frm mday year month =
     (let lst = daysInMonth year month;
          day = (if mday > lst then lst else mday);
          t = go_date year month day loc
      in if t > frm then t
         else if month + 1 > 12 then next_monthly_loop i loc frm mday (year + 1) 1
         else next_monthly_loop i loc frm mday year (month + 1))"

definition nextMonthlyReset :: "location \<Rightarrow> int \<Rightarrow> int \<Rightarrow> int" where
  "nextMonthlyReset loc frm mday =
     (case local_civil loc frm of (year, month, _) \<Rightarrow> next_monthly_loop 13 loc frm mday year month)"

definition nextResetAt :: "client \<Rightarrow> int \<Rightarrow> location \<Rightarrow> int" where
  "nextResetAt c dt loc =
     (if c_reset_dom c > 0 then nextMonthlyReset loc dt (c_reset_dom c)
      else i64 (dt + i64 (c_reset_days c * 86400)))"

section \<open>Submitted schedules\<close>

definition maxScheduleDays :: int where
  "maxScheduleDays = 10000000"

text \<open>\<open>has_next\<close> is \<^verbatim>\<open>has["nextReset"]\<close>: the request carried the key.\<close>

definition normalizeResetSchedule :: "client \<Rightarrow> bool \<Rightarrow> client option \<Rightarrow> client" where
  "normalizeResetSchedule c has_next stored =
     (let c1 =
        (case stored of
           None \<Rightarrow> c
         | Some s \<Rightarrow>
             if \<not> has_next \<and> c_auto_reset c \<and> c_auto_reset s
                \<and> c_reset_dom c = 0 \<and> c_reset_dom s = 0
                \<and> c_reset_days c > 0 \<and> c_reset_days s > 0 \<and> c_next_reset s > 0
             then c\<lparr>c_next_reset := i64 (c_next_reset s + i64 ((c_reset_days c - c_reset_days s) * 86400))\<rparr>
             else c)
      in if \<not> c_auto_reset c1
         then c1\<lparr>c_delay_start := False, c_reset_days := 0, c_reset_dom := 0\<rparr>
         else c1)"

definition validateResetSchedule :: "client \<Rightarrow> unit res" where
  "validateResetSchedule c =
     guard_err (c_reset_dom c < 0 \<or> c_reset_dom c > 31) (EMsg ''reset day of month out of range'')
     (guard_err (c_reset_days c < 0 \<or> c_reset_days c > maxScheduleDays) (EMsg ''reset days out of range'')
     (Inr ()))"

definition alignNextReset :: "client \<Rightarrow> client option \<Rightarrow> int \<Rightarrow> location \<Rightarrow> client" where
  "alignNextReset c stored dt loc =
     (if \<not> c_auto_reset c \<or> c_delay_start c then c\<lparr>c_next_reset := 0\<rparr>
      else if c_reset_days c \<le> 0 \<and> c_reset_dom c \<le> 0 then c
      else let recompute = c_next_reset c \<le> 0 \<or>
                 (case stored of
                    None \<Rightarrow> c_next_reset c \<le> dt
                  | Some s \<Rightarrow> c_reset_dom s \<noteq> c_reset_dom c \<or> (\<not> c_auto_reset s \<and> c_next_reset c \<le> dt))
           in if recompute then c\<lparr>c_next_reset := nextResetAt c dt loc\<rparr> else c)"

section \<open>The panel's time zone\<close>

text \<open>
  \<open>load\<close> is \<^verbatim>\<open>time.LoadLocation\<close> on the host's zone database, \<open>machine\<close> the machine's own zone.
\<close>

definition resolvePanelLocation :: "(string \<Rightarrow> location option) \<Rightarrow> location \<Rightarrow> string \<Rightarrow> location" where
  "resolvePanelLocation load machine name =
     (case load name of
        Some loc \<Rightarrow> loc
      | None \<Rightarrow> (case load ''Asia/Tehran'' of Some loc \<Rightarrow> loc | None \<Rightarrow> machine))"

text \<open>
  \<^verbatim>\<open>panelLocation\<close> with its one-entry cache: \<open>open_db\<close> says whether the database is open, \<open>setting\<close> what
  reading the setting gives.
\<close>

definition panelLocation ::
  "(string \<Rightarrow> location option) \<Rightarrow> location \<Rightarrow> bool \<Rightarrow> string res \<Rightarrow> (string \<times> location) option
   \<Rightarrow> location \<times> (string \<times> location) option" where
  "panelLocation load machine open_db setting cache =
     (if \<not> open_db then (machine, cache)
      else case setting of
        Inl _ \<Rightarrow> (machine, cache)
      | Inr name \<Rightarrow>
          (case cache of
             Some (n, loc) \<Rightarrow>
               if n = name then (loc, cache)
               else (let l = resolvePanelLocation load machine name in (l, Some (name, l)))
           | None \<Rightarrow> (let l = resolvePanelLocation load machine name in (l, Some (name, l)))))"

definition cache_ok :: "(string \<Rightarrow> location option) \<Rightarrow> location \<Rightarrow> (string \<times> location) option \<Rightarrow> bool" where
  "cache_ok load machine cache \<longleftrightarrow>
     (case cache of None \<Rightarrow> True | Some (n, l) \<Rightarrow> l = resolvePanelLocation load machine n)"

text \<open>One row of \<^verbatim>\<open>rebaseMonthlyResets\<close>, and the transaction over the table.\<close>

definition rebase_client :: "location \<Rightarrow> location \<Rightarrow> int \<Rightarrow> client \<Rightarrow> client" where
  "rebase_client oldLoc newLoc now c =
     (if c_auto_reset c \<and> \<not> c_delay_start c \<and> c_reset_dom c > 0 \<and> c_next_reset c > now then
        let oldBoundary = nextMonthlyReset oldLoc now (c_reset_dom c)
        in if c_next_reset c \<noteq> oldBoundary then c
           else case local_civil oldLoc oldBoundary of (y, m, _) \<Rightarrow>
             let day = min (c_reset_dom c) (daysInMonth y m);
                 nb = go_date y m day newLoc;
                 newBoundary = (if nb \<le> now then now - 1 else nb)
             in if newBoundary \<noteq> oldBoundary then c\<lparr>c_next_reset := newBoundary\<rparr> else c
      else c)"

definition rebaseMonthlyResets ::
  "(string \<Rightarrow> location option) \<Rightarrow> location \<Rightarrow> string \<Rightarrow> string \<Rightarrow> int \<Rightarrow> db \<Rightarrow> db" where
  "rebaseMonthlyResets load machine oldZone newZone now d =
     (let oldLoc = resolvePanelLocation load machine oldZone;
          newLoc = resolvePanelLocation load machine newZone
      in d\<lparr>db_clients := map (rebase_client oldLoc newLoc now) (db_clients d)\<rparr>)"

section \<open>Lemmas on boundaries\<close>

lemma daysInMonth_eq:
  assumes "1 \<le> m" and "m \<le> 12"
  shows "daysInMonth y m = month_len y m"
proof -
  let ?n = "civil_days y (m + 1) 0"
  have n: "?n = civil_days y m (month_len y m)"
    using civil_days_next_month [OF assms] civil_days_day [of y "m + 1" 0] civil_days_day [of y m "month_len y m"]
    by simp
  obtain y' m' d' where c: "civil_of_days ?n = (y', m', d')" by (cases "civil_of_days ?n") auto
  then have v: "1 \<le> m'" "m' \<le> 12" "1 \<le> d'" "d' \<le> month_len y' m'" "civil_days y' m' d' = civil_days y m (month_len y m)"
    using civil_of_days_correct [OF c] n by auto
  have "(y', m', d') = (y, m, month_len y m)"
    using civil_days_inj [OF v(1-4) assms _ _ v(5)] month_len_bounds [of y m] by auto
  with c show ?thesis by (simp add: daysInMonth_def)
qed


text \<open>
  The reference: the month-by-month candidates, each the chosen day of the month or the last day of a
  month too short to hold it. The loop returns the first candidate after \<open>frm\<close>.
\<close>

definition next_ym :: "int \<Rightarrow> int \<Rightarrow> int \<times> int" where
  "next_ym y m = (if m + 1 > 12 then (y + 1, 1) else (y, m + 1))"

definition month_candidate :: "location \<Rightarrow> int \<Rightarrow> int \<Rightarrow> int \<Rightarrow> int" where
  "month_candidate loc mday y m = go_date y m (min mday (month_len y m)) loc"

fun month_candidates :: "nat \<Rightarrow> location \<Rightarrow> int \<Rightarrow> int \<Rightarrow> int \<Rightarrow> int list" where
  "month_candidates 0 loc mday y m = []"
| "month_candidates (Suc n) loc mday y m =
     month_candidate loc mday y m # (case next_ym y m of (y', m') \<Rightarrow> month_candidates n loc mday y' m')"

lemma next_monthly_loop_eq:
  assumes "1 \<le> m" and "m \<le> 12"
  shows "next_monthly_loop n loc frm mday y m =
    (case find (\<lambda>t. t > frm) (month_candidates n loc mday y m) of None \<Rightarrow> frm | Some t \<Rightarrow> t)"
  using assms
proof (induction n arbitrary: y m)
  case (Suc n)
  have "(if mday > daysInMonth y m then daysInMonth y m else mday) = min mday (month_len y m)"
    using Suc.prems by (simp add: daysInMonth_eq)
  then have t: "go_date y m (if mday > daysInMonth y m then daysInMonth y m else mday) loc = month_candidate loc mday y m"
    by (simp add: month_candidate_def)
  show ?case
    unfolding next_monthly_loop.simps Let_def t using Suc.prems
    by (simp add: next_ym_def Suc.IH)
qed simp

lemma month_candidate_bounds:
  assumes "loc_ok loc" and "1 \<le> mday"
  shows "civil_days y m 1 * 86400 - 86400 \<le> month_candidate loc mday y m"
    and "month_candidate loc mday y m \<le> civil_days y m 1 * 86400 + 31 * 86400"
proof -
  let ?day = "min mday (month_len y m)"
  have "1 \<le> ?day" "?day \<le> 31" using assms(2) month_len_bounds [of y m] by auto
  then show "civil_days y m 1 * 86400 - 86400 \<le> month_candidate loc mday y m"
    and "month_candidate loc mday y m \<le> civil_days y m 1 * 86400 + 31 * 86400"
    using go_date_bound [OF assms(1), of y m ?day] civil_days_day [of y m ?day]
    unfolding month_candidate_def by linarith+
qed

lemma next_ym_first:
  assumes "1 \<le> m" and "m \<le> 12" and "next_ym y m = (y', m')"
  shows "1 \<le> m'" and "m' \<le> 12"
    and "civil_days y m 1 + 28 \<le> civil_days y' m' 1" and "civil_days y' m' 1 \<le> civil_days y m 1 + 31"
    and "civil_days y (m + 1) 1 = civil_days y' m' 1"
proof -
  show eq: "civil_days y (m + 1) 1 = civil_days y' m' 1"
    using assms civil_days_carry [of y 1] by (auto simp: next_ym_def split: if_splits)
  show "1 \<le> m'" "m' \<le> 12" using assms by (auto simp: next_ym_def split: if_splits)
  show "civil_days y m 1 + 28 \<le> civil_days y' m' 1" "civil_days y' m' 1 \<le> civil_days y m 1 + 31"
    using civil_days_next_month [OF assms(1,2)] month_len_bounds [of y m] eq by auto
qed

text \<open>One of the first three candidates is after \<open>frm\<close>, and not far after it.\<close>

lemma three_candidates:
  assumes "loc_ok loc" and "1 \<le> mday" and "local_civil loc frm = (y, m, d)" and "3 \<le> n"
  obtains t where "find (\<lambda>t. t > frm) (month_candidates n loc mday y m) = Some t"
    and "frm < t" and "t \<le> frm + 95 * 86400"
proof -
  note lc = local_civil_month [OF assms(1,3)]
  obtain y1 m1 where n1: "next_ym y m = (y1, m1)" by (cases "next_ym y m") auto
  obtain y2 m2 where n2: "next_ym y1 m1 = (y2, m2)" by (cases "next_ym y1 m1") auto
  note f1 = next_ym_first [OF lc(1,2) n1]
  note f2 = next_ym_first [OF f1(1,2) n2]
  let ?c = "month_candidate loc mday"
  from \<open>3 \<le> n\<close> obtain k where n: "n = Suc (Suc (Suc k))"
    by (metis add_Suc le_add_diff_inverse numeral_3_eq_3 plus_nat.add_0)
  have "month_candidates n loc mday y m =
      ?c y m # ?c y1 m1 # ?c y2 m2 # (case next_ym y2 m2 of (y', m') \<Rightarrow> month_candidates k loc mday y' m')"
    by (simp add: n n1 n2)
  moreover have "frm < ?c y2 m2"
    using month_candidate_bounds(1) [OF assms(1,2), of y2 m2] lc(4) f1(5) f2(3) by linarith
  moreover have "?c y m \<le> frm + 95 * 86400" "?c y1 m1 \<le> frm + 95 * 86400" "?c y2 m2 \<le> frm + 95 * 86400"
    using month_candidate_bounds(2) [OF assms(1,2), of y m] month_candidate_bounds(2) [OF assms(1,2), of y1 m1]
      month_candidate_bounds(2) [OF assms(1,2), of y2 m2] lc(3) f1(4) f2(4) by linarith+
  ultimately show thesis
    using that by (cases "?c y m > frm"; cases "?c y1 m1 > frm") auto
qed

lemma nextMonthlyReset_first:
  assumes "loc_ok loc" and "1 \<le> mday" and "local_civil loc frm = (y, m, d)"
  shows "find (\<lambda>t. t > frm) (month_candidates 13 loc mday y m) = Some (nextMonthlyReset loc frm mday)"
    and "frm < nextMonthlyReset loc frm mday"
    and "nextMonthlyReset loc frm mday \<le> frm + 95 * 86400"
proof -
  obtain t where t: "find (\<lambda>t. t > frm) (month_candidates 13 loc mday y m) = Some t"
    "frm < t" "t \<le> frm + 95 * 86400"
    using three_candidates [OF assms, of 13] by auto
  moreover have "nextMonthlyReset loc frm mday = t"
    using assms(3) t(1) next_monthly_loop_eq [OF local_civil_month(1,2) [OF assms(1,3)]]
    by (simp add: nextMonthlyReset_def)
  ultimately show "find (\<lambda>t. t > frm) (month_candidates 13 loc mday y m) = Some (nextMonthlyReset loc frm mday)"
    and "frm < nextMonthlyReset loc frm mday"
    and "nextMonthlyReset loc frm mday \<le> frm + 95 * 86400"
    by simp_all
qed

lemma nextMonthlyReset_future:
  assumes "loc_ok loc" and "1 \<le> mday"
  shows "frm < nextMonthlyReset loc frm mday" and "nextMonthlyReset loc frm mday \<le> frm + 95 * 86400"
  using nextMonthlyReset_first(2,3) [OF assms, of frm] by (cases "local_civil loc frm"; simp)+

section \<open>The clock interface\<close>

text \<open>
  What the reset job relies on: for a client on a schedule, the next boundary lies strictly ahead. A
  client is on a schedule when it has a period, N days or a day of the month, in the accepted range.
\<close>

definition clock_ok :: "int \<Rightarrow> bool" where
  "clock_ok dt \<longleftrightarrow> 0 \<le> dt \<and> dt < 2 ^ 62"

definition sched_range :: "client \<Rightarrow> bool" where
  "sched_range c \<longleftrightarrow> 0 \<le> c_reset_dom c \<and> c_reset_dom c \<le> 31 \<and> 0 \<le> c_reset_days c \<and> c_reset_days c \<le> maxScheduleDays"

definition has_period :: "client \<Rightarrow> bool" where
  "has_period c \<longleftrightarrow> c_reset_days c > 0 \<or> c_reset_dom c > 0"

locale reset_clock =
  fixes nxt :: "client \<Rightarrow> int \<Rightarrow> location \<Rightarrow> int"
    and sched :: "client \<Rightarrow> bool"
    and clock :: "int \<Rightarrow> location \<Rightarrow> bool"
  assumes nxt_future: "sched c \<Longrightarrow> clock dt loc \<Longrightarrow> dt < nxt c dt loc"
begin

text \<open>A row whose boundary is renewed whenever it is due is not due again at the same instant.\<close>

lemma not_due_again:
  assumes "clock dt loc" and "due c \<Longrightarrow> sched c" and "due c \<Longrightarrow> c_next_reset (upd c) = nxt c dt loc"
    and "\<And>c. due c \<Longrightarrow> c_next_reset c < dt"
  shows "\<not> due (if due c then upd c else c)"
  using assms nxt_future [of c dt loc] by (cases "due c") fastforce+

end

lemma nextResetAt_future:
  assumes "sched_range c" and "has_period c" and "clock_ok dt" and "loc_ok loc"
  shows "dt < nextResetAt c dt loc"
proof (cases "c_reset_dom c > 0")
  case True
  then show ?thesis
    using nextMonthlyReset_future(1) [OF assms(4), of "c_reset_dom c" dt] by (simp add: nextResetAt_def)
next
  case False
  then have days: "0 < c_reset_days c" "c_reset_days c \<le> 10000000"
    using assms(1,2) by (auto simp: sched_range_def has_period_def maxScheduleDays_def)
  then have "in_i64 (c_reset_days c * 86400)" "in_i64 (dt + c_reset_days c * 86400)"
    using assms(3) by (auto simp: in_i64_def clock_ok_def)
  with False days show ?thesis
    by (simp add: nextResetAt_def i64_id)
qed

interpretation clk: reset_clock nextResetAt "\<lambda>c. sched_range c \<and> has_period c" "\<lambda>dt loc. clock_ok dt \<and> loc_ok loc"
  by unfold_locales (simp add: nextResetAt_future)

end
