(* ===== verification/ClientSave.thy ===== *)
theory ClientSave
  imports ResetSchedule
begin

text \<open>
  Saving clients (\<^verbatim>\<open>ClientService.Save\<close> and its helpers in \<^verbatim>\<open>service/client.go\<close>): the actions new, edit,
  addbulk, editbulk, resetpolicy, delbulk and del, the share links stored with a client, and the updates
  an inbound's creation, change or deletion makes to the clients bound to it. An action returns the
  rows it wrote and the inbounds to refresh together with the tables after it; an error leaves the
  tables alone (the caller rolls the transaction back).
\<close>

section \<open>Unsigned id slices\<close>

definition UnionUintArray :: "nat list \<Rightarrow> nat list \<Rightarrow> nat list" where
  "UnionUintArray a b = gkeys (fold (\<lambda>v. gput v True) b (fold (\<lambda>v. gput v True) a []))"

definition DiffUintArray :: "nat list \<Rightarrow> nat list \<Rightarrow> nat list" where
  "DiffUintArray a b = filter (\<lambda>v. v \<notin> set a) b @ filter (\<lambda>v. v \<notin> set b) a"

section \<open>Requests\<close>

text \<open>
  A submitted client object: its members in order, each with the key as written and the typed value it
  decodes to. \<open>FNull\<close> is a \<^verbatim>\<open>null\<close> on a scalar field, which \<^verbatim>\<open>json.Unmarshal\<close> skips, and \<open>FUnknown\<close> a key
  that matches no field.
\<close>

datatype cfield =
  FId nat | FEnable bool | FName string | FConfig "proto_config raw" | FInbounds "nat list raw"
| FLinks "link list raw" | FVolume int | FExpiry int | FDown int | FUp int | FDesc string
| FGroup string | FRemark string | FCreatedAt int | FOnlineAt int | FLimitIp int | FTgId int
| FDelayStart bool | FAutoReset bool | FResetDays int | FResetDom int | FNextReset int
| FTotalUp int | FTotalDown int | FNull | FUnknown

type_synonym client_patch = "(string \<times> cfield) list"

fun apply_field :: "cfield \<Rightarrow> client \<Rightarrow> client" where
  "apply_field (FId v) c = c\<lparr>c_id := v\<rparr>"
| "apply_field (FEnable v) c = c\<lparr>c_enable := v\<rparr>"
| "apply_field (FName v) c = c\<lparr>c_name := v\<rparr>"
| "apply_field (FConfig v) c = c\<lparr>c_config := v\<rparr>"
| "apply_field (FInbounds v) c = c\<lparr>c_inbounds := v\<rparr>"
| "apply_field (FLinks v) c = c\<lparr>c_links := v\<rparr>"
| "apply_field (FVolume v) c = c\<lparr>c_volume := v\<rparr>"
| "apply_field (FExpiry v) c = c\<lparr>c_expiry := v\<rparr>"
| "apply_field (FDown v) c = c\<lparr>c_down := v\<rparr>"
| "apply_field (FUp v) c = c\<lparr>c_up := v\<rparr>"
| "apply_field (FDesc v) c = c\<lparr>c_desc := v\<rparr>"
| "apply_field (FGroup v) c = c\<lparr>c_group := v\<rparr>"
| "apply_field (FRemark v) c = c\<lparr>c_remark := v\<rparr>"
| "apply_field (FCreatedAt v) c = c\<lparr>c_created_at := v\<rparr>"
| "apply_field (FOnlineAt v) c = c\<lparr>c_online_at := v\<rparr>"
| "apply_field (FLimitIp v) c = c\<lparr>c_limit_ip := v\<rparr>"
| "apply_field (FTgId v) c = c\<lparr>c_tg_id := v\<rparr>"
| "apply_field (FDelayStart v) c = c\<lparr>c_delay_start := v\<rparr>"
| "apply_field (FAutoReset v) c = c\<lparr>c_auto_reset := v\<rparr>"
| "apply_field (FResetDays v) c = c\<lparr>c_reset_days := v\<rparr>"
| "apply_field (FResetDom v) c = c\<lparr>c_reset_dom := v\<rparr>"
| "apply_field (FNextReset v) c = c\<lparr>c_next_reset := v\<rparr>"
| "apply_field (FTotalUp v) c = c\<lparr>c_total_up := v\<rparr>"
| "apply_field (FTotalDown v) c = c\<lparr>c_total_down := v\<rparr>"
| "apply_field FNull c = c"
| "apply_field FUnknown c = c"

definition decode_client :: "client_patch \<Rightarrow> client \<Rightarrow> client" where
  "decode_client p c = fold (\<lambda>(_, f). apply_field f) p c"

definition payloadFields :: "client_patch \<Rightarrow> string list" where
  "payloadFields p = map fst p"

record reset_policy =
  rp_ids :: "nat list"
  rp_auto_reset :: bool
  rp_reset_days :: int
  rp_reset_dom :: int

text \<open>The request body: the shapes the actions ask for, or something that decodes as none of them.\<close>

datatype save_data =
  DClient client_patch | DClients "client_patch list" | DPolicy reset_policy | DIds "nat list" | DId nat | DOther

text \<open>
  What the action reads besides the request and the tables: the clock, the panel's zone, the host
  name, the \<^verbatim>\<open>subRemarkPrefix\<close> setting and the link generator (\<^verbatim>\<open>util.LinkGenerator\<close>, on the client's
  config, the inbound, the host name and the remark).
\<close>

record save_env =
  e_now :: int
  e_loc :: location
  e_host :: string
  e_prefix :: bool
  e_linkgen :: "proto_config raw \<Rightarrow> inbound \<Rightarrow> string \<Rightarrow> string \<Rightarrow> string list"

record client_write =
  cw_ids :: "nat list"
  cw_inbound_ids :: "nat list"

section \<open>Helpers of Save\<close>

definition clusterGroup :: string where
  "clusterGroup = ''@cluster''"

definition clientIds :: "client list \<Rightarrow> nat list" where
  "clientIds cs = map c_id cs"

definition normalizeClientName :: "client \<Rightarrow> client res" where
  "normalizeClientName c =
     (let n = TrimSpace (c_name c)
      in guard_err (n = []) (EMsg ''client name must not be empty'') (Inr (c\<lparr>c_name := n\<rparr>)))"

definition defaultClientJSONFields :: "client \<Rightarrow> client" where
  "defaultClientJSONFields c =
     (let c1 = (if raw_is_empty (c_links c) then c\<lparr>c_links := RawVal Compact []\<rparr> else c)
      in if raw_is_empty (c_inbounds c1) then c1\<lparr>c_inbounds := RawVal Compact []\<rparr> else c1)"

definition ensureNameAvailable :: "db \<Rightarrow> string \<Rightarrow> nat \<Rightarrow> unit res" where
  "ensureNameAvailable d name excludeId =
     guard_err (\<exists>c \<in> set (db_clients d). c_name c = name \<and> (excludeId \<noteq> 0 \<longrightarrow> c_id c \<noteq> excludeId))
       (EMsg ''client name already exists'') (Inr ())"

definition preserveServerManagedFields :: "db \<Rightarrow> client \<Rightarrow> client res" where
  "preserveServerManagedFields d c =
     rbind (find_client (c_id c) d) (\<lambda>e.
       Inr (c\<lparr>c_created_at := c_created_at e, c_online_at := c_online_at e, c_up := c_up e,
              c_down := c_down e, c_total_up := c_total_up e, c_total_down := c_total_down e,
              c_tg_id := c_tg_id e\<rparr>))"

text \<open>\<^verbatim>\<open>len(client.Config) < 2\<close>: no bytes, or a text of one byte.\<close>

definition config_short :: "proto_config raw \<Rightarrow> bool" where
  "config_short r = (case r of RawNil \<Rightarrow> True | RawBad t _ \<Rightarrow> length t < 2 | _ \<Rightarrow> False)"

definition set_identity :: "string \<Rightarrow> (string, json) gomap \<Rightarrow> (string, json) gomap" where
  "set_identity name cfg =
     (if gget cfg ''name'' \<noteq> None then gput ''name'' (JStr name) cfg
      else if gget cfg ''username'' \<noteq> None then gput ''username'' (JStr name) cfg
      else cfg)"

definition setConfigIdentity :: "client \<Rightarrow> client res" where
  "setConfigIdentity c =
     (if c_name c = [] \<or> config_short (c_config c) then Inr c
      else case c_config c of
        RawNull \<Rightarrow> Inr c
      | _ \<Rightarrow> rbind (unmarshal [] (c_config c)) (\<lambda>configs.
          Inr (c\<lparr>c_config := marshal (map (\<lambda>(k, cfg). (k, map_option (set_identity (c_name c)) cfg)) configs)\<rparr>)))"

definition findInboundsChanges :: "db \<Rightarrow> client \<Rightarrow> bool \<Rightarrow> (nat list \<times> client) res" where
  "findInboundsChanges d c fillOmitted =
     rbind (find_client (c_id c) d) (\<lambda>old.
     let c1 = (if fillOmitted then
                 c\<lparr>c_links := c_links old, c_config := c_config old, c_auto_reset := c_auto_reset old,
                   c_reset_days := c_reset_days old, c_reset_dom := c_reset_dom old,
                   c_next_reset := c_next_reset old, c_delay_start := c_delay_start old\<rparr>
               else c)
     in rbind (unmarshal [] (c_inbounds old)) (\<lambda>oldIds.
        rbind (unmarshal [] (c_inbounds c1)) (\<lambda>newIds.
        Inr (if c_config old \<noteq> c_config c1 \<or> c_name old \<noteq> c_name c1 \<or> c_enable old \<noteq> c_enable c1
             then UnionUintArray oldIds newIds
             else DiffUintArray oldIds newIds, c1))))"

section \<open>Share links\<close>

definition InboundTypeWithLink :: "string list" where
  "InboundTypeWithLink =
     [''socks'', ''http'', ''mixed'', ''shadowsocks'', ''naive'', ''hysteria'', ''hysteria2'', ''anytls'',
      ''tuic'', ''vless'', ''trojan'', ''vmess'']"

definition linkRemark :: "bool \<Rightarrow> string \<Rightarrow> string" where
  "linkRemark prefix remark = (if \<not> prefix then [] else remark)"

definition nodeLinkPrefix :: "string \<Rightarrow> string" where
  "nodeLinkPrefix n = ''['' @ n @ ''] ''"

definition isNodeOwnedRemark :: "string \<Rightarrow> string list \<Rightarrow> bool" where
  "isNodeOwnedRemark remark nodeNames \<longleftrightarrow> (\<exists>n \<in> set nodeNames. has_prefix remark (nodeLinkPrefix n))"

definition isNodeLinkFor :: "string \<Rightarrow> string \<Rightarrow> string list \<Rightarrow> bool" where
  "isNodeLinkFor remark tag nodeNames \<longleftrightarrow> (\<exists>n \<in> set nodeNames. remark = nodeLinkPrefix n @ tag)"

abbreviation link_remark :: "link \<Rightarrow> string" where
  "link_remark l \<equiv> gget0 [] l ''remark''"

abbreviation link_type :: "link \<Rightarrow> string" where
  "link_type l \<equiv> gget0 [] l ''type''"

definition local_link :: "string \<Rightarrow> string \<Rightarrow> link" where
  "local_link tag uri = [(''remark'', tag), (''type'', ''local''), (''uri'', uri)]"

text \<open>The links the generator makes for a client on one inbound.\<close>

definition local_links :: "save_env \<Rightarrow> client \<Rightarrow> inbound \<Rightarrow> link list" where
  "local_links e c ib =
     map (local_link (ib_tag ib)) (e_linkgen e (c_config c) ib (e_host e) (linkRemark (e_prefix e) (c_remark c)))"

text \<open>\<^verbatim>\<open>inboundById\<close>: the local inbounds among the ids whose type has links.\<close>

definition linkable_inbound :: "db \<Rightarrow> nat \<Rightarrow> inbound option" where
  "linkable_inbound d i =
     find (\<lambda>ib. ib_id ib = i \<and> ib_type ib \<in> set InboundTypeWithLink \<and> ib_node_id ib = None) (db_inbounds d)"

text \<open>
  Whether a stored link is re-attached: node-owned, and its tag (behind the \<^verbatim>\<open>] \<close> of the prefix) is
  that of a node replica the client is still bound to.
\<close>

definition keep_stored_link :: "db \<Rightarrow> nat list \<Rightarrow> link \<Rightarrow> bool" where
  "keep_stored_link d ids l \<longleftrightarrow>
     \<not> (link_type l = ''local'' \<or> \<not> isNodeOwnedRemark (link_remark l) (db_nodes d)) \<and>
     (case index_of (link_remark l) ''] '' of
        None \<Rightarrow> False
      | Some sep \<Rightarrow> \<exists>ib \<in> set (db_inbounds d).
          ib_id ib \<in> set ids \<and> ib_node_id ib \<noteq> None \<and> ib_tag ib = drop (sep + 2) (link_remark l))"

text \<open>
  \<^verbatim>\<open>updateLinksWithFixedInbounds\<close> for one client of the slice: freshly generated local links, then the
  submitted links that are neither local nor (for a stored client, when there are nodes) node-owned,
  then the stored node-owned links whose inbound is still bound.
\<close>

definition update_client_links :: "save_env \<Rightarrow> db \<Rightarrow> client \<Rightarrow> client res" where
  "update_client_links e d c =
     rbind (unmarshal [] (c_inbounds c)) (\<lambda>ids.
     rbind (unmarshal [] (c_links c)) (\<lambda>links.
     let generated = concat (map (\<lambda>i. case linkable_inbound d i of None \<Rightarrow> [] | Some ib \<Rightarrow> local_links e c ib) ids);
         reattach = (c_id c \<noteq> 0 \<and> db_nodes d \<noteq> []);
         kept = filter (\<lambda>l. \<not> (link_type l = ''local'' \<or> reattach \<and> isNodeOwnedRemark (link_remark l) (db_nodes d))) links;
         stored = (case find_client (c_id c) d of Inl _ \<Rightarrow> RawNil | Inr r \<Rightarrow> c_links r)
     in rbind (if reattach \<and> \<not> raw_is_empty stored then unmarshal [] stored else Inr []) (\<lambda>sl.
        Inr (c\<lparr>c_links := marshal_indent (generated @ kept @ filter (keep_stored_link d ids) sl)\<rparr>))))"

text \<open>Every client's inbounds are decoded before any of them is changed.\<close>

definition updateLinksWithFixedInbounds :: "save_env \<Rightarrow> db \<Rightarrow> client list \<Rightarrow> client list res" where
  "updateLinksWithFixedInbounds e d cs =
     rbind (map_res (\<lambda>c. unmarshal [] (c_inbounds c)) cs) (\<lambda>_. map_res (update_client_links e d) cs)"

section \<open>The actions\<close>

text \<open>The ids rows have once they are written: a row without one gets the next.\<close>

fun saved_ids :: "client list \<Rightarrow> db \<Rightarrow> nat list" where
  "saved_ids [] d = []"
| "saved_ids (c # cs) d = (if c_id c = 0 then db_next_id d else c_id c) # saved_ids cs (put_client c d)"

text \<open>
  The common part of new and edit, in two steps. \<open>stored\<close> is the row an edit starts from, decoded over;
  it is absent for a new client, which is decoded over the zero value. First the submitted client is
  decoded, normalised and checked.
\<close>

definition save_prepare :: "client option \<Rightarrow> client_patch \<Rightarrow> db \<Rightarrow> client res" where
  "save_prepare stored p d =
     rbind (normalizeClientName (decode_client p (case stored of None \<Rightarrow> zero_client | Some s \<Rightarrow> s))) (\<lambda>c1.
     let c2 = normalizeResetSchedule c1 (''nextReset'' \<in> set (payloadFields p)) stored in
     rbind (validateResetSchedule c2) (\<lambda>_.
     let c3 = (if stored = None then defaultClientJSONFields c2 else c2) in
     rbind (case stored of
              Some s \<Rightarrow> if c_name s \<noteq> c_name c3 then ensureNameAvailable d (c_name c3) (c_id c3) else Inr ()
            | None \<Rightarrow> if c_group c3 \<noteq> clusterGroup then ensureNameAvailable d (c_name c3) 0 else Inr ())
       (\<lambda>_. Inr c3)))"

text \<open>Then its config, links and server-owned fields are filled in, its boundary is aligned and it is written.\<close>

definition save_server_fields :: "save_env \<Rightarrow> client option \<Rightarrow> db \<Rightarrow> client \<Rightarrow> (nat list \<times> client) res" where
  "save_server_fields e stored d c =
     (case stored of
        Some s \<Rightarrow> rbind (findInboundsChanges d c False) (\<lambda>(ids, c1).
          Inr (ids, c1\<lparr>c_created_at := c_created_at s, c_online_at := c_online_at s\<rparr>))
      | None \<Rightarrow> (let c1 = c\<lparr>c_created_at := e_now e\<rparr>
          in rbind (unmarshal [] (c_inbounds c1)) (\<lambda>ids. Inr (ids, c1))))"

definition save_finish :: "save_env \<Rightarrow> client option \<Rightarrow> db \<Rightarrow> client \<Rightarrow> (client_write \<times> db) res" where
  "save_finish e stored d c3 =
     rbind (setConfigIdentity c3) (\<lambda>c4.
     rbind (updateLinksWithFixedInbounds e d [c4]) (\<lambda>c5s.
     rbind (save_server_fields e stored d (hd c5s)) (\<lambda>(inboundIds, c7).
     let c8 = alignNextReset c7 stored (e_now e) (e_loc e) in
     Inr (\<lparr>cw_ids = saved_ids [c8] d, cw_inbound_ids = inboundIds\<rparr>, put_client c8 d))))"

definition save_one :: "save_env \<Rightarrow> client option \<Rightarrow> client_patch \<Rightarrow> db \<Rightarrow> (client_write \<times> db) res" where
  "save_one e stored p d = rbind (save_prepare stored p d) (save_finish e stored d)"

definition save_new :: "save_env \<Rightarrow> client_patch \<Rightarrow> db \<Rightarrow> (client_write \<times> db) res" where
  "save_new e p d = save_one e None p d"

definition save_edit :: "save_env \<Rightarrow> client_patch \<Rightarrow> db \<Rightarrow> (client_write \<times> db) res" where
  "save_edit e p d =
     rbind (find_client (c_id (decode_client p zero_client)) d) (\<lambda>s. save_one e (Some s) p d)"

text \<open>The first loop of addbulk: each client normalised and checked, no name twice in the batch.\<close>

fun addbulk_check :: "string list \<Rightarrow> client_patch list \<Rightarrow> client list res" where
  "addbulk_check seen [] = Inr []"
| "addbulk_check seen (p # ps) =
     rbind (normalizeClientName (decode_client p zero_client)) (\<lambda>c1.
     let c2 = normalizeResetSchedule c1 False None in
     rbind (validateResetSchedule c2) (\<lambda>_.
     let c3 = defaultClientJSONFields c2 in
     guard_err (c_name c3 \<in> set seen) (EMsg ''duplicate client name in this batch'')
     (rbind (addbulk_check (c_name c3 # seen) ps) (\<lambda>cs. Inr (c3 # cs)))))"

definition addbulk_prepare :: "save_env \<Rightarrow> client \<Rightarrow> (client \<times> nat list) res" where
  "addbulk_prepare e c =
     rbind (setConfigIdentity c) (\<lambda>c1.
     let c2 = alignNextReset (c1\<lparr>c_created_at := e_now e\<rparr>) None (e_now e) (e_loc e) in
     rbind (unmarshal [] (c_inbounds c2)) (\<lambda>ids. Inr (c2, ids)))"

definition save_addbulk :: "save_env \<Rightarrow> client_patch list \<Rightarrow> db \<Rightarrow> (client_write \<times> db) res" where
  "save_addbulk e ps d =
     rbind (addbulk_check [] ps) (\<lambda>cs.
     guard_err (\<exists>r \<in> set (db_clients d). c_name r \<in> c_name ` set cs) (EMsg ''client name already exists'')
     (rbind (map_res (addbulk_prepare e) cs) (\<lambda>prepared.
      let inboundIds = fold (\<lambda>(_, ids) acc. UnionUintArray acc ids) prepared [] in
      rbind (updateLinksWithFixedInbounds e d (map fst prepared)) (\<lambda>linked.
      Inr (\<lparr>cw_ids = saved_ids linked d, cw_inbound_ids = inboundIds\<rparr>, SaveAll linked d)))))"

text \<open>The rename check of editbulk; \<open>renamed\<close> holds the new names met so far.\<close>

fun editbulk_names :: "db \<Rightarrow> string list \<Rightarrow> client list \<Rightarrow> client list res" where
  "editbulk_names d renamed [] = Inr []"
| "editbulk_names d renamed (c # cs) =
     rbind (normalizeClientName c) (\<lambda>c1.
     let oldName = (if c_id c1 = 0 then [] else case find_client (c_id c1) d of Inl _ \<Rightarrow> [] | Inr r \<Rightarrow> c_name r) in
     if oldName = c_name c1 then rbind (editbulk_names d renamed cs) (\<lambda>rest. Inr (c1 # rest))
     else guard_err (c_name c1 \<in> set renamed) (EMsg ''duplicate client name in this batch'')
       (rbind (ensureNameAvailable d (c_name c1) (c_id c1)) (\<lambda>_.
        rbind (editbulk_names d (c_name c1 # renamed) cs) (\<lambda>rest. Inr (c1 # rest)))))"

definition editbulk_restore :: "db \<Rightarrow> client \<Rightarrow> (client \<times> nat list) res" where
  "editbulk_restore d c =
     rbind (findInboundsChanges d c True) (\<lambda>(ids, c1).
     rbind (setConfigIdentity c1) (\<lambda>c2.
     rbind (preserveServerManagedFields d c2) (\<lambda>c3. Inr (c3, ids))))"

definition save_editbulk :: "save_env \<Rightarrow> client_patch list \<Rightarrow> db \<Rightarrow> (client_write \<times> db) res" where
  "save_editbulk e ps d =
     rbind (editbulk_names d [] (map (\<lambda>p. decode_client p zero_client) ps)) (\<lambda>cs.
     rbind (map_res (editbulk_restore d) cs) (\<lambda>restored.
     let inboundIds = fold (\<lambda>(_, ids) acc. if ids \<noteq> [] then UnionUintArray acc ids else acc) restored [] in
     rbind (if inboundIds \<noteq> [] then updateLinksWithFixedInbounds e d (map fst restored)
            else Inr (map fst restored)) (\<lambda>linked.
     Inr (\<lparr>cw_ids = saved_ids linked d, cw_inbound_ids = inboundIds\<rparr>, SaveAll linked d))))"

text \<open>The \<^verbatim>\<open>UPDATE\<close> of resetpolicy on one row; every expression reads the row as it was.\<close>

definition policy_row :: "reset_policy \<Rightarrow> int \<Rightarrow> int \<Rightarrow> client \<Rightarrow> client" where
  "policy_row pol now next c =
     (let nextReset =
        (if c_delay_start c then 0
         else if rp_auto_reset pol \<and> c_auto_reset c \<and> c_reset_days c = rp_reset_days pol
              \<and> c_reset_dom c = rp_reset_dom pol \<and> c_next_reset c > now then c_next_reset c
         else next)
      in c\<lparr>c_auto_reset := rp_auto_reset pol, c_reset_days := rp_reset_days pol,
           c_reset_dom := rp_reset_dom pol, c_next_reset := nextReset,
           c_delay_start := (if rp_auto_reset pol then c_delay_start c else False)\<rparr>)"

definition policy_client :: "reset_policy \<Rightarrow> client" where
  "policy_client pol = zero_client\<lparr>c_reset_days := rp_reset_days pol, c_reset_dom := rp_reset_dom pol\<rparr>"

definition save_resetpolicy :: "save_env \<Rightarrow> reset_policy \<Rightarrow> db \<Rightarrow> (client_write \<times> db) res" where
  "save_resetpolicy e pol0 d =
     guard_err (rp_ids pol0 = []) (EMsg ''no clients selected'')
     (rbind (validateResetSchedule (policy_client pol0)) (\<lambda>_.
      guard_err (rp_auto_reset pol0 \<and> rp_reset_days pol0 = 0 \<and> rp_reset_dom pol0 = 0)
        (EMsg ''auto reset needs a period: set reset days or a day of the month'')
      (let pol = (if \<not> rp_auto_reset pol0 then pol0\<lparr>rp_reset_days := 0, rp_reset_dom := 0\<rparr> else pol0);
           now = e_now e;
           next = (if rp_auto_reset pol \<and> (rp_reset_days pol > 0 \<or> rp_reset_dom pol > 0)
                   then nextResetAt (policy_client pol) now (e_loc e) else 0)
       in guard_err (\<not> (\<exists>c \<in> set (db_clients d). c_id c \<in> set (rp_ids pol))) (EMsg ''no matching clients'')
          (Inr (\<lparr>cw_ids = rp_ids pol, cw_inbound_ids = []\<rparr>,
                d\<lparr>db_clients := map (\<lambda>c. if c_id c \<in> set (rp_ids pol) then policy_row pol now next c else c)
                  (db_clients d)\<rparr>)))))"

definition delete_clients :: "nat list \<Rightarrow> db \<Rightarrow> db" where
  "delete_clients ids d = d\<lparr>db_clients := filter (\<lambda>c. c_id c \<notin> set ids) (db_clients d)\<rparr>"

definition save_delbulk :: "nat list \<Rightarrow> db \<Rightarrow> (client_write \<times> db) res" where
  "save_delbulk ids d =
     rbind (fold_res (\<lambda>i acc. rbind (find_client i d) (\<lambda>c. rbind (unmarshal [] (c_inbounds c)) (\<lambda>ibs.
       Inr (UnionUintArray acc ibs)))) ids []) (\<lambda>inboundIds.
     Inr (\<lparr>cw_ids = ids, cw_inbound_ids = inboundIds\<rparr>, delete_clients ids d))"

definition save_del :: "nat \<Rightarrow> db \<Rightarrow> (client_write \<times> db) res" where
  "save_del i d =
     rbind (find_client i d) (\<lambda>c.
     rbind (unmarshal [] (c_inbounds c)) (\<lambda>inboundIds.
     Inr (\<lparr>cw_ids = [i], cw_inbound_ids = inboundIds\<rparr>, delete_clients [i] d)))"

text \<open>The switch on the action; a body of another shape than the action's does not decode.\<close>

definition Save :: "save_env \<Rightarrow> string \<Rightarrow> save_data \<Rightarrow> db \<Rightarrow> (client_write \<times> db) res" where
  "Save e act data d =
     (if act = ''new'' then (case data of DClient p \<Rightarrow> save_new e p d | _ \<Rightarrow> Inl EDecode)
      else if act = ''edit'' then (case data of DClient p \<Rightarrow> save_edit e p d | _ \<Rightarrow> Inl EDecode)
      else if act = ''addbulk'' then (case data of DClients ps \<Rightarrow> save_addbulk e ps d | _ \<Rightarrow> Inl EDecode)
      else if act = ''editbulk'' then (case data of DClients ps \<Rightarrow> save_editbulk e ps d | _ \<Rightarrow> Inl EDecode)
      else if act = ''resetpolicy'' then (case data of DPolicy pol \<Rightarrow> save_resetpolicy e pol d | _ \<Rightarrow> Inl EDecode)
      else if act = ''delbulk'' then (case data of DIds ids \<Rightarrow> save_delbulk ids d | _ \<Rightarrow> Inl EDecode)
      else if act = ''del'' then (case data of DId i \<Rightarrow> save_del i d | _ \<Rightarrow> Inl EDecode)
      else Inl (EMsg ''unknown action''))"

section \<open>Inbounds that come, change and go\<close>

definition zero_inbound :: inbound where
  "zero_inbound = \<lparr>ib_id = 0, ib_type = [], ib_tag = [], ib_node_id = None, ib_body = JNull\<rparr>"

text \<open>\<open>ids\<close> are the clients the comma-separated \<^verbatim>\<open>initIds\<close> names.\<close>

definition add_inbound_row :: "save_env \<Rightarrow> inbound \<Rightarrow> nat \<Rightarrow> client \<Rightarrow> client" where
  "add_inbound_row e ib inboundId c =
     c\<lparr>c_inbounds := marshal_indent (unmarshal_ignore [] (c_inbounds c) @ [inboundId]),
       c_links := marshal_indent (local_links e c ib @
         filter (\<lambda>l. link_remark l \<noteq> ib_tag ib) (unmarshal_ignore [] (c_links c)))\<rparr>"

definition UpdateClientsOnInboundAdd :: "save_env \<Rightarrow> nat list \<Rightarrow> nat \<Rightarrow> db \<Rightarrow> db" where
  "UpdateClientsOnInboundAdd e ids inboundId d =
     (let ib = (case find (\<lambda>ib. ib_id ib = inboundId) (db_inbounds d) of None \<Rightarrow> zero_inbound | Some ib \<Rightarrow> ib)
      in fold put_client
           (map (add_inbound_row e ib inboundId) (filter (\<lambda>c. c_id c \<in> set ids) (db_clients d))) d)"

definition del_inbound_row :: "string list \<Rightarrow> nat \<Rightarrow> string \<Rightarrow> client \<Rightarrow> client" where
  "del_inbound_row nodeNames i tag c =
     c\<lparr>c_inbounds := marshal_indent (filter (\<lambda>x. x \<noteq> i) (unmarshal_ignore [] (c_inbounds c))),
       c_links := marshal_indent (filter (\<lambda>l. \<not> (link_remark l = tag \<or> isNodeLinkFor (link_remark l) tag nodeNames))
         (unmarshal_ignore [] (c_links c)))\<rparr>"

text \<open>The clients whose inbound list holds the id (\<^verbatim>\<open>json_each\<close> in the query).\<close>

definition bound_to :: "nat \<Rightarrow> client \<Rightarrow> bool" where
  "bound_to i c \<longleftrightarrow> i \<in> set (unmarshal_ignore [] (c_inbounds c))"

definition UpdateClientsOnInboundDelete :: "nat \<Rightarrow> string \<Rightarrow> db \<Rightarrow> db" where
  "UpdateClientsOnInboundDelete i tag d =
     fold put_client (map (del_inbound_row (db_nodes d) i tag) (filter (bound_to i) (db_clients d))) d"

definition relink_row :: "save_env \<Rightarrow> string \<Rightarrow> inbound \<Rightarrow> client \<Rightarrow> client" where
  "relink_row e oldTag ib c =
     c\<lparr>c_links := marshal_indent (local_links e c ib @
       filter (\<lambda>l. link_type l \<noteq> ''local'' \<or> (link_remark l \<noteq> ib_tag ib \<and> link_remark l \<noteq> oldTag))
         (unmarshal_ignore [] (c_links c)))\<rparr>"

definition UpdateLinksByInboundChange :: "save_env \<Rightarrow> inbound list \<Rightarrow> string \<Rightarrow> db \<Rightarrow> db" where
  "UpdateLinksByInboundChange e ibs oldTag d =
     fold (\<lambda>ib d. fold put_client (map (relink_row e oldTag ib) (filter (bound_to (ib_id ib)) (db_clients d))) d) ibs d"

definition RebuildLocalLinks :: "save_env \<Rightarrow> db \<Rightarrow> db" where
  "RebuildLocalLinks e d =
     UpdateLinksByInboundChange e
       (filter (\<lambda>ib. ib_type ib \<in> set InboundTypeWithLink \<and> ib_node_id ib = None) (db_inbounds d)) [] d"

end
