(* ===== verification/ClientNames.thy ===== *)
theory ClientNames
  imports ClientInv
begin

text \<open>
  Client names stay unique. The table has no unique index on the name, so this rests on the checks of
  \<^verbatim>\<open>Save\<close> alone: the lookup of new and edit, the batch-local set of addbulk and editbulk. Clients of the
  group \<^verbatim>\<open>@cluster\<close> are exempt when they are created.
\<close>

section \<open>Writing one row\<close>

definition name_free :: "db \<Rightarrow> client \<Rightarrow> bool" where
  "name_free d c \<longleftrightarrow> (\<forall>r \<in> set (db_clients d). c_name r = c_name c \<longrightarrow> c_id c \<noteq> 0 \<and> c_id r = c_id c)"

lemma distinct_map_replace:
  assumes "distinct (map c_id rs)" and "distinct (map c_name rs)"
    and "\<forall>r \<in> set rs. c_name r = c_name c \<longrightarrow> c_id r = c_id c"
  shows "distinct (map c_name (map (\<lambda>r. if c_id r = c_id c then c else r) rs))"
proof -
  let ?g = "\<lambda>r. if c_id r = c_id c then c else r"
  have "inj_on (c_name \<circ> ?g) (set rs)"
  proof (rule inj_onI)
    fix r s assume rs: "r \<in> set rs" "s \<in> set rs" and eq: "(c_name \<circ> ?g) r = (c_name \<circ> ?g) s"
    then have "c_name r = c_name s \<or> c_id r = c_id s"
      using assms(3) by (auto split: if_splits)
    with rs show "r = s" using distinct_map_eqD [OF assms(1)] distinct_map_eqD [OF assms(2)] by blast
  qed
  with assms(1) show ?thesis by (simp add: distinct_map comp_def)
qed

lemma name_free_new: "c_name c \<notin> c_name ` set (db_clients d) \<Longrightarrow> name_free d c"
  unfolding name_free_def by (metis image_eqI)

lemma names_put:
  assumes "ids_ok d" and "names_unique d" and "name_free d c"
  shows "names_unique (put_client c d)"
proof -
  consider (ins) "c_id c = 0" | (upd) "c_id c \<noteq> 0" "c_id c \<in> c_id ` set (db_clients d)"
    | (new) "c_id c \<noteq> 0" "c_id c \<notin> c_id ` set (db_clients d)" by blast
  then show ?thesis
  proof cases
    case upd
    have "distinct (map c_name (map (\<lambda>r. if c_id r = c_id c then c else r) (db_clients d)))"
      using assms by (intro distinct_map_replace) (auto simp: ids_ok_def names_unique_def name_free_def)
    with upd show ?thesis by (simp add: put_client_def names_unique_def)
  qed (use assms in \<open>auto simp: put_client_def names_unique_def name_free_def image_iff\<close>)
qed

lemma put_client_names: "c_name ` set (db_clients (put_client c d)) \<subseteq> insert (c_name c) (c_name ` set (db_clients d))"
  by (auto simp: put_client_def split: if_splits)

text \<open>A batch whose names differ from each other and from the stored ones.\<close>

lemma names_SaveAll:
  assumes "ids_ok d" and "names_unique d" and "distinct (map c_name rows)"
    and "set (map c_name rows) \<inter> c_name ` set (db_clients d) = {}"
  shows "names_unique (SaveAll rows d)"
  unfolding SaveAll_eq using assms
proof (induction rows arbitrary: d)
  case (Cons r rows)
  have "names_unique (put_client r d)"
    using Cons.prems by (intro names_put name_free_new) auto
  moreover have "set (map c_name rows) \<inter> insert (c_name r) (c_name ` set (db_clients d)) = {}"
    using Cons.prems(3,4) by auto
  then have "set (map c_name rows) \<inter> c_name ` set (db_clients (put_client r d)) = {}"
    using put_client_names [of r d] by blast
  ultimately show ?case
    using Cons.IH [of "put_client r d"] Cons.prems ids_ok_put by simp
qed simp

section \<open>new and edit\<close>

lemma decode_client_id:
  "c_id (decode_client p a) = c_id (decode_client p b) \<or>
   (c_id (decode_client p a) = c_id a \<and> c_id (decode_client p b) = c_id b)"
proof (induction p arbitrary: a b)
  case (Cons kf p)
  obtain k f where kf: "kf = (k, f)" by (cases kf)
  have "c_id (apply_field f a) = c_id (apply_field f b) \<or> (c_id (apply_field f a) = c_id a \<and> c_id (apply_field f b) = c_id b)"
    by (cases f) auto
  with Cons.IH [of "apply_field f a" "apply_field f b"] show ?case
    by (auto simp: decode_client_def kf)
qed (simp add: decode_client_def)

text \<open>An edit writes the row it looked up: the body cannot move it to another id.\<close>

lemma save_edit_id:
  assumes "find_client (c_id (decode_client p zero_client)) d = Inr s" and "ids_ok d"
  shows "c_id (decode_client p s) = c_id s"
proof -
  have "c_id s = c_id (decode_client p zero_client)" "c_id s \<noteq> 0"
    using find_client_Inr [OF assms(1)] assms(2) by (auto simp: ids_ok_def)
  then show ?thesis
    using decode_client_id [of p s zero_client] by (auto simp: zero_client_def)
qed

lemma save_one_names:
  assumes "save_one e stored p d = Inr (w, d')" and "ids_ok d" and "names_unique d"
    and new: "stored = None \<Longrightarrow> c_group (decode_client p zero_client) \<noteq> clusterGroup"
    and edit: "\<And>s. stored = Some s \<Longrightarrow> s \<in> set (db_clients d) \<and> c_id (decode_client p s) = c_id s"
  shows "names_unique d'"
proof -
  from assms(1) obtain c3 where c3: "save_prepare stored p d = Inr c3" "save_finish e stored d c3 = Inr (w, d')"
    by (auto simp: save_one_def res_simps)
  obtain c7 where d': "d' = put_client (alignNextReset c7 stored (e_now e) (e_loc e)) d"
    and c7: "c_name c7 = c_name c3" "c_id c7 = c_id c3"
    using save_finish_Inr [OF c3(2)] by metis
  have "name_free d c3"
  proof (cases stored)
    case None
    then show ?thesis
      using save_prepare_Inr(2,6) [OF c3(1)] new by (intro name_free_new) auto
  next
    case (Some s)
    then have id: "c_id c3 = c_id s" "c_id s \<noteq> 0"
      using save_prepare_Inr(1) [OF c3(1)] edit assms(2) by (auto simp: ids_ok_def)
    have "c_id r = c_id s" if "r \<in> set (db_clients d)" "c_name r = c_name s" for r
      using that Some edit assms(3) unfolding names_unique_def by (metis distinct_map_eqD)
    then show ?thesis
      using save_prepare_Inr(7) [OF c3(1) Some] id unfolding name_free_def by metis
  qed
  then have "name_free d (alignNextReset c7 stored (e_now e) (e_loc e))"
    using c7 by (simp add: name_free_def)
  with assms(2,3) d' show ?thesis by (simp add: names_put)
qed

section \<open>editbulk\<close>

definition name_kept :: "db \<Rightarrow> client \<Rightarrow> bool" where
  "name_kept d c \<longleftrightarrow> (\<exists>s. find_client (c_id c) d = Inr s \<and> c_name s = c_name c)"

lemma editbulk_names_step:
  assumes "editbulk_names d renamed (c # cs) = Inr out"
  obtains c1 rest where "out = c1 # rest" and "c_name c1 \<noteq> []"
    and "name_kept d c1 \<and> editbulk_names d renamed cs = Inr rest \<or>
         c_name c1 \<notin> set renamed \<and> name_free d c1 \<and> editbulk_names d (c_name c1 # renamed) cs = Inr rest"
proof -
  define c1 where "c1 = c\<lparr>c_name := TrimSpace (c_name c)\<rparr>"
  define old where "old = (if c_id c1 = 0 then [] else case find_client (c_id c1) d of Inl _ \<Rightarrow> [] | Inr r \<Rightarrow> c_name r)"
  from assms have ne: "c_name c1 \<noteq> []" and
    step: "(if old = c_name c1 then rbind (editbulk_names d renamed cs) (\<lambda>rest. Inr (c1 # rest))
     else guard_err (c_name c1 \<in> set renamed) (EMsg ''duplicate client name in this batch'')
       (rbind (ensureNameAvailable d (c_name c1) (c_id c1)) (\<lambda>_.
        rbind (editbulk_names d (c_name c1 # renamed) cs) (\<lambda>rest. Inr (c1 # rest))))) = Inr out"
    unfolding editbulk_names.simps rbind_eq_Inr normalizeClientName_Inr by (auto simp: c1_def old_def Let_def)
  have kept: "name_kept d c1" if "old = c_name c1"
    using that ne by (auto simp: old_def name_kept_def split: if_splits sum.splits)
  show thesis
  proof (cases "old = c_name c1")
    case True
    with step obtain rest where "out = c1 # rest" "editbulk_names d renamed cs = Inr rest"
      by (auto simp: res_simps)
    with kept True ne show ?thesis by (intro that) auto
  next
    case False
    with step obtain rest where "out = c1 # rest" "c_name c1 \<notin> set renamed" "name_free d c1"
      "editbulk_names d (c_name c1 # renamed) cs = Inr rest"
      by (auto simp: res_simps ensureNameAvailable_def name_free_def)
    with ne show ?thesis by (intro that) auto
  qed
qed

lemma editbulk_names_free:
  assumes "editbulk_names d renamed cs = Inr out"
  shows "\<forall>r \<in> set out. name_kept d r \<or> name_free d r \<and> c_name r \<notin> set renamed"
    and "\<forall>r \<in> set out. \<forall>s \<in> set out. c_name r = c_name s \<longrightarrow> name_kept d r \<or> name_kept d s \<or> r = s"
proof -
  have "(\<forall>r \<in> set out. name_kept d r \<or> name_free d r \<and> c_name r \<notin> set renamed) \<and>
    (\<forall>r \<in> set out. \<forall>s \<in> set out. c_name r = c_name s \<longrightarrow> name_kept d r \<or> name_kept d s \<or> r = s)"
    using assms
  proof (induction cs arbitrary: renamed out)
    case (Cons c cs)
    obtain c1 rest where out: "out = c1 # rest" and
      alt: "name_kept d c1 \<and> editbulk_names d renamed cs = Inr rest \<or>
         c_name c1 \<notin> set renamed \<and> name_free d c1 \<and> editbulk_names d (c_name c1 # renamed) cs = Inr rest"
      using editbulk_names_step [OF Cons.prems] by metis
    then show ?case
    proof (elim disjE)
      assume "name_kept d c1 \<and> editbulk_names d renamed cs = Inr rest"
      with Cons.IH [of renamed rest] out show ?thesis by auto
    next
      assume "c_name c1 \<notin> set renamed \<and> name_free d c1 \<and> editbulk_names d (c_name c1 # renamed) cs = Inr rest"
      with Cons.IH [of "c_name c1 # renamed" rest] out show ?thesis by fastforce
    qed
  qed simp
  then show "\<forall>r \<in> set out. name_kept d r \<or> name_free d r \<and> c_name r \<notin> set renamed"
    and "\<forall>r \<in> set out. \<forall>s \<in> set out. c_name r = c_name s \<longrightarrow> name_kept d r \<or> name_kept d s \<or> r = s" by auto
qed

lemma name_kept_or_free:
  assumes "ids_ok d" and "names_unique d" and "name_kept d r \<or> name_free d r" and "c \<in> set (db_clients d)"
    and "c_name c = c_name r"
  shows "c_id c = c_id r"
  using assms(3)
proof
  assume "name_kept d r"
  then obtain s where "s \<in> set (db_clients d)" "c_id s = c_id r" "c_name s = c_name r"
    using find_client_Inr by (auto simp: name_kept_def)
  with assms(4,5) show ?thesis using distinct_map_eqD [of c_name "db_clients d" s c] assms(2) by (simp add: names_unique_def)
qed (use assms(4,5) in \<open>auto simp: name_free_def\<close>)

lemma save_editbulk_names:
  assumes "save_editbulk e ps d = Inr (w, d')" and "ids_ok d" and "names_unique d"
  shows "names_unique d'"
proof -
  obtain cs restored rows where cs: "editbulk_names d [] (map (\<lambda>p. decode_client p zero_client) ps) = Inr cs"
    and r: "map_res (editbulk_restore d) cs = Inr restored" and d': "d' = SaveAll rows d"
    and names: "map c_name rows = map c_name cs" and ids: "map c_id rows = map c_id cs"
    using save_editbulk_Inr [OF assms(1)] by metis
  have row: "\<exists>c \<in> set cs. c_id x = c_id c \<and> c_name x = c_name c" if "x \<in> set rows" for x
    using that names ids by (metis in_set_conv_nth length_map nth_map)
  have exist: "c_id x \<in> c_id ` set (db_clients d)" if "x \<in> set rows" for x
  proof -
    obtain c where c: "c \<in> set cs" "c_id x = c_id c" using row [of x] \<open>x \<in> set rows\<close> by blast
    then obtain i where i: "i < length cs" "cs ! i = c" by (meson in_set_conv_nth)
    then have "editbulk_restore d c = Inr (restored ! i)" using map_res_nth [OF r] by auto
    then obtain old where "find_client (c_id c) d = Inr old"
      by (cases "restored ! i") (auto elim: editbulk_restore_Inr)
    with c(2) find_client_Inr [of "c_id c" d old] show ?thesis by (metis image_eqI)
  qed
  let ?g = "\<lambda>c. case find (\<lambda>r. c_id r = c_id c) (rev rows) of None \<Rightarrow> c | Some r \<Rightarrow> r"
  have out: "db_clients d' = map ?g (db_clients d)"
    unfolding d' SaveAll_eq using exist assms(2) by (intro fold_put_existing) auto
  have g: "?g c = c \<or> (\<exists>x \<in> set cs. c_id x = c_id c \<and> c_name (?g c) = c_name x)" for c
  proof (cases "find (\<lambda>r. c_id r = c_id c) (rev rows)")
    case (Some x)
    then have "x \<in> set rows" "c_id x = c_id c" by (auto simp: find_Some_iff) (metis nth_mem length_rev set_rev)
    with Some row [of x] show ?thesis by auto
  qed simp
  note free = editbulk_names_free [OF cs]
  have apart: "c_id x = c_id y" if "x \<in> set cs" "y \<in> set cs" "c_name x = c_name y" for x y
  proof -
    have *: "c_id x = c_id y" if "name_kept d x" "name_kept d y \<or> name_free d y" "c_name x = c_name y" for x y
      using that name_kept_or_free [OF assms(2,3)] find_client_Inr unfolding name_kept_def by metis
    show ?thesis using free that * [of x y] * [of y x] by metis
  qed
  have "inj_on (c_name \<circ> ?g) (set (db_clients d))"
  proof (rule inj_onI)
    fix a b assume ab: "a \<in> set (db_clients d)" "b \<in> set (db_clients d)" and eq: "(c_name \<circ> ?g) a = (c_name \<circ> ?g) b"
    have kf: "name_kept d x \<or> name_free d x" if "x \<in> set cs" for x using free(1) that by blast
    have "c_id a = c_id b"
      using g [of a] g [of b] eq ab apart name_kept_or_free [OF assms(2,3) kf]
        distinct_map_eqD [OF assms(3) [unfolded names_unique_def] ab] unfolding comp_def by metis
    with ab assms(2) show "a = b" by (auto simp: ids_ok_def intro: distinct_map_eqD)
  qed
  then show ?thesis
    using assms(3) by (simp add: names_unique_def out distinct_map [of _ "db_clients d"])
qed

section \<open>All actions\<close>

lemma names_unique_map:
  "names_unique d \<Longrightarrow> (\<And>c. c_name (f c) = c_name c) \<Longrightarrow> names_unique (d\<lparr>db_clients := map f (db_clients d)\<rparr>)"
  by (simp add: names_unique_def comp_def)

lemma names_delete: "names_unique d \<Longrightarrow> names_unique (delete_clients ids d)"
  by (simp add: names_unique_def delete_clients_def distinct_map_filter)

text \<open>The clients \<^verbatim>\<open>new\<close> creates in the group of the cluster replicas skip the name check.\<close>

definition cluster_new :: "string \<Rightarrow> save_data \<Rightarrow> bool" where
  "cluster_new act data \<longleftrightarrow> act = ''new'' \<and>
     (case data of DClient p \<Rightarrow> c_group (decode_client p zero_client) = clusterGroup | _ \<Rightarrow> False)"

lemma Save_keeps_names:
  assumes "Save e act data d = Inr (w, d')" and "ids_ok d" and "names_unique d" and "\<not> cluster_new act data"
  shows "names_unique d'"
proof -
  consider p where "save_one e None p d = Inr (w, d')" "c_group (decode_client p zero_client) \<noteq> clusterGroup"
    | s p where "save_one e (Some s) p d = Inr (w, d')" "find_client (c_id (decode_client p zero_client)) d = Inr s"
    | ps where "save_addbulk e ps d = Inr (w, d')"
    | ps where "save_editbulk e ps d = Inr (w, d')"
    | pol where "save_resetpolicy e pol d = Inr (w, d')"
    | ids where "d' = delete_clients ids d"
    using assms(1,4) unfolding Save_def save_new_def save_edit_def save_delbulk_def save_del_def cluster_new_def
    by (auto simp: res_simps split: if_splits save_data.splits)
  then show ?thesis
  proof cases
    case (1 p)
    then show ?thesis using save_one_names [OF 1(1) assms(2,3)] by simp
  next
    case (2 s p)
    then show ?thesis
      using save_one_names [OF 2(1) assms(2,3)] save_edit_id [OF 2(2) assms(2)] find_client_Inr [OF 2(2)] by simp
  next
    case (3 ps)
    then obtain rows where "d' = SaveAll rows d" "distinct (map c_name rows)"
      "set (map c_name rows) \<inter> c_name ` set (db_clients d) = {}"
      by (rule save_addbulk_Inr)
    with assms(2,3) show ?thesis by (simp add: names_SaveAll)
  next
    case (5 pol)
    then obtain pol' nx where d': "d' = d\<lparr>db_clients := map (\<lambda>c. if c_id c \<in> set (rp_ids pol)
      then policy_row pol' (e_now e) nx c else c) (db_clients d)\<rparr>"
      by (rule save_resetpolicy_Inr)
    show ?thesis unfolding d' using assms(3) by (rule names_unique_map) (simp add: policy_row_def Let_def)
  qed (use assms(2,3) save_editbulk_names names_delete in blast)+
qed

end
