(* ===== verification/ClientLinks.thy ===== *)
theory ClientLinks
  imports ClientNames
begin

text \<open>
  The share links stored with a client: what \<^verbatim>\<open>updateLinksWithFixedInbounds\<close> leaves in a row, and what the
  creation, change and deletion of an inbound do to the rows bound to it.
\<close>

section \<open>Id slices\<close>

lemma gkeys_fold_put: "set (gkeys (fold (\<lambda>v. gput v True) vs m)) = set (gkeys m) \<union> set vs"
  by (induction vs arbitrary: m) auto

lemma UnionUintArray_set: "set (UnionUintArray a b) = set a \<union> set b"
  unfolding UnionUintArray_def gkeys_fold_put by simp

lemma UnionUintArray_distinct: "distinct (UnionUintArray a b)"
  unfolding UnionUintArray_def by (intro gmap.inv_fold_put [where f = "\<lambda>_. True"]) simp

lemma DiffUintArray_set: "set (DiffUintArray a b) = (set a - set b) \<union> (set b - set a)"
  by (auto simp: DiffUintArray_def)

section \<open>Regenerating a client's links\<close>

text \<open>The links a user typed in: neither generated here nor mirrored by a node.\<close>

definition user_link :: "db \<Rightarrow> link \<Rightarrow> bool" where
  "user_link d l \<longleftrightarrow> link_type l \<noteq> ''local'' \<and> \<not> isNodeOwnedRemark (link_remark l) (db_nodes d)"

text \<open>The links of the inbounds on the list that are local and of a type that has links.\<close>

definition bound_local_links :: "save_env \<Rightarrow> db \<Rightarrow> nat list \<Rightarrow> client \<Rightarrow> link list" where
  "bound_local_links e d ids c =
     concat (map (\<lambda>i. case linkable_inbound d i of None \<Rightarrow> [] | Some ib \<Rightarrow> local_links e c ib) ids)"

lemma link_local [simp]: "link_type (local_link t u) = ''local''" "link_remark (local_link t u) = t"
  by (simp_all add: local_link_def gget0_def)

lemma local_links_type: "l \<in> set (local_links e c ib) \<Longrightarrow> link_type l = ''local'' \<and> link_remark l = ib_tag ib"
  by (auto simp: local_links_def)

lemma bound_local_links_type: "l \<in> set (bound_local_links e d ids c) \<Longrightarrow> link_type l = ''local''"
  by (auto simp: bound_local_links_def split: option.splits dest: local_links_type)

text \<open>The stored links a rewrite may take up again: those of the row under the same id.\<close>

definition stored_links :: "db \<Rightarrow> client \<Rightarrow> link list" where
  "stored_links d c = (case find_client (c_id c) d of Inl _ \<Rightarrow> [] | Inr r \<Rightarrow> unmarshal_ignore [] (c_links r))"

lemma update_client_links_eq:
  assumes "update_client_links e d c = Inr c'"
  obtains ids links where "unmarshal [] (c_inbounds c) = Inr ids" and "unmarshal [] (c_links c) = Inr links"
    and "c' = c\<lparr>c_links := marshal_indent (bound_local_links e d ids c
        @ filter (\<lambda>l. \<not> (link_type l = ''local'' \<or> (c_id c \<noteq> 0 \<and> db_nodes d \<noteq> [])
            \<and> isNodeOwnedRemark (link_remark l) (db_nodes d))) links
        @ (if c_id c \<noteq> 0 \<and> db_nodes d \<noteq> [] then filter (keep_stored_link d ids) (stored_links d c) else []))\<rparr>"
proof -
  from assms obtain ids links sl where ids: "unmarshal [] (c_inbounds c) = Inr ids"
    and links: "unmarshal [] (c_links c) = Inr links"
    and sl: "(if (c_id c \<noteq> 0 \<and> db_nodes d \<noteq> []) \<and>
           \<not> raw_is_empty (case find_client (c_id c) d of Inl _ \<Rightarrow> RawNil | Inr r \<Rightarrow> c_links r)
         then unmarshal [] (case find_client (c_id c) d of Inl _ \<Rightarrow> RawNil | Inr r \<Rightarrow> c_links r) else Inr []) = Inr sl"
    and c': "c' = c\<lparr>c_links := marshal_indent (bound_local_links e d ids c
        @ filter (\<lambda>l. \<not> (link_type l = ''local'' \<or> (c_id c \<noteq> 0 \<and> db_nodes d \<noteq> [])
            \<and> isNodeOwnedRemark (link_remark l) (db_nodes d))) links @ filter (keep_stored_link d ids) sl)\<rparr>"
    unfolding update_client_links_def bound_local_links_def rbind_eq_Inr Let_def by auto
  have "sl = (if c_id c \<noteq> 0 \<and> db_nodes d \<noteq> [] then stored_links d c else [])"
    using sl unmarshal_ignore_eq [of "[]" _ sl] by (auto simp: stored_links_def raw_is_empty_def split: if_splits sum.splits)
      (simp add: unmarshal_ignore_def)
  with that [OF ids links] c' show thesis by (auto split: if_splits)
qed

text \<open>
  In the rewritten list the local links are exactly the fresh ones, the user's own links are all there
  in their order, and (for a stored client of a panel with nodes) a node's link is there exactly if
  the stored row has it and its replica is still bound.
\<close>

lemma update_client_links_parts:
  assumes "update_client_links e d c = Inr c'"
    and "unmarshal [] (c_inbounds c) = Inr ids" and "unmarshal [] (c_links c) = Inr links"
  shows "\<exists>out. unmarshal [] (c_links c') = Inr out
    \<and> filter (\<lambda>l. link_type l = ''local'') out = bound_local_links e d ids c
    \<and> filter (user_link d) out = filter (user_link d) links
    \<and> (c_id c \<noteq> 0 \<and> db_nodes d \<noteq> [] \<longrightarrow>
         filter (\<lambda>l. link_type l \<noteq> ''local'' \<and> isNodeOwnedRemark (link_remark l) (db_nodes d)) out
         = filter (keep_stored_link d ids) (stored_links d c))"
proof -
  let ?re = "c_id c \<noteq> 0 \<and> db_nodes d \<noteq> []"
  let ?node = "\<lambda>l. link_type l \<noteq> ''local'' \<and> isNodeOwnedRemark (link_remark l) (db_nodes d)"
  define kept where "kept = filter (\<lambda>l. \<not> (link_type l = ''local'' \<or> ?re \<and> isNodeOwnedRemark (link_remark l) (db_nodes d))) links"
  define again where "again = (if ?re then filter (keep_stored_link d ids) (stored_links d c) else [])"
  define out where "out = bound_local_links e d ids c @ kept @ again"
  have c': "unmarshal [] (c_links c') = Inr out"
    by (rule update_client_links_eq [OF assms(1)]) (use assms(2,3) in \<open>simp add: out_def kept_def again_def\<close>)
  have K: "keep_stored_link d ids l \<Longrightarrow> link_type l \<noteq> ''local'' \<and> isNodeOwnedRemark (link_remark l) (db_nodes d)" for l
    by (simp add: keep_stored_link_def)
  have "filter (\<lambda>l. link_type l = ''local'') (bound_local_links e d ids c) = bound_local_links e d ids c"
    "filter (\<lambda>l. link_type l = ''local'') kept = []" "filter (\<lambda>l. link_type l = ''local'') again = []"
    by (auto simp: kept_def again_def filter_id_conv filter_empty_conv dest: K bound_local_links_type)
  then have "filter (\<lambda>l. link_type l = ''local'') out = bound_local_links e d ids c"
    unfolding out_def by simp
  moreover have "filter (user_link d) (bound_local_links e d ids c) = []" "filter (user_link d) again = []"
    by (auto simp: again_def filter_empty_conv user_link_def dest: K bound_local_links_type)
  then have "filter (user_link d) out = filter (user_link d) links"
    unfolding out_def by (auto simp: kept_def user_link_def intro: filter_cong)
  moreover have "filter ?node out = filter (keep_stored_link d ids) (stored_links d c)" if ?re
  proof -
    have "\<forall>l \<in> set again. ?node l" by (auto simp: again_def dest: K)
    then have "filter ?node again = again" by (simp only: filter_id_conv)
    moreover have "filter ?node (bound_local_links e d ids c) = []" "filter ?node kept = []"
      using that by (auto simp: kept_def filter_empty_conv dest: bound_local_links_type)
    ultimately show ?thesis unfolding out_def using that by (simp add: again_def)
  qed
  ultimately show ?thesis using c' by blast
qed

section \<open>Inbounds that come, change and go\<close>

text \<open>Saving changed versions of some rows under their own ids changes those rows in place.\<close>

lemma fold_put_selected:
  assumes "ids_ok d" and "\<And>c. c_id (f c) = c_id c" and "set sel \<subseteq> set (db_clients d)"
  shows "db_clients (fold put_client (map f sel) d) = map (\<lambda>c. if c \<in> set sel then f c else c) (db_clients d)"
proof -
  let ?rows = "map f sel"
  have ids: "distinct (map c_id (db_clients d))" using assms(1) by (simp add: ids_ok_def)
  have "(case find (\<lambda>r. c_id r = c_id c) (rev ?rows) of None \<Rightarrow> c | Some r \<Rightarrow> r) = (if c \<in> set sel then f c else c)"
    if c: "c \<in> set (db_clients d)" for c
  proof (cases "find (\<lambda>r. c_id r = c_id c) (rev ?rows)")
    case None
    with c have "c \<notin> set sel" using assms(2) by (auto simp: find_None_iff)
    with None show ?thesis by simp
  next
    case (Some r)
    then have "r \<in> set (rev ?rows)" "c_id r = c_id c" by (auto dest: find_SomeD)
    then obtain c2 where "c2 \<in> set sel" "r = f c2" by auto
    with c \<open>c_id r = c_id c\<close> assms(2,3) have "c2 = c" using distinct_map_eqD [OF ids, of c2 c] by auto
    with Some \<open>c2 \<in> set sel\<close> \<open>r = f c2\<close> show ?thesis by simp
  qed
  moreover have "\<forall>r \<in> set ?rows. c_id r \<in> c_id ` set (db_clients d)" using assms(2,3) by auto
  ultimately show ?thesis using fold_put_existing [OF assms(1)] by simp
qed

lemma fold_put_update:
  assumes "ids_ok d" and "\<And>c. c_id (f c) = c_id c"
  shows "db_clients (fold put_client (map f (filter P (db_clients d))) d)
    = map (\<lambda>c. if P c then f c else c) (db_clients d)"
  using fold_put_selected [OF assms, of "filter P (db_clients d)"] by simp

lemma fold_put_rest [simp]:
  "db_inbounds (fold put_client rows d) = db_inbounds d" "db_nodes (fold put_client rows d) = db_nodes d"
  "db_changes (fold put_client rows d) = db_changes d"
  by (induction rows arbitrary: d) simp_all

lemma ids_ok_fold_put: "ids_ok d \<Longrightarrow> ids_ok (fold put_client rows d)"
  by (induction rows arbitrary: d) (simp_all add: ids_ok_put)

lemma UpdateClientsOnInboundDelete_rows:
  assumes "ids_ok d"
  shows "db_clients (UpdateClientsOnInboundDelete i tag d)
    = map (\<lambda>c. if bound_to i c then del_inbound_row (db_nodes d) i tag c else c) (db_clients d)"
  unfolding UpdateClientsOnInboundDelete_def
  by (rule fold_put_update [OF assms]) (simp add: del_inbound_row_def)

lemma del_inbound_row_inbounds:
  "unmarshal [] (c_inbounds (del_inbound_row ns i tag c)) = Inr (filter (\<lambda>x. x \<noteq> i) (unmarshal_ignore [] (c_inbounds c)))"
  by (simp add: del_inbound_row_def)

lemma del_inbound_row_links:
  "unmarshal [] (c_links (del_inbound_row ns i tag c)) = Inr (filter (\<lambda>l. \<not> (link_remark l = tag \<or> isNodeLinkFor (link_remark l) tag ns))
         (unmarshal_ignore [] (c_links c)))"
  by (simp add: del_inbound_row_def)

lemma UpdateClientsOnInboundAdd_rows:
  assumes "ids_ok d" and "find (\<lambda>ib. ib_id ib = i) (db_inbounds d) = Some ib"
  shows "db_clients (UpdateClientsOnInboundAdd e ids i d)
    = map (\<lambda>c. if c_id c \<in> set ids then add_inbound_row e ib i c else c) (db_clients d)"
  unfolding UpdateClientsOnInboundAdd_def assms(2) Let_def option.case
  by (rule fold_put_update [OF assms(1)]) (simp add: add_inbound_row_def)

text \<open>Adding an inbound to clients that do not have it, then deleting it, gives the inbound lists back.\<close>

lemma add_del_inbound_row:
  assumes "unmarshal [] (c_inbounds c) = Inr ids" and "i \<notin> set ids"
    and "unmarshal [] (c_links c) = Inr ls" and "\<forall>l \<in> set ls. link_remark l \<noteq> ib_tag ib \<and> \<not> isNodeLinkFor (link_remark l) (ib_tag ib) ns"
  shows "unmarshal [] (c_inbounds (del_inbound_row ns i (ib_tag ib) (add_inbound_row e ib i c))) = Inr ids"
    and "unmarshal [] (c_links (del_inbound_row ns i (ib_tag ib) (add_inbound_row e ib i c))) = Inr ls"
proof -
  have u: "unmarshal_ignore z (marshal_indent v) = v" for z v :: "'x list"
    by (rule unmarshal_ignore_eq) simp
  show "unmarshal [] (c_inbounds (del_inbound_row ns i (ib_tag ib) (add_inbound_row e ib i c))) = Inr ids"
    using assms(2) unmarshal_ignore_eq [OF assms(1)]
    by (simp add: del_inbound_row_inbounds) (auto simp: add_inbound_row_def u filter_id_conv)
  have "filter (\<lambda>l. \<not> (link_remark l = ib_tag ib \<or> isNodeLinkFor (link_remark l) (ib_tag ib) ns)) (local_links e c ib) = []"
    by (auto simp: filter_empty_conv dest: local_links_type)
  then show "unmarshal [] (c_links (del_inbound_row ns i (ib_tag ib) (add_inbound_row e ib i c))) = Inr ls"
    using assms(4) unmarshal_ignore_eq [OF assms(3)]
    by (simp add: del_inbound_row_links) (auto simp: add_inbound_row_def u filter_id_conv)
qed

text \<open>A change of an inbound replaces its local links, under the new tag and the old one.\<close>

lemma relink_row_links:
  assumes "unmarshal [] (c_links c) = Inr ls"
  obtains out where "unmarshal [] (c_links (relink_row e oldTag ib c)) = Inr out"
    and "filter (\<lambda>l. link_type l = ''local'' \<and> (link_remark l = ib_tag ib \<or> link_remark l = oldTag)) out = local_links e c ib"
    and "filter (\<lambda>l. \<not> (link_type l = ''local'' \<and> (link_remark l = ib_tag ib \<or> link_remark l = oldTag))) out
       = filter (\<lambda>l. \<not> (link_type l = ''local'' \<and> (link_remark l = ib_tag ib \<or> link_remark l = oldTag))) ls"
proof -
  let ?own = "\<lambda>l. link_type l = ''local'' \<and> (link_remark l = ib_tag ib \<or> link_remark l = oldTag)"
  let ?rest = "filter (\<lambda>l. link_type l \<noteq> ''local'' \<or> (link_remark l \<noteq> ib_tag ib \<and> link_remark l \<noteq> oldTag)) ls"
  have "filter ?own (local_links e c ib) = local_links e c ib" "filter (\<lambda>l. \<not> ?own l) (local_links e c ib) = []"
    "filter ?own ?rest = []" "filter (\<lambda>l. \<not> ?own l) ?rest = filter (\<lambda>l. \<not> ?own l) ls"
    by (auto simp: filter_id_conv filter_empty_conv dest: local_links_type intro!: filter_cong)
  moreover have "unmarshal [] (c_links (relink_row e oldTag ib c)) = Inr (local_links e c ib @ ?rest)"
    by (simp add: relink_row_def unmarshal_ignore_eq [OF assms])
  ultimately show thesis by (intro that [of "local_links e c ib @ ?rest"]) auto
qed

end
