(* ===== verification/Notify.thy ===== *)
theory Notify
  imports Prelude "HOL-Library.Sublist"
begin

text \<open>
  Notifications (\<^verbatim>\<open>service/notify\<close>): the events, the labels operators see, the suppressor in front of the
  bus and the bus itself. Times are nanoseconds; \<open>None\<close> is Go's zero time.
\<close>

section \<open>Events\<close>

datatype kind =
  NodeDown | NodeUp | CoreCrash | CoreUp | OutboundDown | OutboundUp | ClientDepleted | ClientExpiring
| CPUHigh | MemoryHigh | ClientOnline | ClientOffline | LoginSuccess | LoginFailed | LoginBanned

fun kind_str :: "kind \<Rightarrow> string" where
  "kind_str NodeDown = ''node.down''"
| "kind_str NodeUp = ''node.up''"
| "kind_str CoreCrash = ''core.crash''"
| "kind_str CoreUp = ''core.up''"
| "kind_str OutboundDown = ''outbound.down''"
| "kind_str OutboundUp = ''outbound.up''"
| "kind_str ClientDepleted = ''client.depleted''"
| "kind_str ClientExpiring = ''client.expiring''"
| "kind_str CPUHigh = ''cpu.high''"
| "kind_str MemoryHigh = ''memory.high''"
| "kind_str ClientOnline = ''client.online''"
| "kind_str ClientOffline = ''client.offline''"
| "kind_str LoginSuccess = ''login.success''"
| "kind_str LoginFailed = ''login.failed''"
| "kind_str LoginBanned = ''login.banned''"

definition AllKinds :: "kind list" where
  "AllKinds =
     [NodeDown, NodeUp, CoreCrash, CoreUp, OutboundDown, OutboundUp, ClientDepleted, ClientExpiring,
      ClientOnline, ClientOffline, CPUHigh, MemoryHigh, LoginSuccess, LoginFailed, LoginBanned]"

record client_target =
  ct_name :: string
  ct_tg_id :: int
  ct_days_left :: int
  ct_bytes_left :: int

record client_data =
  cd_names :: "string list"
  cd_label :: string
  cd_days_left :: int
  cd_bytes_left :: int
  cd_targets :: "client_target list"

record login_data =
  ld_username :: string
  ld_ip :: string
  ld_failures :: int
  ld_ban_minutes :: int

text \<open>The payload; of a metric's percentage only the printed form is kept.\<close>

datatype event_data =
  NoData | NodeData int string | CoreData string | OutboundData nat string | ClientData client_data
| LoginData login_data | MetricData string int

record event =
  ev_kind :: kind
  ev_subject :: string
  ev_data :: event_data
  ev_text :: string
  ev_at :: "int option"

text \<open>
  \<^verbatim>\<open>strings.Fields\<close>: the runs between white space, told apart by the same byte sequences as in
  \<open>TrimSpace\<close>. \<open>n\<close> bounds the rounds by the length of the text; \<open>cur\<close> is the run being read, reversed.
\<close>

fun fields_loop :: "nat \<Rightarrow> string \<Rightarrow> string \<Rightarrow> string list" where
  "fields_loop 0 cur s = (if cur = [] then [] else [rev cur])"
| "fields_loop (Suc n) cur s =
     (case s of [] \<Rightarrow> (if cur = [] then [] else [rev cur])
      | c # cs \<Rightarrow>
         (case find (\<lambda>p. p \<noteq> [] \<and> has_prefix s p) space_runes of
            None \<Rightarrow> fields_loop n (c # cur) cs
          | Some p \<Rightarrow> (if cur = [] then [] else [rev cur]) @ fields_loop n [] (drop (length p) s)))"

definition Fields :: "string \<Rightarrow> string list" where
  "Fields s = fields_loop (length s) [] s"

fun join :: "string \<Rightarrow> string list \<Rightarrow> string" where
  "join sep [] = []"
| "join sep [x] = x"
| "join sep (x # y # zs) = x @ sep @ join sep (y # zs)"

definition ClientLabel :: "string \<Rightarrow> string \<Rightarrow> string" where
  "ClientLabel name desc =
     (let folded = join '' '' (Fields desc)
      in if folded = [] then name else name @ '' ('' @ folded @ '')'')"

section \<open>The suppressor\<close>

definition second :: int where "second = 1000000000"
definition minute :: int where "minute = 60 * second"
definition hour :: int where "hour = 60 * minute"

definition expiringCooldown :: int where "expiringCooldown = 24 * hour"
definition metricCooldown :: int where "metricCooldown = 15 * minute"
definition loginCooldown :: int where "loginCooldown = minute"

record decision =
  d_send :: bool
  d_failures :: int

record suppressor =
  s_health :: "(string, bool) gomap"
  s_until :: "(string, int) gomap"
  s_failures :: "(string, int) gomap"
  s_last_prune :: "int option"

definition NewSuppressor :: suppressor where
  "NewSuppressor = \<lparr>s_health = [], s_until = [], s_failures = [], s_last_prune = None\<rparr>"

definition stateChanged :: "string \<Rightarrow> bool \<Rightarrow> suppressor \<Rightarrow> bool \<times> suppressor" where
  "stateChanged family healthy s =
     (let prev = (case gget (s_health s) family of None \<Rightarrow> True | Some b \<Rightarrow> b)
      in if prev = healthy then (False, s)
         else (True, s\<lparr>s_health := gput family healthy (s_health s)\<rparr>))"

definition allow_key :: "string \<Rightarrow> int \<Rightarrow> int \<Rightarrow> suppressor \<Rightarrow> bool \<times> suppressor" where
  "allow_key key cooldown now s =
     (case gget (s_until s) key of
        Some u \<Rightarrow> if now < u then (False, s) else (True, s\<lparr>s_until := gput key (now + cooldown) (s_until s)\<rparr>)
      | None \<Rightarrow> (True, s\<lparr>s_until := gput key (now + cooldown) (s_until s)\<rparr>))"

definition prune :: "int \<Rightarrow> suppressor \<Rightarrow> suppressor" where
  "prune now s =
     (if (case s_last_prune s of None \<Rightarrow> False | Some l \<Rightarrow> now - l < metricCooldown) then s
      else
        let expired = map fst (filter (\<lambda>(k, u). \<not> now < u) (s_until s))
        in s\<lparr>s_last_prune := Some now,
             s_until := filter (\<lambda>(k, u). now < u) (s_until s),
             s_failures := fold (\<lambda>k m. if has_prefix k (kind_str LoginFailed @ '':'') then gdel k m else m)
               expired (s_failures s)\<rparr>)"

definition sub_key :: "event \<Rightarrow> string" where
  "sub_key e = kind_str (ev_kind e) @ '':'' @ ev_subject e"

definition sent :: "bool \<Rightarrow> decision" where
  "sent b = \<lparr>d_send = b, d_failures = 0\<rparr>"

definition Decide :: "event \<Rightarrow> int \<Rightarrow> suppressor \<Rightarrow> decision \<times> suppressor" where
  "Decide e now s0 =
     (let s = prune now s0;
          state = (\<lambda>family healthy. let (b, s') = stateChanged (family @ '':'' @ ev_subject e) healthy s in (sent b, s'));
          cool = (\<lambda>cd. let (b, s') = allow_key (sub_key e) cd now s in (sent b, s'))
      in case ev_kind e of
           NodeUp \<Rightarrow> state ''node'' True
         | NodeDown \<Rightarrow> state ''node'' False
         | CoreUp \<Rightarrow> state ''core'' True
         | CoreCrash \<Rightarrow> state ''core'' False
         | OutboundUp \<Rightarrow> state ''outbound'' True
         | OutboundDown \<Rightarrow> state ''outbound'' False
         | LoginBanned \<Rightarrow> (sent True, s)
         | LoginSuccess \<Rightarrow> (sent True, s)
         | LoginFailed \<Rightarrow>
             (let n = gget0 0 (s_failures s) (sub_key e) + 1;
                  (b, s') = allow_key (sub_key e) loginCooldown now s
              in if b then (\<lparr>d_send = True, d_failures = n\<rparr>, s'\<lparr>s_failures := gdel (sub_key e) (s_failures s')\<rparr>)
                 else (sent False, s'\<lparr>s_failures := gput (sub_key e) n (s_failures s')\<rparr>))
         | ClientExpiring \<Rightarrow> cool expiringCooldown
         | CPUHigh \<Rightarrow> cool metricCooldown
         | MemoryHigh \<Rightarrow> cool metricCooldown
         | ClientDepleted \<Rightarrow> (sent True, s)
         | ClientOnline \<Rightarrow> (sent True, s)
         | ClientOffline \<Rightarrow> (sent True, s))"

text \<open>A run of the suppressor over a stream of events with their times, and what it lets through.\<close>

fun decide_all :: "(event \<times> int) list \<Rightarrow> suppressor \<Rightarrow> decision list \<times> suppressor" where
  "decide_all [] s = ([], s)"
| "decide_all ((e, t) # es) s =
     (let (d, s1) = Decide e t s; (ds, s2) = decide_all es s1 in (d # ds, s2))"

section \<open>Publishing\<close>

record notify_config =
  nc_enable :: bool
  nc_events :: "kind list"

definition Wants :: "notify_config \<Rightarrow> kind \<Rightarrow> bool" where
  "Wants c k \<longleftrightarrow> nc_enable c \<and> k \<in> set (nc_events c)"

definition fold_failures :: "decision \<Rightarrow> event \<Rightarrow> event" where
  "fold_failures d e =
     (if d_failures d > 1 then
        (case ev_data e of LoginData ld \<Rightarrow> e\<lparr>ev_data := LoginData (ld\<lparr>ld_failures := d_failures d\<rparr>)\<rparr> | _ \<Rightarrow> e)
      else e)"

text \<open>\<open>clock\<close> is \<^verbatim>\<open>time.Now()\<close>; the result is what is handed to the bus, if anything.\<close>

definition publish :: "notify_config \<Rightarrow> int \<Rightarrow> event \<Rightarrow> suppressor \<Rightarrow> event option \<times> suppressor" where
  "publish cfg clock e0 s =
     (if \<not> Wants cfg (ev_kind e0) then (None, s)
      else
        let e = (if ev_at e0 = None then e0\<lparr>ev_at := Some clock\<rparr> else e0);
            (d, s') = Decide e (the (ev_at e)) s
        in if \<not> d_send d then (None, s') else (Some (fold_failures d e), s'))"

section \<open>The bus\<close>

definition busBuffer :: nat where "busBuffer = 256"
definition queueSize :: nat where "queueSize = 64"

text \<open>A subscriber with its queue and, as a history, what its handler was called with.\<close>

record subscriber =
  su_name :: string
  su_queue :: "event list"
  su_handled :: "event list"

record bus =
  b_ch :: "event list"
  b_subs :: "subscriber list"
  b_stopped :: bool

definition NewBus :: bus where
  "NewBus = \<lparr>b_ch = [], b_subs = [], b_stopped = False\<rparr>"

definition bus_publish :: "event \<Rightarrow> bus \<Rightarrow> bus" where
  "bus_publish e b = (if length (b_ch b) < busBuffer then b\<lparr>b_ch := b_ch b @ [e]\<rparr> else b)"

fun remove_sub :: "string \<Rightarrow> subscriber list \<Rightarrow> subscriber list" where
  "remove_sub name [] = []"
| "remove_sub name (s # ss) = (if su_name s = name then ss else s # remove_sub name ss)"

definition Subscribe :: "string \<Rightarrow> bus \<Rightarrow> bus" where
  "Subscribe name b =
     (if b_stopped b then b
      else b\<lparr>b_subs := remove_sub name (b_subs b) @ [\<lparr>su_name = name, su_queue = [], su_handled = []\<rparr>]\<rparr>)"

definition Unsubscribe :: "string \<Rightarrow> bus \<Rightarrow> bus" where
  "Unsubscribe name b = b\<lparr>b_subs := remove_sub name (b_subs b)\<rparr>"

definition offer :: "event \<Rightarrow> subscriber \<Rightarrow> subscriber" where
  "offer e s = (if length (su_queue s) < queueSize then s\<lparr>su_queue := su_queue s @ [e]\<rparr> else s)"

text \<open>One turn of the dispatch loop, and of the worker of the subscriber at a position.\<close>

definition dispatch :: "bus \<Rightarrow> bus" where
  "dispatch b = (case b_ch b of [] \<Rightarrow> b | e # es \<Rightarrow> b\<lparr>b_ch := es, b_subs := map (offer e) (b_subs b)\<rparr>)"

definition work :: "subscriber \<Rightarrow> subscriber" where
  "work s = (case su_queue s of [] \<Rightarrow> s | e # es \<Rightarrow> s\<lparr>su_queue := es, su_handled := su_handled s @ [e]\<rparr>)"

definition runWorker :: "nat \<Rightarrow> bus \<Rightarrow> bus" where
  "runWorker i b = (if i < length (b_subs b) then b\<lparr>b_subs := (b_subs b)[i := work (b_subs b ! i)]\<rparr> else b)"

definition Stop :: "bus \<Rightarrow> bus" where
  "Stop b = b\<lparr>b_stopped := True\<rparr>"

text \<open>
  The goroutines in any interleaving. The second component is the history of what \<^verbatim>\<open>Publish\<close> was
  called with. After \<^verbatim>\<open>Stop\<close> the dispatch loop and the workers may still take a turn (their \<^verbatim>\<open>select\<close>
  chooses) or be gone; publishing still fills the buffer.
\<close>

inductive bus_step :: "bus \<times> event list \<Rightarrow> bus \<times> event list \<Rightarrow> bool" where
  Publish: "bus_step (b, pub) (bus_publish e b, pub @ [e])"
| Subs: "bus_step (b, pub) (Subscribe name b, pub)"
| Unsubs: "bus_step (b, pub) (Unsubscribe name b, pub)"
| Dispatch: "bus_step (b, pub) (dispatch b, pub)"
| Work: "bus_step (b, pub) (runWorker i b, pub)"
| Halt: "bus_step (b, pub) (Stop b, pub)"

definition bus_reach :: "bus \<Rightarrow> event list \<Rightarrow> bool" where
  "bus_reach b pub \<longleftrightarrow> bus_step\<^sup>*\<^sup>* (NewBus, []) (b, pub)"

end
