(* ===== verification/ClientJobs.thy ===== *)
theory ClientJobs
  imports ClientLinks Notify
begin

text \<open>
  The scheduled work on clients: the per-client reset (\<^verbatim>\<open>ResetClients\<close>), disabling clients over a limit
  (\<^verbatim>\<open>DepleteClients\<close>) with the warnings before it, the global reset (\<^verbatim>\<open>ResetAllClientsTraffic\<close>) and the
  jobs that drive them. A run works on a transaction: when a statement fails the tables stay as they
  were. Conditions on \<^verbatim>\<open>up+down\<close> are SQL and compare exact sums.
\<close>

section \<open>State and statements\<close>

text \<open>The statements of the jobs; a run is given the ones that fail.\<close>

datatype stmt =
  SFindDelayed | SFindDue | SSaveClients | SLogReset | SFindOver | SFindExpiring | SDisable | SLogDisable
| SFindDisabled | SResetAll | SLogResetAll | SReadArmed | SArmNext | SArmFor

definition exec :: "(stmt \<Rightarrow> bool) \<Rightarrow> stmt \<Rightarrow> 'a \<Rightarrow> 'a res" where
  "exec fails st x = (if fails st then Inl EDb else Inr x)"

lemma exec_eq_Inr [res_simps]: "exec fails st x = Inr y \<longleftrightarrow> \<not> fails st \<and> y = x"
  by (auto simp: exec_def)

text \<open>
  The process around the tables: the change timestamp and its sequence number with the number of
  wake-ups of the hub (\<^verbatim>\<open>SetLastUpdate\<close>), the events given to \<^verbatim>\<open>notify.Publish\<close>, and the global reset's
  settings (the armed boundary and the schedule it belongs to).
\<close>

record global_reset =
  gr_next :: int
  gr_armed :: string

record world =
  w_db :: db
  w_last_update :: int
  w_seq :: nat
  w_hub :: nat
  w_events :: "event list"
  w_global :: global_reset

definition MarkLastUpdate :: "int \<Rightarrow> world \<Rightarrow> world" where
  "MarkLastUpdate dt w = w\<lparr>w_last_update := dt, w_seq := Suc (w_seq w)\<rparr>"

definition SetLastUpdate :: "int \<Rightarrow> world \<Rightarrow> world" where
  "SetLastUpdate dt w = (let w1 = MarkLastUpdate dt w in w1\<lparr>w_hub := Suc (w_hub w1)\<rparr>)"

definition changeObjName :: "string \<Rightarrow> json" where
  "changeObjName name = JStr name"

definition log_row :: "int \<Rightarrow> string \<Rightarrow> string \<Rightarrow> json \<Rightarrow> change" where
  "log_row dt actor act obj =
     \<lparr>ch_datetime = dt, ch_actor = actor, ch_key = ''clients'', ch_action = act, ch_obj = obj\<rparr>"

definition union_inbounds :: "client list \<Rightarrow> nat list \<Rightarrow> nat list" where
  "union_inbounds cs ids = fold (\<lambda>c acc. UnionUintArray acc (unmarshal_ignore [] (c_inbounds c))) cs ids"

section \<open>Periodic resets\<close>

definition first_use :: "client \<Rightarrow> bool" where
  "first_use c \<longleftrightarrow> c_enable c \<and> c_delay_start c \<and> c_up c + c_down c > 0"

definition start_row :: "int \<Rightarrow> location \<Rightarrow> client \<Rightarrow> client" where
  "start_row dt loc c =
     (let c1 = (if c_auto_reset c \<and> (c_reset_days c > 0 \<or> c_reset_dom c > 0)
                then c\<lparr>c_next_reset := nextResetAt c dt loc\<rparr> else c)
      in c1\<lparr>c_delay_start := False\<rparr>)"

definition period_due :: "int \<Rightarrow> client \<Rightarrow> bool" where
  "period_due dt c \<longleftrightarrow> \<not> c_delay_start c \<and> c_auto_reset c \<and> (c_reset_days c > 0 \<or> c_reset_dom c > 0)
     \<and> c_next_reset c < dt"

definition reset_row :: "int \<Rightarrow> location \<Rightarrow> client \<Rightarrow> client" where
  "reset_row dt loc c =
     (let c1 = c\<lparr>c_next_reset := nextResetAt c dt loc, c_total_up := i64 (c_total_up c + c_up c),
                 c_total_down := i64 (c_total_down c + c_down c), c_up := 0, c_down := 0\<rparr>
      in if \<not> c_enable c1 then c1\<lparr>c_enable := True\<rparr> else c1)"

record reset_out =
  ro_inbounds :: "nat list"
  ro_reenabled :: "string list"
  ro_wrote :: bool

definition ResetClients :: "(stmt \<Rightarrow> bool) \<Rightarrow> int \<Rightarrow> location \<Rightarrow> db \<Rightarrow> (reset_out \<times> db) res" where
  "ResetClients fails dt loc d =
     rbind (exec fails SFindDelayed (filter first_use (db_clients d))) (\<lambda>started.
     let startedRows = map (start_row dt loc) started;
         changes = map (\<lambda>c. log_row dt ''ResetJob'' ''reset'' (changeObjName (c_name c))) started in
     rbind (exec fails SFindDue (filter (period_due dt) (db_clients d))) (\<lambda>due.
     let dueRows = map (reset_row dt loc) due;
         disabled = filter (\<lambda>c. \<not> c_enable c) due;
         all = startedRows @ dueRows in
     rbind (if all \<noteq> [] then exec fails SSaveClients (SaveAll all d) else Inr d) (\<lambda>d1.
     rbind (if changes \<noteq> [] then exec fails SLogReset (d1\<lparr>db_changes := db_changes d1 @ changes\<rparr>) else Inr d1) (\<lambda>d2.
     Inr (\<lparr>ro_inbounds = union_inbounds disabled [], ro_reenabled = map c_name disabled,
           ro_wrote = (all \<noteq> [] \<or> changes \<noteq> [])\<rparr>, d2)))))"

section \<open>Warnings\<close>

record expiring_client =
  xc_name :: string
  xc_desc :: string
  xc_days_left :: int
  xc_bytes_left :: int
  xc_tg_id :: int

record thresholds =
  th_expire_days :: int
  th_volume_bytes :: int

definition expire_before :: "thresholds \<Rightarrow> int \<Rightarrow> int" where
  "expire_before th dt = i64 (dt + i64 (th_expire_days th * 86400))"

definition near_limit :: "thresholds \<Rightarrow> int \<Rightarrow> client \<Rightarrow> bool" where
  "near_limit th dt c \<longleftrightarrow> c_enable c \<and> (c_expiry c = 0 \<or> c_expiry c > dt) \<and>
     (c_volume c = 0 \<or> c_up c + c_down c < c_volume c) \<and>
     ((th_expire_days th > 0 \<and> c_expiry c > 0 \<and> c_expiry c < expire_before th dt)
      \<or> (th_volume_bytes th > 0 \<and> c_volume c > 0 \<and> c_up c + c_down c > c_volume c - th_volume_bytes th))"

definition expiring_of :: "thresholds \<Rightarrow> int \<Rightarrow> client \<Rightarrow> expiring_client" where
  "expiring_of th dt c =
     (let left = i64 (i64 (c_volume c - c_up c) - c_down c);
          days = (if th_expire_days th > 0 \<and> c_expiry c > dt \<and> c_expiry c < expire_before th dt
                  then go_div (i64 (i64 (c_expiry c - dt) + 86399)) 86400 else 0);
          bytes = (if th_volume_bytes th > 0 \<and> c_volume c > 0 \<and> left > 0 \<and> left < th_volume_bytes th then left else 0)
      in \<lparr>xc_name = c_name c, xc_desc = c_desc c, xc_days_left = days, xc_bytes_left = bytes, xc_tg_id = c_tg_id c\<rparr>)"

definition findExpiringClients :: "(stmt \<Rightarrow> bool) \<Rightarrow> thresholds \<Rightarrow> int \<Rightarrow> db \<Rightarrow> expiring_client list res" where
  "findExpiringClients fails th dt d =
     (if \<not> th_expire_days th > 0 \<and> \<not> th_volume_bytes th > 0 then Inr []
      else rbind (exec fails SFindExpiring (filter (near_limit th dt) (db_clients d))) (\<lambda>rows.
           Inr (map (expiring_of th dt) rows)))"

definition clientEvents :: "client list \<Rightarrow> expiring_client list \<Rightarrow> event list" where
  "clientEvents depleted expiring =
     (if depleted \<noteq> [] then
        [\<lparr>ev_kind = ClientDepleted, ev_subject = ''batch'',
          ev_data = ClientData \<lparr>cd_names = map (\<lambda>c. ClientLabel (c_name c) (c_desc c)) depleted, cd_label = [],
            cd_days_left = 0, cd_bytes_left = 0,
            cd_targets = map (\<lambda>c. \<lparr>ct_name = c_name c, ct_tg_id = c_tg_id c, ct_days_left = 0, ct_bytes_left = 0\<rparr>)
              (filter (\<lambda>c. c_tg_id c \<noteq> 0) depleted)\<rparr>,
          ev_text = [], ev_at = None\<rparr>]
      else []) @
     map (\<lambda>c. \<lparr>ev_kind = ClientExpiring, ev_subject = xc_name c,
          ev_data = ClientData \<lparr>cd_names = [], cd_label = ClientLabel (xc_name c) (xc_desc c),
            cd_days_left = xc_days_left c, cd_bytes_left = xc_bytes_left c,
            cd_targets = (if xc_tg_id c \<noteq> 0 then [\<lparr>ct_name = xc_name c, ct_tg_id = xc_tg_id c,
              ct_days_left = xc_days_left c, ct_bytes_left = xc_bytes_left c\<rparr>] else [])\<rparr>,
          ev_text = [], ev_at = None\<rparr>) expiring"

definition NotifyWants :: "notify_config \<Rightarrow> kind list \<Rightarrow> bool" where
  "NotifyWants cfg ks \<longleftrightarrow> nc_enable cfg \<and> (\<exists>k \<in> set ks. k \<in> set (nc_events cfg))"

definition publishClientEvents :: "notify_config \<Rightarrow> client list \<Rightarrow> expiring_client list \<Rightarrow> world \<Rightarrow> world" where
  "publishClientEvents cfg depleted expiring w =
     (if depleted = [] \<and> expiring = [] then w
      else if \<not> NotifyWants cfg [ClientDepleted, ClientExpiring] then w
      else w\<lparr>w_events := w_events w @ clientEvents depleted expiring\<rparr>)"

text \<open>\<^verbatim>\<open>clientDescs\<close> and \<^verbatim>\<open>ClientLabels\<close>; \<open>ok\<close> says whether the read succeeds.\<close>

definition clientDescs :: "bool \<Rightarrow> db \<Rightarrow> string list \<Rightarrow> err option \<times> (string, string) gomap" where
  "clientDescs ok d names =
     (if names = [] then (None, [])
      else if \<not> ok then (Some EDb, [])
      else (None, fold (\<lambda>c. gput (c_name c) (c_desc c)) (filter (\<lambda>c. c_name c \<in> set names) (db_clients d)) []))"

definition ClientLabels :: "bool \<Rightarrow> db \<Rightarrow> string list \<Rightarrow> string list" where
  "ClientLabels ok d names =
     (let descs = snd (clientDescs ok d names) in map (\<lambda>n. ClientLabel n (gget0 [] descs n)) names)"

section \<open>Depletion\<close>

definition over_limit :: "int \<Rightarrow> client \<Rightarrow> bool" where
  "over_limit dt c \<longleftrightarrow> c_enable c \<and>
     ((c_volume c > 0 \<and> c_up c + c_down c > c_volume c) \<or> (c_expiry c > 0 \<and> c_expiry c < dt))"

definition disable_over :: "int \<Rightarrow> db \<Rightarrow> db" where
  "disable_over dt d = d\<lparr>db_clients := map (\<lambda>c. if over_limit dt c then c\<lparr>c_enable := False\<rparr> else c) (db_clients d)\<rparr>"

record deplete_out =
  do_inbounds :: "nat list"
  do_changed :: "string list"
  do_depleted :: "client list"
  do_expiring :: "expiring_client list"
  do_marked :: bool

text \<open>The body of \<^verbatim>\<open>DepleteClients\<close> between \<^verbatim>\<open>Begin\<close> and the deferred commit.\<close>

definition deplete_tx ::
  "(stmt \<Rightarrow> bool) \<Rightarrow> thresholds \<Rightarrow> int \<Rightarrow> location \<Rightarrow> db \<Rightarrow> (deplete_out \<times> db) res" where
  "deplete_tx fails th dt loc d =
     rbind (ResetClients fails dt loc d) (\<lambda>(ro, d1).
     rbind (exec fails SFindOver (filter (over_limit dt) (db_clients d1))) (\<lambda>clients.
     let changes = map (\<lambda>c. log_row dt ''DepleteJob'' ''disable'' (changeObjName (c_name c))) clients in
     rbind (findExpiringClients fails th dt d1) (\<lambda>expiring.
     rbind (if changes \<noteq> [] then
              rbind (exec fails SDisable (disable_over dt d1)) (\<lambda>d2.
              exec fails SLogDisable (d2\<lparr>db_changes := db_changes d2 @ changes\<rparr>))
            else Inr d1) (\<lambda>d3.
     Inr (\<lparr>do_inbounds = union_inbounds clients (ro_inbounds ro),
           do_changed = ro_reenabled ro @ map c_name clients, do_depleted = clients, do_expiring = expiring,
           do_marked = (ro_wrote ro \<or> changes \<noteq> [])\<rparr>, d3)))))"

definition DepleteClients ::
  "(stmt \<Rightarrow> bool) \<Rightarrow> notify_config \<Rightarrow> thresholds \<Rightarrow> int \<Rightarrow> location \<Rightarrow> world \<Rightarrow> (nat list \<times> string list) res \<times> world" where
  "DepleteClients fails cfg th dt loc w =
     (case deplete_tx fails th dt loc (w_db w) of
        Inl e \<Rightarrow> (Inl e, w)
      | Inr (out, d) \<Rightarrow>
          let w1 = w\<lparr>w_db := d\<rparr>;
              w2 = (if do_marked out then SetLastUpdate dt w1 else w1)
          in (Inr (do_inbounds out, do_changed out), publishClientEvents cfg (do_depleted out) (do_expiring out) w2))"

section \<open>The global reset\<close>

definition reset_all_row :: "client \<Rightarrow> client" where
  "reset_all_row c =
     (if c_up c + c_down c > 0 \<or> \<not> c_enable c then
        c\<lparr>c_total_up := c_total_up c + c_up c, c_total_down := c_total_down c + c_down c,
          c_up := 0, c_down := 0, c_enable := True\<rparr>
      else c)"

text \<open>\<open>within\<close> runs inside the transaction, on the settings.\<close>

definition ResetAllClientsTraffic ::
  "(stmt \<Rightarrow> bool) \<Rightarrow> (global_reset \<Rightarrow> err option \<times> global_reset) option \<Rightarrow> int \<Rightarrow> world \<Rightarrow> nat list res \<times> world" where
  "ResetAllClientsTraffic fails within dt w =
     (let d = w_db w;
          tx = rbind (exec fails SFindDisabled (filter (\<lambda>c. \<not> c_enable c) (db_clients d))) (\<lambda>disabled.
            rbind (exec fails SResetAll (d\<lparr>db_clients := map reset_all_row (db_clients d)\<rparr>)) (\<lambda>d1.
            let affected = (\<exists>c \<in> set (db_clients d). c_up c + c_down c > 0 \<or> \<not> c_enable c) in
            rbind (if affected then
                     exec fails SLogResetAll (d1\<lparr>db_changes := db_changes d1 @ [log_row dt ''ResetTrafficJob'' ''reset'' (JStr ''all'')]\<rparr>)
                   else Inr d1) (\<lambda>d2.
            rbind (case within of None \<Rightarrow> Inr (w_global w)
                   | Some f \<Rightarrow> (case f (w_global w) of (Some e, _) \<Rightarrow> Inl e | (None, g) \<Rightarrow> Inr g)) (\<lambda>g.
            Inr (union_inbounds disabled [], affected, d2, g)))))
      in case tx of
           Inl e \<Rightarrow> (Inl e, w)
         | Inr (ids, marked, d2, g) \<Rightarrow>
             let w1 = w\<lparr>w_db := d2, w_global := g\<rparr> in (Inr ids, if marked then SetLastUpdate dt w1 else w1))"

text \<open>
  Two upserts, the boundary and the schedule it belongs to. Outside a transaction the first may stand
  without the second.
\<close>

definition ArmGlobalReset :: "(stmt \<Rightarrow> bool) \<Rightarrow> int \<Rightarrow> string \<Rightarrow> global_reset \<Rightarrow> err option \<times> global_reset" where
  "ArmGlobalReset fails nx armedFor g =
     (if fails SArmNext then (Some EDb, g)
      else let g1 = g\<lparr>gr_next := nx\<rparr>
           in if fails SArmFor then (Some EDb, g1) else (None, g1\<lparr>gr_armed := armedFor\<rparr>))"

definition GlobalResetArmedFor :: "string \<Rightarrow> string \<Rightarrow> string" where
  "GlobalResetArmedFor spec zone = spec @ ''|'' @ zone"

datatype globalResetStep = globalResetWait | globalResetArm | globalResetRun

definition planGlobalReset :: "int \<Rightarrow> string \<Rightarrow> string \<Rightarrow> int \<Rightarrow> globalResetStep" where
  "planGlobalReset nx armedFor want now =
     (if armedFor \<noteq> want \<or> nx = 0 then globalResetArm
      else if nx > now then globalResetWait
      else globalResetRun)"

text \<open>
  One tick of the job: \<open>parse\<close> is the cron parser (\<^verbatim>\<open>CronParser.Parse\<close>), giving the schedule's next time after
  an instant in the panel's zone; \<open>spec\<close> and \<open>zone\<close> are the settings. The result says whether a reset was
  committed (the caller then updates the core and the nodes).
\<close>

definition ResetTrafficJob_Run ::
  "(stmt \<Rightarrow> bool) \<Rightarrow> (string \<Rightarrow> (int \<Rightarrow> int) option) \<Rightarrow> string res \<Rightarrow> string res \<Rightarrow> int \<Rightarrow> world \<Rightarrow> bool \<times> world" where
  "ResetTrafficJob_Run fails parse spec zone now w =
     (case spec of
        Inl _ \<Rightarrow> (False, w)
      | Inr sp \<Rightarrow>
          if sp = [] \<or> sp = ''off'' then (False, w)
          else case parse sp of
            None \<Rightarrow> (False, w)
          | Some schedule \<Rightarrow>
              (case zone of
                 Inl _ \<Rightarrow> (False, w)
               | Inr z \<Rightarrow>
                   if fails SReadArmed then (False, w) else
                   let want = GlobalResetArmedFor sp z; after = schedule now in
                   (case planGlobalReset (gr_next (w_global w)) (gr_armed (w_global w)) want now of
                      globalResetWait \<Rightarrow> (False, w)
                    | globalResetArm \<Rightarrow>
                        (False, w\<lparr>w_global := snd (ArmGlobalReset fails after want (w_global w))\<rparr>)
                    | globalResetRun \<Rightarrow>
                        (case ResetAllClientsTraffic fails (Some (ArmGlobalReset fails after want)) now w of
                           (Inl _, w') \<Rightarrow> (False, w')
                         | (Inr _, w') \<Rightarrow> (True, w')))))"

end
