(* ===== verification/ClientJobsInv.thy ===== *)
theory ClientJobsInv
  imports ClientJobs
begin

text \<open>
  What the jobs do to the clients table, row by row: which rows a reset touches and that it loses no
  traffic, that a pass is not repeated, who is disabled and who is reported.
\<close>

section \<open>One pass of the periodic reset\<close>

definition tick_row :: "int \<Rightarrow> location \<Rightarrow> client \<Rightarrow> client" where
  "tick_row dt loc c =
     (if first_use c then start_row dt loc c else if period_due dt c then reset_row dt loc c else c)"

lemma row_ids [simp]:
  "c_id (start_row dt loc c) = c_id c" "c_id (reset_row dt loc c) = c_id c" "c_id (tick_row dt loc c) = c_id c"
  "c_name (start_row dt loc c) = c_name c" "c_name (reset_row dt loc c) = c_name c" "c_name (tick_row dt loc c) = c_name c"
  by (simp_all add: start_row_def reset_row_def tick_row_def Let_def)

lemma first_use_not_due: "first_use c \<Longrightarrow> \<not> period_due dt c"
  by (simp add: first_use_def period_due_def)

lemma ResetClients_Inr:
  assumes "ResetClients fails dt loc d = Inr (ro, d')" and "ids_ok d"
  shows "db_clients d' = map (tick_row dt loc) (db_clients d)"
    and "ids_ok d'"
    and "db_inbounds d' = db_inbounds d" and "db_nodes d' = db_nodes d"
    and "ro_reenabled ro = map c_name (filter (\<lambda>c. \<not> c_enable c) (filter (period_due dt) (db_clients d)))"
    and "ro_inbounds ro = union_inbounds (filter (\<lambda>c. \<not> c_enable c) (filter (period_due dt) (db_clients d))) []"
    and "ro_wrote ro \<longleftrightarrow> (\<exists>c \<in> set (db_clients d). first_use c \<or> period_due dt c)"
    and "\<not> ro_wrote ro \<Longrightarrow> d' = d"
proof -
  let ?start = "filter first_use (db_clients d)" and ?due = "filter (period_due dt) (db_clients d)"
  let ?all = "map (start_row dt loc) ?start @ map (reset_row dt loc) ?due"
  let ?log = "map (\<lambda>c. log_row dt ''ResetJob'' ''reset'' (changeObjName (c_name c))) ?start"
  let ?h = "\<lambda>c. if first_use c then start_row dt loc c else reset_row dt loc c"
  from assms(1) obtain d1 where d1: "d1 = (if ?all \<noteq> [] then SaveAll ?all d else d)"
    and d': "d' = (if ?log \<noteq> [] then d1\<lparr>db_changes := db_changes d1 @ ?log\<rparr> else d1)"
    and ro: "ro = \<lparr>ro_inbounds = union_inbounds (filter (\<lambda>c. \<not> c_enable c) ?due) [],
        ro_reenabled = map c_name (filter (\<lambda>c. \<not> c_enable c) ?due), ro_wrote = (?all \<noteq> [] \<or> ?log \<noteq> [])\<rparr>"
    unfolding ResetClients_def Let_def rbind_eq_Inr by (auto simp: res_simps split: if_splits)
  have rows: "?all = map ?h (?start @ ?due)" using first_use_not_due by auto
  have d1': "d1 = fold put_client (map ?h (?start @ ?due)) d"
    unfolding d1 SaveAll_eq rows [symmetric] by simp
  have "db_clients d1 = map (\<lambda>c. if c \<in> set (?start @ ?due) then ?h c else c) (db_clients d)"
    unfolding d1' by (rule fold_put_selected [OF assms(2)]) auto
  then show "db_clients d' = map (tick_row dt loc) (db_clients d)"
    unfolding d' by (auto simp: tick_row_def)
  have "ids_ok d1" unfolding d1' by (rule ids_ok_fold_put [OF assms(2)])
  then show "ids_ok d'" unfolding d' by (simp add: ids_ok_def)
  show "db_inbounds d' = db_inbounds d" "db_nodes d' = db_nodes d" unfolding d' d1' by simp_all
  show "ro_wrote ro \<longleftrightarrow> (\<exists>c \<in> set (db_clients d). first_use c \<or> period_due dt c)"
    unfolding ro by (auto simp: filter_empty_conv)
  show "\<not> ro_wrote ro \<Longrightarrow> d' = d" unfolding ro d' d1 by auto
  show "ro_reenabled ro = map c_name (filter (\<lambda>c. \<not> c_enable c) ?due)"
    "ro_inbounds ro = union_inbounds (filter (\<lambda>c. \<not> c_enable c) ?due) []" unfolding ro by simp_all
qed

text \<open>No byte is lost or counted twice (modulo the width of the counters).\<close>

lemma tick_row_conserves:
  "i64 (c_total_up (tick_row dt loc c) + c_up (tick_row dt loc c)) = i64 (c_total_up c + c_up c)"
  "i64 (c_total_down (tick_row dt loc c) + c_down (tick_row dt loc c)) = i64 (c_total_down c + c_down c)"
  using i64_add_i64 [of "c_total_up c + c_up c" 0] i64_add_i64 [of "c_total_down c + c_down c" 0]
  by (auto simp: tick_row_def start_row_def reset_row_def Let_def)

lemma tick_row_start: "first_use c \<Longrightarrow> tick_row dt loc c = start_row dt loc c"
  by (simp add: tick_row_def)

lemma tick_row_settled:
  assumes "sched_range c" and "clock_ok dt" and "loc_ok loc"
  shows "\<not> first_use (tick_row dt loc c)" and "\<not> period_due dt (tick_row dt loc c)"
proof -
  show "\<not> first_use (tick_row dt loc c)"
    by (auto simp: tick_row_def start_row_def reset_row_def first_use_def period_due_def Let_def)
  have step: "tick_row dt loc c = (if period_due dt c then reset_row dt loc c else c)" if "\<not> first_use c"
    using that by (simp add: tick_row_def)
  have "\<not> period_due dt (if period_due dt c then reset_row dt loc c else c)"
    using assms by (intro clk.not_due_again [of dt loc])
      (auto simp: period_due_def has_period_def reset_row_def Let_def)
  moreover have "\<not> period_due dt (start_row dt loc c)" if "first_use c"
    using that nextResetAt_future [of c dt loc] assms
    by (auto simp: period_due_def start_row_def first_use_def has_period_def Let_def)
  ultimately show "\<not> period_due dt (tick_row dt loc c)"
    using step tick_row_start by (cases "first_use c") auto
qed

lemma tick_row_ok:
  assumes "row_ok c" and "clock_ok dt" and "loc_ok loc"
  shows "row_ok (tick_row dt loc c)"
  using assms by (auto simp: row_ok_def sched_wf_def sched_range_def tick_row_def start_row_def reset_row_def
      first_use_def period_due_def Let_def)

lemma ResetClients_inv:
  assumes "ResetClients fails dt loc d = Inr (ro, d')" and "db_inv d" and "clock_ok dt" and "loc_ok loc"
  shows "db_inv d'"
  using ResetClients_Inr(1,2) [OF assms(1)] assms tick_row_ok by (auto simp: db_inv_def)

lemma ResetClients_settled:
  assumes "ResetClients fails dt loc d = Inr (ro, d')" and "db_inv d" and "clock_ok dt" and "loc_ok loc"
  shows "\<forall>c \<in> set (db_clients d'). \<not> first_use c \<and> \<not> period_due dt c"
  using ResetClients_Inr(1) [OF assms(1)] assms(2-4) tick_row_settled
  by (auto simp: db_inv_def row_ok_def sched_wf_def)

text \<open>With nothing to start and nothing due a pass writes nothing, whatever statement would fail later.\<close>

lemma ResetClients_idle:
  assumes "\<forall>c \<in> set (db_clients d). \<not> first_use c \<and> \<not> period_due dt c"
    and "\<not> fails SFindDelayed" and "\<not> fails SFindDue"
  shows "ResetClients fails dt loc d = Inr (\<lparr>ro_inbounds = [], ro_reenabled = [], ro_wrote = False\<rparr>, d)"
  using assms by (simp add: ResetClients_def exec_def Let_def filter_empty_conv union_inbounds_def)

section \<open>Depletion\<close>

lemma union_inbounds_set:
  "set (union_inbounds cs ids) = set ids \<union> (\<Union>c \<in> set cs. set (unmarshal_ignore [] (c_inbounds c)))"
  unfolding union_inbounds_def by (induction cs arbitrary: ids) (auto simp: UnionUintArray_set)

definition deplete_row :: "int \<Rightarrow> client \<Rightarrow> client" where
  "deplete_row dt c = (if over_limit dt c then c\<lparr>c_enable := False\<rparr> else c)"

lemma deplete_tx_Inr:
  assumes "deplete_tx fails th dt loc d = Inr (out, d')" and "ids_ok d"
  obtains ro d1 where "ResetClients fails dt loc d = Inr (ro, d1)"
    and "db_clients d' = map (deplete_row dt) (map (tick_row dt loc) (db_clients d))"
    and "do_depleted out = filter (over_limit dt) (map (tick_row dt loc) (db_clients d))"
    and "do_changed out = ro_reenabled ro @ map c_name (do_depleted out)"
    and "do_inbounds out = union_inbounds (do_depleted out) (ro_inbounds ro)"
    and "findExpiringClients fails th dt d1 = Inr (do_expiring out)"
    and "do_marked out \<longleftrightarrow> ro_wrote ro \<or> do_depleted out \<noteq> []"
    and "\<not> do_marked out \<Longrightarrow> d' = d"
proof -
  from assms(1) obtain ro d1 where R: "ResetClients fails dt loc d = Inr (ro, d1)"
    and x: "findExpiringClients fails th dt d1 = Inr (do_expiring out)"
    and out: "do_depleted out = filter (over_limit dt) (db_clients d1)"
      "do_changed out = ro_reenabled ro @ map c_name (do_depleted out)"
      "do_inbounds out = union_inbounds (do_depleted out) (ro_inbounds ro)"
      "do_marked out \<longleftrightarrow> ro_wrote ro \<or> do_depleted out \<noteq> []"
    and d': "d' = (if do_depleted out \<noteq> [] then (disable_over dt d1)\<lparr>db_changes := db_changes (disable_over dt d1) @
      map (\<lambda>c. log_row dt ''DepleteJob'' ''disable'' (changeObjName (c_name c))) (do_depleted out)\<rparr> else d1)"
    unfolding deplete_tx_def Let_def rbind_eq_Inr
    by (auto simp: res_simps split: if_splits)
  note cl = ResetClients_Inr(1,8) [OF R assms(2)]
  have "db_clients d' = map (deplete_row dt) (db_clients d1)"
  proof (cases "do_depleted out = []")
    case True
    then have "\<forall>c \<in> set (db_clients d1). \<not> over_limit dt c" using out(1) by (simp add: filter_empty_conv)
    with True d' show ?thesis by (simp add: deplete_row_def map_idI)
  next
    case False
    then show ?thesis by (auto simp: d' disable_over_def deplete_row_def)
  qed
  then have "db_clients d' = map (deplete_row dt) (map (tick_row dt loc) (db_clients d))" unfolding cl(1) .
  moreover have "do_depleted out = filter (over_limit dt) (map (tick_row dt loc) (db_clients d))"
    using out(1) unfolding cl(1) .
  moreover have "\<not> do_marked out \<Longrightarrow> d' = d" using out(4) d' cl(2) by auto
  ultimately show thesis using that [OF R _ _ out(2,3) x out(4)] by blast
qed

lemma deplete_row_done: "\<not> over_limit dt (deplete_row dt c)"
  by (auto simp: deplete_row_def over_limit_def)

text \<open>A flag that flips in a pass belongs to a client that is reported, with its inbounds.\<close>

lemma flip_reported:
  assumes "deplete_tx fails th dt loc d = Inr (out, d')" and "ids_ok d" and "c \<in> set (db_clients d)"
    and "c_enable (deplete_row dt (tick_row dt loc c)) \<noteq> c_enable c"
  shows "c_name c \<in> set (do_changed out)"
    and "set (unmarshal_ignore [] (c_inbounds c)) \<subseteq> set (do_inbounds out)"
proof -
  obtain ro d1 where R: "ResetClients fails dt loc d = Inr (ro, d1)"
    and dep: "do_depleted out = filter (over_limit dt) (map (tick_row dt loc) (db_clients d))"
    and ch: "do_changed out = ro_reenabled ro @ map c_name (do_depleted out)"
    and ib: "do_inbounds out = union_inbounds (do_depleted out) (ro_inbounds ro)"
    by (rule deplete_tx_Inr [OF assms(1,2)]) auto
  note r = ResetClients_Inr(5,6) [OF R assms(2)]
  have same: "c_name (tick_row dt loc c) = c_name c" "c_inbounds (tick_row dt loc c) = c_inbounds c"
    by (simp_all add: tick_row_def start_row_def reset_row_def Let_def)
  have "over_limit dt (tick_row dt loc c) \<or> (\<not> c_enable c \<and> period_due dt c)"
    using assms(4) by (auto simp: deplete_row_def tick_row_def start_row_def reset_row_def Let_def split: if_splits)
  then show "c_name c \<in> set (do_changed out)"
    using assms(3) by (auto simp: ch dep r image_iff same)
  show "set (unmarshal_ignore [] (c_inbounds c)) \<subseteq> set (do_inbounds out)"
    using \<open>over_limit dt (tick_row dt loc c) \<or> _\<close> assms(3)
    by (auto simp: ib dep r union_inbounds_set same)
qed

section \<open>Warnings and events\<close>

text \<open>A warning always names a margin, and one inside its threshold.\<close>

definition warn_range :: "thresholds \<Rightarrow> int \<Rightarrow> client \<Rightarrow> bool" where
  "warn_range th dt c \<longleftrightarrow> 0 \<le> c_up c \<and> 0 \<le> c_down c \<and> 0 \<le> c_volume c \<and> c_volume c < 2 ^ 62 \<and>
     0 \<le> th_expire_days th \<and> th_expire_days th \<le> 2 ^ 32 \<and> 0 \<le> dt \<and> dt < 2 ^ 62"

lemma expire_before_eq: "warn_range th dt c \<Longrightarrow> expire_before th dt = dt + th_expire_days th * 86400"
  by (simp add: expire_before_def warn_range_def i64_id in_i64_def)

lemma expiring_margin:
  assumes "near_limit th dt c" and "warn_range th dt c"
  defines "x \<equiv> expiring_of th dt c"
  shows "xc_days_left x > 0 \<or> xc_bytes_left x > 0"
    and "xc_days_left x > 0 \<Longrightarrow> xc_days_left x = (c_expiry c - dt + 86399) div 86400 \<and> xc_days_left x \<le> th_expire_days th"
    and "xc_bytes_left x > 0 \<Longrightarrow> xc_bytes_left x = c_volume c - (c_up c + c_down c) \<and> xc_bytes_left x < th_volume_bytes th"
proof -
  note eb = expire_before_eq [OF assms(2)]
  let ?left = "i64 (i64 (c_volume c - c_up c) - c_down c)"
  let ?byday = "th_expire_days th > 0 \<and> c_expiry c > dt \<and> c_expiry c < expire_before th dt"
  let ?byvol = "th_volume_bytes th > 0 \<and> c_volume c > 0 \<and> ?left > 0 \<and> ?left < th_volume_bytes th"
  have left: "?left = c_volume c - (c_up c + c_down c)" if "c_volume c > 0"
    using that assms(1,2) by (auto simp: near_limit_def warn_range_def i64_id in_i64_def)
  have days: "go_div (i64 (i64 (c_expiry c - dt) + 86399)) 86400 = (c_expiry c - dt + 86399) div 86400"
    "0 < (c_expiry c - dt + 86399) div 86400" "(c_expiry c - dt + 86399) div 86400 \<le> th_expire_days th" if ?byday
  proof -
    have r: "0 < c_expiry c - dt" "c_expiry c - dt < th_expire_days th * 86400" using that eb by auto
    then have "c_expiry c - dt < 2 ^ 32 * 86400" using assms(2) by (simp add: warn_range_def)
    with r(1) show "go_div (i64 (i64 (c_expiry c - dt) + 86399)) 86400 = (c_expiry c - dt + 86399) div 86400"
      by (simp add: i64_id in_i64_def)
    show "0 < (c_expiry c - dt + 86399) div 86400" "(c_expiry c - dt + 86399) div 86400 \<le> th_expire_days th"
      using r by linarith+
  qed
  have "?byday \<or> ?byvol"
    using assms(1,2) left by (auto simp: near_limit_def warn_range_def)
  with days left show "xc_days_left x > 0 \<or> xc_bytes_left x > 0"
    by (auto simp: x_def expiring_of_def Let_def)
  show "xc_days_left x > 0 \<Longrightarrow> xc_days_left x = (c_expiry c - dt + 86399) div 86400 \<and> xc_days_left x \<le> th_expire_days th"
    using days by (simp add: x_def expiring_of_def Let_def split: if_splits)
  show "xc_bytes_left x > 0 \<Longrightarrow> xc_bytes_left x = c_volume c - (c_up c + c_down c) \<and> xc_bytes_left x < th_volume_bytes th"
    using left by (simp add: x_def expiring_of_def Let_def split: if_splits)
qed

lemma near_not_over: "near_limit th dt c \<Longrightarrow> \<not> over_limit dt c"
  by (auto simp: near_limit_def over_limit_def)

text \<open>What leaves for the customers, and the suppressor's key, is the same whatever the operator's notes say.\<close>

definition event_targets :: "event \<Rightarrow> client_target list" where
  "event_targets e = (case ev_data e of ClientData cd \<Rightarrow> cd_targets cd | _ \<Rightarrow> [])"

lemma clientEvents_targets:
  assumes "map (\<lambda>c. c\<lparr>c_desc := []\<rparr>) ds = map (\<lambda>c. c\<lparr>c_desc := []\<rparr>) ds'"
    and "map (\<lambda>x. x\<lparr>xc_desc := []\<rparr>) xs = map (\<lambda>x. x\<lparr>xc_desc := []\<rparr>) xs'"
  shows "map (\<lambda>e. (ev_kind e, ev_subject e, event_targets e)) (clientEvents ds xs)
    = map (\<lambda>e. (ev_kind e, ev_subject e, event_targets e)) (clientEvents ds' xs')"
proof -
  define tgt where "tgt = (\<lambda>c :: client. \<lparr>ct_name = c_name c, ct_tg_id = c_tg_id c, ct_days_left = 0, ct_bytes_left = 0\<rparr>)"
  define sub where "sub = (\<lambda>x :: expiring_client. (ClientExpiring, xc_name x, if xc_tg_id x \<noteq> 0 then [\<lparr>ct_name = xc_name x, ct_tg_id = xc_tg_id x,
      ct_days_left = xc_days_left x, ct_bytes_left = xc_bytes_left x\<rparr>] else []))"
  have d: "map (\<lambda>c. (tgt c, c_tg_id c)) cs = map (\<lambda>c. (tgt c, c_tg_id c)) (map (\<lambda>c. c\<lparr>c_desc := []\<rparr>) cs)" for cs
    by (simp add: tgt_def)
  have x: "map sub ys = map sub (map (\<lambda>x. x\<lparr>xc_desc := []\<rparr>) ys)" for ys by (simp add: sub_def)
  have t: "map tgt (filter (\<lambda>c. c_tg_id c \<noteq> 0) cs) = map fst (filter (\<lambda>(_, i). i \<noteq> 0) (map (\<lambda>c. (tgt c, c_tg_id c)) cs))" for cs
    by (induction cs) auto
  have "map tgt (filter (\<lambda>c. c_tg_id c \<noteq> 0) ds) = map tgt (filter (\<lambda>c. c_tg_id c \<noteq> 0) ds')"
    unfolding t d [of ds] d [of ds'] assms(1) ..
  moreover have "map sub xs = map sub xs'" unfolding x [of xs] x [of xs'] assms(2) ..
  moreover have "ds = [] \<longleftrightarrow> ds' = []" using arg_cong [OF assms(1), of length] by auto
  moreover have "map (\<lambda>e. (ev_kind e, ev_subject e, event_targets e)) (clientEvents ds xs)
    = (if ds \<noteq> [] then [(ClientDepleted, ''batch'', map tgt (filter (\<lambda>c. c_tg_id c \<noteq> 0) ds))] else []) @ map sub xs" for ds xs
    by (simp add: clientEvents_def event_targets_def tgt_def sub_def comp_def)
  ultimately show ?thesis by simp
qed

section \<open>The global reset\<close>

lemma ResetAll_cases:
  "ResetAllClientsTraffic fails within dt w = (r, w') \<Longrightarrow>
     (\<exists>e. r = Inl e \<and> w' = w) \<or>
     (\<exists>ids. r = Inr ids \<and> db_clients (w_db w') = map reset_all_row (db_clients (w_db w))
        \<and> set ids = (\<Union>c \<in> set (filter (\<lambda>c. \<not> c_enable c) (db_clients (w_db w))). set (unmarshal_ignore [] (c_inbounds c)))
        \<and> (case within of None \<Rightarrow> w_global w' = w_global w | Some f \<Rightarrow> f (w_global w) = (None, w_global w')))"
proof -
  define tx where "tx = rbind (exec fails SFindDisabled (filter (\<lambda>c. \<not> c_enable c) (db_clients (w_db w)))) (\<lambda>disabled.
            rbind (exec fails SResetAll ((w_db w)\<lparr>db_clients := map reset_all_row (db_clients (w_db w))\<rparr>)) (\<lambda>d1.
            let affected = (\<exists>c \<in> set (db_clients (w_db w)). c_up c + c_down c > 0 \<or> \<not> c_enable c) in
            rbind (if affected then
                     exec fails SLogResetAll (d1\<lparr>db_changes := db_changes d1 @ [log_row dt ''ResetTrafficJob'' ''reset'' (JStr ''all'')]\<rparr>)
                   else Inr d1) (\<lambda>d2.
            rbind (case within of None \<Rightarrow> Inr (w_global w)
                   | Some f \<Rightarrow> (case f (w_global w) of (Some e, _) \<Rightarrow> Inl e | (None, g) \<Rightarrow> Inr g)) (\<lambda>g.
            Inr (union_inbounds disabled [], affected, d2, g)))))"
  assume "ResetAllClientsTraffic fails within dt w = (r, w')"
  then have R: "(case tx of Inl e \<Rightarrow> (Inl e, w) | Inr (ids, marked, d2, g) \<Rightarrow>
       let w1 = w\<lparr>w_db := d2, w_global := g\<rparr> in (Inr ids, if marked then SetLastUpdate dt w1 else w1)) = (r, w')"
    by (simp add: ResetAllClientsTraffic_def tx_def Let_def)
  show ?thesis
  proof (cases tx)
    case (Inl e)
    with R have "r = Inl e" "w' = w" by simp_all
    then show ?thesis by blast
  next
    case (Inr t)
    obtain ids marked d2 g where t: "t = (ids, marked, d2, g)" by (cases t)
    have "ids = union_inbounds (filter (\<lambda>c. \<not> c_enable c) (db_clients (w_db w))) []"
      "db_clients d2 = map reset_all_row (db_clients (w_db w))"
      "case within of None \<Rightarrow> g = w_global w | Some f \<Rightarrow> f (w_global w) = (None, g)"
      using Inr unfolding tx_def t Let_def
      by (auto simp: res_simps split: if_splits option.splits prod.splits)
    moreover have "r = Inr ids" "w_db w' = d2" "w_global w' = g"
      using R Inr t by (auto simp: Let_def SetLastUpdate_def MarkLastUpdate_def)
    ultimately show ?thesis by (auto simp: union_inbounds_set split: option.splits)
  qed
qed

lemma reset_all_row_facts:
  "c_enable (reset_all_row c)"
  "c_total_up (reset_all_row c) + c_up (reset_all_row c) = c_total_up c + c_up c"
  "c_total_down (reset_all_row c) + c_down (reset_all_row c) = c_total_down c + c_down c"
  "0 \<le> c_up c \<Longrightarrow> 0 \<le> c_down c \<Longrightarrow> c_up (reset_all_row c) = 0 \<and> c_down (reset_all_row c) = 0"
  by (auto simp: reset_all_row_def)

text \<open>
  A tick either leaves the clients alone or commits the reset together with the next boundary.
\<close>

lemma job_cases:
  assumes "ResetTrafficJob_Run fails parse spec zone now w = (done, w')"
  shows "(\<not> done \<and> w_db w' = w_db w \<and> w_events w' = w_events w) \<or>
    (done \<and> (\<exists>sp z sch. spec = Inr sp \<and> zone = Inr z \<and> parse sp = Some sch
       \<and> gr_armed (w_global w) = GlobalResetArmedFor sp z \<and> gr_next (w_global w) \<noteq> 0 \<and> gr_next (w_global w) \<le> now
       \<and> w_global w' = \<lparr>gr_next = sch now, gr_armed = GlobalResetArmedFor sp z\<rparr>
       \<and> db_clients (w_db w') = map reset_all_row (db_clients (w_db w))))"
proof (cases "done")
  case False
  then show ?thesis
    using assms ResetAll_cases [of fails _ now w]
    by (auto simp: ResetTrafficJob_Run_def Let_def split: sum.splits if_splits option.splits globalResetStep.splits prod.splits)
next
  case True
  then obtain sp z sch ids where sp: "spec = Inr sp" "zone = Inr z" "parse sp = Some sch"
    and plan: "planGlobalReset (gr_next (w_global w)) (gr_armed (w_global w)) (GlobalResetArmedFor sp z) now = globalResetRun"
    and R: "ResetAllClientsTraffic fails (Some (ArmGlobalReset fails (sch now) (GlobalResetArmedFor sp z))) now w = (Inr ids, w')"
    using assms
    by (auto simp: ResetTrafficJob_Run_def Let_def split: sum.splits if_splits option.splits globalResetStep.splits prod.splits)
  have g: "ArmGlobalReset fails (sch now) (GlobalResetArmedFor sp z) (w_global w) = (None, w_global w')"
    and rows: "db_clients (w_db w') = map reset_all_row (db_clients (w_db w))"
    using ResetAll_cases [OF R] by auto
  have "w_global w' = \<lparr>gr_next = sch now, gr_armed = GlobalResetArmedFor sp z\<rparr>"
    using g by (cases "w_global w") (simp add: ArmGlobalReset_def Let_def split: if_splits)
  with True sp plan rows show ?thesis
    by (auto simp: planGlobalReset_def split: if_splits)
qed

text \<open>After a committed reset, ticks before the new boundary under the same schedule do nothing.\<close>

lemma job_waits:
  assumes "ResetTrafficJob_Run fails parse (Inr sp) (Inr z) now w = (True, w')" and "parse sp = Some sch"
    and "now' < sch now" and "0 \<le> now'"
  shows "ResetTrafficJob_Run fails' parse (Inr sp) (Inr z) now' w' = (False, w')"
proof -
  have "w_global w' = \<lparr>gr_next = sch now, gr_armed = GlobalResetArmedFor sp z\<rparr>"
    using job_cases [OF assms(1)] assms(2) by auto
  with assms(2-4) show ?thesis
    by (simp add: ResetTrafficJob_Run_def planGlobalReset_def Let_def)
qed

end
