(* ===== verification/ClientEdit.thy ===== *)
theory ClientEdit
  imports ClientJobsInv
begin

text \<open>
  What an edit cannot change: the rows it is not about, the time stamps the server owns, and in bulk edits
  the counters and the reset schedule.
\<close>

section \<open>One client\<close>

definition others :: "nat \<Rightarrow> db \<Rightarrow> client list" where
  "others i d = filter (\<lambda>r. c_id r \<noteq> i) (db_clients d)"

lemma others_put: "c_id c \<noteq> 0 \<Longrightarrow> others (c_id c) (put_client c d) = others (c_id c) d"
proof -
  have "filter (\<lambda>r. c_id r \<noteq> c_id c) (map (\<lambda>r. if c_id r = c_id c then c else r) rs) = filter (\<lambda>r. c_id r \<noteq> c_id c) rs" for rs
    by (induction rs) auto
  then show "c_id c \<noteq> 0 \<Longrightarrow> others (c_id c) (put_client c d) = others (c_id c) d"
    by (simp add: others_def put_client_def)
qed

lemma put_client_in: "c_id c \<noteq> 0 \<Longrightarrow> c \<in> set (db_clients (put_client c d))"
  by (auto simp: put_client_def image_iff)

lemma save_finish_edit:
  assumes "save_finish e (Some s) d c3 = Inr (w, d')"
  obtains c where "d' = put_client c d" and "c_id c = c_id c3" and "c_name c = c_name c3"
    and "c_created_at c = c_created_at s" and "c_online_at c = c_online_at s"
proof -
  from assms obtain c4 c5 c7 where
    c4: "setConfigIdentity c3 = Inr c4" and c5: "updateLinksWithFixedInbounds e d [c4] = Inr c5"
    and c7: "c7 = (hd c5)\<lparr>c_created_at := c_created_at s, c_online_at := c_online_at s\<rparr>"
    and d': "d' = put_client (alignNextReset c7 (Some s) (e_now e) (e_loc e)) d"
    by (auto simp: save_finish_def save_server_fields_def res_simps Let_def dest!: findInboundsChanges_plain)
  obtain x y where "c4 = c3\<lparr>c_config := x\<rparr>" "hd c5 = c4\<lparr>c_links := y\<rparr>"
    using setConfigIdentity_Inr [OF c4] updateLinks_single [OF c5] by auto
  then show thesis
    by (intro that [OF d']) (simp_all add: c7 alignNextReset_def Let_def)
qed

lemma save_edit_row:
  assumes "save_edit e p d = Inr (w, d')" and "ids_ok d"
  obtains s c where "s \<in> set (db_clients d)" and "c_id s = c_id (decode_client p zero_client)" and "c_id c = c_id s"
    and "c \<in> set (db_clients d')" and "c_created_at c = c_created_at s" and "c_online_at c = c_online_at s"
    and "others (c_id s) d' = others (c_id s) d"
proof -
  from assms(1) obtain s c3 where s: "find_client (c_id (decode_client p zero_client)) d = Inr s"
    and c3: "save_prepare (Some s) p d = Inr c3" "save_finish e (Some s) d c3 = Inr (w, d')"
    by (auto simp: save_edit_def save_one_def res_simps)
  obtain c where c: "d' = put_client c d" "c_id c = c_id c3" "c_created_at c = c_created_at s" "c_online_at c = c_online_at s"
    using save_finish_edit [OF c3(2)] by metis
  have "c_id c = c_id s"
    using save_prepare_Inr(1) [OF c3(1)] save_edit_id [OF s assms(2)] c(2) by simp
  moreover have "c_id s \<noteq> 0" using find_client_Inr [OF s] assms(2) by (auto simp: ids_ok_def)
  ultimately show thesis
    using that [of s c] find_client_Inr [OF s] c others_put [of c d] put_client_in [of c d] by auto
qed

section \<open>Many clients\<close>

definition server_fields ::
  "client \<Rightarrow> nat \<times> (int \<times> int \<times> int \<times> int) \<times> (int \<times> int \<times> int) \<times> (bool \<times> bool \<times> int \<times> int \<times> int)" where
  "server_fields c =
     (c_id c, (c_up c, c_down c, c_total_up c, c_total_down c), (c_tg_id c, c_created_at c, c_online_at c),
      (c_auto_reset c, c_delay_start c, c_reset_days c, c_reset_dom c, c_next_reset c))"

lemma server_fields_links [simp]: "server_fields (c\<lparr>c_links := x\<rparr>) = server_fields c"
  by (simp add: server_fields_def)

lemma editbulk_restore_fields:
  assumes "editbulk_restore d c = Inr (c', ids)"
  obtains old where "find_client (c_id c) d = Inr old" and "server_fields c' = server_fields old"
proof -
  from assms obtain c1 c2 where c1: "findInboundsChanges d c True = Inr (ids, c1)"
    and c2: "setConfigIdentity c1 = Inr c2" and c': "preserveServerManagedFields d c2 = Inr c'"
    by (auto simp: editbulk_restore_def res_simps)
  obtain old where old: "find_client (c_id c) d = Inr old"
    and c1_eq: "c1 = c\<lparr>c_links := c_links old, c_config := c_config old, c_auto_reset := c_auto_reset old,
                c_reset_days := c_reset_days old, c_reset_dom := c_reset_dom old,
                c_next_reset := c_next_reset old, c_delay_start := c_delay_start old\<rparr>"
    by (rule findInboundsChanges_fill [OF c1])
  obtain x where x: "c2 = c1\<lparr>c_config := x\<rparr>" using setConfigIdentity_Inr [OF c2] by blast
  have "c_id old = c_id c" using find_client_Inr [OF old] by simp
  with c' old show thesis
    by (intro that [OF old]) (auto simp: preserveServerManagedFields_def server_fields_def x c1_eq)
qed

lemma save_editbulk_rows:
  assumes "save_editbulk e ps d = Inr (w, d')" and "ids_ok d"
  obtains rows where "d' = SaveAll rows d" and "\<forall>r \<in> set rows. \<exists>old \<in> set (db_clients d). server_fields r = server_fields old"
proof -
  from assms(1) obtain cs restored rows where
    r: "map_res (editbulk_restore d) cs = Inr restored" and d': "d' = SaveAll rows d"
    and rows: "updateLinksWithFixedInbounds e d (map fst restored) = Inr rows \<or> rows = map fst restored"
    by (auto simp: save_editbulk_def res_simps Let_def split: if_splits)
  have base: "\<exists>old \<in> set (db_clients d). server_fields c' = server_fields old" if "c' \<in> set (map fst restored)" for c'
  proof -
    from that obtain ids where "(c', ids) \<in> set restored" by auto
    then obtain c where "editbulk_restore d c = Inr (c', ids)" using map_res_set [OF r] by blast
    then obtain old where "find_client (c_id c) d = Inr old" "server_fields c' = server_fields old"
      by (rule editbulk_restore_fields)
    then show ?thesis using find_client_Inr by blast
  qed
  have "\<exists>c' \<in> set (map fst restored). server_fields x = server_fields c'" if "x \<in> set rows" for x
    using rows
  proof
    assume "updateLinksWithFixedInbounds e d (map fst restored) = Inr rows"
    from map_res_set [OF updateLinks_Inr [OF this] that] obtain c' where c': "c' \<in> set (map fst restored)" "update_client_links e d c' = Inr x"
      by blast
    then have "server_fields x = server_fields c'" using update_client_links_Inr [OF c'(2)] by auto
    with c'(1) show ?thesis by blast
  qed (use that in blast)
  then show thesis using that [OF d'] base by metis
qed

lemma save_editbulk_fields:
  assumes "save_editbulk e ps d = Inr (w, d')" and "ids_ok d"
  shows "map server_fields (db_clients d') = map server_fields (db_clients d)"
proof -
  obtain rows where d': "d' = SaveAll rows d" and rows: "\<forall>r \<in> set rows. \<exists>old \<in> set (db_clients d). server_fields r = server_fields old"
    by (rule save_editbulk_rows [OF assms])
  have id: "server_fields a = server_fields b \<Longrightarrow> c_id a = c_id b" for a b by (simp add: server_fields_def)
  let ?g = "\<lambda>c. case find (\<lambda>r. c_id r = c_id c) (rev rows) of None \<Rightarrow> c | Some r \<Rightarrow> r"
  have "db_clients d' = map ?g (db_clients d)"
    unfolding d' SaveAll_eq using rows id by (intro fold_put_existing [OF assms(2)]) (metis image_eqI)
  moreover have "server_fields (?g c) = server_fields c" if c: "c \<in> set (db_clients d)" for c
  proof (cases "find (\<lambda>r. c_id r = c_id c) (rev rows)")
    case (Some r)
    then have "r \<in> set rows" "c_id r = c_id c" by (auto dest: find_SomeD)
    then obtain old where old: "old \<in> set (db_clients d)" "server_fields r = server_fields old" using rows by blast
    then have "old = c"
      using c \<open>c_id r = c_id c\<close> id [OF old(2)] distinct_map_eqD [of c_id "db_clients d" old c] assms(2) by (simp add: ids_ok_def)
    with old Some show ?thesis by simp
  qed simp
  ultimately show ?thesis by simp
qed

end
