(* ===== verification/ClientProps.thy ===== *)
theory ClientProps
  imports ClientEdit
begin

text \<open>
  The properties of the client service: saving, links, schedules, resets and depletion, each with a
  concrete run where it has hypotheses.
\<close>

section \<open>A small panel\<close>

definition ex_client :: "nat \<Rightarrow> string \<Rightarrow> client" where
  "ex_client i n = zero_client\<lparr>c_id := i, c_name := n, c_enable := True, c_inbounds := RawVal Compact [1],
     c_links := RawVal Compact [], c_config := RawVal Compact [(''vless'', Some [(''name'', JStr n)])]\<rparr>"

definition ex_inbound :: inbound where
  "ex_inbound = \<lparr>ib_id = 1, ib_type = ''vless'', ib_tag = ''in-1'', ib_node_id = None, ib_body = JNull\<rparr>"

definition ex_replica :: inbound where
  "ex_replica = \<lparr>ib_id = 2, ib_type = ''vless'', ib_tag = ''in-2'', ib_node_id = Some 7, ib_body = JNull\<rparr>"

definition ex_bob :: client where
  "ex_bob = (ex_client 2 ''bob'')\<lparr>c_inbounds := RawVal Compact [1, 2],
     c_links := RawVal Compact [[(''remark'', ''in-1''), (''type'', ''local''), (''uri'', ''old'')],
       [(''remark'', ''mine''), (''type'', ''external''), (''uri'', ''x'')],
       [(''remark'', ''[n1] in-2''), (''type'', ''external''), (''uri'', ''y'')]],
     c_auto_reset := True, c_reset_dom := 31, c_next_reset := 1600000000, c_up := 5, c_down := 7,
     c_volume := 100, c_tg_id := 42, c_desc := ''note''\<rparr>"

definition ex_db :: db where
  "ex_db = \<lparr>db_clients = [ex_client 1 ''alice'', ex_bob], db_inbounds = [ex_inbound, ex_replica],
     db_nodes = [''n1''], db_changes = [], db_next_id = 3\<rparr>"

definition ex_env :: save_env where
  "ex_env = \<lparr>e_now = 1700000000, e_loc = utc, e_host = ''h'', e_prefix = False, e_linkgen = \<lambda>_ _ _ _. [''vless://u'']\<rparr>"

definition ex_new :: save_data where
  "ex_new = DClient [(''name'', FName '' carol ''), (''autoReset'', FAutoReset True), (''resetDays'', FResetDays 30)]"

lemma ex_new_ok: "\<not> isl (Save ex_env ''new'' ex_new ex_db)" by code_simp
lemma ex_db_inv: "db_inv ex_db" by code_simp
lemma ex_db_names: "names_unique ex_db" by code_simp
lemma ex_ids: "ids_ok ex_db" by code_simp
lemma ex_clock: "clock_ok 1700000000" by code_simp
lemma ex_utc: "loc_ok utc" by code_simp

text \<open>What a successful call returned.\<close>

lemma not_isl_projr: "\<not> isl r \<Longrightarrow> r = Inr (fst (projr r), snd (projr r))"
  by (cases r) auto

section \<open>Saving\<close>

text \<open>
  C1. Every action of \<^verbatim>\<open>Save\<close> keeps the invariant of the clients table: ids stay distinct and positive, every
  name is trimmed and not empty, and every reset schedule is in shape (auto reset owns the period, a
  delayed start has no boundary).
\<close>

theorem Save_keeps_table_invariant:
  assumes "Save e act data d = Inr (w, d')" and "db_inv d"
  shows "db_inv d'"
  using assms by (rule Save_keeps_inv)

theorem Save_keeps_table_invariant_witness:
  "\<not> isl (Save ex_env ''new'' ex_new ex_db) \<and> db_inv (snd (projr (Save ex_env ''new'' ex_new ex_db)))"
  using ex_new_ok Save_keeps_table_invariant [OF not_isl_projr [OF ex_new_ok] ex_db_inv] by simp

text \<open>
  C2. Client names stay unique under every action, although the table has no index that says so: a name
  is looked up before it is written, batches are checked against the table and against themselves. The
  one exception is a client that \<^verbatim>\<open>new\<close> creates in the group of the cluster's replicas.
\<close>

theorem Save_keeps_names_unique:
  assumes "Save e act data d = Inr (w, d')" and "db_inv d" and "names_unique d" and "\<not> cluster_new act data"
  shows "names_unique d'"
  using assms Save_keeps_names by (auto simp: db_inv_def)

theorem Save_keeps_names_unique_witness:
  "\<not> isl (Save ex_env ''new'' ex_new ex_db) \<and> names_unique (snd (projr (Save ex_env ''new'' ex_new ex_db)))"
proof -
  have "\<not> cluster_new ''new'' ex_new" by code_simp
  with ex_new_ok show ?thesis
    using Save_keeps_names_unique [OF not_isl_projr [OF ex_new_ok] ex_db_inv ex_db_names] by simp
qed

text \<open>
  An edit writes the row it looked up, whatever id the body carries: the other rows are left exactly as
  they were, and the creation time and the last time online stay the server's.
\<close>

lemma edit_writes_one_row:
  assumes "Save e ''edit'' (DClient p) d = Inr (w, d')" and "db_inv d"
  shows "\<exists>s \<in> set (db_clients d). \<exists>c \<in> set (db_clients d'). c_id s = c_id (decode_client p zero_client) \<and> c_id c = c_id s
    \<and> c_created_at c = c_created_at s \<and> c_online_at c = c_online_at s \<and> others (c_id s) d' = others (c_id s) d"
proof -
  have "save_edit e p d = Inr (w, d')" using assms(1) by (simp add: Save_def)
  moreover have "ids_ok d" using assms(2) by (simp add: db_inv_def)
  ultimately obtain s c where "s \<in> set (db_clients d)" "c_id s = c_id (decode_client p zero_client)" "c_id c = c_id s"
    "c \<in> set (db_clients d')" "c_created_at c = c_created_at s" "c_online_at c = c_online_at s" "others (c_id s) d' = others (c_id s) d"
    by (rule save_edit_row)
  then show ?thesis by metis
qed

definition ex_edit :: client_patch where
  "ex_edit = [(''id'', FId 2), (''name'', FName ''bobby''), (''createdAt'', FCreatedAt 9)]"

text \<open>
  A bulk edit cannot touch what the server owns: in every row of the table the counters, the totals, the
  Telegram binding, the time stamps and the whole reset schedule are what they were.
\<close>

lemma editbulk_keeps_server_fields:
  assumes "Save e ''editbulk'' (DClients ps) d = Inr (w, d')" and "db_inv d"
  shows "map server_fields (db_clients d') = map server_fields (db_clients d)"
  using assms save_editbulk_fields [of e ps d w d'] by (simp add: Save_def db_inv_def)

section \<open>Links\<close>

text \<open>
  After a client's links are rebuilt, the local ones are exactly the freshly generated ones for its local
  inbounds, the links the user added are all there in their order, and (for a stored client of a panel
  with nodes) a node's link is there exactly if the stored row has it and its replica is still bound.
\<close>

lemma update_client_links_result:
  assumes "update_client_links e d c = Inr c'"
    and "unmarshal [] (c_inbounds c) = Inr ids" and "unmarshal [] (c_links c) = Inr links"
  shows "\<exists>out. unmarshal [] (c_links c') = Inr out
    \<and> filter (\<lambda>l. link_type l = ''local'') out = bound_local_links e d ids c
    \<and> filter (user_link d) out = filter (user_link d) links
    \<and> (c_id c \<noteq> 0 \<and> db_nodes d \<noteq> [] \<longrightarrow>
         filter (\<lambda>l. link_type l \<noteq> ''local'' \<and> isNodeOwnedRemark (link_remark l) (db_nodes d)) out
         = filter (keep_stored_link d ids) (stored_links d c))"
  using assms by (rule update_client_links_parts)

text \<open>
  C3. Deleting an inbound leaves no client bound to it, and none of the clients that were bound keeps a link
  under its tag, neither its own nor one a node mirrored; clients that were not bound are not written.
\<close>

theorem inbound_delete_leaves_no_reference:
  assumes "ids_ok d"
  shows "list_all2 (\<lambda>c c'. c_id c' = c_id c \<and> \<not> bound_to i c' \<and> (\<not> bound_to i c \<longrightarrow> c' = c) \<and>
      (bound_to i c \<longrightarrow> (\<exists>ls. unmarshal [] (c_links c') = Inr ls
         \<and> (\<forall>l \<in> set ls. link_remark l \<noteq> tag \<and> \<not> isNodeLinkFor (link_remark l) tag (db_nodes d)))))
    (db_clients d) (db_clients (UpdateClientsOnInboundDelete i tag d))"
proof -
  have ib: "\<not> bound_to i (del_inbound_row (db_nodes d) i tag c)" for c
    using unmarshal_ignore_eq [OF del_inbound_row_inbounds [of "db_nodes d" i tag c]] by (simp add: bound_to_def)
  show ?thesis
    unfolding UpdateClientsOnInboundDelete_rows [OF assms] list_all2_map2
    by (rule list_all2_refl) (auto simp: ib del_inbound_row_links, simp_all add: del_inbound_row_def)
qed

theorem inbound_delete_leaves_no_reference_witness:
  "list_all2 (\<lambda>c c'. c_id c' = c_id c \<and> \<not> bound_to 1 c') (db_clients ex_db) (db_clients (UpdateClientsOnInboundDelete 1 ''in-1'' ex_db))"
  using inbound_delete_leaves_no_reference [OF ex_ids, of 1 "''in-1''"] by (rule list_all2_mono) simp

text \<open>
  Adding an inbound to a client that does not have it and deleting it again gives the client its inbound
  list and its links back.
\<close>

lemma inbound_add_delete_round_trip:
  assumes "unmarshal [] (c_inbounds c) = Inr ids" and "i \<notin> set ids"
    and "unmarshal [] (c_links c) = Inr ls"
    and "\<forall>l \<in> set ls. link_remark l \<noteq> ib_tag ib \<and> \<not> isNodeLinkFor (link_remark l) (ib_tag ib) ns"
  shows "unmarshal [] (c_inbounds (del_inbound_row ns i (ib_tag ib) (add_inbound_row e ib i c))) = Inr ids
    \<and> unmarshal [] (c_links (del_inbound_row ns i (ib_tag ib) (add_inbound_row e ib i c))) = Inr ls"
  using add_del_inbound_row [OF assms] by simp

end
