(* ===== verification/JobProps.thy ===== *)
theory JobProps
  imports ClientJobsInv
begin

text \<open>
  The properties of the reset schedule and of the jobs that run on it.
\<close>

section \<open>A small panel\<close>

definition jx_carol :: client where
  "jx_carol = zero_client\<lparr>c_id := 1, c_name := ''carol'', c_inbounds := RawVal Compact [4],
     c_auto_reset := True, c_reset_dom := 31, c_next_reset := 1600000000, c_up := 5, c_down := 7\<rparr>"

definition jx_dave :: client where
  "jx_dave = zero_client\<lparr>c_id := 2, c_name := ''dave'', c_enable := True, c_inbounds := RawVal Compact [5],
     c_volume := 100, c_up := 60, c_down := 70, c_tg_id := 42, c_desc := ''note''\<rparr>"

definition jx_erin :: client where
  "jx_erin = zero_client\<lparr>c_id := 3, c_name := ''erin'', c_enable := True, c_inbounds := RawVal Compact [5],
     c_volume := 100, c_up := 60, c_down := 30, c_expiry := 1700003600\<rparr>"

definition jx_db :: db where
  "jx_db = \<lparr>db_clients = [jx_carol, jx_dave, jx_erin], db_inbounds = [], db_nodes = [], db_changes = [], db_next_id = 4\<rparr>"

definition jx_world :: world where
  "jx_world = \<lparr>w_db = jx_db, w_last_update = 0, w_seq = 0, w_hub = 0, w_events = [],
     w_global = \<lparr>gr_next = 1600000000, gr_armed = ''@daily|UTC''\<rparr>\<rparr>"


definition jx_now :: int where
  "jx_now = 1700000000"

definition all_ok :: "stmt \<Rightarrow> bool" where
  "all_ok st = False"

lemma jx_inv: "db_inv jx_db" by code_simp
lemma jx_clock: "clock_ok jx_now" by code_simp
lemma jx_utc: "loc_ok utc" by code_simp



section \<open>The schedule\<close>

text \<open>
  C4. The next monthly boundary is the first one after the given instant among the candidates of the
  following thirteen months, each the chosen day at the panel's local midnight or the last day of a month
  too short to hold it; it lies strictly ahead, by at most 95 days, so the search never runs out.
\<close>

theorem nextMonthlyReset_is_first:
  assumes "loc_ok loc" and "1 \<le> mday" and "local_civil loc frm = (y, m, d)"
  shows "find (\<lambda>t. t > frm) (month_candidates 13 loc mday y m) = Some (nextMonthlyReset loc frm mday)
    \<and> frm < nextMonthlyReset loc frm mday \<and> nextMonthlyReset loc frm mday \<le> frm + 95 * 86400"
  using nextMonthlyReset_first [OF assms] by simp

theorem nextMonthlyReset_is_first_witness:
  "jx_now < nextMonthlyReset utc jx_now 31 \<and> nextMonthlyReset utc jx_now 31 = 1701302400"
proof -
  have "local_civil utc jx_now = (2023, 11, 14)" by code_simp
  moreover have "nextMonthlyReset utc jx_now 31 = 1701302400" by code_simp
  ultimately show ?thesis using nextMonthlyReset_is_first [OF jx_utc, of 31 jx_now 2023 11 14] by simp
qed

text \<open>
  A row written with auto reset, a period and no delayed start always has a boundary, and a new
  client's lies in the future: it cannot be reset on the very next tick.
\<close>

lemma alignNextReset_sets_boundary:
  assumes "sched_range c" and "c_auto_reset c" and "\<not> c_delay_start c" and "has_period c"
    and "clock_ok dt" and "loc_ok loc"
  shows "0 < c_next_reset (alignNextReset c s dt loc) \<and> (s = None \<longrightarrow> dt < c_next_reset (alignNextReset c s dt loc))"
  using alignNextReset_future [OF assms] by blast

section \<open>The periodic reset\<close>



text \<open>
  A reset is not repeated: after a pass no row is due at the same instant, so a second pass then
  writes nothing and reports nothing, and the invariant of the table holds.
\<close>

lemma ResetClients_settles:
  assumes "ResetClients fails dt loc d = Inr (ro, d')" and "db_inv d" and "clock_ok dt" and "loc_ok loc"
    and "\<not> fails' SFindDelayed" and "\<not> fails' SFindDue"
  shows "ResetClients fails' dt loc d' = Inr (\<lparr>ro_inbounds = [], ro_reenabled = [], ro_wrote = False\<rparr>, d') \<and> db_inv d'"
  using ResetClients_idle [OF ResetClients_settled [OF assms(1-4)] assms(5,6)] ResetClients_inv [OF assms(1-4)] by simp

section \<open>Depletion\<close>



text \<open>
  Every client whose enable flag flips in a pass, off by depletion or on again by a reset, is in the list
  that is fanned out to the nodes, and its inbounds are in the list to be updated in the core.
\<close>

lemma deplete_reports_every_flip:
  assumes "deplete_tx fails th dt loc d = Inr (out, d')" and "ids_ok d"
    and "c \<in> set (db_clients d)" and "c' \<in> set (db_clients d')" and "c_id c' = c_id c" and "c_enable c' \<noteq> c_enable c"
  shows "c_name c \<in> set (do_changed out) \<and> set (unmarshal_ignore [] (c_inbounds c)) \<subseteq> set (do_inbounds out)"
proof -
  obtain ro d1 where cl: "db_clients d' = map (deplete_row dt) (map (tick_row dt loc) (db_clients d))"
    using deplete_tx_Inr [OF assms(1,2)] by metis
  then obtain c0 where c0: "c0 \<in> set (db_clients d)" "c' = deplete_row dt (tick_row dt loc c0)" using assms(4) by auto
  then have "c_id c0 = c_id c" using assms(5) by (simp add: deplete_row_def split: if_splits)
  then have "c0 = c" using c0 assms(2,3) distinct_map_eqD [of c_id "db_clients d" c0 c] by (simp add: ids_ok_def)
  with c0 assms(6) show ?thesis using flip_reported [OF assms(1-3)] by simp
qed

text \<open>
  A pass that finds nothing to reset and nobody over a limit writes nothing and does not wake the hub: the
  tables, the change time stamp and its sequence number stay.
\<close>

lemma DepleteClients_idle_is_silent:
  assumes "DepleteClients fails cfg th dt loc w = (r, w')" and "ids_ok (w_db w)"
    and "\<forall>c \<in> set (db_clients (w_db w)). \<not> first_use c \<and> \<not> period_due dt c \<and> \<not> over_limit dt c"
  shows "w_db w' = w_db w \<and> w_last_update w' = w_last_update w \<and> w_seq w' = w_seq w \<and> w_hub w' = w_hub w"
proof (cases "deplete_tx fails th dt loc (w_db w)")
  case (Inl e)
  then show ?thesis using assms(1) by (auto simp: DepleteClients_def)
next
  case (Inr od)
  obtain out d where od: "od = (out, d)" by (cases od)
  obtain ro d1 where R: "ResetClients fails dt loc (w_db w) = Inr (ro, d1)"
    and dep: "do_depleted out = filter (over_limit dt) (map (tick_row dt loc) (db_clients (w_db w)))"
    and marked: "do_marked out \<longleftrightarrow> ro_wrote ro \<or> do_depleted out \<noteq> []" and same: "\<not> do_marked out \<Longrightarrow> d = w_db w"
    using deplete_tx_Inr [OF Inr [unfolded od] assms(2)] by metis
  have "map (tick_row dt loc) (db_clients (w_db w)) = db_clients (w_db w)"
    using assms(3) by (intro map_idI) (simp add: tick_row_def)
  then have "do_depleted out = []" using dep assms(3) by simp
  then have "\<not> do_marked out" using marked ResetClients_Inr(7) [OF R assms(2)] assms(3) by auto
  with same show ?thesis
    using assms(1) Inr od by (auto simp: DepleteClients_def publishClientEvents_def Let_def)
qed

section \<open>Warnings\<close>

text \<open>
  A client is warned before a limit, not after it, and the warning names a margin that really tripped: the
  days are the remaining time rounded up and within the threshold, the bytes are what is left and within
  the threshold.
\<close>

lemma expiring_names_the_margin:
  assumes "near_limit th dt c" and "warn_range th dt c"
  shows "\<not> over_limit dt c
    \<and> (xc_days_left (expiring_of th dt c) > 0 \<or> xc_bytes_left (expiring_of th dt c) > 0)
    \<and> (xc_days_left (expiring_of th dt c) > 0 \<longrightarrow>
         xc_days_left (expiring_of th dt c) = (c_expiry c - dt + 86399) div 86400 \<and> xc_days_left (expiring_of th dt c) \<le> th_expire_days th)
    \<and> (xc_bytes_left (expiring_of th dt c) > 0 \<longrightarrow>
         xc_bytes_left (expiring_of th dt c) = c_volume c - (c_up c + c_down c) \<and> xc_bytes_left (expiring_of th dt c) < th_volume_bytes th)"
  using expiring_margin [OF assms] near_not_over [OF assms(1)] by blast

text \<open>
  The operator's notes never reach a customer: two passes over clients that differ in nothing but their
  descriptions publish the same kinds, subjects (the suppressor's key) and customer targets.
\<close>

lemma descriptions_stay_with_the_operator:
  assumes "map (\<lambda>c. c\<lparr>c_desc := []\<rparr>) ds = map (\<lambda>c. c\<lparr>c_desc := []\<rparr>) ds'"
    and "map (\<lambda>x. x\<lparr>xc_desc := []\<rparr>) xs = map (\<lambda>x. x\<lparr>xc_desc := []\<rparr>) xs'"
  shows "map (\<lambda>e. (ev_kind e, ev_subject e, event_targets e)) (clientEvents ds xs)
    = map (\<lambda>e. (ev_kind e, ev_subject e, event_targets e)) (clientEvents ds' xs')"
  using assms by (rule clientEvents_targets)

section \<open>The global reset\<close>

text \<open>
  A tick of the global reset either leaves every client alone, or (only when the armed boundary belongs
  to the current schedule and has been reached) commits the reset together with the next boundary: all
  clients enabled, no traffic lost, and non-negative counters back at zero.
\<close>

lemma global_reset_commits_with_boundary:
  assumes "ResetTrafficJob_Run fails parse spec zone now w = (done, w')"
  shows "(\<not> done \<and> w_db w' = w_db w) \<or>
    (done \<and> (\<exists>sp z sch. spec = Inr sp \<and> zone = Inr z \<and> parse sp = Some sch
       \<and> gr_armed (w_global w) = GlobalResetArmedFor sp z \<and> gr_next (w_global w) \<le> now
       \<and> w_global w' = \<lparr>gr_next = sch now, gr_armed = GlobalResetArmedFor sp z\<rparr>)
     \<and> list_all2 (\<lambda>c c'. c_enable c' \<and> c_total_up c' + c_up c' = c_total_up c + c_up c
         \<and> c_total_down c' + c_down c' = c_total_down c + c_down c
         \<and> (0 \<le> c_up c \<and> 0 \<le> c_down c \<longrightarrow> c_up c' = 0 \<and> c_down c' = 0)) (db_clients (w_db w)) (db_clients (w_db w')))"
  using job_cases [OF assms] reset_all_row_facts by (auto simp: list_all2_map2 intro!: list_all2_refl)

definition jx_cron :: "string \<Rightarrow> (int \<Rightarrow> int) option" where
  "jx_cron sp = (if sp = ''@daily'' then Some (\<lambda>t. (t div 86400 + 1) * 86400) else None)"

lemma jx_run: "fst (ResetTrafficJob_Run all_ok jx_cron (Inr ''@daily'') (Inr ''UTC'') jx_now jx_world)" by code_simp

text \<open>
  After a committed reset every tick before the new boundary, under the same schedule and zone, does
  nothing: nobody is reset twice for one boundary, whatever fails later.
\<close>

lemma global_reset_runs_once:
  assumes "ResetTrafficJob_Run fails parse (Inr sp) (Inr z) now w = (True, w')" and "parse sp = Some sch"
    and "now' < sch now" and "0 \<le> now'"
  shows "ResetTrafficJob_Run fails' parse (Inr sp) (Inr z) now' w' = (False, w')"
  using assms by (rule job_waits)

end
