(* ===== verification/NotifyInv.thy ===== *)
theory NotifyInv
  imports Notify
begin

text \<open>
  What the suppressor and the bus promise: state events go out exactly on transitions, rate-limited
  ones exactly when their cooldown is over (the pruned map behaves like one that is never pruned), and
  every subscriber handles a subsequence of what was published, in order, from bounded queues.
\<close>

section \<open>State events\<close>

text \<open>The family and health a state event reports.\<close>

fun state_of :: "event \<Rightarrow> (string \<times> bool) option" where
  "state_of e = (case ev_kind e of
     NodeUp \<Rightarrow> Some (''node'' @ '':'' @ ev_subject e, True)
   | NodeDown \<Rightarrow> Some (''node'' @ '':'' @ ev_subject e, False)
   | CoreUp \<Rightarrow> Some (''core'' @ '':'' @ ev_subject e, True)
   | CoreCrash \<Rightarrow> Some (''core'' @ '':'' @ ev_subject e, False)
   | OutboundUp \<Rightarrow> Some (''outbound'' @ '':'' @ ev_subject e, True)
   | OutboundDown \<Rightarrow> Some (''outbound'' @ '':'' @ ev_subject e, False)
   | _ \<Rightarrow> None)"

declare state_of.simps [simp del]

definition health_of :: "suppressor \<Rightarrow> string \<Rightarrow> bool" where
  "health_of s f = (case gget (s_health s) f of None \<Rightarrow> True | Some b \<Rightarrow> b)"

lemma prune_health [simp]: "s_health (prune now s) = s_health s"
  by (simp add: prune_def Let_def)

lemma allow_key_health: "allow_key k cd now s = (b, s') \<Longrightarrow> s_health s' = s_health s"
  by (auto simp: allow_key_def split: option.splits if_splits)

lemma stateChanged_health:
  "health_of (snd (stateChanged f h s)) g = (if g = f then h else health_of s g)"
  "fst (stateChanged f h s) \<longleftrightarrow> health_of s f \<noteq> h"
  by (auto simp: stateChanged_def health_of_def Let_def)

lemma health_of_prune [simp]: "health_of (prune now s) f = health_of s f"
  by (simp add: health_of_def)

lemma Decide_state:
  assumes "state_of e = Some (f, h)"
  shows "health_of (snd (Decide e t s)) g = (if g = f then h else health_of s g)"
    and "d_send (fst (Decide e t s)) \<longleftrightarrow> health_of s f \<noteq> h"
  using assms stateChanged_health [of f h "prune t s"]
  by (auto simp: Decide_def Let_def state_of.simps sent_def split: kind.splits prod.splits)

lemma Decide_no_state:
  assumes "state_of e = None"
  shows "health_of (snd (Decide e t s)) g = health_of s g"
proof -
  have "s_health (snd (Decide e t s)) = s_health s"
    using assms by (auto simp: Decide_def Let_def state_of.simps dest: allow_key_health split: kind.splits prod.splits)
  then show ?thesis by (simp add: health_of_def)
qed

text \<open>The values of a stream at which it changes, given the value before it.\<close>

fun changes :: "bool \<Rightarrow> bool list \<Rightarrow> bool list" where
  "changes p [] = []"
| "changes p (v # vs) = (if v = p then changes p vs else v # changes v vs)"

text \<open>What a stream reports about one family, and what of it is sent.\<close>

definition reported :: "string \<Rightarrow> (event \<times> int) list \<Rightarrow> bool list" where
  "reported f es = [h. (e, t) \<leftarrow> es, Some (g, h) \<leftarrow> [state_of e], g = f]"

definition delivered :: "string \<Rightarrow> (event \<times> int) list \<Rightarrow> decision list \<Rightarrow> bool list" where
  "delivered f es ds = [h. ((e, t), d) \<leftarrow> zip es ds, d_send d, Some (g, h) \<leftarrow> [state_of e], g = f]"

lemma decide_all_states:
  "delivered f es (fst (decide_all es s)) = changes (health_of s f) (reported f es)"
proof (induction es arbitrary: s)
  case (Cons et es)
  obtain e t where et: "et = (e, t)" by (cases et)
  obtain d s1 where D: "Decide e t s = (d, s1)" by (cases "Decide e t s")
  show ?case
  proof (cases "state_of e")
    case None
    then show ?thesis
      using Cons.IH [of s1] Decide_no_state [OF None, of t s f]
      by (simp add: et D reported_def delivered_def split: prod.splits) auto
  next
    case (Some gh)
    then show ?thesis
      using Cons.IH [of s1] Decide_state(1) [of e "fst gh" "snd gh" t s f] Decide_state(2) [of e "fst gh" "snd gh" t s]
      by (cases gh) (auto simp: et D reported_def delivered_def split: prod.splits)
  qed
qed (simp add: reported_def delivered_def)

lemma changes_distinct_adj: "distinct_adj (p # changes p vs)"
  by (induction vs arbitrary: p) (auto simp: distinct_adj_Cons)

section \<open>Cooldowns\<close>

definition cooldown_of :: "event \<Rightarrow> int option" where
  "cooldown_of e = (case ev_kind e of
     ClientExpiring \<Rightarrow> Some expiringCooldown | CPUHigh \<Rightarrow> Some metricCooldown | MemoryHigh \<Rightarrow> Some metricCooldown
   | LoginFailed \<Rightarrow> Some loginCooldown | _ \<Rightarrow> None)"

text \<open>The reference: the end of every cooldown ever started, nothing forgotten.\<close>

definition spec_allow :: "string \<Rightarrow> int \<Rightarrow> int \<Rightarrow> (string \<Rightarrow> int option) \<Rightarrow> bool \<times> (string \<Rightarrow> int option)" where
  "spec_allow k cd now m =
     (if (\<exists>u. m k = Some u \<and> now < u) then (False, m) else (True, m(k \<mapsto> now + cd)))"

fun spec_all :: "(event \<times> int) list \<Rightarrow> (string \<Rightarrow> int option) \<Rightarrow> bool list" where
  "spec_all [] m = []"
| "spec_all ((e, t) # es) m =
     (case cooldown_of e of
        None \<Rightarrow> spec_all es m
      | Some cd \<Rightarrow> (let (b, m') = spec_allow (sub_key e) cd t m in b # spec_all es m'))"

definition cooled :: "(event \<times> int) list \<Rightarrow> decision list \<Rightarrow> bool list" where
  "cooled es ds = [d_send d. ((e, t), d) \<leftarrow> zip es ds, cooldown_of e \<noteq> None]"

text \<open>The map holds what the history holds, less entries that are over.\<close>

definition pruned_to :: "int \<Rightarrow> (string \<Rightarrow> int option) \<Rightarrow> suppressor \<Rightarrow> bool" where
  "pruned_to t m s \<longleftrightarrow> gmap_ok (s_until s) \<and>
     (\<forall>k. gget (s_until s) k = m k \<or> (gget (s_until s) k = None \<and> (\<exists>u. m k = Some u \<and> u \<le> t)))"

lemma prune_until:
  assumes "gmap_ok (s_until s)"
  shows "gmap_ok (s_until (prune t s))"
    and "gget (s_until (prune t s)) k = gget (s_until s) k
      \<or> (gget (s_until (prune t s)) k = None \<and> (\<exists>u. gget (s_until s) k = Some u \<and> u \<le> t))"
  using assms gget_filter [OF assms, of "\<lambda>(k, u). t < u" k]
  by (auto simp: prune_def Let_def split: option.splits)

lemma pruned_to_prune:
  assumes "pruned_to t0 m s" and "t0 \<le> t"
  shows "pruned_to t m (prune t s)"
  unfolding pruned_to_def
proof (intro conjI allI)
  show "gmap_ok (s_until (prune t s))" using assms prune_until(1) by (simp add: pruned_to_def)
  fix k
  show "gget (s_until (prune t s)) k = m k \<or> (gget (s_until (prune t s)) k = None \<and> (\<exists>u. m k = Some u \<and> u \<le> t))"
    using assms prune_until(2) [of s t k] unfolding pruned_to_def by (metis order_trans)
qed

lemma allow_key_spec:
  assumes "pruned_to t m s" and "allow_key k cd t s = (b, s')" and "spec_allow k cd t m = (b', m')"
  shows "b = b'" and "pruned_to t m' s'"
proof -
  have k: "gget (s_until s) k = m k \<or> (gget (s_until s) k = None \<and> (\<exists>u. m k = Some u \<and> u \<le> t))"
    using assms(1) by (simp add: pruned_to_def)
  then show "b = b'"
    using assms(2,3) by (auto simp: allow_key_def spec_allow_def split: if_splits option.splits)
  with assms show "pruned_to t m' s'"
    by (auto simp: allow_key_def spec_allow_def pruned_to_def distinct_update split: if_splits option.splits)
qed

lemma Decide_cooled:
  assumes "cooldown_of e = Some cd" and "allow_key (sub_key e) cd t (prune t s) = (b, s1)"
  shows "d_send (fst (Decide e t s)) = b" and "s_until (snd (Decide e t s)) = s_until s1"
  using assms by (auto simp: Decide_def Let_def cooldown_of_def sent_def split: kind.splits if_splits)

lemma stateChanged_until: "s_until (snd (stateChanged f h s)) = s_until s"
  by (simp add: stateChanged_def Let_def)

lemma Decide_uncooled:
  assumes "cooldown_of e = None"
  shows "s_until (snd (Decide e t s)) = s_until (prune t s)"
  using assms stateChanged_until
  by (auto simp: Decide_def Let_def cooldown_of_def split: kind.splits prod.splits) (metis snd_conv)+

lemma decide_all_cooled:
  assumes "pruned_to t0 m s" and "sorted (t0 # map snd es)"
  shows "cooled es (fst (decide_all es s)) = spec_all es m"
  using assms
proof (induction es arbitrary: t0 m s)
  case (Cons et es)
  obtain e t where et: "et = (e, t)" by (cases et)
  obtain d s1 where D: "Decide e t s = (d, s1)" by (cases "Decide e t s")
  have times: "t0 \<le> t" "sorted (t # map snd es)" using Cons.prems(2) et by auto
  have p: "pruned_to t m (prune t s)" using pruned_to_prune [OF Cons.prems(1) times(1)] .
  show ?case
  proof (cases "cooldown_of e")
    case None
    have "pruned_to t m s1"
      using p Decide_uncooled [OF None, of t s] D by (simp add: pruned_to_def)
    from Cons.IH [OF this times(2)] None show ?thesis
      by (simp add: et D cooled_def split: prod.splits) (auto simp: Let_def)
  next
    case (Some cd)
    obtain b s2 where a: "allow_key (sub_key e) cd t (prune t s) = (b, s2)" by force
    obtain b' m' where sp: "spec_allow (sub_key e) cd t m = (b', m')" by force
    note eq = allow_key_spec [OF p a sp] and dec = Decide_cooled [OF Some a]
    have "pruned_to t m' s1" using eq(2) dec(2) D by (simp add: pruned_to_def)
    from Cons.IH [OF this times(2)] Some eq(1) dec(1) D show ?thesis
      by (simp add: et D cooled_def sp split: prod.splits) (auto simp: Let_def)
  qed
qed (simp add: cooled_def)

section \<open>Counting failed logins\<close>

text \<open>The failed logins of one source in a stream, and how many of them the alerts that were sent stand for.\<close>

definition failures_of :: "string \<Rightarrow> (event \<times> int) list \<Rightarrow> int" where
  "failures_of key es = (\<Sum>(e, t) \<leftarrow> es. if ev_kind e = LoginFailed \<and> sub_key e = key then 1 else 0)"

definition reported_failures :: "string \<Rightarrow> (event \<times> int) list \<Rightarrow> decision list \<Rightarrow> int" where
  "reported_failures key es ds =
     (\<Sum>((e, t), d) \<leftarrow> zip es ds. if ev_kind e = LoginFailed \<and> sub_key e = key then d_failures d else 0)"

definition pending :: "suppressor \<Rightarrow> string \<Rightarrow> int" where
  "pending s key = gget0 0 (s_failures s) key"

definition prunes :: "int \<Rightarrow> suppressor \<Rightarrow> bool" where
  "prunes t s \<longleftrightarrow> \<not> (case s_last_prune s of None \<Rightarrow> False | Some l \<Rightarrow> t - l < metricCooldown)"

lemma fold_gdel_pending: "gget0 (0::int) (fold (\<lambda>k m. if P k then gdel k m else m) ks m) key \<in> {0, gget0 0 m key}"
proof (induction ks arbitrary: m)
  case (Cons k ks)
  have "gget0 (0::int) (gdel k m) key \<in> {0, gget0 0 m key}" by (simp add: gget0_def)
  with Cons [of m] Cons [of "gdel k m"] show ?case by auto
qed simp

lemma prune_pending:
  "pending (prune t s) key \<in> {0, pending s key}" "\<not> prunes t s \<Longrightarrow> prune t s = s"
  using fold_gdel_pending [of "\<lambda>k. has_prefix k (kind_str LoginFailed @ '':'')" "map fst (filter (\<lambda>(k, u). \<not> t < u) (s_until s))" "s_failures s" key]
  by (auto simp: prune_def prunes_def pending_def Let_def)

lemma allow_key_failures: "allow_key k cd now s = (b, s') \<Longrightarrow> s_failures s' = s_failures s \<and> s_last_prune s' = s_last_prune s"
  by (auto simp: allow_key_def split: option.splits if_splits)

lemma Decide_failures:
  assumes "Decide e t s = (d, s')"
  shows "pending s' key + (if ev_kind e = LoginFailed \<and> sub_key e = key then d_failures d else 0)
      = pending (prune t s) key + (if ev_kind e = LoginFailed \<and> sub_key e = key then 1 else 0)"
    and "s_last_prune s' = s_last_prune (prune t s)"
    and "0 \<le> pending (prune t s) key \<Longrightarrow> 0 \<le> pending s' key"
proof -
  obtain b s1 where a: "allow_key (sub_key e) (case cooldown_of e of None \<Rightarrow> 0 | Some c \<Rightarrow> c) t (prune t s) = (b, s1)" by force
  have st: "s_failures (snd (stateChanged f h u)) = s_failures u \<and> s_last_prune (snd (stateChanged f h u)) = s_last_prune u" for f h u
    by (simp add: stateChanged_def Let_def)
  show "pending s' key + (if ev_kind e = LoginFailed \<and> sub_key e = key then d_failures d else 0)
      = pending (prune t s) key + (if ev_kind e = LoginFailed \<and> sub_key e = key then 1 else 0)"
    and "s_last_prune s' = s_last_prune (prune t s)"
    and "0 \<le> pending (prune t s) key \<Longrightarrow> 0 \<le> pending s' key"
    using assms a allow_key_failures [OF a] st [of "''node:'' @ ev_subject e"]
    by (auto simp: Decide_def Let_def pending_def gget0_def cooldown_of_def sent_def stateChanged_def split: kind.splits prod.splits if_splits)
qed
lemma failures_Cons:
  "failures_of key ((e, t) # es) = (if ev_kind e = LoginFailed \<and> sub_key e = key then 1 else 0) + failures_of key es"
  "reported_failures key ((e, t) # es) (d # ds)
    = (if ev_kind e = LoginFailed \<and> sub_key e = key then d_failures d else 0) + reported_failures key es ds"
  by (simp_all add: failures_of_def reported_failures_def)

lemma decide_all_failures_le:
  assumes "decide_all es s = (ds, s')" and "0 \<le> pending s key"
  shows "reported_failures key es ds + pending s' key \<le> failures_of key es + pending s key"
  using assms
proof (induction es arbitrary: s ds)
  case (Cons et es)
  obtain e t where et: "et = (e, t)" by (cases et)
  obtain d s1 ds1 where D: "Decide e t s = (d, s1)" and R: "decide_all es s1 = (ds1, s')" and ds: "ds = d # ds1"
    using Cons.prems(1) by (auto simp: et split: prod.splits)
  have p: "0 \<le> pending (prune t s) key" "pending (prune t s) key \<le> pending s key"
    using prune_pending(1) [of t s key] Cons.prems(2) by auto
  show ?case
    using Cons.IH [OF R Decide_failures(3) [OF D p(1)]] Decide_failures(1) [OF D, of key] p
    by (simp add: et ds failures_Cons)
qed (simp add: reported_failures_def failures_of_def)

lemma decide_all_failures_eq:
  assumes "decide_all es s = (ds, s')" and "s_last_prune s = Some l" and "\<forall>(e, t) \<in> set es. t - l < metricCooldown"
  shows "reported_failures key es ds + pending s' key = failures_of key es + pending s key"
  using assms
proof (induction es arbitrary: s ds)
  case (Cons et es)
  obtain e t where et: "et = (e, t)" by (cases et)
  obtain d s1 ds1 where D: "Decide e t s = (d, s1)" and R: "decide_all es s1 = (ds1, s')" and ds: "ds = d # ds1"
    using Cons.prems(1) by (auto simp: et split: prod.splits)
  have p: "prune t s = s" using Cons.prems(2,3) by (intro prune_pending(2)) (simp add: prunes_def et)
  have "s_last_prune s1 = Some l" using Decide_failures(2) [OF D] p Cons.prems(2) by simp
  with Cons.IH [OF R] Cons.prems(3) Decide_failures(1) [OF D, of key] p show ?case
    by (auto simp add: et ds failures_Cons)
qed (simp add: reported_failures_def failures_of_def)

lemma pending_new: "pending (prune t NewSuppressor) key = 0" "s_last_prune (prune t NewSuppressor) = Some t"
  by (simp_all add: prune_def NewSuppressor_def pending_def gget0_def)

section \<open>The bus\<close>

definition bus_inv :: "bus \<Rightarrow> event list \<Rightarrow> bool" where
  "bus_inv b pub \<longleftrightarrow> length (b_ch b) \<le> busBuffer \<and> subseq (b_ch b) pub \<and> distinct (map su_name (b_subs b)) \<and>
     (\<forall>s \<in> set (b_subs b). length (su_queue s) \<le> queueSize \<and> subseq (su_handled s @ su_queue s @ b_ch b) pub)"

lemma remove_sub_set: "set (remove_sub n ss) \<subseteq> set ss"
  by (induction ss) auto

lemma remove_sub_names: "distinct (map su_name ss) \<Longrightarrow> distinct (map su_name (remove_sub n ss)) \<and> n \<notin> su_name ` set (remove_sub n ss)"
  using remove_sub_set by (induction ss) (auto simp: image_iff, blast)

lemma subseq_drop_mid: "subseq (a @ x # b) c \<Longrightarrow> subseq (a @ b) c"
proof -
  have "subseq (a @ b) (a @ x # b)" by (simp add: subseq_append' list_emb_Cons)
  then show "subseq (a @ x # b) c \<Longrightarrow> subseq (a @ b) c" by (rule subseq_order.trans)
qed

lemma bus_inv_step:
  assumes "bus_step (b, pub) (b', pub')" and "bus_inv b pub"
  shows "bus_inv b' pub'"
  using assms(1)
proof (cases rule: bus_step.cases)
  case (Publish e)
  have "subseq xs pub \<Longrightarrow> subseq (xs @ [e]) (pub @ [e])" "subseq xs pub \<Longrightarrow> subseq xs (pub @ [e])" for xs
    by (auto simp: subseq_append_iff intro: list_emb_append2)
  with assms(2) Publish show ?thesis
    unfolding bus_inv_def bus_publish_def by (auto simp: append_assoc [symmetric] simp del: append_assoc)
next
  case (Subs n)
  with assms(2) show ?thesis
    using remove_sub_names [of "b_subs b" n] remove_sub_set [of n "b_subs b"]
    by (auto simp: bus_inv_def Subscribe_def)
next
  case (Unsubs n)
  with assms(2) show ?thesis
    using remove_sub_names [of "b_subs b" n] remove_sub_set [of n "b_subs b"]
    by (auto simp: bus_inv_def Unsubscribe_def)
next
  case Dispatch
  show ?thesis
  proof (cases "b_ch b")
    case (Cons e es)
    have "su_name \<circ> offer e = su_name" by (auto simp: offer_def)
    then have "distinct (map su_name (map (offer e) (b_subs b)))"
      using assms(2) by (simp add: bus_inv_def)
    moreover have "subseq es pub" using assms(2) Cons subseq_Cons' by (auto simp: bus_inv_def)
    moreover have "length (su_queue (offer e s)) \<le> queueSize \<and>
        subseq (su_handled (offer e s) @ su_queue (offer e s) @ es) pub" if "s \<in> set (b_subs b)" for s
      using assms(2) that Cons subseq_drop_mid [of "su_handled s @ su_queue s" e es pub]
      by (auto simp: bus_inv_def offer_def)
    ultimately show ?thesis
      using assms(2) Cons Dispatch by (auto simp: bus_inv_def dispatch_def)
  qed (use assms(2) Dispatch in \<open>simp add: dispatch_def\<close>)
next
  case (Work i)
  have w: "su_name (work s) = su_name s" "length (su_queue (work s)) \<le> length (su_queue s)"
    "su_handled (work s) @ su_queue (work s) @ xs = su_handled s @ su_queue s @ xs" for s xs
    by (simp_all add: work_def split: list.splits)
  show ?thesis
  proof (cases "i < length (b_subs b)")
    case True
    let ?s = "b_subs b ! i"
    have "map su_name ((b_subs b)[i := work ?s]) = map su_name (b_subs b)"
      using True by (simp add: map_update w list_update_same_conv)
    moreover have "?s \<in> set (b_subs b)" using True by simp
    then have "length (su_queue (work ?s)) \<le> queueSize \<and> subseq (su_handled (work ?s) @ su_queue (work ?s) @ b_ch b) pub"
      using assms(2) w(2) [of ?s] unfolding bus_inv_def w(3) by fastforce
    ultimately show ?thesis
      using assms(2) Work True
      by (auto simp: bus_inv_def runWorker_def dest!: set_update_subset_insert [THEN subsetD])
  qed (use assms(2) Work in \<open>simp add: runWorker_def\<close>)
qed (use assms(2) in \<open>auto simp: bus_inv_def Stop_def\<close>)

lemma bus_reach_inv: "bus_reach b pub \<Longrightarrow> bus_inv b pub"
proof -
  have "bus_step\<^sup>*\<^sup>* bp bp' \<Longrightarrow> bus_inv (fst bp) (snd bp) \<Longrightarrow> bus_inv (fst bp') (snd bp')" for bp bp'
    by (induction rule: rtranclp_induct) (auto intro: bus_inv_step)
  then show "bus_reach b pub \<Longrightarrow> bus_inv b pub"
    unfolding bus_reach_def by (force simp: NewBus_def bus_inv_def)
qed

end
