(* ===== verification/NotifyProps.thy ===== *)
theory NotifyProps
  imports NotifyInv
begin

text \<open>
  The properties of the suppressor and the bus.
\<close>

section \<open>Three failed logins\<close>

definition nx_login :: "string \<Rightarrow> event" where
  "nx_login ip = \<lparr>ev_kind = LoginFailed, ev_subject = ip, ev_data = NoData, ev_text = [], ev_at = None\<rparr>"

definition nx_run :: "(event \<times> int) list" where
  "nx_run = [(nx_login ''198.51.100.7'', 0), (nx_login ''198.51.100.7'', 1000000000), (nx_login ''198.51.100.7'', 61000000000)]"

text \<open>
  The sweep forgets swallowed attempts: two of them are counted, but the alert a quarter of an hour later
  stands for itself alone.
\<close>

lemma swept_failures_are_forgotten:
  "map d_failures (fst (decide_all (nx_run @ [(nx_login ''198.51.100.7'', 62000000000), (nx_login ''198.51.100.7'', 63000000000),
     (nx_login ''198.51.100.7'', 961000000000)]) NewSuppressor)) = [1, 0, 2, 0, 0, 1]"
  by code_simp

section \<open>Properties\<close>

text \<open>
  The suppressor announces transitions and nothing else: for every node, core and outbound, what is
  delivered of a stream of reports is exactly the sequence of its changes, starting from healthy. So an
  outage is announced once however often it is reported, and its end once.
\<close>

lemma state_events_are_transitions:
  "delivered f es (fst (decide_all es NewSuppressor)) = changes True (reported f es)
    \<and> distinct_adj (True # delivered f es (fst (decide_all es NewSuppressor)))"
  using decide_all_states [of f es NewSuppressor] changes_distinct_adj [of True "reported f es"]
  by (simp add: health_of_def NewSuppressor_def)

text \<open>
  C7. The pruned table of cooldowns decides like one that forgets nothing: on every stream in order of time,
  the rate-limited events that are sent are those of the reference that keeps the end of every cooldown.
\<close>

theorem pruned_cooldowns_refine_full_history:
  assumes "sorted (map snd es)"
  shows "cooled es (fst (decide_all es NewSuppressor)) = spec_all es (\<lambda>_. None)"
proof (cases es)
  case (Cons et es')
  have "pruned_to (snd et) (\<lambda>_. None) NewSuppressor" by (simp add: pruned_to_def NewSuppressor_def)
  from decide_all_cooled [OF this] assms show ?thesis by (simp add: Cons)
qed (simp add: cooled_def)

theorem pruned_cooldowns_refine_full_history_witness:
  "cooled nx_run (fst (decide_all nx_run NewSuppressor)) = [True, False, True]"
proof -
  have "sorted (map snd nx_run)" by code_simp
  moreover have "spec_all nx_run (\<lambda>_. None) = [True, False, True]"
    by (simp add: nx_run_def nx_login_def cooldown_of_def spec_allow_def sub_key_def loginCooldown_def minute_def second_def)
  ultimately show ?thesis using pruned_cooldowns_refine_full_history [of nx_run] by simp
qed

text \<open>
  No failed login is reported twice, and none is lost while the table is not swept: for every source, the
  counts carried by the alerts that were sent, plus the count still pending, never exceed the attempts; over
  a stream shorter than the sweep interval they are equal.
\<close>

lemma failed_logins_counted_once:
  assumes "decide_all ((e0, t0) # es) NewSuppressor = (ds, s)"
  shows "reported_failures key ((e0, t0) # es) ds + pending s key \<le> failures_of key ((e0, t0) # es)
    \<and> ((\<forall>(e, t) \<in> set es. t - t0 < metricCooldown) \<longrightarrow>
        reported_failures key ((e0, t0) # es) ds + pending s key = failures_of key ((e0, t0) # es))"
proof (intro conjI impI)
  have new: "pending NewSuppressor key = 0" by (simp add: pending_def NewSuppressor_def gget0_def)
  show "reported_failures key ((e0, t0) # es) ds + pending s key \<le> failures_of key ((e0, t0) # es)"
    using decide_all_failures_le [OF assms, of key] new by simp
  assume win: "\<forall>(e, t) \<in> set es. t - t0 < metricCooldown"
  obtain d s1 ds1 where D: "Decide e0 t0 NewSuppressor = (d, s1)" and R: "decide_all es s1 = (ds1, s)" and ds: "ds = d # ds1"
    using assms by (auto split: prod.splits)
  have last: "s_last_prune s1 = Some t0" using Decide_failures(2) [OF D] pending_new by simp
  show "reported_failures key ((e0, t0) # es) ds + pending s key = failures_of key ((e0, t0) # es)"
    using decide_all_failures_eq [OF R last win, of key] Decide_failures(1) [OF D, of key] pending_new(1) [of t0 key]
    by (simp add: ds failures_Cons split: if_splits)
qed

text \<open>
  C8. The bus never grows past its buffers and never reorders: in every interleaving of publishers, the
  dispatch loop, the workers and changes of subscribers, the buffers are bounded and what a subscriber's
  handler was called with, followed by what is queued for it, is a subsequence of what was published.
\<close>

theorem bus_bounded_and_ordered:
  assumes "bus_reach b pub" and "s \<in> set (b_subs b)"
  shows "length (b_ch b) \<le> busBuffer \<and> length (su_queue s) \<le> queueSize
    \<and> subseq (su_handled s @ su_queue s @ b_ch b) pub"
  using bus_reach_inv [OF assms(1)] assms(2) by (simp add: bus_inv_def)

theorem bus_bounded_and_ordered_witness:
  "subseq (su_handled (hd (b_subs (dispatch (bus_publish (nx_login ''a'') (Subscribe ''tg'' NewBus)))))
     @ [nx_login ''a'']) [nx_login ''a'']"
proof -
  let ?b = "dispatch (bus_publish (nx_login ''a'') (Subscribe ''tg'' NewBus))"
  have "bus_step\<^sup>*\<^sup>* (NewBus, []) (?b, [nx_login ''a''])"
    by (meson Dispatch Publish [of _ "[]", simplified] Subs rtranclp.rtrancl_into_rtrancl rtranclp.rtrancl_refl)
  then have "bus_reach ?b [nx_login ''a'']" by (simp add: bus_reach_def)
  moreover have "hd (b_subs ?b) \<in> set (b_subs ?b)" "su_queue (hd (b_subs ?b)) = [nx_login ''a'']" "b_ch ?b = []"
    by (simp_all add: dispatch_def bus_publish_def Subscribe_def NewBus_def offer_def busBuffer_def queueSize_def)
  ultimately show ?thesis using bus_bounded_and_ordered [of ?b "[nx_login ''a'']" "hd (b_subs ?b)"] by simp
qed

end
