(* ===== verification/NetAddr.thy ===== *)
theory NetAddr
  imports Prelude "HOL-Library.Word" "HOL-Library.Product_Lexorder" "HOL-Library.List_Lexorder" "HOL-Library.Char_ord"
begin

text \<open>
  Internet addresses as Go's \<^verbatim>\<open>net/netip\<close> has them, as far as the sources use them: parsing and printing,
  \<^verbatim>\<open>Unmap\<close>, \<^verbatim>\<open>Prefix\<close>, \<^verbatim>\<open>Compare\<close>, and the panel's own reduction of an address to the identity its limits
  count (\<^verbatim>\<open>normalizeSrc\<close> in \<^verbatim>\<open>core/tracker_conn.go\<close>).
\<close>

unbundle bit_operations_syntax

section \<open>Addresses\<close>

datatype addr = NoAddr | V4 "32 word" | V6 "128 word" string

definition is6 :: "addr \<Rightarrow> bool" where
  "is6 a = (case a of V6 _ _ \<Rightarrow> True | _ \<Rightarrow> False)"

definition addr_valid :: "addr \<Rightarrow> bool" where
  "addr_valid a \<longleftrightarrow> a \<noteq> NoAddr"

definition is4in6 :: "128 word \<Rightarrow> bool" where
  "is4in6 w \<longleftrightarrow> drop_bit 32 w = 0xFFFF"

definition Unmap :: "addr \<Rightarrow> addr" where
  "Unmap a = (case a of V6 w z \<Rightarrow> if is4in6 w then V4 (ucast w) else a | _ \<Rightarrow> a)"

text \<open>The network mask of \<open>n\<close> leading bits.\<close>

definition mask6 :: "nat \<Rightarrow> 128 word" where
  "mask6 n = NOT (mask (128 - n))"

text \<open>The address of \<^verbatim>\<open>a.Prefix(bits)\<close>, or none for an error.\<close>

definition prefix_addr :: "addr \<Rightarrow> nat \<Rightarrow> addr option" where
  "prefix_addr a bits =
     (case a of
        NoAddr \<Rightarrow> Some NoAddr
      | V4 w \<Rightarrow> if bits > 32 then None else Some (V4 (w AND NOT (mask (32 - bits))))
      | V6 w z \<Rightarrow> if bits > 128 then None else Some (V6 (w AND mask6 bits) []))"

definition IPv6IdentityPrefixBits :: nat where
  "IPv6IdentityPrefixBits = 64"

definition normalizeSrc :: "addr \<Rightarrow> addr" where
  "normalizeSrc a0 =
     (let a = Unmap a0
      in if \<not> is6 a then a
         else case prefix_addr a IPv6IdentityPrefixBits of None \<Rightarrow> a | Some p \<Rightarrow> p)"

section \<open>Order\<close>

definition addr_key :: "addr \<Rightarrow> int \<times> int \<times> string" where
  "addr_key a = (case a of NoAddr \<Rightarrow> (0, 0, []) | V4 w \<Rightarrow> (32, uint w, []) | V6 w z \<Rightarrow> (128, uint w, z))"

lemma addr_key_inj: "addr_key a = addr_key b \<longleftrightarrow> a = b"
  by (auto simp: addr_key_def word_uint_eq_iff split: addr.splits)

instantiation addr :: linorder
begin

definition less_eq_addr :: "addr \<Rightarrow> addr \<Rightarrow> bool" where
  "a \<le> b \<longleftrightarrow> addr_key a \<le> addr_key b"

definition less_addr :: "addr \<Rightarrow> addr \<Rightarrow> bool" where
  "a < b \<longleftrightarrow> addr_key a < addr_key b"

instance
  by standard (auto simp: less_eq_addr_def less_addr_def addr_key_inj simp flip: addr_key_inj)

end

text \<open>\<^verbatim>\<open>Compare\<close>: by length, then by value, then by zone.\<close>

definition addr_compare :: "addr \<Rightarrow> addr \<Rightarrow> int" where
  "addr_compare a b = (if a < b then -1 else if b < a then 1 else 0)"

section \<open>Printing\<close>

text \<open>Decimal and hexadecimal digits of a number below \<open>2 ^ 16\<close>, without leading zeros; it has at most 20 digits.\<close>

definition digit :: "int \<Rightarrow> char" where
  "digit n = (if n < 10 then char_of (48 + n) else char_of (87 + n))"

fun digits_fuel :: "nat \<Rightarrow> int \<Rightarrow> int \<Rightarrow> string \<Rightarrow> string" where
  "digits_fuel 0 b n acc = acc"
| "digits_fuel (Suc f) b n acc =
     (if n < b then digit n # acc else digits_fuel f b (n div b) (digit (n mod b) # acc))"

definition show_num :: "int \<Rightarrow> int \<Rightarrow> string" where
  "show_num b n = digits_fuel 20 b n []"

definition v4_byte :: "32 word \<Rightarrow> nat \<Rightarrow> int" where
  "v4_byte w i = uint (drop_bit (8 * (3 - i)) w AND 0xFF)"

definition v6_group :: "128 word \<Rightarrow> nat \<Rightarrow> int" where
  "v6_group w i = uint (drop_bit (16 * (7 - i)) w AND 0xFFFF)"

definition show4 :: "32 word \<Rightarrow> string" where
  "show4 w = show_num 10 (v4_byte w 0) @ ''.'' @ show_num 10 (v4_byte w 1) @ ''.'' @
     show_num 10 (v4_byte w 2) @ ''.'' @ show_num 10 (v4_byte w 3)"

text \<open>The first longest run of at least two zero groups, as start and length.\<close>

definition zero_run :: "int list \<Rightarrow> nat \<times> nat" where
  "zero_run gs =
     fold (\<lambda>i best. let l = length (takeWhile (\<lambda>g. g = 0) (drop i gs))
                     in if l \<ge> 2 \<and> l > snd best then (i, l) else best) [0..<length gs] (255, 0)"

fun join_groups :: "string list \<Rightarrow> string" where
  "join_groups [] = []"
| "join_groups [g] = g"
| "join_groups (g # h # gs) = g @ '':'' @ join_groups (h # gs)"

definition show6 :: "128 word \<Rightarrow> string" where
  "show6 w =
     (let gs = map (v6_group w) [0..<8]; (i, l) = zero_run gs; hex = show_num 16
      in if l = 0 then join_groups (map hex gs)
         else join_groups (map hex (take i gs)) @ ''::'' @ join_groups (map hex (drop (i + l) gs)))"

definition addr_string :: "addr \<Rightarrow> string" where
  "addr_string a =
     (case a of
        NoAddr \<Rightarrow> ''invalid IP''
      | V4 w \<Rightarrow> show4 w
      | V6 w z \<Rightarrow> (if is4in6 w then ''::ffff:'' @ show4 (ucast w) else show6 w) @ (if z = [] then [] else ''%'' @ z))"

section \<open>Parsing\<close>

definition is_digit :: "char \<Rightarrow> bool" where
  "is_digit c \<longleftrightarrow> 48 \<le> (of_char c :: int) \<and> (of_char c :: int) \<le> 57"

definition hex_val :: "char \<Rightarrow> int option" where
  "hex_val c = (let n = of_char c :: int in
     if 48 \<le> n \<and> n \<le> 57 then Some (n - 48)
     else if 97 \<le> n \<and> n \<le> 102 then Some (n - 87)
     else if 65 \<le> n \<and> n \<le> 70 then Some (n - 55)
     else None)"

text \<open>
  \<^verbatim>\<open>parseIPv4Fields\<close>: \<open>val\<close> and \<open>dig\<close> are the current octet and its number of digits, \<open>octets\<close> the ones
  before it.
\<close>

fun parse4_loop :: "string \<Rightarrow> int list \<Rightarrow> int \<Rightarrow> nat \<Rightarrow> int list option" where
  "parse4_loop [] octets val dig = (if length octets < 3 then None else Some (octets @ [val]))"
| "parse4_loop (c # cs) octets val dig =
     (if is_digit c then
        (if dig = 1 \<and> val = 0 then None
         else let v = val * 10 + (of_char c - 48) in if v > 255 then None else parse4_loop cs octets v (dig + 1))
      else if c = CHR ''.'' then
        (if dig = 0 \<or> cs = [] \<or> length octets = 3 then None else parse4_loop cs (octets @ [val]) 0 0)
      else None)"

definition parse4_fields :: "string \<Rightarrow> int list option" where
  "parse4_fields s = parse4_loop s [] 0 0"

definition bytes_word :: "int list \<Rightarrow> 'a::len word" where
  "bytes_word bs = word_of_int (fold (\<lambda>b acc. acc * 256 + b) bs 0)"

text \<open>The leading hexadecimal digits; more than four of them fail.\<close>

fun hex_run :: "string \<Rightarrow> nat \<Rightarrow> int \<Rightarrow> (nat \<times> int \<times> string) option" where
  "hex_run [] off acc = Some (off, acc, [])"
| "hex_run (c # cs) off acc =
     (case hex_val c of
        None \<Rightarrow> Some (off, acc, c # cs)
      | Some v \<Rightarrow> if off > 3 then None else hex_run cs (off + 1) (acc * 16 + v))"

text \<open>
  The loop of \<^verbatim>\<open>parseIPv6\<close>; it adds at least two bytes a round, so eight rounds are enough. The result is
  the bytes read, the position of the \<^verbatim>\<open>::\<close> and the rest of the text.
\<close>

fun parse6_loop :: "nat \<Rightarrow> string \<Rightarrow> int list \<Rightarrow> nat option \<Rightarrow> (int list \<times> nat option \<times> string) option" where
  "parse6_loop 0 s ip ell = Some (ip, ell, s)"
| "parse6_loop (Suc n) s ip ell =
     (if length ip \<ge> 16 then Some (ip, ell, s)
      else case hex_run s 0 0 of
        None \<Rightarrow> None
      | Some (off, acc, rest) \<Rightarrow>
          if off = 0 then None
          else if rest \<noteq> [] \<and> hd rest = CHR ''.'' then
            (if ell = None \<and> length ip \<noteq> 12 then None
             else if length ip + 4 > 16 then None
             else case parse4_fields s of None \<Rightarrow> None | Some f \<Rightarrow> Some (ip @ f, ell, []))
          else let ip' = ip @ [acc div 256, acc mod 256] in
            (case rest of
               [] \<Rightarrow> Some (ip', ell, [])
             | c # cs \<Rightarrow>
                 if c \<noteq> CHR '':'' then None
                 else (case cs of
                   [] \<Rightarrow> None
                 | d # ds \<Rightarrow>
                     if d = CHR '':'' then
                       (if ell \<noteq> None then None
                        else if ds = [] then Some (ip', Some (length ip'), [])
                        else parse6_loop n ds ip' (Some (length ip')))
                     else parse6_loop n cs ip' ell)))"

definition expand6 :: "int list \<Rightarrow> nat option \<Rightarrow> int list option" where
  "expand6 ip ell =
     (if length ip < 16 then
        (case ell of None \<Rightarrow> None | Some e \<Rightarrow> Some (take e ip @ replicate (16 - length ip) 0 @ drop e ip))
      else if ell \<noteq> None then None else Some ip)"

definition parse6 :: "string \<Rightarrow> addr option" where
  "parse6 s0 =
     (let s = takeWhile (\<lambda>c. c \<noteq> CHR ''%'') s0; zone = drop (Suc (length s)) s0 in
      if length s < length s0 \<and> zone = [] then None
      else if has_prefix s ''::'' \<and> length s = 2 then Some (V6 0 zone)
      else let (s1, ell) = (if has_prefix s ''::'' then (drop 2 s, Some 0) else (s, None)) in
        case parse6_loop 8 s1 [] ell of
          None \<Rightarrow> None
        | Some (ip, ell', rest) \<Rightarrow>
            if rest \<noteq> [] then None else map_option (\<lambda>bs. V6 (bytes_word bs) zone) (expand6 ip ell'))"

definition ParseAddr :: "string \<Rightarrow> addr option" where
  "ParseAddr s =
     (case find (\<lambda>c. c \<in> {CHR ''.'', CHR '':'', CHR ''%''}) s of
        None \<Rightarrow> None
      | Some c \<Rightarrow>
          if c = CHR ''.'' then map_option (\<lambda>bs. V4 (bytes_word bs)) (parse4_fields s)
          else if c = CHR '':'' then parse6 s
          else None)"

section \<open>Identities\<close>

lemma normalizeSrc_cases:
  "normalizeSrc a = (case Unmap a of V6 w z \<Rightarrow> V6 (w AND mask6 64) [] | b \<Rightarrow> b)"
  by (simp add: normalizeSrc_def is6_def prefix_addr_def IPv6IdentityPrefixBits_def Let_def split: addr.splits)

text \<open>A mapped address is the address it maps.\<close>

lemma normalizeSrc_mapped:
  assumes "is4in6 w"
  shows "normalizeSrc (V6 w z) = normalizeSrc (V4 (ucast w))"
  using assms by (simp add: normalizeSrc_cases Unmap_def)

lemma bit_mask6: "bit (mask6 n) i \<longleftrightarrow> 128 - n \<le> i \<and> i < 128"
  by (auto simp: mask6_def bit_simps)

text \<open>Masked to its /64, no address looks mapped: bits 32 to 47 are gone.\<close>

lemma masked_not_mapped: "\<not> is4in6 (w AND mask6 64)"
proof
  assume "is4in6 (w AND mask6 64)"
  then have "bit (drop_bit 32 (w AND mask6 64)) 0 = bit (0xFFFF :: 128 word) 0" by (simp add: is4in6_def)
  then show False by (simp add: bit_drop_bit_eq bit_and_iff bit_mask6)
qed

lemma normalizeSrc_idem: "normalizeSrc (normalizeSrc a) = normalizeSrc a"
  by (auto simp: normalizeSrc_cases Unmap_def masked_not_mapped and.assoc split: addr.splits)

text \<open>Two native v6 addresses are one identity exactly if they agree on their first 64 bits.\<close>

lemma normalizeSrc_same_prefix:
  assumes "\<not> is4in6 v" and "\<not> is4in6 w"
  shows "normalizeSrc (V6 v y) = normalizeSrc (V6 w z) \<longleftrightarrow> drop_bit 64 v = drop_bit 64 w"
proof -
  have "v AND mask6 64 = w AND mask6 64 \<longleftrightarrow> (\<forall>i. 64 \<le> i \<and> i < 128 \<longrightarrow> bit v i = bit w i)"
    by (auto simp: bit_eq_iff bit_and_iff bit_mask6)
  also have "\<dots> \<longleftrightarrow> (\<forall>i. bit v (64 + i) = bit w (64 + i))"
  proof
    assume eq: "\<forall>i. 64 \<le> i \<and> i < 128 \<longrightarrow> bit v i = bit w i"
    show "\<forall>i. bit v (64 + i) = bit w (64 + i)"
    proof
      fix i
      show "bit v (64 + i) = bit w (64 + i)"
      proof (cases "64 + i < 128")
        case True
        with eq show ?thesis by simp
      next
        case False
        then show ?thesis using bit_imp_le_length [of v "64 + i"] bit_imp_le_length [of w "64 + i"] by auto
      qed
    qed
  next
    assume eq: "\<forall>i. bit v (64 + i) = bit w (64 + i)"
    show "\<forall>i. 64 \<le> i \<and> i < 128 \<longrightarrow> bit v i = bit w i"
    proof (intro allI impI)
      fix i :: nat assume "64 \<le> i \<and> i < 128"
      then show "bit v i = bit w i" using spec [OF eq, of "i - 64"] by simp
    qed
  qed
  also have "\<dots> \<longleftrightarrow> drop_bit 64 v = drop_bit 64 w"
  proof
    assume "drop_bit 64 v = drop_bit 64 w"
    then have "bit (drop_bit 64 v) i = bit (drop_bit 64 w) i" for i by simp
    then show "\<forall>i. bit v (64 + i) = bit w (64 + i)" by (simp add: bit_drop_bit_eq)
  qed (simp add: bit_eq_iff bit_drop_bit_eq)
  finally show ?thesis using assms by (simp add: normalizeSrc_cases Unmap_def)
qed

lemma normalizeSrc_valid: "addr_valid (normalizeSrc a) = addr_valid a"
  by (cases a) (simp_all add: normalizeSrc_cases Unmap_def addr_valid_def)

section \<open>Host and port\<close>

text \<open>\<^verbatim>\<open>net.SplitHostPort\<close>: the host and the port, or none for an error.\<close>

fun index_byte :: "char \<Rightarrow> string \<Rightarrow> nat option" where
  "index_byte c [] = None"
| "index_byte c (d # s) = (if c = d then Some 0 else map_option Suc (index_byte c s))"

fun last_byte :: "char \<Rightarrow> string \<Rightarrow> nat option" where
  "last_byte c [] = None"
| "last_byte c (d # s) = (case last_byte c s of Some i \<Rightarrow> Some (Suc i) | None \<Rightarrow> if c = d then Some 0 else None)"

definition SplitHostPort :: "string \<Rightarrow> (string \<times> string) option" where
  "SplitHostPort hp =
     (case last_byte CHR '':'' hp of
        None \<Rightarrow> None
      | Some i \<Rightarrow>
          (case (if hp ! 0 = CHR ''['' then
                   (case index_byte CHR '']'' hp of
                      None \<Rightarrow> None
                    | Some e \<Rightarrow> if e + 1 = i then Some (take (e - 1) (drop 1 hp), 1, e + 1) else None)
                 else if CHR '':'' \<in> set (take i hp) then None else Some (take i hp, 0, 0)) of
             None \<Rightarrow> None
           | Some (host, j, k) \<Rightarrow>
               if CHR ''['' \<in> set (drop j hp) \<or> CHR '']'' \<in> set (drop k hp) then None
               else Some (host, drop (i + 1) hp)))"

definition SplitHost :: "string \<Rightarrow> string option" where
  "SplitHost hp = map_option fst (SplitHostPort hp)"

end
