(* ===== verification/LoginGuard.thy ===== *)
theory LoginGuard
  imports NetAddr
begin

text \<open>
  The login rate limiter (\<^verbatim>\<open>service/loginguard.go\<close>): one row per source address, user name and two-factor
  prompt address, its policy (\<^verbatim>\<open>planLoginFailure\<close>) and the service operations on the table. Times are unix
  seconds. A row's primary key is not modelled: rows are found by scope and key, which a unique index
  covers.
\<close>

section \<open>Rows and policy\<close>

definition loginScopeIP :: string where "loginScopeIP = ''ip''"
definition loginScopeUser :: string where "loginScopeUser = ''user''"
definition loginScopePrompt :: string where "loginScopePrompt = ''prompt''"
definition promptBudgetFactor :: int where "promptBudgetFactor = 10"
definition loginAttemptRetention :: int where "loginAttemptRetention = 3600"

record login_attempt =
  la_scope :: string
  la_key :: string
  la_failures :: int
  la_window_start :: int
  la_banned_until :: int

definition new_attempt :: "string \<Rightarrow> string \<Rightarrow> login_attempt" where
  "new_attempt sc k = \<lparr>la_scope = sc, la_key = k, la_failures = 0, la_window_start = 0, la_banned_until = 0\<rparr>"

record guard_config =
  g_max :: int
  g_window :: int
  g_ban :: int

definition guard_enabled :: "guard_config \<Rightarrow> bool" where
  "guard_enabled cfg \<longleftrightarrow> g_max cfg > 0 \<and> g_window cfg > 0 \<and> g_ban cfg > 0"

text \<open>\<open>settings\<close> is what reading the three settings gives: attempts, and two times in minutes.\<close>

definition guard_config_of :: "(int \<times> int \<times> int) res \<Rightarrow> guard_config res" where
  "guard_config_of settings =
     rbind settings (\<lambda>(m, w, b). Inr \<lparr>g_max = m, g_window = i64 (w * 60), g_ban = i64 (b * 60)\<rparr>)"

definition loginBanRemaining :: "login_attempt \<Rightarrow> int \<Rightarrow> int" where
  "loginBanRemaining row now = (if la_banned_until row \<le> now then 0 else la_banned_until row - now)"

text \<open>The second half of the policy: count the failure, and ban at the limit.\<close>

definition count_failure :: "login_attempt \<Rightarrow> int \<Rightarrow> guard_config \<Rightarrow> login_attempt" where
  "count_failure row now cfg =
     (let row1 = (if la_window_start row = 0 \<or> now - la_window_start row \<ge> g_window cfg
                  then row\<lparr>la_window_start := now, la_failures := 1\<rparr>
                  else row\<lparr>la_failures := la_failures row + 1\<rparr>)
      in if la_failures row1 \<ge> g_max cfg
         then row1\<lparr>la_banned_until := now + g_ban cfg, la_failures := 0,
                   la_window_start := (if la_scope row1 = loginScopeUser then now else 0)\<rparr>
         else row1)"

definition planLoginFailure :: "login_attempt \<Rightarrow> int \<Rightarrow> guard_config \<Rightarrow> login_attempt" where
  "planLoginFailure row now cfg =
     (if loginBanRemaining row now > 0 then row
      else if la_scope row = loginScopeUser \<and> la_banned_until row > 0 then
        (if la_window_start row > 0 \<and> now - la_window_start row < loginAttemptRetention
         then row\<lparr>la_window_start := now\<rparr>
         else count_failure (row\<lparr>la_banned_until := 0, la_failures := 0, la_window_start := 0\<rparr>) now cfg)
      else count_failure row now cfg)"

section \<open>Identities\<close>

definition normalizeLoginIP :: "string \<Rightarrow> string" where
  "normalizeLoginIP ip =
     (case ParseAddr ip of
        None \<Rightarrow> ip
      | Some a0 \<Rightarrow>
          let a = Unmap a0
          in if \<not> is6 a then addr_string a
             else case prefix_addr a IPv6IdentityPrefixBits of None \<Rightarrow> addr_string a | Some p \<Rightarrow> addr_string p)"

definition normalizeLoginName :: "(string \<Rightarrow> string) \<Rightarrow> string \<Rightarrow> string" where
  "normalizeLoginName lower name = ToLower lower (TrimSpace name)"

definition loginKeys :: "(string \<Rightarrow> string) \<Rightarrow> string \<Rightarrow> string \<Rightarrow> (string \<times> string) list" where
  "loginKeys lower ip username =
     (let a = normalizeLoginIP ip; n = normalizeLoginName lower username
      in (if a \<noteq> [] then [(loginScopeIP, a)] else []) @ (if n \<noteq> [] then [(loginScopeUser, n)] else []))"

definition banKeys :: "(string \<Rightarrow> string) \<Rightarrow> string \<Rightarrow> string \<Rightarrow> (string \<times> string) list" where
  "banKeys lower ip username =
     loginKeys lower ip username @
     (let a = normalizeLoginIP ip in if a \<noteq> [] then [(loginScopePrompt, a)] else [])"

section \<open>The table\<close>

type_synonym attempts = "login_attempt list"

definition at_key :: "login_attempt \<Rightarrow> string \<times> string" where
  "at_key r = (la_scope r, la_key r)"

definition attempts_ok :: "attempts \<Rightarrow> bool" where
  "attempts_ok t \<longleftrightarrow> distinct (map at_key t)"

text \<open>The statements that may fail.\<close>

datatype lfault = FRead string string | FSave string string | FClear string string | FSweep

text \<open>The run in which nothing fails.\<close>

abbreviation no_fault :: "lfault \<Rightarrow> bool" where
  "no_fault \<equiv> \<lambda>_. False"

definition find_row :: "attempts \<Rightarrow> string \<times> string \<Rightarrow> login_attempt option" where
  "find_row t k = find (\<lambda>r. at_key r = k) t"

definition find_attempt :: "(lfault \<Rightarrow> bool) \<Rightarrow> attempts \<Rightarrow> string \<Rightarrow> string \<Rightarrow> login_attempt res" where
  "find_attempt fails t sc k =
     (if fails (FRead sc k) then Inl EDb
      else Inr (case find_row t (sc, k) of None \<Rightarrow> new_attempt sc k | Some r \<Rightarrow> r))"

definition put_row :: "login_attempt \<Rightarrow> attempts \<Rightarrow> attempts" where
  "put_row r t =
     (if at_key r \<in> at_key ` set t then map (\<lambda>x. if at_key x = at_key r then r else x) t else t @ [r])"

definition BanRemaining :: "(lfault \<Rightarrow> bool) \<Rightarrow> (string \<Rightarrow> string) \<Rightarrow> guard_config res \<Rightarrow> int \<Rightarrow> string \<Rightarrow> string \<Rightarrow> attempts \<Rightarrow> int" where
  "BanRemaining fails lower cfg now ip username t =
     (case cfg of
        Inl _ \<Rightarrow> 0
      | Inr c \<Rightarrow>
          if \<not> guard_enabled c then 0
          else fold (\<lambda>(sc, k) longest.
                 case find_attempt fails t sc k of
                   Inl _ \<Rightarrow> longest
                 | Inr row \<Rightarrow> (let remaining = loginBanRemaining row now in if remaining > longest then remaining else longest))
               (banKeys lower ip username) 0)"

definition bump :: "(lfault \<Rightarrow> bool) \<Rightarrow> string \<Rightarrow> string \<Rightarrow> int \<Rightarrow> guard_config \<Rightarrow> attempts \<Rightarrow> attempts" where
  "bump fails sc k now cfg t =
     (case find_attempt fails t sc k of
        Inl _ \<Rightarrow> t
      | Inr row \<Rightarrow>
          let row1 = (planLoginFailure row now cfg)\<lparr>la_scope := sc, la_key := k\<rparr>
          in if fails (FSave sc k) then t else put_row row1 t)"

definition sweep_cutoff :: "int \<Rightarrow> guard_config \<Rightarrow> int" where
  "sweep_cutoff now cfg = now - g_window cfg - loginAttemptRetention"

definition swept :: "int \<Rightarrow> guard_config \<Rightarrow> login_attempt \<Rightarrow> bool" where
  "swept now cfg r \<longleftrightarrow> la_banned_until r \<le> now \<and> la_window_start r \<le> sweep_cutoff now cfg"

definition sweep_attempts :: "(lfault \<Rightarrow> bool) \<Rightarrow> int \<Rightarrow> guard_config \<Rightarrow> attempts \<Rightarrow> attempts" where
  "sweep_attempts fails now cfg t = (if fails FSweep then t else filter (\<lambda>r. \<not> swept now cfg r) t)"

definition RecordFailure ::
  "(lfault \<Rightarrow> bool) \<Rightarrow> (string \<Rightarrow> string) \<Rightarrow> guard_config res \<Rightarrow> int \<Rightarrow> string \<Rightarrow> string \<Rightarrow> attempts \<Rightarrow> attempts" where
  "RecordFailure fails lower cfg now ip username t =
     (case cfg of
        Inl _ \<Rightarrow> t
      | Inr c \<Rightarrow>
          if \<not> guard_enabled c then t
          else sweep_attempts fails now c
                 (fold (\<lambda>(sc, k). bump fails sc k now c) (loginKeys lower ip username) t))"

definition RecordPrompt :: "(lfault \<Rightarrow> bool) \<Rightarrow> guard_config res \<Rightarrow> int \<Rightarrow> string \<Rightarrow> attempts \<Rightarrow> attempts" where
  "RecordPrompt fails cfg now ip t =
     (case cfg of
        Inl _ \<Rightarrow> t
      | Inr c \<Rightarrow>
          if \<not> guard_enabled c then t
          else
            let c1 = c\<lparr>g_max := i64 (g_max c * promptBudgetFactor)\<rparr>; key = normalizeLoginIP ip
            in if key = [] then t
               else sweep_attempts fails now c1 (bump fails loginScopePrompt key now c1 t))"

definition RecordSuccess :: "(lfault \<Rightarrow> bool) \<Rightarrow> (string \<Rightarrow> string) \<Rightarrow> string \<Rightarrow> string \<Rightarrow> attempts \<Rightarrow> attempts" where
  "RecordSuccess fails lower ip username t =
     fold (\<lambda>(sc, k) t. if fails (FClear sc k) then t else filter (\<lambda>r. at_key r \<noteq> (sc, k)) t)
       (banKeys lower ip username) t"

definition ClearAll :: "attempts \<Rightarrow> attempts" where
  "ClearAll t = []"

record ban_info =
  bi_scope :: string
  bi_key :: string
  bi_failures :: int
  bi_remaining :: int

definition ActiveBans :: "int \<Rightarrow> nat \<Rightarrow> attempts \<Rightarrow> ban_info list" where
  "ActiveBans now limit t =
     map (\<lambda>r. \<lparr>bi_scope = la_scope r, bi_key = la_key r, bi_failures = la_failures r, bi_remaining = loginBanRemaining r now\<rparr>)
       (filter (\<lambda>r. \<not> loginBanRemaining r now \<le> 0)
         (take limit (sort_by (\<lambda>a b. la_banned_until a > la_banned_until b)
           (filter (\<lambda>r. la_banned_until r > now) t))))"

section \<open>The policy of one row\<close>

text \<open>A row's history under a list of failure times.\<close>

definition plan_all :: "guard_config \<Rightarrow> int list \<Rightarrow> login_attempt \<Rightarrow> login_attempt" where
  "plan_all cfg ts row = fold (\<lambda>t r. planLoginFailure r t cfg) ts row"

lemma plan_all_simps [simp]:
  "plan_all cfg [] row = row"
  "plan_all cfg (t # ts) row = plan_all cfg ts (planLoginFailure row t cfg)"
  by (simp_all add: plan_all_def)

lemma plan_all_snoc: "plan_all cfg (ts @ [t]) row = planLoginFailure (plan_all cfg ts row) t cfg"
  by (simp add: plan_all_def)

lemma plan_scope [simp]: "la_scope (planLoginFailure row t cfg) = la_scope row" "la_key (planLoginFailure row t cfg) = la_key row"
  by (simp_all add: planLoginFailure_def count_failure_def Let_def)

text \<open>While counting, the row holds the number of failures since the first one.\<close>

lemma plan_all_counting:
  assumes "guard_enabled cfg" and "0 < t0" and "sorted (t0 # ts)" and "\<forall>t \<in> set ts. t - t0 < g_window cfg"
    and "int (length ts) + 1 < g_max cfg" and "row = new_attempt sc k"
  shows "plan_all cfg (t0 # ts) row = row\<lparr>la_window_start := t0, la_failures := int (length ts) + 1\<rparr>"
  using assms(3-5)
proof (induction ts rule: rev_induct)
  case Nil
  then show ?case
    using assms(1,2,6) by (simp add: planLoginFailure_def count_failure_def new_attempt_def loginBanRemaining_def guard_enabled_def)
next
  case (snoc t ts)
  then have IH: "plan_all cfg (t0 # ts) row = row\<lparr>la_window_start := t0, la_failures := int (length ts) + 1\<rparr>"
    by (auto simp: sorted_append)
  have "t0 \<le> t" "t - t0 < g_window cfg" using snoc.prems by (auto simp: sorted_append)
  then show ?case
    using snoc.prems(3) assms(2,6) unfolding append_Cons [symmetric] plan_all_snoc IH
    by (auto simp: planLoginFailure_def count_failure_def new_attempt_def loginBanRemaining_def Let_def)
qed

lemma plan_all_bans:
  assumes "guard_enabled cfg" and "0 < t0" and "sorted (t0 # ts @ [t])" and "t - t0 < g_window cfg"
    and "int (length ts) + 2 = g_max cfg"
  shows "la_banned_until (plan_all cfg (t0 # ts @ [t]) (new_attempt sc k)) = t + g_ban cfg"
proof -
  let ?row = "new_attempt sc k"
  have "\<forall>x \<in> set ts. x - t0 < g_window cfg" using assms(3,4) by (fastforce simp: sorted_append)
  then have "plan_all cfg (t0 # ts) ?row = ?row\<lparr>la_window_start := t0, la_failures := int (length ts) + 1\<rparr>"
    using assms by (intro plan_all_counting) (auto simp: sorted_append)
  then have "plan_all cfg ((t0 # ts) @ [t]) ?row
      = planLoginFailure (?row\<lparr>la_window_start := t0, la_failures := int (length ts) + 1\<rparr>) t cfg"
    by (simp only: plan_all_snoc)
  moreover have "0 < t" using assms(2,3) by auto
  ultimately show ?thesis
    using assms by (simp add: planLoginFailure_def count_failure_def new_attempt_def loginBanRemaining_def Let_def)
qed

text \<open>No user ban is renewed while the attack goes on: failures at most an hour apart leave a served ban served.\<close>

lemma plan_all_served_user:
  assumes "la_scope row = loginScopeUser" and "0 < la_banned_until row" and "la_banned_until row \<le> t0"
    and "0 < la_window_start row" and "sorted (t0 # ts)"
    and "successively (\<lambda>a b. b - a < loginAttemptRetention) (la_window_start row # ts)"
  shows "la_banned_until (plan_all cfg ts row) = la_banned_until row"
  using assms
proof (induction ts arbitrary: row t0)
  case (Cons t ts)
  let ?row' = "row\<lparr>la_window_start := t\<rparr>"
  have t: "t - la_window_start row < loginAttemptRetention" "t0 \<le> t" using Cons.prems by auto
  then have step: "planLoginFailure row t cfg = ?row'"
    using Cons.prems by (simp add: planLoginFailure_def loginBanRemaining_def)
  have "0 < t" using t(2) Cons.prems by simp
  then have "la_banned_until (plan_all cfg ts ?row') = la_banned_until ?row'"
    using Cons.prems t by (intro Cons.IH [of ?row' t]) (auto simp: successively_Cons)
  then show ?case by (simp add: step)
qed simp

section \<open>Sweeping\<close>

text \<open>
  Two rows that count alike from \<open>t\<close> on: equal, or equal up to the date of a ban that is over (which only
  a user row looks at).
\<close>

definition alike :: "int \<Rightarrow> login_attempt \<Rightarrow> login_attempt \<Rightarrow> bool" where
  "alike t a b \<longleftrightarrow> a = b \<or>
     (la_scope b \<noteq> loginScopeUser \<and> la_banned_until b \<le> t \<and> (\<exists>u \<le> t. a = b\<lparr>la_banned_until := u\<rparr>))"

lemma alike_remaining: "alike t a b \<Longrightarrow> t \<le> t' \<Longrightarrow> loginBanRemaining a t' = loginBanRemaining b t'"
  by (auto simp: alike_def loginBanRemaining_def)

lemma alike_plan:
  assumes "alike t a b" and "t \<le> t'"
  shows "alike t' (planLoginFailure a t' cfg) (planLoginFailure b t' cfg)"
proof (cases "a = b")
  case False
  then obtain u where d: "la_scope b \<noteq> loginScopeUser" "la_banned_until b \<le> t'" "u \<le> t'"
    and a: "a = b\<lparr>la_banned_until := u\<rparr>"
    using assms unfolding alike_def by (metis order_trans)
  show ?thesis
    unfolding a using d by (cases b) (auto simp: planLoginFailure_def loginBanRemaining_def count_failure_def alike_def Let_def)
qed (simp add: alike_def)

text \<open>A row the sweep drops counts like a row that was never there.\<close>

lemma swept_plan:
  assumes "swept now cfg r" and "guard_enabled cfg" and "now \<le> t" and "0 \<le> now" and "0 \<le> la_banned_until r"
  shows "alike t (planLoginFailure r t cfg) (planLoginFailure (new_attempt (la_scope r) (la_key r)) t cfg)"
  using assms by (cases r)
    (auto simp: swept_def sweep_cutoff_def planLoginFailure_def loginBanRemaining_def count_failure_def alike_def
      new_attempt_def guard_enabled_def loginAttemptRetention_def Let_def)

lemma alike_plan_all:
  assumes "alike t a b" and "sorted (t # ts)"
  shows "alike (last (t # ts)) (plan_all cfg ts a) (plan_all cfg ts b)"
  using assms by (induction ts arbitrary: t a b) (auto simp: alike_plan)

lemma swept_plan_all:
  assumes "swept now cfg r" and "guard_enabled cfg" and "0 \<le> now" and "0 \<le> la_banned_until r"
    and "sorted (now # ts @ [t])"
  shows "loginBanRemaining (plan_all cfg ts r) t = loginBanRemaining (plan_all cfg ts (new_attempt (la_scope r) (la_key r))) t"
proof (cases ts)
  case Nil
  then show ?thesis using assms by (auto simp: loginBanRemaining_def swept_def new_attempt_def)
next
  case (Cons t0 ts0)
  then have "alike t0 (planLoginFailure r t0 cfg) (planLoginFailure (new_attempt (la_scope r) (la_key r)) t0 cfg)"
    using assms by (intro swept_plan) auto
  then have "alike (last (t0 # ts0)) (plan_all cfg ts r) (plan_all cfg ts (new_attempt (la_scope r) (la_key r)))"
    using alike_plan_all [of t0 _ _ ts0] assms(5) Cons by (auto simp: sorted_append)
  moreover have "last (t0 # ts0) \<le> t" using assms(5) Cons by (auto simp: sorted_append)
  ultimately show ?thesis by (rule alike_remaining)
qed

text \<open>The row an attempt leaves behind is never swept by that attempt.\<close>

lemma plan_not_swept:
  assumes "guard_enabled cfg" and "0 \<le> now"
  shows "\<not> swept now cfg (planLoginFailure r now cfg)"
  using assms by (auto simp: swept_def sweep_cutoff_def planLoginFailure_def loginBanRemaining_def count_failure_def
      guard_enabled_def loginAttemptRetention_def Let_def)

section \<open>The table\<close>

definition row_of :: "attempts \<Rightarrow> string \<times> string \<Rightarrow> login_attempt" where
  "row_of t k = (case find_row t k of None \<Rightarrow> new_attempt (fst k) (snd k) | Some r \<Rightarrow> r)"

lemma row_of_pair: "(case find_row t (sc, k) of None \<Rightarrow> new_attempt sc k | Some r \<Rightarrow> r) = row_of t (sc, k)"
  by (simp add: row_of_def split: option.splits)

lemma find_row_key: "find_row t k = Some r \<Longrightarrow> at_key r = k \<and> r \<in> set t"
  by (auto simp: find_row_def dest: find_SomeD)

lemma row_of_key: "at_key (row_of t k) = k"
  by (auto simp: row_of_def new_attempt_def at_key_def dest: find_row_key split: option.splits)

lemma find_row_put: "find_row (put_row r t) k = (if k = at_key r then Some r else find_row t k)"
proof -
  have upd: "find (\<lambda>x. at_key x = k) (map (\<lambda>x. if at_key x = at_key r then r else x) t)
      = (if k = at_key r then Some r else find (\<lambda>x. at_key x = k) t)" if "at_key r \<in> at_key ` set t"
  proof -
    have "find (\<lambda>x. at_key x = k) (map (\<lambda>x. if at_key x = at_key r then r else x) xs)
      = (if k = at_key r then (if at_key r \<in> at_key ` set xs then Some r else None) else find (\<lambda>x. at_key x = k) xs)" for xs
      by (induction xs) auto
    with that show ?thesis by simp
  qed
  have app: "find (\<lambda>x. at_key x = k) (t @ [r]) = (if k = at_key r then Some r else find (\<lambda>x. at_key x = k) t)"
    if "at_key r \<notin> at_key ` set t"
    using that by (induction t) auto
  show ?thesis unfolding find_row_def put_row_def using upd app by (cases "at_key r \<in> at_key ` set t") simp_all
qed

lemma attempts_ok_put: "attempts_ok t \<Longrightarrow> attempts_ok (put_row r t)"
proof -
  have "map at_key (map (\<lambda>x. if at_key x = at_key r then r else x) t) = map at_key t" by simp
  then show "attempts_ok t \<Longrightarrow> attempts_ok (put_row r t)"
    unfolding attempts_ok_def put_row_def by (auto simp del: map_map)
qed

lemma find_row_filter:
  "attempts_ok t \<Longrightarrow> find_row (filter P t) k = (case find_row t k of None \<Rightarrow> None | Some r \<Rightarrow> if P r then Some r else None)"
proof (induction t)
  case (Cons x t)
  have "find_row (filter P t) k = None" if "at_key x = k"
    using that Cons.prems by (simp add: find_row_def find_None_iff attempts_ok_def image_iff) metis
  with Cons show ?case by (auto simp: find_row_def attempts_ok_def)
qed (simp add: find_row_def)

lemma bump_row:
  assumes "\<not> fails (FRead sc k)" and "\<not> fails (FSave sc k)"
  shows "find_row (bump fails sc k now cfg t) k' =
    (if k' = (sc, k) then Some (planLoginFailure (row_of t (sc, k)) now cfg) else find_row t k')"
proof -
  have "(planLoginFailure (row_of t (sc, k)) now cfg)\<lparr>la_scope := sc, la_key := k\<rparr> = planLoginFailure (row_of t (sc, k)) now cfg"
    using row_of_key [of t "(sc, k)"] by (intro login_attempt.equality) (auto simp: at_key_def)
  then show ?thesis
    using assms row_of_key [of t "(sc, k)"] by (simp add: bump_def find_attempt_def row_of_pair find_row_put at_key_def Let_def)
qed

lemma bump_other: "k' \<noteq> (sc, k) \<Longrightarrow> find_row (bump fails sc k now cfg t) k' = find_row t k'"
  by (auto simp: bump_def find_row_put at_key_def Let_def split: sum.splits)

lemma bump_ok: "attempts_ok t \<Longrightarrow> attempts_ok (bump fails sc k now cfg t)"
  by (simp add: bump_def attempts_ok_put Let_def split: sum.splits)

lemma loginKeys_distinct: "distinct (loginKeys lower ip name)"
  by (simp add: loginKeys_def loginScopeIP_def loginScopeUser_def Let_def)

lemma fold_bump_ok: "attempts_ok t \<Longrightarrow> attempts_ok (fold (\<lambda>(sc, k). bump fails sc k now cfg) ks t)"
  by (induction ks arbitrary: t) (auto simp: bump_ok)

lemma fold_bump_row:
  assumes "distinct ks"
  shows "find_row (fold (\<lambda>(sc, k). bump no_fault sc k now cfg) ks t) k' =
    (if k' \<in> set ks then Some (planLoginFailure (row_of t k') now cfg) else find_row t k')"
  using assms
proof (induction ks arbitrary: t)
  case (Cons sk ks)
  obtain sc k where sk: "sk = (sc, k)" by (cases sk)
  have "row_of (bump no_fault sc k now cfg t) k' = row_of t k'" if "k' \<noteq> (sc, k)"
    using that bump_row [of no_fault sc k now cfg t k'] by (simp add: row_of_def)
  moreover have "k' \<noteq> (sc, k)" if "k' \<in> set ks" using that Cons.prems by (auto simp: sk)
  ultimately show ?case
    using Cons bump_row [of no_fault sc k now cfg t k'] by (auto simp: sk)
qed simp

lemma RecordFailure_row:
  assumes "attempts_ok t" and "guard_enabled c" and "0 \<le> now"
  shows "find_row (RecordFailure no_fault lower (Inr c) now ip name t) k =
    (if k \<in> set (loginKeys lower ip name) then Some (planLoginFailure (row_of t k) now c)
     else case find_row t k of None \<Rightarrow> None | Some r \<Rightarrow> if swept now c r then None else Some r)"
proof -
  let ?t = "fold (\<lambda>(sc, k). bump no_fault sc k now c) (loginKeys lower ip name) t"
  have ok: "attempts_ok ?t" by (rule fold_bump_ok [OF assms(1)])
  show ?thesis
    using assms plan_not_swept [OF assms(2,3)] fold_bump_row [OF loginKeys_distinct]
    by (auto simp: RecordFailure_def sweep_attempts_def find_row_filter [OF ok] split: option.splits)
qed

lemma RecordFailure_ok: "attempts_ok t \<Longrightarrow> attempts_ok (RecordFailure no_fault lower cfg now ip name t)"
  using fold_bump_ok [of t no_fault now _ "loginKeys lower ip name"]
  by (auto simp: RecordFailure_def sweep_attempts_def attempts_ok_def distinct_map_filter split: sum.splits)

text \<open>Without faults the refusal is the longest of the bans on the attempt's identities.\<close>

lemma BanRemaining_bound:
  assumes "guard_enabled c" and "k \<in> set (banKeys lower ip name)"
  shows "loginBanRemaining (row_of t k) now \<le> BanRemaining no_fault lower (Inr c) now ip name t"
proof -
  let ?f = "\<lambda>(sc, k) longest. case find_attempt no_fault t sc k of Inl _ \<Rightarrow> longest
                 | Inr row \<Rightarrow> (let remaining = loginBanRemaining row now in if remaining > longest then remaining else longest)"
  have f: "?f sk l = max (loginBanRemaining (row_of t sk) now) l" for sk l
    by (cases sk) (auto simp: find_attempt_def row_of_pair Let_def)
  have "fold ?f (banKeys lower ip name) 0 = fold (\<lambda>sk. max (loginBanRemaining (row_of t sk) now)) (banKeys lower ip name) 0"
    by (rule fold_cong) (auto simp: fun_eq_iff f)
  then show ?thesis
    using assms fold_max_ge(2) [OF assms(2), of "\<lambda>sk. loginBanRemaining (row_of t sk) now" 0]
    by (simp add: BanRemaining_def)
qed

lemma loginKeys_banKeys: "set (loginKeys lower ip name) \<subseteq> set (banKeys lower ip name)"
  by (auto simp: banKeys_def)

text \<open>Failed logins from one source, under any names, as they arrive.\<close>

definition failures_from :: "(string \<Rightarrow> string) \<Rightarrow> guard_config \<Rightarrow> (int \<times> string \<times> string) list \<Rightarrow> attempts \<Rightarrow> attempts" where
  "failures_from lower c es t = fold (\<lambda>(now, ip, name). RecordFailure no_fault lower (Inr c) now ip name) es t"

lemma failures_from_row:
  assumes "attempts_ok t" and "guard_enabled c"
    and "\<forall>(now, ip, name) \<in> set es. 0 \<le> now \<and> k \<in> set (loginKeys lower ip name)"
  shows "row_of (failures_from lower c es t) k = plan_all c (map fst es) (row_of t k)"
  using assms(1,3)
proof (induction es arbitrary: t)
  case (Cons e es)
  obtain now ip name where e: "e = (now, ip, name)" by (cases e)
  let ?t = "RecordFailure no_fault lower (Inr c) now ip name t"
  have "row_of ?t k = planLoginFailure (row_of t k) now c"
    using RecordFailure_row [OF Cons.prems(1) assms(2), of now lower ip name k] Cons.prems(2)
    by (simp add: e row_of_def)
  moreover have "row_of (failures_from lower c es ?t) k = plan_all c (map fst es) (row_of ?t k)"
    using Cons.prems RecordFailure_ok by (intro Cons.IH) auto
  ultimately show ?case by (simp add: failures_from_def e)
qed (simp add: failures_from_def)

lemma RecordSuccess_row:
  assumes "attempts_ok t"
  shows "find_row (RecordSuccess no_fault lower ip name t) k = (if k \<in> set (banKeys lower ip name) then None else find_row t k)"
proof -
  have "find_row (fold (\<lambda>(sc, k) t. if no_fault (FClear sc k) then t else filter (\<lambda>r. at_key r \<noteq> (sc, k)) t) ks t) k
      = (if k \<in> set ks then None else find_row t k)" for ks
    using assms
  proof (induction ks arbitrary: t)
    case (Cons sk ks)
    have "find_row (filter (\<lambda>r. at_key r \<noteq> sk) t) k = (if k = sk then None else find_row t k)"
      using find_row_filter [OF Cons.prems] find_row_key [of t k] by (auto split: option.splits)
    moreover have "attempts_ok (filter (\<lambda>r. at_key r \<noteq> sk) t)"
      using Cons.prems by (simp add: attempts_ok_def distinct_map_filter)
    ultimately show ?case using Cons.IH [of "filter (\<lambda>r. at_key r \<noteq> sk) t"] by (cases sk) auto
  qed simp
  then show ?thesis by (simp add: RecordSuccess_def)
qed

section \<open>Few failures ban nobody\<close>

text \<open>No row is banned and none counts more than \<open>n\<close> failures.\<close>

definition unbanned :: "int \<Rightarrow> attempts \<Rightarrow> bool" where
  "unbanned n t \<longleftrightarrow> (\<forall>r \<in> set t. la_banned_until r = 0 \<and> 0 \<le> la_failures r \<and> la_failures r \<le> n)"

lemma plan_unbanned:
  assumes "la_banned_until r = 0" and "0 \<le> la_failures r" and "la_failures r \<le> n" and "n + 1 < g_max cfg" and "0 \<le> now"
  shows "la_banned_until (planLoginFailure r now cfg) = 0" and "0 \<le> la_failures (planLoginFailure r now cfg)"
    and "la_failures (planLoginFailure r now cfg) \<le> n + 1"
  using assms by (auto simp: planLoginFailure_def loginBanRemaining_def count_failure_def Let_def)

lemma put_row_set: "set (put_row r t) \<subseteq> insert r (set t)"
  by (auto simp: put_row_def)

lemma row_of_unbanned:
  assumes "unbanned n t" and "0 \<le> n"
  shows "la_banned_until (row_of t k) = 0" and "0 \<le> la_failures (row_of t k)" and "la_failures (row_of t k) \<le> n"
  using assms by (auto simp: row_of_def unbanned_def new_attempt_def dest: find_row_key split: option.splits)

lemma put_row_unbanned: "unbanned n t \<Longrightarrow> la_banned_until r = 0 \<Longrightarrow> 0 \<le> la_failures r \<Longrightarrow> la_failures r \<le> n \<Longrightarrow> unbanned n (put_row r t)"
  using put_row_set [of r t] unfolding unbanned_def by fastforce

lemma unbanned_mono: "unbanned n t \<Longrightarrow> n \<le> m \<Longrightarrow> unbanned m t"
  unfolding unbanned_def by fastforce

lemma find_attempt_row: "find_attempt no_fault t sc k = Inr (row_of t (sc, k))"
  by (simp add: find_attempt_def row_of_pair)

text \<open>
  One attempt touches at most one row per key, each as the table was before: with both keys distinct, the
  second is not the row the first one wrote.
\<close>

lemma fold_bump_unbanned:
  assumes "\<And>k. k \<in> set ks \<Longrightarrow> la_banned_until (row_of t k) = 0 \<and> 0 \<le> la_failures (row_of t k) \<and> la_failures (row_of t k) \<le> n"
    and "unbanned (n + 1) t" and "distinct ks" and "n + 1 < g_max cfg" and "0 \<le> now"
  shows "unbanned (n + 1) (fold (\<lambda>(sc, k). bump no_fault sc k now cfg) ks t)"
  using assms(1-3)
proof (induction ks arbitrary: t)
  case (Cons sk ks)
  obtain sc k where sk: "sk = (sc, k)" by (cases sk)
  let ?t = "bump no_fault sc k now cfg t"
  have "la_banned_until (row_of t (sc, k)) = 0" "0 \<le> la_failures (row_of t (sc, k))" "la_failures (row_of t (sc, k)) \<le> n"
    using Cons.prems(1) [of sk] by (auto simp: sk)
  note p = plan_unbanned [OF this assms(4,5)]
  have "unbanned (n + 1) ?t"
    unfolding bump_def find_attempt_row using Cons.prems(2) p by (simp add: put_row_unbanned Let_def)
  moreover have "row_of ?t k' = row_of t k'" if "k' \<in> set ks" for k'
  proof -
    have "k' \<noteq> (sc, k)" using that Cons.prems(3) by (auto simp: sk)
    then show ?thesis using bump_other [of k' sc k no_fault now cfg t] by (simp add: row_of_def)
  qed
  ultimately have "unbanned (n + 1) (fold (\<lambda>(sc, k). bump no_fault sc k now cfg) ks ?t)"
    using Cons.prems by (intro Cons.IH) auto
  then show ?case by (simp add: sk)
qed simp

lemma failures_unbanned:
  assumes "guard_enabled c" and "\<forall>(now, ip, name) \<in> set es. 0 \<le> now" and "int (length es) + n < g_max c"
    and "unbanned n t" and "0 \<le> n"
  shows "unbanned (n + int (length es)) (failures_from lower c es t)"
  using assms(2-5)
proof (induction es arbitrary: t n)
  case (Cons e es)
  obtain now ip name where e: "e = (now, ip, name)" by (cases e)
  let ?t = "RecordFailure no_fault lower (Inr c) now ip name t"
  have "unbanned (n + 1) (fold (\<lambda>(sc, k). bump no_fault sc k now c) (loginKeys lower ip name) t)"
    using Cons.prems row_of_unbanned [OF Cons.prems(3,4)] unbanned_mono [OF Cons.prems(3)]
    by (intro fold_bump_unbanned loginKeys_distinct) (auto simp: e)
  then have "unbanned (n + 1) ?t" using assms(1) by (auto simp: RecordFailure_def sweep_attempts_def unbanned_def)
  from Cons.IH [OF _ _ this] Cons.prems show ?case by (simp add: failures_from_def e ac_simps)
qed (simp add: failures_from_def)

lemma BanRemaining_zero:
  assumes "\<And>k. k \<in> set (banKeys lower ip name) \<Longrightarrow> loginBanRemaining (row_of t k) now = 0"
  shows "BanRemaining no_fault lower cfg now ip name t = 0"
proof -
  let ?f = "\<lambda>(sc, k) longest. case find_attempt no_fault t sc k of Inl _ \<Rightarrow> longest
       | Inr row \<Rightarrow> (let remaining = loginBanRemaining row now in if remaining > longest then remaining else longest)"
  have "fold ?f ks 0 = 0" if "set ks \<subseteq> set (banKeys lower ip name)" for ks
    using that
  proof (induction ks)
    case (Cons k ks)
    then show ?case using assms [of k] by (cases k) (simp add: find_attempt_row Let_def)
  qed simp
  then show ?thesis by (simp add: BanRemaining_def split: sum.splits)
qed

end
