(* ===== verification/GuardProps.thy ===== *)
theory GuardProps
  imports LoginGuard
begin

text \<open>
  What the login guard guarantees over sequences of attempts.
\<close>

section \<open>A policy\<close>

definition gx_cfg :: guard_config where
  "gx_cfg = \<lparr>g_max = 3, g_window = 600, g_ban = 900\<rparr>"

lemma gx_on: "guard_enabled gx_cfg"
  by (simp add: guard_enabled_def gx_cfg_def)

section \<open>Properties\<close>

text \<open>
  The limit bites: when a source has failed as often as allowed within the window, under whatever names
  and from whatever addresses that count as that source, every further attempt from it is refused until the ban
  is over, under any name, known or unknown.
\<close>

lemma repeated_failures_ban_the_source:
  assumes "guard_enabled c" and "attempts_ok t" and "find_row t (loginScopeIP, a) = None" and "a \<noteq> []"
    and "\<forall>(now, ip, name) \<in> set es. normalizeLoginIP ip = a" and "normalizeLoginIP ip' = a"
    and "int (length es) = g_max c" and "sorted (map fst es)" and "0 < fst (hd es)" and "fst (last es) - fst (hd es) < g_window c"
    and "now < fst (last es) + g_ban c"
  shows "fst (last es) + g_ban c - now \<le> BanRemaining no_fault lower (Inr c) now ip' name' (failures_from lower c es t)"
proof -
  let ?k = "(loginScopeIP, a)" and ?t = "failures_from lower c es t"
  have ne: "es \<noteq> []" using assms(1,7) by (auto simp: guard_enabled_def)
  have pos: "0 \<le> now" if "(now, x) \<in> set es" for now x
    using that assms(8,9) ne by (cases es) force+
  have "row_of ?t ?k = plan_all c (map fst es) (row_of t ?k)"
    using assms pos by (intro failures_from_row) (auto simp: loginKeys_def Let_def)
  then have row: "row_of ?t ?k = plan_all c (map fst es) (new_attempt loginScopeIP a)"
    using assms(3) by (simp add: row_of_def)
  have ban: "la_banned_until (row_of ?t ?k) = fst (last es) + g_ban c"
  proof (cases es rule: rev_cases)
    case (snoc ys y)
    show ?thesis
    proof (cases ys)
      case Nil
      then show ?thesis using assms(1,7,9) snoc unfolding row
        by (auto simp: planLoginFailure_def loginBanRemaining_def count_failure_def new_attempt_def guard_enabled_def Let_def)
    next
      case (Cons z zs)
      then show ?thesis
        using plan_all_bans [OF assms(1), of "fst z" "map fst zs" "fst y" loginScopeIP a] assms(7-10) snoc unfolding row by simp
    qed
  qed (use ne in simp)
  moreover have "?k \<in> set (banKeys lower ip' name')" using assms(4,6) by (simp add: banKeys_def loginKeys_def Let_def)
  ultimately show ?thesis
    using BanRemaining_bound [OF assms(1), of ?k lower ip' name' ?t now] assms(11)
    by (simp add: loginBanRemaining_def)
qed

text \<open>
  Nobody is locked out early: on a fresh table fewer failures than the limit, from any sources and under
  any names, leave every login free.
\<close>

lemma few_failures_ban_nobody:
  assumes "guard_enabled c" and "int (length es) < g_max c" and "\<forall>(t, ip, name) \<in> set es. 0 \<le> t" and "0 \<le> now"
  shows "BanRemaining no_fault lower (Inr c) now ip' name' (failures_from lower c es []) = 0"
proof -
  have "unbanned (int (length es)) (failures_from lower c es [])"
    using failures_unbanned [OF assms(1,3), of 0 "[]"] assms(2) by (simp add: unbanned_def)
  then show ?thesis
    using assms(4) by (intro BanRemaining_zero) (simp add: loginBanRemaining_def row_of_unbanned)
qed

text \<open>
  A known user name cannot be kept locked out: once a ban on a name is served, failures that keep
  arriving for it less than an hour apart never renew it, whatever sources they come from.
\<close>

lemma served_name_ban_is_not_renewed:
  assumes "guard_enabled c" and "attempts_ok t" and "find_row t (loginScopeUser, n) = Some r"
    and "0 < la_banned_until r" and "0 < la_window_start r"
    and "\<forall>(now, ip, name) \<in> set es. la_banned_until r \<le> now \<and> normalizeLoginName lower name = n" and "n \<noteq> []"
    and "sorted (map fst es)" and "successively (\<lambda>a b. b - a < loginAttemptRetention) (la_window_start r # map fst es)"
  shows "la_banned_until (row_of (failures_from lower c es t) (loginScopeUser, n)) = la_banned_until r"
proof -
  let ?k = "(loginScopeUser, n)"
  have r: "la_scope r = loginScopeUser" "row_of t ?k = r"
    using find_row_key [OF assms(3)] assms(3) by (auto simp: at_key_def row_of_def)
  have "row_of (failures_from lower c es t) ?k = plan_all c (map fst es) r"
    using failures_from_row [OF assms(2,1), of es ?k lower] assms(4,6,7) r by (fastforce simp: loginKeys_def Let_def)
  moreover have "sorted (la_banned_until r # map fst es)" using assms(6,8) by auto
  ultimately show ?thesis
    using plan_all_served_user [OF r(1) assms(4) order_refl assms(5) _ assms(9), of c] by simp
qed

text \<open>
  Sweeping is invisible: a row the sweep drops would have answered every later question, after any
  further failures, exactly like no row at all.
\<close>

lemma sweep_changes_no_verdict:
  assumes "guard_enabled c" and "swept now c r" and "0 \<le> now" and "0 \<le> la_banned_until r" and "sorted (now # ts @ [t])"
  shows "loginBanRemaining (plan_all c ts r) t = loginBanRemaining (plan_all c ts (new_attempt (la_scope r) (la_key r))) t"
  by (rule swept_plan_all [OF assms(2,1,3-5)])

text \<open>
  A successful login clears its own record and no other: afterwards the same source and name are free
  again, and every row under another key is as it was.
\<close>

lemma success_clears_only_its_keys:
  assumes "attempts_ok t" and "0 \<le> now"
  shows "BanRemaining no_fault lower cfg now ip name (RecordSuccess no_fault lower ip name t) = 0
    \<and> (k \<notin> set (banKeys lower ip name) \<longrightarrow> find_row (RecordSuccess no_fault lower ip name t) k = find_row t k)"
  using RecordSuccess_row [OF assms(1), of lower ip name] assms(2)
  by (auto intro!: BanRemaining_zero simp: row_of_def new_attempt_def loginBanRemaining_def)

end
