(* ===== verification/ConnTracker.thy ===== *)
theory ConnTracker
  imports NetAddr
begin

text \<open>
  The connection tracker of the running core (\<^verbatim>\<open>core/tracker_conn.go\<close>): routed connections admitted by the
  gate, the snapshots taken of them and the ways they are closed. A connection is known by the number
  of its socket; \<open>tr_closed\<close> lists the sockets the tracker has closed. Times are nanoseconds since the
  tracker's epoch and are handed in by the caller. Ids are UUIDs, handed in as well.
\<close>

section \<open>State\<close>

record connection_info =
  ci_id :: string
  ci_sock :: nat
  ci_inbound :: string
  ci_user :: string
  ci_type :: string
  ci_source :: addr
  ci_created_at :: int
  ci_last_active :: int
  ci_raw_source :: string
  ci_destination :: string
  ci_domain :: string
  ci_outbound :: string
  ci_rule :: string
  ci_up :: int
  ci_down :: int

record tracker =
  tr_conns :: "(string, connection_info) gomap"
  tr_generation :: nat
  tr_closed :: "nat list"

definition NewConnTracker :: "nat \<Rightarrow> tracker" where
  "NewConnTracker lastGeneration = \<lparr>tr_conns = [], tr_generation = Suc lastGeneration, tr_closed = []\<rparr>"

text \<open>What the router says of a connection: \<^verbatim>\<open>adapter.InboundContext\<close>, with the addresses printed.\<close>

record metadata =
  md_inbound :: string
  md_user :: string
  md_source :: addr
  md_source_text :: string
  md_destination_text :: string
  md_destination_fqdn :: string
  md_domain :: string
  md_route_outbound :: string
  md_route_rule :: string

section \<open>Admission\<close>

type_synonym gate = "(string \<Rightarrow> addr \<Rightarrow> bool) option"

definition gateAllows :: "gate \<Rightarrow> string \<Rightarrow> addr \<Rightarrow> bool" where
  "gateAllows g user source = (case g of None \<Rightarrow> True | Some f \<Rightarrow> f user source)"

definition admit :: "gate \<Rightarrow> string \<Rightarrow> addr \<Rightarrow> bool" where
  "admit g user source = (if user = [] \<or> \<not> addr_valid source then True else gateAllows g user source)"

definition fillDisplay :: "metadata \<Rightarrow> string option \<Rightarrow> string option \<Rightarrow> connection_info \<Rightarrow> connection_info" where
  "fillDisplay md rule ob info =
     info\<lparr>ci_raw_source := md_source_text md, ci_destination := md_destination_text md,
          ci_domain := (if md_domain md = [] then md_destination_fqdn md else md_domain md),
          ci_outbound := (if md_route_outbound md = [] \<and> ob \<noteq> None then the ob else md_route_outbound md),
          ci_rule := (if md_route_rule md = [] \<and> rule \<noteq> None then the rule else md_route_rule md)\<rparr>"

definition trackConnection :: "string \<Rightarrow> connection_info \<Rightarrow> tracker \<Rightarrow> tracker" where
  "trackConnection cid info tr = tr\<lparr>tr_conns := gput cid info (tr_conns tr)\<rparr>"

definition untrackConnection :: "string \<Rightarrow> tracker \<Rightarrow> tracker" where
  "untrackConnection cid tr = tr\<lparr>tr_conns := gdel cid (tr_conns tr)\<rparr>"

definition new_info :: "string \<Rightarrow> string \<Rightarrow> int \<Rightarrow> nat \<Rightarrow> metadata \<Rightarrow> connection_info" where
  "new_info typ cid now sock md =
     \<lparr>ci_id = cid, ci_sock = sock, ci_inbound = md_inbound md, ci_user = md_user md, ci_type = typ,
      ci_source = normalizeSrc (md_source md), ci_created_at = now, ci_last_active = now, ci_raw_source = [],
      ci_destination = [], ci_domain = [], ci_outbound = [], ci_rule = [], ci_up = 0, ci_down = 0\<rparr>"

text \<open>
  \<^verbatim>\<open>RoutedConnection\<close> and \<^verbatim>\<open>RoutedPacketConnection\<close>, which differ in the type they record. A refused connection
  is closed and not tracked; the result says whether it was wrapped.
\<close>

definition routed ::
  "string \<Rightarrow> gate \<Rightarrow> string \<Rightarrow> int \<Rightarrow> nat \<Rightarrow> metadata \<Rightarrow> string option \<Rightarrow> string option \<Rightarrow> tracker \<Rightarrow> bool \<times> tracker" where
  "routed typ g cid now sock md rule ob tr =
     (let source = normalizeSrc (md_source md)
      in if \<not> admit g (md_user md) source then (False, tr\<lparr>tr_closed := tr_closed tr @ [sock]\<rparr>)
         else (True, trackConnection cid (fillDisplay md rule ob (new_info typ cid now sock md)) tr))"

definition RoutedConnection ::
  "gate \<Rightarrow> string \<Rightarrow> int \<Rightarrow> nat \<Rightarrow> metadata \<Rightarrow> string option \<Rightarrow> string option \<Rightarrow> tracker \<Rightarrow> bool \<times> tracker" where
  "RoutedConnection = routed ''tcp''"

definition RoutedPacketConnection ::
  "gate \<Rightarrow> string \<Rightarrow> int \<Rightarrow> nat \<Rightarrow> metadata \<Rightarrow> string option \<Rightarrow> string option \<Rightarrow> tracker \<Rightarrow> bool \<times> tracker" where
  "RoutedPacketConnection = routed ''udp''"

section \<open>Traffic on a wrapped connection\<close>

text \<open>What an I/O call returned besides the byte count.\<close>

datatype io_err = NoErr | EofErr | NetErr bool | OtherErr

definition shouldUntrackIOErr :: "io_err \<Rightarrow> bool" where
  "shouldUntrackIOErr e = (case e of NoErr \<Rightarrow> False | EofErr \<Rightarrow> True | NetErr temporary \<Rightarrow> \<not> temporary | OtherErr \<Rightarrow> True)"

definition touch :: "bool \<Rightarrow> int \<Rightarrow> connection_info \<Rightarrow> connection_info" where
  "touch active now info = (if \<not> active then info else info\<lparr>ci_last_active := now\<rparr>)"

text \<open>
  The wrapper writes through its pointer to the info; what the tracker sees of that is the entry under
  its id, as long as it is tracked. Untracking is once per wrapper, and deleting an absent id does nothing.
\<close>

definition update_info :: "string \<Rightarrow> (connection_info \<Rightarrow> connection_info) \<Rightarrow> tracker \<Rightarrow> tracker" where
  "update_info cid f tr =
     tr\<lparr>tr_conns := map (\<lambda>(k, i). (k, if k = cid then f i else i)) (tr_conns tr)\<rparr>"

definition conn_Read :: "bool \<Rightarrow> string \<Rightarrow> int \<Rightarrow> int \<Rightarrow> io_err \<Rightarrow> tracker \<Rightarrow> tracker" where
  "conn_Read active cid now n e tr =
     (let tr1 = (if n > 0 then update_info cid (\<lambda>i. touch active now (i\<lparr>ci_up := i64 (ci_up i + n)\<rparr>)) tr else tr)
      in if shouldUntrackIOErr e then untrackConnection cid tr1 else tr1)"

definition conn_Write :: "bool \<Rightarrow> string \<Rightarrow> int \<Rightarrow> int \<Rightarrow> io_err \<Rightarrow> tracker \<Rightarrow> tracker" where
  "conn_Write active cid now n e tr =
     (let tr1 = (if n > 0 then update_info cid (\<lambda>i. touch active now (i\<lparr>ci_down := i64 (ci_down i + n)\<rparr>)) tr else tr)
      in if e \<noteq> NoErr \<and> shouldUntrackIOErr e then untrackConnection cid tr1 else tr1)"

definition conn_ReadPacket :: "bool \<Rightarrow> string \<Rightarrow> int \<Rightarrow> int \<Rightarrow> io_err \<Rightarrow> tracker \<Rightarrow> tracker" where
  "conn_ReadPacket active cid now n e tr =
     (let tr1 = (if e = NoErr then update_info cid (\<lambda>i. touch active now (i\<lparr>ci_up := i64 (ci_up i + n)\<rparr>)) tr else tr)
      in if shouldUntrackIOErr e then untrackConnection cid tr1 else tr1)"

definition conn_WritePacket :: "bool \<Rightarrow> string \<Rightarrow> int \<Rightarrow> int \<Rightarrow> io_err \<Rightarrow> tracker \<Rightarrow> tracker" where
  "conn_WritePacket active cid now n e tr =
     (let tr1 = (if e = NoErr then update_info cid (\<lambda>i. touch active now (i\<lparr>ci_down := i64 (ci_down i + n)\<rparr>)) tr else tr)
      in if e \<noteq> NoErr \<and> shouldUntrackIOErr e then untrackConnection cid tr1 else tr1)"

definition conn_Close :: "string \<Rightarrow> nat \<Rightarrow> tracker \<Rightarrow> tracker" where
  "conn_Close cid sock tr =
     (let tr1 = untrackConnection cid tr in tr1\<lparr>tr_closed := tr_closed tr1 @ [sock]\<rparr>)"

section \<open>Closing\<close>

text \<open>The loops that close, delete and count the entries a test selects.\<close>

definition close_where :: "(connection_info \<Rightarrow> bool) \<Rightarrow> tracker \<Rightarrow> nat \<times> tracker" where
  "close_where P tr =
     (let hit = filter (\<lambda>(_, i). P i) (tr_conns tr)
      in (length hit,
          tr\<lparr>tr_conns := filter (\<lambda>(_, i). \<not> P i) (tr_conns tr),
             tr_closed := tr_closed tr @ map (\<lambda>(_, i). ci_sock i) hit\<rparr>))"

definition Reset :: "tracker \<Rightarrow> tracker" where
  "Reset tr = tr\<lparr>tr_conns := [], tr_closed := tr_closed tr @ map (\<lambda>(_, i). ci_sock i) (tr_conns tr)\<rparr>"

definition CloseConnByUser :: "string \<Rightarrow> tracker \<Rightarrow> (nat \<times> string list) \<times> tracker" where
  "CloseConnByUser user tr =
     (if user = [] then ((0, []), tr)
      else
        let inbounds = gkeys (fold (\<lambda>(_, i) m. if ci_inbound i \<noteq> [] then gput (ci_inbound i) () m else m)
                         (filter (\<lambda>(_, i). ci_user i = user) (tr_conns tr)) []);
            (n, tr') = close_where (\<lambda>i. ci_user i = user) tr
        in ((n, inbounds), tr'))"

definition CloseConnByUserIPs :: "(string, addr list) gomap \<Rightarrow> tracker \<Rightarrow> nat \<times> tracker" where
  "CloseConnByUserIPs drp tr =
     close_where (\<lambda>i. case gget drp (ci_user i) of None \<Rightarrow> False | Some ips \<Rightarrow> ci_source i \<in> set ips) tr"

definition CloseConnByInbound :: "string \<Rightarrow> tracker \<Rightarrow> nat \<times> tracker" where
  "CloseConnByInbound ib tr = close_where (\<lambda>i. ci_inbound i = ib) tr"

definition CloseConnByInboundUsers :: "string \<Rightarrow> string list \<Rightarrow> tracker \<Rightarrow> nat \<times> tracker" where
  "CloseConnByInboundUsers ib keepUsers tr =
     close_where (\<lambda>i. ci_inbound i = ib \<and> ci_user i \<notin> set keepUsers) tr"

section \<open>Snapshots\<close>

record session_info =
  si_id :: string
  si_inbound :: string
  si_user :: string
  si_outbound :: string
  si_network :: string
  si_source :: string
  si_destination :: string
  si_domain :: string
  si_rule :: string
  si_created_at :: int
  si_up :: int
  si_down :: int

text \<open>\<open>epoch\<close> is the wall clock at the tracker's epoch in nanoseconds.\<close>

definition Sessions :: "int \<Rightarrow> (connection_info \<Rightarrow> bool) option \<Rightarrow> tracker \<Rightarrow> session_info list" where
  "Sessions epoch want tr =
     map (\<lambda>(_, i). \<lparr>si_id = ci_id i, si_inbound = ci_inbound i, si_user = ci_user i, si_outbound = ci_outbound i,
           si_network = ci_type i, si_source = ci_raw_source i, si_destination = ci_destination i,
           si_domain = ci_domain i, si_rule = ci_rule i, si_created_at = (epoch + ci_created_at i) div 1000000000,
           si_up = ci_up i, si_down = ci_down i\<rparr>)
       (filter (\<lambda>(_, i). case want of None \<Rightarrow> True | Some f \<Rightarrow> f i) (tr_conns tr))"

record ip_window =
  iw_first_seen :: int
  iw_last_seen :: int

definition widen :: "connection_info \<Rightarrow> ip_window option \<Rightarrow> ip_window" where
  "widen i w =
     (case w of
        None \<Rightarrow> \<lparr>iw_first_seen = ci_created_at i, iw_last_seen = ci_last_active i\<rparr>
      | Some w0 \<Rightarrow>
          let w1 = (if ci_created_at i < iw_first_seen w0 then w0\<lparr>iw_first_seen := ci_created_at i\<rparr> else w0)
          in if ci_last_active i > iw_last_seen w1 then w1\<lparr>iw_last_seen := ci_last_active i\<rparr> else w1)"

definition counts_for :: "(string \<Rightarrow> bool) option \<Rightarrow> connection_info \<Rightarrow> bool" where
  "counts_for want i \<longleftrightarrow> \<not> (ci_user i = [] \<or> \<not> addr_valid (ci_source i)) \<and>
     (case want of None \<Rightarrow> True | Some f \<Rightarrow> f (ci_user i))"

definition UserIPs_step ::
  "(string \<Rightarrow> bool) option \<Rightarrow> connection_info \<Rightarrow> (string, (addr, ip_window) gomap) gomap \<Rightarrow> (string, (addr, ip_window) gomap) gomap" where
  "UserIPs_step want i users =
     (if \<not> counts_for want i then users
      else
        let ips = (case gget users (ci_user i) of None \<Rightarrow> [] | Some m \<Rightarrow> m)
        in gput (ci_user i) (gput (ci_source i) (widen i (gget ips (ci_source i))) ips) users)"

definition UserIPs :: "(string \<Rightarrow> bool) option \<Rightarrow> tracker \<Rightarrow> (string, (addr, ip_window) gomap) gomap" where
  "UserIPs want tr = fold (\<lambda>(_, i). UserIPs_step want i) (tr_conns tr) []"

section \<open>Lemmas\<close>

definition tracker_ok :: "tracker \<Rightarrow> bool" where
  "tracker_ok tr \<longleftrightarrow> gmap_ok (tr_conns tr) \<and> (\<forall>(k, i) \<in> set (tr_conns tr). ci_id i = k)"

definition infos :: "tracker \<Rightarrow> connection_info list" where
  "infos tr = map snd (tr_conns tr)"

lemma close_where_infos:
  assumes "close_where P tr = (n, tr')"
  shows "infos tr' = filter (\<lambda>i. \<not> P i) (infos tr)" and "n = length (filter P (infos tr))"
    and "tr_closed tr' = tr_closed tr @ map ci_sock (filter P (infos tr))"
  using assms by (auto simp: close_where_def infos_def filter_map comp_def case_prod_unfold Let_def)

lemma tracker_ok_close: "tracker_ok tr \<Longrightarrow> close_where P tr = (n, tr') \<Longrightarrow> tracker_ok tr'"
  by (auto simp: close_where_def tracker_ok_def Let_def)

lemma tracker_ok_routed: "tracker_ok tr \<Longrightarrow> tracker_ok (snd (routed typ g cid now sock md rule ob tr))"
proof -
  assume ok: "tracker_ok tr"
  have "ci_id (fillDisplay md rule ob (new_info typ cid now sock md)) = cid"
    by (simp add: fillDisplay_def new_info_def)
  then show ?thesis
    using ok by (auto simp: routed_def tracker_ok_def trackConnection_def distinct_update Let_def dest!: gput_in_set)
qed

text \<open>
  The snapshot against its reference: for a user and a source the oldest creation and the latest
  activity over that pair's connections.
\<close>

definition of_pair :: "(string \<Rightarrow> bool) option \<Rightarrow> string \<Rightarrow> addr \<Rightarrow> connection_info list \<Rightarrow> connection_info list" where
  "of_pair want u a is = filter (\<lambda>i. counts_for want i \<and> ci_user i = u \<and> ci_source i = a) is"

definition window_of :: "connection_info list \<Rightarrow> ip_window option" where
  "window_of is = (if is = [] then None
     else Some \<lparr>iw_first_seen = Min (set (map ci_created_at is)), iw_last_seen = Max (set (map ci_last_active is))\<rparr>)"

definition lookup2 :: "(string, (addr, ip_window) gomap) gomap \<Rightarrow> string \<Rightarrow> addr \<Rightarrow> ip_window option" where
  "lookup2 users u a = (case gget users u of None \<Rightarrow> None | Some m \<Rightarrow> gget m a)"

lemma widen_Some:
  "widen i (Some \<lparr>iw_first_seen = a, iw_last_seen = b\<rparr>)
    = \<lparr>iw_first_seen = min (ci_created_at i) a, iw_last_seen = max (ci_last_active i) b\<rparr>"
  by (simp add: widen_def min_def max_def Let_def)

lemma window_of_snoc: "window_of (is @ [i]) = Some (widen i (window_of is))"
  by (cases "is = []") (simp_all add: window_of_def widen_Some Min_insert Max_insert, simp add: widen_def)

lemma lookup2_step:
  "lookup2 (UserIPs_step want i users) u a =
    (if counts_for want i \<and> ci_user i = u \<and> ci_source i = a then Some (widen i (lookup2 users u a)) else lookup2 users u a)"
  by (auto simp: UserIPs_step_def lookup2_def Let_def split: option.splits)

lemma UserIPs_window: "lookup2 (UserIPs want tr) u a = window_of (of_pair want u a (infos tr))"
proof -
  have "lookup2 (fold (UserIPs_step want) is []) u a = window_of (of_pair want u a is)" for "is"
  proof (induction "is" rule: rev_induct)
    case (snoc i "is")
    then show ?case using window_of_snoc by (auto simp: lookup2_step of_pair_def)
  qed (simp add: lookup2_def of_pair_def window_of_def)
  moreover have "UserIPs want tr = fold (UserIPs_step want) (infos tr) []"
    unfolding UserIPs_def infos_def by (simp add: fold_map comp_def case_prod_unfold)
  ultimately show ?thesis by simp
qed

definition nested_ok :: "(string, (addr, ip_window) gomap) gomap \<Rightarrow> bool" where
  "nested_ok us \<longleftrightarrow> gmap_ok us \<and> (\<forall>(u, m) \<in> set us. gmap_ok m)"

lemma nested_ok_step: "nested_ok us \<Longrightarrow> nested_ok (UserIPs_step want i us)"
  by (auto simp: nested_ok_def UserIPs_step_def distinct_update Let_def split: option.splits dest!: gput_in_set)

lemma UserIPs_maps_ok:
  "gmap_ok (UserIPs want tr)" "gget (UserIPs want tr) u = Some m \<Longrightarrow> gmap_ok m"
proof -
  have "nested_ok (UserIPs want tr)"
    unfolding UserIPs_def
    by (rule fold_invariant [where Q = "\<lambda>_. True"]) (auto simp: nested_ok_step, simp add: nested_ok_def)
  then show "gmap_ok (UserIPs want tr)" "gget (UserIPs want tr) u = Some m \<Longrightarrow> gmap_ok m"
    by (auto simp: nested_ok_def)
qed

text \<open>A byte that is read or written is counted once on its connection, and on no other.\<close>

lemma update_info_get:
  "gget (tr_conns (update_info cid f tr)) k = (if k = cid then map_option f (gget (tr_conns tr) k) else gget (tr_conns tr) k)"
proof -
  have "map_of (map (\<lambda>(k, i). (k, if k = cid then f i else i)) m) k = (if k = cid then map_option f (map_of m k) else map_of m k)" for m
    by (induction m) auto
  then show ?thesis by (simp add: update_info_def)
qed

end
