(* ===== verification/IpLimit.thy ===== *)
theory IpLimit
  imports ConnTracker ClientSave
begin

text \<open>
  The per-client limit on source addresses (\<^verbatim>\<open>service/iplimit.go\<close>): the ban list behind the connection
  gate, the plan of one scan (who keeps a slot), the seniority remembered between scans and the scan
  itself. Ban dates are unix seconds, seniority is in the tracker's nanoseconds.
\<close>

section \<open>State\<close>

definition ipBanTTL :: int where "ipBanTTL = 300"
definition ipIdleGrace :: int where "ipIdleGrace = 90 * 1000000000"
definition ipBanMaxSize :: nat where "ipBanMaxSize = 1024"
definition ipHoldMemory :: int where "ipHoldMemory = 30 * 1000000000"

record ip_hold =
  ih_at :: int
  ih_last_seen :: int

type_synonym ip_ban_key = "string \<times> addr"

record ip_ban =
  ib_until :: int
  ib_generation :: nat

record ban_scope =
  bs_generation :: nat
  bs_capped :: "(string, bool) gomap"

type_synonym holds = "(addr, ip_hold) gomap"

record ip_limiter =
  il_bans :: "(ip_ban_key, ip_ban) gomap"
  il_cluster_bans :: "(ip_ban_key, int) gomap"
  il_cluster_managed :: "(string, bool) gomap"
  il_cluster_lease_until :: int
  il_holders :: "(string, holds) gomap"
  il_last_generation :: nat

section \<open>Bans\<close>

definition allow :: "ip_limiter \<Rightarrow> int \<Rightarrow> string \<Rightarrow> addr \<Rightarrow> bool" where
  "allow l now user source =
     (let b = gget (il_bans l) (user, source);
          clusterUntil = gget0 0 (il_cluster_bans l) (user, source);
          managed = gget0 False (il_cluster_managed l) user \<and> il_cluster_lease_until l > now
      in if managed then clusterUntil \<le> now
         else if b = None \<and> clusterUntil = 0 then True
         else if clusterUntil > now then False
         else case b of None \<Rightarrow> True | Some bn \<Rightarrow> now \<ge> ib_until bn)"

text \<open>Whether \<^verbatim>\<open>sweepLocked\<close> drops an entry.\<close>

definition sweeps :: "int \<Rightarrow> ban_scope option \<Rightarrow> ip_ban_key \<Rightarrow> ip_ban \<Rightarrow> bool" where
  "sweeps now scope k b \<longleftrightarrow> now \<ge> ib_until b \<or>
     (case scope of
        None \<Rightarrow> False
      | Some sc \<Rightarrow> (case gget (bs_capped sc) (fst k) of
          None \<Rightarrow> True
        | Some stillCapped \<Rightarrow> \<not> stillCapped \<and> ib_generation b = bs_generation sc))"

definition sweepLocked :: "int \<Rightarrow> ban_scope option \<Rightarrow> ip_limiter \<Rightarrow> ip_limiter" where
  "sweepLocked now scope l = l\<lparr>il_bans := filter (\<lambda>(k, b). \<not> sweeps now scope k b) (il_bans l)\<rparr>"

definition evictBansLocked :: "int \<Rightarrow> ip_limiter \<Rightarrow> ip_limiter" where
  "evictBansLocked now l =
     (let l1 = sweepLocked now None l
      in if length (il_bans l1) \<le> ipBanMaxSize then l1
         else
           let entries = sort_by (\<lambda>a b. ib_until (snd a) < ib_until (snd b)) (il_bans l1);
               gone = map fst (take (length (il_bans l1) - ipBanMaxSize) entries)
           in l1\<lparr>il_bans := fold gdel gone (il_bans l1)\<rparr>)"

definition ban :: "string \<Rightarrow> addr list \<Rightarrow> int \<Rightarrow> nat \<Rightarrow> ip_limiter \<Rightarrow> ip_limiter" where
  "ban user ips now gen l =
     (if ips = [] then l
      else evictBansLocked now
        (l\<lparr>il_bans := fold (\<lambda>ip. gput (user, ip) \<lparr>ib_until = now + ipBanTTL, ib_generation = gen\<rparr>) ips (il_bans l)\<rparr>))"

section \<open>Scans\<close>

definition beginScan :: "nat \<Rightarrow> ip_limiter \<Rightarrow> (string, holds) gomap \<times> ip_limiter" where
  "beginScan gen l =
     (let l1 = (if gen \<noteq> il_last_generation l then l\<lparr>il_holders := [], il_last_generation := gen\<rparr> else l)
      in (il_holders l1, l1))"

definition commit :: "(string, holds) gomap \<Rightarrow> ip_limiter \<Rightarrow> ip_limiter" where
  "commit records l = l\<lparr>il_holders := records\<rparr>"

type_synonym candidate = "addr \<times> int"

definition cand_less :: "candidate \<Rightarrow> candidate \<Rightarrow> bool" where
  "cand_less a b = (if snd a \<noteq> snd b then snd a < snd b else addr_compare (fst a) (fst b) < 0)"

definition candidates :: "holds \<Rightarrow> (addr, ip_window) gomap \<Rightarrow> int \<Rightarrow> int \<Rightarrow> candidate list" where
  "candidates held active now idleGrace =
     map (\<lambda>(a, w). (a, case gget held a of None \<Rightarrow> iw_first_seen w | Some h \<Rightarrow> ih_at h))
       (filter (\<lambda>(a, w). \<not> now - iw_last_seen w > idleGrace) active)"

definition planIPLimit :: "holds \<Rightarrow> (addr, ip_window) gomap \<Rightarrow> int \<Rightarrow> int \<Rightarrow> int \<Rightarrow> holds \<times> addr list" where
  "planIPLimit held active limit now idleGrace =
     (if limit \<le> 0 \<or> active = [] then ([], [])
      else
        let cs = sort_by cand_less (candidates held active now idleGrace)
        in (fold (\<lambda>(a, at). gput a \<lparr>ih_at = at, ih_last_seen = now\<rparr>) (take (nat limit) cs) [],
            map fst (drop (nat limit) cs)))"

definition rememberHolders :: "holds \<Rightarrow> holds \<Rightarrow> addr list \<Rightarrow> int \<Rightarrow> int \<Rightarrow> holds" where
  "rememberHolders held admitted dropped now memory =
     fold (\<lambda>(a, h) rec.
       if gget rec a \<noteq> None \<or> now - ih_last_seen h > memory \<or> a \<in> set dropped then rec else gput a h rec)
       held (fold (\<lambda>(a, h). gput a h) admitted [])"

definition loadIPLimits :: "bool \<Rightarrow> db \<Rightarrow> ((string, int) gomap \<times> (string, bool) gomap) res" where
  "loadIPLimits ok d =
     (if \<not> ok then Inl EDb
      else
        let rows = filter (\<lambda>c. c_limit_ip c > 0 \<and> c_enable c) (db_clients d)
        in Inr (fold (\<lambda>c. gput (c_name c) (c_limit_ip c)) rows [],
                fold (\<lambda>c m. if c_group c = clusterGroup then gput (c_name c) True m else m) rows []))"

text \<open>
  What a scan changes: the limiter, the published counts, the flag that turns timestamping on, and the
  running core's tracker, if there is one.
\<close>

record ip_state =
  is_limiter :: ip_limiter
  is_counts :: "(string, nat) gomap"
  is_active :: bool
  is_tracker :: "tracker option"

record scan_acc =
  sa_limiter :: ip_limiter
  sa_counts :: "(string, nat) gomap"
  sa_records :: "(string, holds) gomap"
  sa_drop :: "(string, addr list) gomap"
  sa_capped :: "(string, bool) gomap"

definition scan_client ::
  "(string, holds) gomap \<Rightarrow> (string, (addr, ip_window) gomap) gomap \<Rightarrow> int \<Rightarrow> int \<Rightarrow> nat \<Rightarrow> string \<times> int \<Rightarrow> scan_acc \<Rightarrow> scan_acc" where
  "scan_client held active now nowUnix gen client s =
     (let (name, limit) = client;
          h = gget0 [] held name;
          (admitted, dropped) = planIPLimit h (gget0 [] active name) limit now ipIdleGrace;
          rec = rememberHolders h admitted dropped now ipHoldMemory;
          s1 = s\<lparr>sa_counts := (if admitted \<noteq> [] then gput name (length admitted) (sa_counts s) else sa_counts s),
                 sa_records := (if rec \<noteq> [] then gput name rec (sa_records s) else sa_records s),
                 sa_capped := gput name (int (length admitted) \<ge> limit \<or> dropped \<noteq> []) (sa_capped s)\<rparr>
      in if dropped = [] then s1
         else s1\<lparr>sa_drop := gput name dropped (sa_drop s1), sa_limiter := ban name dropped nowUnix gen (sa_limiter s1)\<rparr>)"

text \<open>
  \<open>nowLease\<close> and \<open>nowUnix\<close> are the two readings of the wall clock, \<open>now\<close> the tracker's own clock at the
  snapshot.
\<close>

definition EnforceIPLimits :: "bool \<Rightarrow> int \<Rightarrow> int \<Rightarrow> int \<Rightarrow> db \<Rightarrow> ip_state \<Rightarrow> ip_state" where
  "EnforceIPLimits ok nowLease nowUnix now d st =
     (case loadIPLimits ok d of
        Inl _ \<Rightarrow> st
      | Inr (limits0, managed) \<Rightarrow>
          let st1 = st\<lparr>is_active := limits0 \<noteq> []\<rparr>;
              limits = (if il_cluster_lease_until (is_limiter st1) > nowLease
                        then fold gdel (gkeys managed) limits0 else limits0)
          in if limits = [] then
               st1\<lparr>is_counts := [],
                   is_limiter := sweepLocked nowUnix (Some \<lparr>bs_generation = 0, bs_capped = []\<rparr>) (commit [] (is_limiter st1))\<rparr>
             else case is_tracker st1 of
               None \<Rightarrow> st1\<lparr>is_counts := [], is_limiter := sweepLocked nowUnix None (commit [] (is_limiter st1))\<rparr>
             | Some tr \<Rightarrow>
                 let gen = tr_generation tr;
                     active = UserIPs (Some (\<lambda>u. gget limits u \<noteq> None)) tr;
                     (held, l1) = beginScan gen (is_limiter st1);
                     acc = fold (scan_client held active now nowUnix gen) limits
                             \<lparr>sa_limiter = l1, sa_counts = [], sa_records = [], sa_drop = [], sa_capped = []\<rparr>;
                     l2 = commit (sa_records acc) (sa_limiter acc);
                     tr' = (if sa_drop acc \<noteq> [] then snd (CloseConnByUserIPs (sa_drop acc) tr) else tr)
                 in st1\<lparr>is_counts := sa_counts acc, is_tracker := Some tr',
                        is_limiter := sweepLocked nowUnix (Some \<lparr>bs_generation = gen, bs_capped = sa_capped acc\<rparr>) l2\<rparr>)"

section \<open>The order of candidates\<close>

lemma addr_compare_less: "addr_compare a b < 0 \<longleftrightarrow> a < b"
  by (simp add: addr_compare_def)

interpretation cand: strict_total cand_less
proof
  fix x y z :: candidate
  show "\<not> cand_less x x" by (simp add: cand_less_def addr_compare_less)
  show "cand_less x y \<Longrightarrow> cand_less y z \<Longrightarrow> cand_less x z"
    by (auto simp: cand_less_def addr_compare_less split: if_splits)
  show "\<not> cand_less x y \<Longrightarrow> \<not> cand_less y z \<Longrightarrow> \<not> cand_less x z"
    by (auto simp: cand_less_def addr_compare_less split: if_splits)
  show "cand_less x y \<or> x = y \<or> cand_less y x"
    by (auto simp: cand_less_def addr_compare_less prod_eq_iff)
qed

interpretation ban_date: strict_order "\<lambda>a b. ib_until (snd a) < ib_until (snd b)"
  by unfold_locales auto

end
