(* ===== verification/IpLimitInv.thy ===== *)
theory IpLimitInv
  imports IpLimit
begin

text \<open>
  What the address limit guarantees: a plan admits at most the limit, by seniority and whatever order
  the runtime walks its maps in; after a scan no limited client is connected from more addresses than
  it may; the ban list stays bounded and drops the shortest bans first; a ban refuses until its time.
\<close>

section \<open>The plan\<close>

definition live_in :: "int \<Rightarrow> int \<Rightarrow> (addr, ip_window) gomap \<Rightarrow> addr set" where
  "live_in now grace active = fst ` {(a, w) \<in> set active. \<not> now - iw_last_seen w > grace}"

definition seniority :: "holds \<Rightarrow> (addr, ip_window) gomap \<Rightarrow> addr \<Rightarrow> int" where
  "seniority held active a =
     (case gget held a of Some h \<Rightarrow> ih_at h | None \<Rightarrow> (case gget active a of Some w \<Rightarrow> iw_first_seen w | None \<Rightarrow> 0))"

lemma candidates_keys:
  "fst ` set (candidates held active now grace) = live_in now grace active"
  "gmap_ok active \<Longrightarrow> distinct (map fst (candidates held active now grace))"
proof -
  show "fst ` set (candidates held active now grace) = live_in now grace active"
    by (force simp: candidates_def live_in_def)
  have "map fst (candidates held active now grace) = map fst (filter (\<lambda>(a, w). \<not> now - iw_last_seen w > grace) active)"
    by (simp add: candidates_def case_prod_unfold comp_def)
  then show "gmap_ok active \<Longrightarrow> distinct (map fst (candidates held active now grace))"
    by (simp add: distinct_map_filter)
qed

lemma candidates_seniority:
  "gmap_ok active \<Longrightarrow> (a, t) \<in> set (candidates held active now grace) \<Longrightarrow> t = seniority held active a"
proof -
  assume ok: "gmap_ok active" and "(a, t) \<in> set (candidates held active now grace)"
  then obtain w where "(a, w) \<in> set active" and t: "t = (case gget held a of None \<Rightarrow> iw_first_seen w | Some h \<Rightarrow> ih_at h)"
    by (auto simp: candidates_def)
  then have "gget active a = Some w" using ok by simp
  with t show "t = seniority held active a" by (simp add: seniority_def split: option.splits)
qed

lemma plan_eq:
  assumes "planIPLimit held active limit now grace = (admitted, dropped)" and "gmap_ok active" and "0 < limit"
  defines "cs \<equiv> sort_by cand_less (candidates held active now grace)"
  shows "admitted = map (\<lambda>(a, t). (a, \<lparr>ih_at = t, ih_last_seen = now\<rparr>)) (take (nat limit) cs)"
    and "dropped = map fst (drop (nat limit) cs)"
proof -
  have d: "distinct (map fst cs)" using candidates_keys(2) [OF assms(2)] by (simp add: cs_def)
  have "active = [] \<Longrightarrow> cs = []" by (simp add: cs_def candidates_def)
  then have "admitted = fold (\<lambda>(a, t). gput a \<lparr>ih_at = t, ih_last_seen = now\<rparr>) (take (nat limit) cs) []"
    "dropped = map fst (drop (nat limit) cs)"
    using assms(1,3) unfolding planIPLimit_def cs_def [symmetric] by (auto simp: Let_def split: if_splits)
  moreover have "distinct (map fst (take (nat limit) cs))" using d by (metis distinct_take take_map)
  ultimately show "admitted = map (\<lambda>(a, t). (a, \<lparr>ih_at = t, ih_last_seen = now\<rparr>)) (take (nat limit) cs)"
    and "dropped = map fst (drop (nat limit) cs)"
    using fold_gput_fresh [of "take (nat limit) cs" "[]" "\<lambda>t. \<lparr>ih_at = t, ih_last_seen = now\<rparr>"] by simp_all
qed

lemma plan_partition:
  assumes "planIPLimit held active limit now grace = (admitted, dropped)" and "gmap_ok active" and "0 < limit"
  shows "int (length admitted) \<le> limit" and "dropped \<noteq> [] \<Longrightarrow> int (length admitted) = limit"
    and "distinct (gkeys admitted @ dropped)" and "set (gkeys admitted @ dropped) = live_in now grace active"
proof -
  let ?cs = "sort_by cand_less (candidates held active now grace)"
  note eq = plan_eq [OF assms]
  show "int (length admitted) \<le> limit" "dropped \<noteq> [] \<Longrightarrow> int (length admitted) = limit"
    using eq assms(3) by auto
  have "gkeys admitted = map fst (take (nat limit) ?cs)"
    unfolding eq(1) by (simp add: case_prod_unfold comp_def)
  then have all: "gkeys admitted @ dropped = map fst ?cs"
    unfolding eq(2) by (metis append_take_drop_id map_append)
  show "distinct (gkeys admitted @ dropped)" "set (gkeys admitted @ dropped) = live_in now grace active"
    unfolding all using candidates_keys(1) [of held active now grace] candidates_keys(2) [OF assms(2)] by simp_all
qed

lemma plan_seniority:
  assumes "planIPLimit held active limit now grace = (admitted, dropped)" and "gmap_ok active" and "0 < limit"
    and "a \<in> set (gkeys admitted)" and "b \<in> set dropped"
  shows "cand_less (a, seniority held active a) (b, seniority held active b)"
proof -
  let ?cs = "sort_by cand_less (candidates held active now grace)"
  note eq = plan_eq [OF assms(1-3)]
  have set_cs: "set ?cs = set (candidates held active now grace)" by simp
  obtain t u where t: "(a, t) \<in> set (take (nat limit) ?cs)" and u: "(b, u) \<in> set (drop (nat limit) ?cs)"
    using assms(4,5) unfolding eq by auto
  have "t = seniority held active a" "u = seniority held active b"
    using candidates_seniority [OF assms(2)] t u set_cs by (metis in_set_takeD in_set_dropD)+
  moreover have "sorted_wrt (\<lambda>x y. \<not> cand_less y x) (take (nat limit) ?cs @ drop (nat limit) ?cs)"
    using cand.sorted_sort_by by (simp only: append_take_drop_id)
  then have "\<not> cand_less (b, u) (a, t)" unfolding sorted_wrt_append using t u by blast
  moreover have "a \<noteq> b" using plan_partition(3) [OF assms(1-3)] assms(4,5) by auto
  ultimately show ?thesis using cand.lt_total by blast
qed

text \<open>The plan depends on what is connected, not on the order the maps are walked in.\<close>

lemma plan_order_free:
  assumes "mset active = mset active'"
  shows "planIPLimit held active limit now grace = planIPLimit held active' limit now grace"
proof -
  have "mset (candidates held active now grace) = mset (candidates held active' now grace)"
    using assms by (simp add: candidates_def mset_map mset_filter)
  then have "sort_by cand_less (candidates held active now grace) = sort_by cand_less (candidates held active' now grace)"
    by (rule sort_by_mset [OF cand.strict_total_axioms])
  moreover have "active = [] \<longleftrightarrow> active' = []" using assms by auto
  ultimately show ?thesis by (simp add: planIPLimit_def)
qed

section \<open>Remembered seniority\<close>

lemma rememberHolders_get:
  assumes "gmap_ok held" and "gmap_ok admitted"
  shows "gget (rememberHolders held admitted dropped now memory) a =
    (case gget admitted a of
       Some h \<Rightarrow> Some h
     | None \<Rightarrow> (case gget held a of
         Some h \<Rightarrow> if now - ih_last_seen h > memory \<or> a \<in> set dropped then None else Some h
       | None \<Rightarrow> None))"
proof -
  have start: "fold (\<lambda>(a, h). gput a h) admitted [] = admitted"
    using fold_gput_fresh [of admitted "[]" "\<lambda>h. h"] assms(2) by simp
  let ?step = "\<lambda>(a, h) rec. if gget rec a \<noteq> None \<or> now - ih_last_seen h > memory \<or> a \<in> set dropped then rec else gput a h rec"
  have "gget (fold ?step hs rec) a = (case gget rec a of Some h \<Rightarrow> Some h
     | None \<Rightarrow> (case gget hs a of Some h \<Rightarrow> if now - ih_last_seen h > memory \<or> a \<in> set dropped then None else Some h | None \<Rightarrow> None))"
    if "gmap_ok hs" for hs rec
    using that
  proof (induction hs arbitrary: rec)
    case (Cons kh hs)
    then show ?case by (cases kh) (auto split: option.splits dest: map_of_SomeD simp: rev_image_eqI)
  qed (simp split: option.splits)
  from this [OF assms(1)] show ?thesis by (simp add: rememberHolders_def start)
qed

text \<open>
  Who held a slot keeps it at the next scan: if of the remembered addresses only slot holders are
  connected, and whoever else is connected arrived after them, every slot holder still there is admitted.
\<close>

lemma holder_kept:
  assumes "planIPLimit held active limit now grace = (admitted, dropped)" and "gmap_ok active" and "0 < limit"
    and "set slots \<subseteq> set (gkeys held)" and "int (length slots) \<le> limit"
    and "live_in now grace active \<inter> set (gkeys held) \<subseteq> set slots"
    and newer: "\<And>a w h b. (a, w) \<in> set active \<Longrightarrow> a \<notin> set (gkeys held) \<Longrightarrow> gget held b = Some h \<Longrightarrow> ih_at h < iw_first_seen w"
    and "a \<in> set slots" and "a \<in> live_in now grace active"
  shows "a \<in> set (gkeys admitted)"
proof (rule ccontr)
  assume "a \<notin> set (gkeys admitted)"
  then have drop: "a \<in> set dropped" using plan_partition(4) [OF assms(1-3)] assms(9) by auto
  have sub: "set (gkeys admitted) \<subseteq> set slots"
  proof
    fix b assume b: "b \<in> set (gkeys admitted)"
    have "cand_less (b, seniority held active b) (a, seniority held active a)"
      by (rule plan_seniority [OF assms(1-3) b drop])
    then have le: "seniority held active b \<le> seniority held active a"
      by (auto simp: cand_less_def split: if_splits)
    have live: "b \<in> live_in now grace active" using plan_partition(4) [OF assms(1-3)] b by auto
    show "b \<in> set slots"
    proof (cases "b \<in> set (gkeys held)")
      case False
      obtain w where w: "(b, w) \<in> set active" using live by (auto simp: live_in_def)
      obtain h where h: "gget held a = Some h" using assms(4,8) by (metis map_of_eq_None_iff option.exhaust_sel subsetD list.set_map)
      have "gget held b = None" using False by (simp add: map_of_eq_None_iff)
      with w h have "seniority held active a = ih_at h" "seniority held active b = iw_first_seen w"
        using assms(2) by (auto simp: seniority_def)
      with le newer [OF w False h] show ?thesis by simp
    qed (use assms(6) live in auto)
  qed
  have "dropped \<noteq> []" using drop by auto
  then have "int (length admitted) = limit" by (rule plan_partition(2) [OF assms(1-3)])
  moreover have "distinct (gkeys admitted)" using plan_partition(3) [OF assms(1-3)] by simp
  ultimately have "card (set (gkeys admitted)) = nat limit" by (metis distinct_card length_map nat_int)
  moreover have "set (gkeys admitted) \<subset> set slots" using sub assms(8) \<open>a \<notin> set (gkeys admitted)\<close> by blast
  then have "card (set (gkeys admitted)) < card (set slots)" by (rule psubset_card_mono [rotated]) simp
  moreover have "card (set slots) \<le> nat limit" using card_length [of slots] assms(5) by linarith
  ultimately show False by linarith
qed

section \<open>The ban list\<close>

lemma sweepLocked_neutral:
  assumes "gmap_ok (il_bans l)" and "now \<le> t" and "0 \<le> t"
  shows "allow (sweepLocked now None l) t user source = allow l t user source"
  using assms gget_filter [OF assms(1), of "\<lambda>(k, b). \<not> sweeps now None k b" "(user, source)"]
  by (auto simp: allow_def sweepLocked_def sweeps_def Let_def split: option.splits)

lemma evict_bounds:
  assumes "gmap_ok (il_bans l)" and l'_def: "l' = evictBansLocked now l"
  shows "length (il_bans l') \<le> ipBanMaxSize" and "gmap_ok (il_bans l')" and "set (il_bans l') \<subseteq> set (il_bans l)"
    and "\<lbrakk>(k, b) \<in> set (il_bans l); now < ib_until b; (k, b) \<notin> set (il_bans l'); (k', b') \<in> set (il_bans l')\<rbrakk>
      \<Longrightarrow> ib_until b \<le> ib_until b'"
proof -
  define l1 where "l1 = sweepLocked now None l"
  have ok1: "gmap_ok (il_bans l1)" using assms(1) by (simp add: l1_def sweepLocked_def)
  have sub1: "set (il_bans l1) \<subseteq> set (il_bans l)" by (auto simp: l1_def sweepLocked_def)
  have in1: "(k, b) \<in> set (il_bans l) \<Longrightarrow> now < ib_until b \<Longrightarrow> (k, b) \<in> set (il_bans l1)" for k b
    by (simp add: l1_def sweepLocked_def sweeps_def)
  define es where "es = sort_by (\<lambda>a b. ib_until (snd a) < ib_until (snd b)) (il_bans l1)"
  define n where "n = length (il_bans l1) - ipBanMaxSize"
  have des: "distinct (map fst es)" using ok1 by (simp add: es_def)
  have cut: "filter (\<lambda>(k, v). k \<notin> fst ` set (take n es)) xs = filter (\<lambda>kv. kv \<in> set (drop n es)) xs"
    if "set xs \<subseteq> set es" for xs
  proof (rule filter_cong [OF refl])
    fix kv assume "kv \<in> set xs"
    then have kv: "kv \<in> set (take n es) \<union> set (drop n es)" using that by (metis append_take_drop_id set_append subsetD)
    have "distinct (map fst (take n es) @ map fst (drop n es))" using des by (metis append_take_drop_id map_append)
    then have "fst ` set (take n es) \<inter> fst ` set (drop n es) = {}" by simp
    with kv show "(case kv of (k, v) \<Rightarrow> k \<notin> fst ` set (take n es)) = (kv \<in> set (drop n es))"
      by (cases kv) force
  qed
  have l': "il_bans l' = (if length (il_bans l1) \<le> ipBanMaxSize then il_bans l1 else filter (\<lambda>kv. kv \<in> set (drop n es)) (il_bans l1))"
    using cut [of "il_bans l1"]
    by (simp add: l'_def evictBansLocked_def l1_def [symmetric] Let_def fold_gdel_filter es_def n_def)
  show "gmap_ok (il_bans l')" "set (il_bans l') \<subseteq> set (il_bans l)" using l' ok1 sub1 by auto
  show "length (il_bans l') \<le> ipBanMaxSize"
  proof (cases "length (il_bans l1) \<le> ipBanMaxSize")
    case False
    have "distinct (il_bans l1)" "distinct es" using ok1 des by (simp_all add: distinct_map)
    then have "length (il_bans l') = card (set (il_bans l'))"
      using l' False by (metis distinct_card distinct_filter)
    also have "\<dots> \<le> card (set (drop n es))" using l' False by (intro card_mono) auto
    also have "\<dots> \<le> length (drop n es)" by (rule card_length)
    finally show ?thesis using False by (simp add: n_def es_def)
  qed (simp add: l')
  show "ib_until b \<le> ib_until b'" if kb: "(k, b) \<in> set (il_bans l)" "now < ib_until b" "(k, b) \<notin> set (il_bans l')" and kb': "(k', b') \<in> set (il_bans l')"
  proof -
    have big: "\<not> length (il_bans l1) \<le> ipBanMaxSize" using l' in1 [OF kb(1,2)] kb(3) by auto
    then have "(k, b) \<notin> set (drop n es)" "(k', b') \<in> set (drop n es)" using l' in1 [OF kb(1,2)] kb(3) kb' by auto
    moreover have "(k, b) \<in> set es" using in1 [OF kb(1,2)] by (simp add: es_def)
    ultimately have "(k, b) \<in> set (take n es)" by (metis Un_iff append_take_drop_id set_append)
    moreover have "sorted_wrt (\<lambda>x y. \<not> ib_until (snd y) < ib_until (snd x)) (take n es @ drop n es)"
      using ban_date.sorted_sort_by by (simp only: append_take_drop_id es_def)
    ultimately have "\<not> ib_until (snd (k', b')) < ib_until (snd (k, b))"
      unfolding sorted_wrt_append using \<open>(k', b') \<in> set (drop n es)\<close> by blast
    then show ?thesis by simp
  qed
qed

section \<open>A scan\<close>

text \<open>The sources a user is connected from, idle ones left out.\<close>

definition live_sources :: "int \<Rightarrow> tracker \<Rightarrow> string \<Rightarrow> addr set" where
  "live_sources now tr u = {a. \<exists>w. lookup2 (UserIPs None tr) u a = Some w \<and> \<not> now - iw_last_seen w > ipIdleGrace}"

lemma scan_client_drop:
  assumes "planIPLimit (gget0 [] held (fst c)) (gget0 [] active (fst c)) (snd c) now ipIdleGrace = (admitted, dropped)"
  shows "gget (sa_drop (scan_client held active now nowUnix gen c s)) u =
    (if u = fst c \<and> dropped \<noteq> [] then Some dropped else gget (sa_drop s) u)"
  using assms by (cases c) (auto simp: scan_client_def Let_def)

lemma scan_drop:
  assumes "distinct (map fst cs)" and "(u, limit) \<in> set cs" and "gget (sa_drop s) u = None"
    and "planIPLimit (gget0 [] held u) (gget0 [] active u) limit now ipIdleGrace = (admitted, dropped)"
  shows "gget (sa_drop (fold (scan_client held active now nowUnix gen) cs s)) u =
    (if dropped \<noteq> [] then Some dropped else None)"
proof -
  have other: "gget (sa_drop (fold (scan_client held active now nowUnix gen) xs s)) u = gget (sa_drop s) u"
    if "u \<notin> fst ` set xs" for xs s
    using that
  proof (induction xs arbitrary: s)
    case (Cons x xs)
    obtain ad dr where "planIPLimit (gget0 [] held (fst x)) (gget0 [] active (fst x)) (snd x) now ipIdleGrace = (ad, dr)"
      by (cases "planIPLimit (gget0 [] held (fst x)) (gget0 [] active (fst x)) (snd x) now ipIdleGrace")
    from scan_client_drop [OF this] Cons show ?case by auto
  qed simp
  obtain xs ys where cs: "cs = xs @ (u, limit) # ys" using assms(2) by (meson split_list)
  then have "u \<notin> fst ` set xs" "u \<notin> fst ` set ys" using assms(1) by auto
  moreover have "gget (sa_drop (scan_client held active now nowUnix gen (u, limit) t)) u
      = (if dropped \<noteq> [] then Some dropped else gget (sa_drop t) u)" for t
    using scan_client_drop [of held "(u, limit)"] assms(4) by simp
  ultimately show ?thesis using assms(3) other unfolding cs by simp
qed

lemma of_pair_want:
  assumes "\<And>f. want = Some f \<Longrightarrow> f u"
  shows "of_pair want u a is = of_pair None u a is"
  using assms unfolding of_pair_def counts_for_def by (intro filter_cong) (auto split: option.splits)

lemma of_pair_filter: "of_pair want u a (filter P is) = filter P (of_pair want u a is)"
  by (simp add: of_pair_def conj_commute)

lemma window_of_mono:
  assumes "window_of (filter P is) = Some w"
  obtains w0 where "window_of is = Some w0" and "iw_last_seen w \<le> iw_last_seen w0"
proof -
  have "filter P is \<noteq> []" using assms by (auto simp: window_of_def split: if_splits)
  then have ne: "is \<noteq> []" by auto
  have "Max (set (map ci_last_active (filter P is))) \<le> Max (set (map ci_last_active is))"
    using \<open>filter P is \<noteq> []\<close> by (intro Max_mono) (auto simp: filter_empty_conv)
  then show thesis using assms ne that by (auto simp: window_of_def split: if_splits)
qed

text \<open>
  Closing what a plan drops leaves a user with the admitted sources.
\<close>

lemma dropped_closed:
  assumes "planIPLimit held (gget0 [] (UserIPs want tr) u) limit now ipIdleGrace = (admitted, dropped)"
    and "0 < limit" and "\<And>f. want = Some f \<Longrightarrow> f u"
    and "infos tr' = filter (\<lambda>i. \<not> (ci_user i = u \<and> ci_source i \<in> set dropped) \<and> Q i) (infos tr)"
  shows "live_sources now tr' u \<subseteq> set (gkeys admitted)"
proof
  fix a assume "a \<in> live_sources now tr' u"
  then obtain w where w: "window_of (of_pair None u a (infos tr')) = Some w" "\<not> now - iw_last_seen w > ipIdleGrace"
    by (auto simp: live_sources_def UserIPs_window)
  let ?P = "\<lambda>i. \<not> (ci_user i = u \<and> ci_source i \<in> set dropped) \<and> Q i"
  have w': "window_of (filter ?P (of_pair None u a (infos tr))) = Some w"
    using w(1) unfolding assms(4) of_pair_filter .
  then obtain i where "i \<in> set (of_pair None u a (infos tr))" "?P i"
    by (auto simp: window_of_def filter_empty_conv split: if_splits)
  then have a: "a \<notin> set dropped" by (auto simp: of_pair_def)
  obtain w0 where w0: "window_of (of_pair None u a (infos tr)) = Some w0" "iw_last_seen w \<le> iw_last_seen w0"
    using window_of_mono [OF w'] by blast
  have "of_pair want u a (infos tr) = of_pair None u a (infos tr)"
    by (rule of_pair_want) (rule assms(3))
  with w0 have "lookup2 (UserIPs want tr) u a = Some w0" by (simp add: UserIPs_window)
  then obtain m where m: "gget (UserIPs want tr) u = Some m" "gget m a = Some w0"
    by (auto simp: lookup2_def split: option.splits)
  have ok: "gmap_ok m" by (rule UserIPs_maps_ok(2) [OF m(1)])
  have plan: "planIPLimit held m limit now ipIdleGrace = (admitted, dropped)"
    using assms(1) m(1) by (simp add: gget0_def)
  have "(a, w0) \<in> set m" using m(2) by (rule map_of_SomeD)
  then have "a \<in> live_in now ipIdleGrace m" using w(2) w0(2) by (force simp: live_in_def)
  then show "a \<in> set (gkeys admitted)"
    using plan_partition(4) [OF plan ok assms(2)] a by auto
qed

text \<open>The limits a scan enforces: those of the table, less the clients another panel manages.\<close>

definition enforced :: "int \<Rightarrow> db \<Rightarrow> ip_state \<Rightarrow> (string, int) gomap" where
  "enforced nowLease d st =
     (case loadIPLimits True d of
        Inl _ \<Rightarrow> []
      | Inr (limits0, managed) \<Rightarrow>
          if il_cluster_lease_until (is_limiter st) > nowLease then fold gdel (gkeys managed) limits0 else limits0)"

lemma load_limits:
  assumes "loadIPLimits True d = Inr (limits, managed)"
  shows "gmap_ok limits" and "(u, n) \<in> set limits \<Longrightarrow> 0 < n"
proof -
  have "gmap_ok m \<and> (\<forall>(u, n) \<in> set m. 0 < n) \<Longrightarrow> (\<forall>c \<in> set cs. c_limit_ip c > 0) \<Longrightarrow>
    gmap_ok (fold (\<lambda>c. gput (c_name c) (c_limit_ip c)) cs m) \<and>
    (\<forall>(u, n) \<in> set (fold (\<lambda>c. gput (c_name c) (c_limit_ip c)) cs m). 0 < n)" for cs m
  proof (induction cs arbitrary: m)
    case (Cons c cs)
    then have "gmap_ok (gput (c_name c) (c_limit_ip c) m) \<and> (\<forall>(u, n) \<in> set (gput (c_name c) (c_limit_ip c) m). 0 < n)"
      by (auto simp: distinct_update dest!: gput_in_set)
    with Cons show ?case by simp
  qed simp
  from this [of "[]" "filter (\<lambda>c. c_limit_ip c > 0 \<and> c_enable c) (db_clients d)"] assms
  show "gmap_ok limits" "(u, n) \<in> set limits \<Longrightarrow> 0 < n"
    by (auto simp: loadIPLimits_def Let_def)
qed

lemma enforced_ok: "gmap_ok (enforced nowLease d st)" "(u, n) \<in> set (enforced nowLease d st) \<Longrightarrow> 0 < n"
proof -
  obtain l0 mg where load: "loadIPLimits True d = Inr (l0, mg)" by (auto simp: loadIPLimits_def Let_def)
  show "gmap_ok (enforced nowLease d st)" "(u, n) \<in> set (enforced nowLease d st) \<Longrightarrow> 0 < n"
    using load_limits(1) [OF load] load_limits(2) [OF load, of u n]
    by (auto simp: enforced_def load fold_gdel_filter split: if_splits)
qed

lemma enforce_live:
  assumes "is_tracker st = Some tr" and "(u, limit) \<in> set (enforced nowLease d st)"
  obtains tr' where "is_tracker (EnforceIPLimits True nowLease nowUnix now d st) = Some tr'"
    and "card (live_sources now tr' u) \<le> nat limit"
proof -
  define limits where "limits = enforced nowLease d st"
  obtain l0 mg where load: "loadIPLimits True d = Inr (l0, mg)" by (auto simp: loadIPLimits_def Let_def)
  have lim: "limits = (if il_cluster_lease_until (is_limiter st) > nowLease then fold gdel (gkeys mg) l0 else l0)"
    by (simp add: limits_def enforced_def load)
  have ne: "limits \<noteq> []" using assms(2) by (auto simp: limits_def)
  let ?want = "Some (\<lambda>u. gget limits u \<noteq> None)"
  let ?gen = "tr_generation tr"
  obtain held l1 where bs: "beginScan ?gen (is_limiter (st\<lparr>is_active := l0 \<noteq> []\<rparr>)) = (held, l1)" by force
  define acc where "acc = fold (scan_client held (UserIPs ?want tr) now nowUnix ?gen) limits
      \<lparr>sa_limiter = l1, sa_counts = [], sa_records = [], sa_drop = [], sa_capped = []\<rparr>"
  define tr' where "tr' = (if sa_drop acc \<noteq> [] then snd (CloseConnByUserIPs (sa_drop acc) tr) else tr)"
  have R: "is_tracker (EnforceIPLimits True nowLease nowUnix now d st) = Some tr'"
    using ne assms(1) bs unfolding EnforceIPLimits_def load acc_def tr'_def lim
    by (simp add: Let_def)
  obtain admitted dropped where plan: "planIPLimit (gget0 [] held u) (gget0 [] (UserIPs ?want tr) u) limit now ipIdleGrace = (admitted, dropped)"
    by (cases "planIPLimit (gget0 [] held u) (gget0 [] (UserIPs ?want tr) u) limit now ipIdleGrace")
  have u: "(u, limit) \<in> set limits" "gmap_ok limits" "0 < limit"
    using assms(2) enforced_ok(1) [of nowLease d st] enforced_ok(2) [of u limit nowLease d st] by (auto simp: limits_def)
  have drop: "gget (sa_drop acc) u = (if dropped \<noteq> [] then Some dropped else None)"
    unfolding acc_def using u plan by (intro scan_drop) auto
  define hit where "hit = (\<lambda>i :: connection_info. case gget (sa_drop acc) (ci_user i) of None \<Rightarrow> False | Some ips \<Rightarrow> ci_source i \<in> set ips)"
  have inf: "infos tr' = filter (\<lambda>i. \<not> hit i) (infos tr)"
  proof (cases "sa_drop acc = []")
    case True
    then show ?thesis by (simp add: tr'_def hit_def)
  next
    case False
    then show ?thesis
      using close_where_infos(1) [of hit tr] unfolding tr'_def CloseConnByUserIPs_def hit_def [symmetric]
      by (cases "close_where hit tr") auto
  qed
  also have "\<dots> = filter (\<lambda>i. \<not> (ci_user i = u \<and> ci_source i \<in> set dropped) \<and> \<not> hit i) (infos tr)"
    using drop by (intro filter_cong) (auto simp: hit_def split: if_splits)
  finally have "live_sources now tr' u \<subseteq> set (gkeys admitted)"
    using u by (intro dropped_closed [OF plan u(3)]) auto
  then have "card (live_sources now tr' u) \<le> card (set (gkeys admitted))" by (intro card_mono) auto
  also have "\<dots> \<le> length admitted" using card_length [of "gkeys admitted"] by simp
  also have "\<dots> \<le> nat limit"
  proof (cases "gget (UserIPs ?want tr) u")
    case None
    then show ?thesis using plan by (simp add: planIPLimit_def gget0_def)
  next
    case (Some m)
    with plan have "planIPLimit (gget0 [] held u) m limit now ipIdleGrace = (admitted, dropped)" by (simp add: gget0_def)
    from plan_partition(1) [OF this UserIPs_maps_ok(2) [OF Some] u(3)] show ?thesis by simp
  qed
  finally show thesis using that [OF R] by simp
qed

section \<open>The gate\<close>

text \<open>
  What the tracker's admission relies on: a ban that was placed refuses its pair until it is over. \<open>room\<close>
  says when placing a ban is sure to keep it.
\<close>

locale ban_gate =
  fixes denies :: "'s \<Rightarrow> int \<Rightarrow> string \<Rightarrow> addr \<Rightarrow> bool"
    and place :: "string \<Rightarrow> addr list \<Rightarrow> int \<Rightarrow> 's \<Rightarrow> 's"
    and room :: "string \<Rightarrow> addr list \<Rightarrow> int \<Rightarrow> int \<Rightarrow> 's \<Rightarrow> bool"
    and ttl :: int
  assumes placed: "room u ips now t s \<Longrightarrow> a \<in> set ips \<Longrightarrow> now \<le> t \<Longrightarrow> t < now + ttl \<Longrightarrow> denies (place u ips now s) t u a"
begin

text \<open>A connection from a banned source is closed and never tracked.\<close>

lemma refused:
  assumes "room u ips now t s" and "now \<le> t" and "t < now + ttl" and "normalizeSrc (md_source md) \<in> set ips"
    and "md_user md = u" and "u \<noteq> []" and "addr_valid (md_source md)"
  shows "routed typ (Some (\<lambda>v a. \<not> denies (place u ips now s) t v a)) cid clk sock md rule ob tr
      = (False, tr\<lparr>tr_closed := tr_closed tr @ [sock]\<rparr>)"
  using assms placed [OF assms(1,4,2,3)] by (auto simp: routed_def admit_def gateAllows_def normalizeSrc_valid Let_def)

end

definition ban_room :: "nat \<Rightarrow> string \<Rightarrow> addr list \<Rightarrow> int \<Rightarrow> int \<Rightarrow> ip_limiter \<Rightarrow> bool" where
  "ban_room gen u ips now t l \<longleftrightarrow> gmap_ok (il_bans l) \<and> length (il_bans l) + length ips \<le> ipBanMaxSize \<and>
     \<not> (gget0 False (il_cluster_managed l) u \<and> il_cluster_lease_until l > t)"

lemma length_gput_le: "length (gput k v m) \<le> Suc (length m)"
  by (induction m) auto

lemma ban_get:
  assumes "ban_room gen u ips now t l" and "a \<in> set ips"
  shows "gget (il_bans (ban u ips now gen l)) (u, a) = Some \<lparr>ib_until = now + ipBanTTL, ib_generation = gen\<rparr>"
    and "il_cluster_managed (ban u ips now gen l) = il_cluster_managed l"
    and "il_cluster_lease_until (ban u ips now gen l) = il_cluster_lease_until l"
proof -
  let ?b = "\<lparr>ib_until = now + ipBanTTL, ib_generation = gen\<rparr>"
  let ?m = "fold (\<lambda>ip. gput (u, ip) ?b) ips (il_bans l)"
  have m: "gmap_ok ?m" "length ?m \<le> length (il_bans l) + length ips" "gget ?m (u, a) = Some ?b"
  proof -
    show "gmap_ok ?m" using assms(1) gmap.inv_fold_put [of "il_bans l" "\<lambda>_. ?b" "map (Pair u) ips"]
      by (simp add: ban_room_def fold_map comp_def)
    have "length (fold (\<lambda>ip. gput (u, ip) ?b) xs m) \<le> length m + length xs" for xs m
    proof (induction xs arbitrary: m)
      case (Cons x xs)
      show ?case using Cons [of "gput (u, x) ?b m"] length_gput_le [of "(u, x)" ?b m] by simp
    qed simp
    then show "length ?m \<le> length (il_bans l) + length ips" .
    show "gget ?m (u, a) = Some ?b"
      using assms gmap.get_fold_put [of "il_bans l" "\<lambda>_. ?b" "map (Pair u) ips" "(u, a)"]
      by (simp add: ban_room_def fold_map comp_def)
  qed
  have ne: "ips \<noteq> []" using assms(2) by auto
  have small: "length (filter (\<lambda>(k, b). \<not> sweeps now None k b) ?m) \<le> ipBanMaxSize"
    by (rule order_trans [OF length_filter_le order_trans [OF m(2)]]) (use assms(1) in \<open>simp add: ban_room_def\<close>)
  have "il_bans (ban u ips now gen l) = filter (\<lambda>(k, b). \<not> sweeps now None k b) ?m"
    using ne small by (simp add: ban_def evictBansLocked_def sweepLocked_def Let_def)
  moreover have "\<not> sweeps now None (u, a) ?b" by (simp add: sweeps_def ipBanTTL_def)
  ultimately show "gget (il_bans (ban u ips now gen l)) (u, a) = Some ?b"
    using gget_filter [OF m(1), of "\<lambda>(k, b). \<not> sweeps now None k b" "(u, a)"] m(3) by simp
  show "il_cluster_managed (ban u ips now gen l) = il_cluster_managed l"
    "il_cluster_lease_until (ban u ips now gen l) = il_cluster_lease_until l"
    by (simp_all add: ban_def evictBansLocked_def sweepLocked_def Let_def)
qed

interpretation ipgate: ban_gate "\<lambda>l t u a. \<not> allow l t u a" "\<lambda>u ips now l. ban u ips now gen l" "ban_room gen" ipBanTTL
  for gen
proof
  fix u ips now t a and l :: ip_limiter
  assume *: "ban_room gen u ips now t l" "a \<in> set ips" "now \<le> t" "t < now + ipBanTTL"
  show "\<not> allow (ban u ips now gen l) t u a"
    using * ban_get [OF *(1,2)] by (auto simp: allow_def ban_room_def Let_def)
qed

end
