(* ===== verification/IpProps.thy ===== *)
theory IpProps
  imports IpLimitInv
begin

text \<open>
  The properties of the address limit, the connection tracker and the identities they count.
\<close>

section \<open>Three sources\<close>









definition px_md :: metadata where
  "px_md = \<lparr>md_inbound = ''in'', md_user = ''alice'', md_source = V6 0xFFFFC0000203 [], md_source_text = [],
     md_destination_text = [], md_destination_fqdn = [], md_domain = [], md_route_outbound = [], md_route_rule = []\<rparr>"


section \<open>The plan\<close>



text \<open>
  Who holds a slot keeps it: if of the remembered sources only slot holders are connected and every
  stranger arrived after all of them, each slot holder that is still live is admitted again.
\<close>

lemma holders_keep_their_slots:
  assumes "planIPLimit held active limit now grace = (admitted, dropped)" and "gmap_ok active" and "0 < limit"
    and "set slots \<subseteq> set (gkeys held)" and "int (length slots) \<le> limit"
    and "live_in now grace active \<inter> set (gkeys held) \<subseteq> set slots"
    and "\<And>a w h b. (a, w) \<in> set active \<Longrightarrow> a \<notin> set (gkeys held) \<Longrightarrow> gget held b = Some h \<Longrightarrow> ih_at h < iw_first_seen w"
    and "a \<in> set slots" and "a \<in> live_in now grace active"
  shows "a \<in> set (gkeys admitted)"
  using assms by (rule holder_kept)

section \<open>The scan\<close>



section \<open>The bans\<close>

text \<open>
  The list of bans is bounded, and what is evicted from it to stay so are the bans that end soonest: no
  live ban is dropped while one that ends earlier is kept.
\<close>

lemma ban_list_is_bounded:
  assumes "gmap_ok (il_bans l)"
  shows "length (il_bans (evictBansLocked now l)) \<le> ipBanMaxSize \<and> gmap_ok (il_bans (evictBansLocked now l))
    \<and> (\<forall>k b k' b'. (k, b) \<in> set (il_bans l) \<and> now < ib_until b \<and> (k, b) \<notin> set (il_bans (evictBansLocked now l))
         \<and> (k', b') \<in> set (il_bans (evictBansLocked now l)) \<longrightarrow> ib_until b \<le> ib_until b')"
  using evict_bounds(1,2) [OF assms refl, of now] evict_bounds(4) [OF assms refl, of _ _ now] by blast

text \<open>
  A ban shuts the door: as long as it lasts, a connection of that client from that source, under any
  spelling of the address, is closed on arrival and never tracked.
\<close>

lemma banned_source_is_refused:
  assumes "ban_room gen u ips now t l" and "now \<le> t" and "t < now + ipBanTTL" and "normalizeSrc (md_source md) \<in> set ips"
    and "md_user md = u" and "u \<noteq> []" and "addr_valid (md_source md)"
  shows "routed typ (Some (\<lambda>v a. allow (ban u ips now gen l) t v a)) cid clk sock md rule ob tr
      = (False, tr\<lparr>tr_closed := tr_closed tr @ [sock]\<rparr>)"
  using ipgate.refused [OF assms, of "typ" cid clk sock rule ob tr] by simp

section \<open>Snapshots and identities\<close>

text \<open>
  The snapshot of who is connected from where equals its definition: for every client and source the
  oldest creation and the latest activity over exactly that pair's connections, and nothing for a pair
  without one.
\<close>

lemma UserIPs_is_the_window:
  "lookup2 (UserIPs want tr) u a = window_of (of_pair want u a (infos tr))"
  by (rule UserIPs_window)

text \<open>
  An address counts as one identity however it is written: an IPv4 address and its IPv6-mapped form are
  one, two native IPv6 addresses are one exactly if they share their first 64 bits, and the identity of an
  identity is itself.
\<close>

lemma source_identity:
  assumes "\<not> is4in6 v" and "\<not> is4in6 w" and "is4in6 m"
  shows "(normalizeSrc (V6 v y) = normalizeSrc (V6 w z) \<longleftrightarrow> drop_bit 64 v = drop_bit 64 w)
    \<and> normalizeSrc (V6 m z) = normalizeSrc (V4 (ucast m)) \<and> normalizeSrc (normalizeSrc a) = normalizeSrc a"
  using normalizeSrc_same_prefix [OF assms(1,2)] normalizeSrc_mapped [OF assms(3)] normalizeSrc_idem by simp

end
