(* ===== verification/UserSession.thy ===== *)
theory UserSession
  imports ConnTracker
begin

text \<open>
  The session registry of an inbound (\<^verbatim>\<open>core/usersession\<close>), the routers that feed it, what the protocol
  inbounds do with it when their user table changes, and the kick of one user (\<^verbatim>\<open>core/disconnect.go\<close>). A
  transport is known by the number of its socket; operations that close transports return the list of
  what they closed.
\<close>

section \<open>The registry\<close>

record entry =
  en_user :: string
  en_closer :: "nat option"

record registry =
  rg_sources :: "(string, entry) gomap"
  rg_seen :: "(string, unit) gomap"

definition NewRegistry :: registry where
  "NewRegistry = \<lparr>rg_sources = [], rg_seen = []\<rparr>"

record kick_result =
  kr_cut :: nat
  kr_unclosable :: nat

definition RestartRequired :: "kick_result \<Rightarrow> bool" where
  "RestartRequired r \<longleftrightarrow> kr_unclosable r > 0"

definition Bind :: "string \<Rightarrow> string \<Rightarrow> registry \<Rightarrow> registry" where
  "Bind user source r =
     (if user = [] then r
      else case gget (rg_sources r) source of
        Some e \<Rightarrow> r\<lparr>rg_sources := gput source (e\<lparr>en_user := user\<rparr>) (rg_sources r)\<rparr>
      | None \<Rightarrow> r\<lparr>rg_seen := gput user () (rg_seen r)\<rparr>)"

text \<open>\<open>load\<close>: the entry under a source, fresh if there is none.\<close>

definition load_entry :: "string \<Rightarrow> registry \<Rightarrow> entry" where
  "load_entry source r = gget0 \<lparr>en_user = [], en_closer = None\<rparr> (rg_sources r) source"

definition BindAndTrack :: "string \<Rightarrow> string \<Rightarrow> nat option \<Rightarrow> registry \<Rightarrow> registry" where
  "BindAndTrack user source closer r =
     (if source = [] then r
      else
        let e = load_entry source r;
            e1 = (if user \<noteq> [] then e\<lparr>en_user := user\<rparr> else e);
            e2 = (if closer \<noteq> None then e1\<lparr>en_closer := closer\<rparr> else e1)
        in r\<lparr>rg_sources := gput source e2 (rg_sources r)\<rparr>)"

definition Track :: "string \<Rightarrow> nat option \<Rightarrow> registry \<Rightarrow> registry" where
  "Track source closer r =
     (if source = [] then r
      else r\<lparr>rg_sources := gput source ((load_entry source r)\<lparr>en_closer := closer\<rparr>) (rg_sources r)\<rparr>)"

definition Untrack :: "string \<Rightarrow> registry \<Rightarrow> registry" where
  "Untrack source r = (if source = [] then r else r\<lparr>rg_sources := gdel source (rg_sources r)\<rparr>)"

text \<open>The loop both removals share: cut what can be cut among the sessions of the selected users.\<close>

definition cut_sessions :: "(string \<Rightarrow> bool) \<Rightarrow> registry \<Rightarrow> (kick_result \<times> nat list) \<times> registry" where
  "cut_sessions gone r =
     (let hit = filter (\<lambda>(_, e). gone (en_user e)) (rg_sources r);
          closers = List.map_filter (\<lambda>(_, e). en_closer e) hit
      in ((\<lparr>kr_cut = length closers, kr_unclosable = length (filter (\<lambda>(_, e). en_closer e = None) hit)\<rparr>, closers),
          r\<lparr>rg_sources := filter (\<lambda>(_, e). \<not> (gone (en_user e) \<and> en_closer e \<noteq> None)) (rg_sources r)\<rparr>))"

definition CloseUsers :: "(string, unit) gomap \<Rightarrow> registry \<Rightarrow> (kick_result \<times> nat list) \<times> registry" where
  "CloseUsers keep r =
     (let ((res, closers), r1) = cut_sessions (\<lambda>u. u \<noteq> [] \<and> gget keep u = None) r;
          left = filter (\<lambda>(u, _). gget keep u = None) (rg_seen r1)
      in ((res\<lparr>kr_unclosable := kr_unclosable res + length left\<rparr>, closers),
          r1\<lparr>rg_seen := filter (\<lambda>(u, _). \<not> gget keep u = None) (rg_seen r1)\<rparr>))"

definition KickUserSessions :: "string \<Rightarrow> registry \<Rightarrow> (kick_result \<times> nat list) \<times> registry" where
  "KickUserSessions user r =
     (if user = [] then ((\<lparr>kr_cut = 0, kr_unclosable = 0\<rparr>, []), r)
      else
        let ((res, closers), r1) = cut_sessions (\<lambda>u. u = user) r
        in ((if gget (rg_seen r1) user \<noteq> None then res\<lparr>kr_unclosable := kr_unclosable res + 1\<rparr> else res, closers), r1))"

definition KeepSet :: "string list \<Rightarrow> (string, unit) gomap" where
  "KeepSet names = fold (\<lambda>n. gput n ()) names []"

section \<open>Routers\<close>

datatype mode = BindOnly | TrackMuxCarrier

datatype route_conn = StreamConn nat | PacketConn nat

text \<open>
  What a wrapped router records of a connection on its way: \<open>mux\<close> says whether the destination is the one
  of sing-mux carriers, \<open>source\<close> is the printed source. The second component is the source to untrack
  once the router is done with the connection, if any.
\<close>

definition enter :: "mode \<Rightarrow> route_conn \<Rightarrow> string \<Rightarrow> string \<Rightarrow> bool \<Rightarrow> registry \<Rightarrow> registry \<times> string option" where
  "enter m conn user source mux r =
     (case m of
        TrackMuxCarrier \<Rightarrow>
          (if \<not> mux then (r, None)
           else (BindAndTrack user source (case conn of StreamConn n \<Rightarrow> Some n | PacketConn _ \<Rightarrow> None) r, Some source))
      | BindOnly \<Rightarrow> (Bind user source r, None))"

definition leave :: "string option \<Rightarrow> registry \<Rightarrow> registry" where
  "leave cleanup r = (case cleanup of None \<Rightarrow> r | Some source \<Rightarrow> Untrack source r)"

section \<open>User tables\<close>

text \<open>
  \<^verbatim>\<open>UpdateUsers\<close> of the inbounds, as far as sessions go: the QUIC ones ask for a rebuild when a removed
  user cannot be cut off, the others never do.
\<close>

definition UpdateUsers_quic :: "string list \<Rightarrow> registry \<Rightarrow> (bool \<times> nat list) \<times> registry" where
  "UpdateUsers_quic names r = (let ((res, closed), r1) = CloseUsers (KeepSet names) r in ((RestartRequired res, closed), r1))"

definition UpdateUsers_stream :: "string list \<Rightarrow> registry \<Rightarrow> (bool \<times> nat list) \<times> registry" where
  "UpdateUsers_stream names r = (let ((res, closed), r1) = CloseUsers (KeepSet names) r in ((False, closed), r1))"

section \<open>Kicking one user\<close>

record unclosable_inbound =
  ui_tag :: string
  ui_reason :: string
  ui_node :: string

definition UnclosableQUIC :: string where "UnclosableQUIC = ''quic''"
definition UnclosableMux :: string where "UnclosableMux = ''mux''"

text \<open>\<^verbatim>\<open>CompareUnclosable\<close> as the strict order it sorts by.\<close>

definition unclosable_less :: "unclosable_inbound \<Rightarrow> unclosable_inbound \<Rightarrow> bool" where
  "unclosable_less a b = (if ui_node a \<noteq> ui_node b then ui_node a < ui_node b else ui_tag a < ui_tag b)"

record disconnect_result =
  dr_connections :: nat
  dr_sessions :: nat
  dr_unclosable :: "unclosable_inbound list"

definition AddUnclosable :: "string \<Rightarrow> string \<Rightarrow> disconnect_result \<Rightarrow> disconnect_result" where
  "AddUnclosable tag reason r = r\<lparr>dr_unclosable := dr_unclosable r @ [\<lparr>ui_tag = tag, ui_reason = reason, ui_node = []\<rparr>]\<rparr>"

text \<open>
  An inbound of the running core: its registry if it is one of the protocol copies that have one, and
  whether it was created with multiplex on (which only Shadowsocks is asked for).
\<close>

record running_inbound =
  ri_tag :: string
  ri_type :: string
  ri_registry :: "registry option"
  ri_multiplex :: bool

definition quicInbound :: "string \<Rightarrow> bool" where
  "quicInbound t \<longleftrightarrow> t \<in> {''hysteria'', ''hysteria2'', ''tuic''}"

definition kick_inbound ::
  "string \<Rightarrow> string list \<Rightarrow> running_inbound \<Rightarrow> disconnect_result \<Rightarrow> (disconnect_result \<times> nat list) \<times> running_inbound" where
  "kick_inbound user on ib res =
     (let wasOn = ri_tag ib \<in> set on
      in case ri_registry ib of
        Some reg \<Rightarrow>
          (let ((r, closed), reg1) = KickUserSessions user reg;
               res1 = res\<lparr>dr_sessions := dr_sessions res + kr_cut r\<rparr>;
               res2 = (if kr_unclosable r > 0 \<and> wasOn \<and> quicInbound (ri_type ib) then AddUnclosable (ri_tag ib) UnclosableQUIC res1 else res1)
           in ((res2, closed), ib\<lparr>ri_registry := Some reg1\<rparr>))
      | None \<Rightarrow>
          ((if wasOn \<and> ri_type ib = ''shadowsocks'' \<and> ri_multiplex ib then AddUnclosable (ri_tag ib) UnclosableMux res else res, []), ib))"

fun kick_inbounds ::
  "string \<Rightarrow> string list \<Rightarrow> running_inbound list \<Rightarrow> disconnect_result \<Rightarrow> (disconnect_result \<times> nat list) \<times> running_inbound list" where
  "kick_inbounds user on [] res = ((res, []), [])"
| "kick_inbounds user on (ib # ibs) res =
     (let ((res1, c1), ib1) = kick_inbound user on ib res;
          ((res2, c2), ibs1) = kick_inbounds user on ibs res1
      in ((res2, c1 @ c2), ib1 # ibs1))"

record running_core =
  rc_tracker :: tracker
  rc_inbounds :: "running_inbound list"
  rc_cut :: "nat list"

text \<open>\<open>rc_cut\<close> lists the session transports that were closed.\<close>

definition disconnect :: "string \<Rightarrow> running_core \<Rightarrow> disconnect_result \<times> running_core" where
  "disconnect user c =
     (let ((closed, on), tr) = CloseConnByUser user (rc_tracker c);
          ((res, cut), ibs) = kick_inbounds user on (rc_inbounds c) \<lparr>dr_connections = closed, dr_sessions = 0, dr_unclosable = []\<rparr>
      in (res\<lparr>dr_unclosable := sort_by unclosable_less (dr_unclosable res)\<rparr>,
          c\<lparr>rc_tracker := tr, rc_inbounds := ibs, rc_cut := rc_cut c @ cut\<rparr>))"

section \<open>What a removal promises\<close>

definition registry_ok :: "registry \<Rightarrow> bool" where
  "registry_ok r \<longleftrightarrow> gmap_ok (rg_sources r) \<and> gmap_ok (rg_seen r)"

text \<open>The users the registry knows to be connected.\<close>

definition known_users :: "registry \<Rightarrow> string set" where
  "known_users r = {u. u \<noteq> [] \<and> (u \<in> fst ` set (rg_seen r) \<or> (\<exists>s e. (s, e) \<in> set (rg_sources r) \<and> en_user e = u))}"

lemma KeepSet_get: "gget (KeepSet names) u = (if u \<in> set names then Some () else None)"
  using gmap.get_fold_put [of "[]" "\<lambda>_. ()" names u] by (simp add: KeepSet_def)

lemma cut_sessions_simps:
  assumes "cut_sessions gone r = ((res, closed), r')"
  shows "kr_cut res = length closed" and "rg_seen r' = rg_seen r"
    and "set closed = {c. \<exists>s e. (s, e) \<in> set (rg_sources r) \<and> gone (en_user e) \<and> en_closer e = Some c}"
    and "set (rg_sources r') = {(s, e) \<in> set (rg_sources r). \<not> (gone (en_user e) \<and> en_closer e \<noteq> None)}"
    and "kr_unclosable res = 0 \<longleftrightarrow> (\<forall>(s, e) \<in> set (rg_sources r). gone (en_user e) \<longrightarrow> en_closer e \<noteq> None)"
  using assms by (force simp: cut_sessions_def Let_def map_filter_def filter_empty_conv)+

lemma CloseUsers_simps:
  assumes "CloseUsers keep r = ((res, closed), r')"
  shows "kr_cut res = length closed"
    and "set closed = {c. \<exists>s e. (s, e) \<in> set (rg_sources r) \<and> en_user e \<noteq> [] \<and> gget keep (en_user e) = None \<and> en_closer e = Some c}"
    and "set (rg_sources r') = {(s, e) \<in> set (rg_sources r). \<not> (en_user e \<noteq> [] \<and> gget keep (en_user e) = None \<and> en_closer e \<noteq> None)}"
    and "set (rg_seen r') = {(u, x) \<in> set (rg_seen r). gget keep u \<noteq> None}"
    and "\<not> RestartRequired res \<longleftrightarrow>
      (\<forall>(s, e) \<in> set (rg_sources r). en_user e \<noteq> [] \<and> gget keep (en_user e) = None \<longrightarrow> en_closer e \<noteq> None)
      \<and> (\<forall>(u, x) \<in> set (rg_seen r). gget keep u \<noteq> None)"
proof -
  obtain res1 closed1 r1 where c: "cut_sessions (\<lambda>u. u \<noteq> [] \<and> gget keep u = None) r = ((res1, closed1), r1)"
    by (metis surj_pair)
  note s = cut_sessions_simps [OF c]
  have eq: "closed = closed1" "kr_cut res = kr_cut res1" "rg_sources r' = rg_sources r1"
    "kr_unclosable res = kr_unclosable res1 + length (filter (\<lambda>(u, _). gget keep u = None) (rg_seen r))"
    "rg_seen r' = filter (\<lambda>(u, _). \<not> gget keep u = None) (rg_seen r)"
    using assms c s(2) by (auto simp: CloseUsers_def Let_def)
  show "kr_cut res = length closed" using eq s(1) by simp
  show "set closed = {c. \<exists>s e. (s, e) \<in> set (rg_sources r) \<and> en_user e \<noteq> [] \<and> gget keep (en_user e) = None \<and> en_closer e = Some c}"
    using eq s(3) by simp
  show "set (rg_sources r') = {(s, e) \<in> set (rg_sources r). \<not> (en_user e \<noteq> [] \<and> gget keep (en_user e) = None \<and> en_closer e \<noteq> None)}"
    using eq s(4) by simp
  show "set (rg_seen r') = {(u, x) \<in> set (rg_seen r). gget keep u \<noteq> None}" using eq by auto
  show "\<not> RestartRequired res \<longleftrightarrow>
      (\<forall>(s, e) \<in> set (rg_sources r). en_user e \<noteq> [] \<and> gget keep (en_user e) = None \<longrightarrow> en_closer e \<noteq> None)
      \<and> (\<forall>(u, x) \<in> set (rg_seen r). gget keep u \<noteq> None)"
    using eq(4) s(5) by (auto simp: RestartRequired_def filter_empty_conv)
qed

section \<open>Runs of the registry\<close>

datatype reg_op =
  OpBind string string | OpBindAndTrack string string "nat option" | OpTrack string "nat option" | OpUntrack string
| OpClose "string list" | OpKick string

fun reg_step :: "reg_op \<Rightarrow> registry \<Rightarrow> registry" where
  "reg_step (OpBind u s) r = Bind u s r"
| "reg_step (OpBindAndTrack u s c) r = BindAndTrack u s c r"
| "reg_step (OpTrack s c) r = Track s c r"
| "reg_step (OpUntrack s) r = Untrack s r"
| "reg_step (OpClose names) r = snd (CloseUsers (KeepSet names) r)"
| "reg_step (OpKick u) r = snd (KickUserSessions u r)"

definition reg_run :: "reg_op list \<Rightarrow> registry \<Rightarrow> registry" where
  "reg_run ops r = fold reg_step ops r"

text \<open>Operations that do not take a user off the inbound.\<close>

fun keeps_user :: "string \<Rightarrow> reg_op \<Rightarrow> bool" where
  "keeps_user u (OpClose names) \<longleftrightarrow> u \<in> set names"
| "keeps_user u op \<longleftrightarrow> True"

lemma CloseUsers_seen: "rg_seen (snd (CloseUsers keep r)) = filter (\<lambda>(u, _). \<not> gget keep u = None) (rg_seen r)"
  by (simp add: CloseUsers_def cut_sessions_def Let_def)

lemma Kick_seen: "rg_seen (snd (KickUserSessions u r)) = rg_seen r"
  by (simp add: KickUserSessions_def cut_sessions_def Let_def)

lemma reg_step_seen:
  assumes "u \<in> fst ` set (rg_seen r)" and "keeps_user u op"
  shows "u \<in> fst ` set (rg_seen (reg_step op r))"
proof (cases op)
  case (OpClose names)
  then show ?thesis using assms by (force simp: CloseUsers_seen KeepSet_get)
qed (use assms in \<open>auto simp: Bind_def BindAndTrack_def Track_def Untrack_def Kick_seen Let_def split: option.splits\<close>)

lemma reg_run_seen:
  "u \<in> fst ` set (rg_seen r) \<Longrightarrow> \<forall>op \<in> set ops. keeps_user u op \<Longrightarrow> u \<in> fst ` set (rg_seen (reg_run ops r))"
  by (induction ops arbitrary: r) (auto simp: reg_run_def reg_step_seen)

section \<open>The kick\<close>

lemma CloseConnByUser_simps:
  assumes "CloseConnByUser user tr = ((n, on), tr')" and "user \<noteq> []"
  shows "infos tr' = filter (\<lambda>i. ci_user i \<noteq> user) (infos tr)" and "n = length (filter (\<lambda>i. ci_user i = user) (infos tr))"
    and "set on \<subseteq> {ci_inbound i |i. i \<in> set (infos tr) \<and> ci_user i = user}"
proof -
  obtain m tr1 where c: "close_where (\<lambda>i. ci_user i = user) tr = (m, tr1)" by force
  let ?add = "\<lambda>(_, i) m. if ci_inbound i \<noteq> [] then gput (ci_inbound i) () m else m"
  have keys: "fst ` set (fold ?add xs m) \<subseteq> fst ` set m \<union> (ci_inbound \<circ> snd) ` set xs" for xs :: "(string \<times> connection_info) list" and m
  proof (induction xs arbitrary: m)
    case (Cons x xs)
    have "fst ` set (?add x m) \<subseteq> insert ((ci_inbound \<circ> snd) x) (fst ` set m)" by (cases x) auto
    moreover have "fst ` set (fold ?add xs (?add x m)) \<subseteq> fst ` set (?add x m) \<union> (ci_inbound \<circ> snd) ` set xs" by (rule Cons)
    ultimately have "fst ` set (fold ?add xs (?add x m)) \<subseteq> insert ((ci_inbound \<circ> snd) x) (fst ` set m) \<union> (ci_inbound \<circ> snd) ` set xs"
      by (meson Un_mono order_refl order_trans)
    also have "\<dots> = fst ` set m \<union> (ci_inbound \<circ> snd) ` set (x # xs)" by auto
    finally show ?case by (simp only: fold_Cons comp_apply [of "fold ?add xs"])
  qed simp
  show "infos tr' = filter (\<lambda>i. ci_user i \<noteq> user) (infos tr)" "n = length (filter (\<lambda>i. ci_user i = user) (infos tr))"
    using assms close_where_infos [OF c] c by (auto simp: CloseConnByUser_def Let_def)
  have "set on \<subseteq> fst ` set (fold ?add (filter (\<lambda>(_, i). ci_user i = user) (tr_conns tr)) [])"
    using assms c by (auto simp: CloseConnByUser_def Let_def)
  also have "\<dots> \<subseteq> (ci_inbound \<circ> snd) ` set (filter (\<lambda>(_, i). ci_user i = user) (tr_conns tr))"
    using keys [of "filter (\<lambda>(_, i). ci_user i = user) (tr_conns tr)" "[]"] by (simp only: list.set image_empty Un_empty_left)
  also have "\<dots> \<subseteq> {ci_inbound i |i. i \<in> set (infos tr) \<and> ci_user i = user}" by (force simp: infos_def)
  finally show "set on \<subseteq> {ci_inbound i |i. i \<in> set (infos tr) \<and> ci_user i = user}" .
qed

text \<open>The transports of a user's sessions on an inbound.\<close>

definition transports :: "string \<Rightarrow> running_inbound \<Rightarrow> nat set" where
  "transports user ib =
     (case ri_registry ib of None \<Rightarrow> {} | Some r \<Rightarrow> {n. \<exists>s e. (s, e) \<in> set (rg_sources r) \<and> en_user e = user \<and> en_closer e = Some n})"

lemma Kick_simps:
  assumes "KickUserSessions user r = ((res, closed), r')" and "user \<noteq> []"
  shows "kr_cut res = length closed"
    and "set closed = {n. \<exists>s e. (s, e) \<in> set (rg_sources r) \<and> en_user e = user \<and> en_closer e = Some n}"
    and "set (rg_sources r') = {(s, e) \<in> set (rg_sources r). \<not> (en_user e = user \<and> en_closer e \<noteq> None)}"
proof -
  obtain res1 closed1 r1 where c: "cut_sessions (\<lambda>u. u = user) r = ((res1, closed1), r1)" by (metis surj_pair)
  have "closed = closed1" "kr_cut res = kr_cut res1" "r' = r1"
    using assms c by (auto simp: KickUserSessions_def split: if_splits)
  then show "kr_cut res = length closed"
    and "set closed = {n. \<exists>s e. (s, e) \<in> set (rg_sources r) \<and> en_user e = user \<and> en_closer e = Some n}"
    and "set (rg_sources r') = {(s, e) \<in> set (rg_sources r). \<not> (en_user e = user \<and> en_closer e \<noteq> None)}"
    using cut_sessions_simps [OF c] by auto
qed

lemma kick_inbound_simps:
  assumes "kick_inbound user on ib res = ((res', closed), ib')" and "user \<noteq> []"
  shows "set closed = transports user ib" and "transports user ib' = {}" and "dr_connections res' = dr_connections res"
    and "dr_sessions res' = dr_sessions res + length closed"
    and "ui_tag ` set (dr_unclosable res') \<subseteq> ui_tag ` set (dr_unclosable res) \<union> set on"
    and "v \<noteq> user \<Longrightarrow> transports v ib' = transports v ib"
proof -
  have "set closed = transports user ib \<and> transports user ib' = {} \<and> dr_connections res' = dr_connections res
    \<and> dr_sessions res' = dr_sessions res + length closed
    \<and> ui_tag ` set (dr_unclosable res') \<subseteq> ui_tag ` set (dr_unclosable res) \<union> set on
    \<and> (v \<noteq> user \<longrightarrow> transports v ib' = transports v ib)"
  proof (cases "ri_registry ib")
    case None
    then show ?thesis using assms(1) by (auto simp: kick_inbound_def transports_def AddUnclosable_def Let_def split: if_splits)
  next
    case (Some reg)
    obtain r c reg1 where k: "KickUserSessions user reg = ((r, c), reg1)" by (metis surj_pair)
    have eq: "closed = c" "ri_registry ib' = Some reg1" "dr_connections res' = dr_connections res"
      "dr_sessions res' = dr_sessions res + kr_cut r"
      "ui_tag ` set (dr_unclosable res') \<subseteq> ui_tag ` set (dr_unclosable res) \<union> set on"
      using assms(1) Some k by (auto simp: kick_inbound_def AddUnclosable_def Let_def split: if_splits)
    note kick = Kick_simps [OF k assms(2)]
    have "transports user ib' = {}" "v \<noteq> user \<longrightarrow> transports v ib' = transports v ib"
      unfolding transports_def eq(2) Some option.case kick(3) by auto
    moreover have "set closed = transports user ib" by (simp add: transports_def Some eq(1) kick(2))
    ultimately show ?thesis using eq kick(1) by simp
  qed
  then show "set closed = transports user ib" "transports user ib' = {}" "dr_connections res' = dr_connections res"
    "dr_sessions res' = dr_sessions res + length closed"
    "ui_tag ` set (dr_unclosable res') \<subseteq> ui_tag ` set (dr_unclosable res) \<union> set on"
    "v \<noteq> user \<Longrightarrow> transports v ib' = transports v ib" by blast+
qed

lemma kick_inbounds_simps:
  assumes "kick_inbounds user on ibs res = ((res', closed), ibs')" and "user \<noteq> []"
  shows "set closed = (\<Union>ib \<in> set ibs. transports user ib) \<and> list_all (\<lambda>ib. transports user ib = {}) ibs'
    \<and> dr_connections res' = dr_connections res \<and> dr_sessions res' = dr_sessions res + length closed
    \<and> ui_tag ` set (dr_unclosable res') \<subseteq> ui_tag ` set (dr_unclosable res) \<union> set on
    \<and> list_all2 (\<lambda>ib ib'. \<forall>v. v \<noteq> user \<longrightarrow> transports v ib' = transports v ib) ibs ibs'"
  using assms(1)
proof (induction ibs arbitrary: res res' closed ibs')
  case (Cons ib ibs)
  obtain r1 c1 ib1 where k: "kick_inbound user on ib res = ((r1, c1), ib1)" by (metis surj_pair)
  obtain r2 c2 ibs1 where K: "kick_inbounds user on ibs r1 = ((r2, c2), ibs1)" by (metis surj_pair)
  have eq: "res' = r2" "closed = c1 @ c2" "ibs' = ib1 # ibs1" using Cons.prems k K by auto
  note one = kick_inbound_simps [OF k assms(2)] and rest = Cons.IH [OF K]
  have "ui_tag ` set (dr_unclosable r2) \<subseteq> ui_tag ` set (dr_unclosable res) \<union> set on" using one(5) rest by blast
  then show ?case unfolding eq using one rest by simp
qed simp

interpretation unclosable: strict_order unclosable_less
  by unfold_locales (auto simp: unclosable_less_def split: if_splits)

end
