(* ===== verification/SessionProps.thy ===== *)
theory SessionProps
  imports UserSession
begin

text \<open>
  The properties of removals and kicks.
\<close>

section \<open>An inbound with three users\<close>

definition sx_reg :: registry where
  "sx_reg = \<lparr>rg_sources = [(''192.0.2.1:1'', \<lparr>en_user = ''alice'', en_closer = Some 11\<rparr>), (''192.0.2.2:2'', \<lparr>en_user = ''bob'', en_closer = Some 12\<rparr>)],
     rg_seen = [(''bob'', ())]\<rparr>"

definition sx_info :: connection_info where
  "sx_info = \<lparr>ci_id = ''1'', ci_sock = 1, ci_inbound = ''hy2'', ci_user = ''alice'', ci_type = ''tcp'', ci_source = NoAddr,
     ci_created_at = 0, ci_last_active = 0, ci_raw_source = [], ci_destination = [], ci_domain = [], ci_outbound = [],
     ci_rule = [], ci_up = 0, ci_down = 0\<rparr>"

definition sx_core :: running_core where
  "sx_core = \<lparr>rc_tracker = \<lparr>tr_conns = [(''1'', sx_info), (''2'', sx_info\<lparr>ci_id := ''2'', ci_user := ''bob''\<rparr>)], tr_generation = 1, tr_closed = []\<rparr>,
     rc_inbounds = [\<lparr>ri_tag = ''hy2'', ri_type = ''hysteria2'', ri_registry = Some sx_reg, ri_multiplex = False\<rparr>], rc_cut = []\<rparr>"

section \<open>Properties\<close>

text \<open>
  C11. A removal accounts for everyone. It closes exactly the transports of sessions whose user is off the new
  table and counts them; sessions of users who stay, and sessions nobody has authenticated yet, are left
  exactly as they were; and unless the inbound is asked to rebuild, no removed user is connected any more.
\<close>

theorem removal_accounts_for_everyone:
  assumes "CloseUsers (KeepSet names) r = ((res, closed), r')"
  shows "kr_cut res = length closed
    \<and> set closed = {c. \<exists>s e. (s, e) \<in> set (rg_sources r) \<and> en_user e \<noteq> [] \<and> en_user e \<notin> set names \<and> en_closer e = Some c}
    \<and> (\<forall>s e. en_user e = [] \<or> en_user e \<in> set names \<longrightarrow> ((s, e) \<in> set (rg_sources r') \<longleftrightarrow> (s, e) \<in> set (rg_sources r)))
    \<and> (RestartRequired res \<or> known_users r' \<subseteq> set names)"
proof (intro conjI)
  note c = CloseUsers_simps [OF assms]
  have keep: "gget (KeepSet names) u = None \<longleftrightarrow> u \<notin> set names" for u by (simp add: KeepSet_get)
  show "kr_cut res = length closed" by (rule c(1))
  show "set closed = {c. \<exists>s e. (s, e) \<in> set (rg_sources r) \<and> en_user e \<noteq> [] \<and> en_user e \<notin> set names \<and> en_closer e = Some c}"
    unfolding c(2) keep ..
  show "\<forall>s e. en_user e = [] \<or> en_user e \<in> set names \<longrightarrow> ((s, e) \<in> set (rg_sources r') \<longleftrightarrow> (s, e) \<in> set (rg_sources r))"
    unfolding c(3) keep by auto
  show "RestartRequired res \<or> known_users r' \<subseteq> set names"
    using c(3-5) unfolding keep known_users_def by fastforce
qed

theorem removal_accounts_for_everyone_witness:
  "kr_cut (fst (fst (CloseUsers (KeepSet [''alice'']) sx_reg))) = 1 \<and> RestartRequired (fst (fst (CloseUsers (KeepSet [''alice'']) sx_reg)))"
proof -
  have run: "CloseUsers (KeepSet [''alice'']) sx_reg = ((\<lparr>kr_cut = 1, kr_unclosable = 1\<rparr>, [12]), \<lparr>rg_sources = [(''192.0.2.1:1'', \<lparr>en_user = ''alice'', en_closer = Some 11\<rparr>)], rg_seen = []\<rparr>)"
    by code_simp
  from removal_accounts_for_everyone [OF run] show ?thesis by (simp add: run RestartRequired_def)
qed

text \<open>
  A user without a closable session is never forgotten: once one has turned up on an inbound, no sequence
  of connections, disconnections, kicks and table changes that keep the user loses it, so whenever the
  user is finally removed the inbound is rebuilt. An idle session cannot outlive its user.
\<close>

lemma seen_user_is_never_forgotten:
  assumes "u \<noteq> []" and "gget (rg_sources r) source = None" and "\<forall>op \<in> set ops. keeps_user u op" and "u \<notin> set names"
  shows "fst (fst (UpdateUsers_quic names (reg_run ops (Bind u source r))))"
proof -
  let ?r = "reg_run ops (Bind u source r)"
  have "u \<in> fst ` set (rg_seen (Bind u source r))" using assms(1,2) by (simp add: Bind_def)
  then have seen: "u \<in> fst ` set (rg_seen ?r)" using assms(3) by (rule reg_run_seen)
  obtain res closed r' where c: "CloseUsers (KeepSet names) ?r = ((res, closed), r')" by (metis surj_pair)
  have "RestartRequired res"
    using CloseUsers_simps(5) [OF c] seen assms(4) by (auto simp: KeepSet_get)
  then show ?thesis by (simp add: UpdateUsers_quic_def c)
qed

text \<open>
  A kick hits its user and nobody else: all and only that user's routed connections are closed and
  counted, exactly the transports of that user's sessions are cut, every other user keeps theirs on every
  inbound, and an inbound is reported as unreachable only if the user was connected through it.
\<close>

lemma disconnect_hits_one_user:
  assumes "disconnect user c = (res, c')" and "user \<noteq> []"
  shows "infos (rc_tracker c') = filter (\<lambda>i. ci_user i \<noteq> user) (infos (rc_tracker c))
    \<and> dr_connections res = length (filter (\<lambda>i. ci_user i = user) (infos (rc_tracker c)))
    \<and> (\<exists>cut. rc_cut c' = rc_cut c @ cut \<and> set cut = (\<Union>ib \<in> set (rc_inbounds c). transports user ib) \<and> dr_sessions res = length cut)
    \<and> list_all2 (\<lambda>ib ib'. \<forall>v. v \<noteq> user \<longrightarrow> transports v ib' = transports v ib) (rc_inbounds c) (rc_inbounds c')
    \<and> ui_tag ` set (dr_unclosable res) \<subseteq> {ci_inbound i |i. i \<in> set (infos (rc_tracker c)) \<and> ci_user i = user}"
proof -
  obtain n on tr where t: "CloseConnByUser user (rc_tracker c) = ((n, on), tr)" by (metis surj_pair)
  let ?res0 = "\<lparr>dr_connections = n, dr_sessions = 0, dr_unclosable = []\<rparr>"
  obtain res1 cut ibs where k: "kick_inbounds user on (rc_inbounds c) ?res0 = ((res1, cut), ibs)" by (metis surj_pair)
  have eq: "res = res1\<lparr>dr_unclosable := sort_by unclosable_less (dr_unclosable res1)\<rparr>"
    "c' = c\<lparr>rc_tracker := tr, rc_inbounds := ibs, rc_cut := rc_cut c @ cut\<rparr>"
    using assms(1) t k by (auto simp: disconnect_def)
  note tr = CloseConnByUser_simps [OF t assms(2)] and kick = kick_inbounds_simps [OF k assms(2)]
  have "ui_tag ` set (dr_unclosable res) \<subseteq> set on" using kick by (simp add: eq(1))
  then have "ui_tag ` set (dr_unclosable res) \<subseteq> {ci_inbound i |i. i \<in> set (infos (rc_tracker c)) \<and> ci_user i = user}"
    using tr(3) by (rule order_trans)
  then show ?thesis using tr(1,2) kick by (simp add: eq)
qed

end
