(* ===== verification/Presence.thy ===== *)
theory Presence
  imports ClientJobs "HOL-Library.List_Lexorder" "HOL-Library.Char_ord"
begin

text \<open>
  Presence notifications (\<^verbatim>\<open>service/presence.go\<close>): the declared state behind the online list and what is
  announced of its changes. Times are nanoseconds.
\<close>

section \<open>The tracker\<close>

text \<open>\<open>None\<close> is the nil map of a tracker that has observed nothing.\<close>

record presence_tracker =
  pt_started_at :: int
  pt_online :: "(string, int) gomap option"

text \<open>The first loop of \<open>observe\<close>: note who is there, and who newly so.\<close>

definition observe_present :: "int \<Rightarrow> bool \<Rightarrow> string list \<Rightarrow> string list \<times> (string, int) gomap \<Rightarrow> string list \<times> (string, int) gomap" where
  "observe_present now warm present =
     fold (\<lambda>name (came, m). (if gget m name = None \<and> warm then came @ [name] else came, gput name now m)) present"

definition observe :: "int \<Rightarrow> string list \<Rightarrow> int \<Rightarrow> presence_tracker \<Rightarrow> (string list \<times> string list) \<times> presence_tracker" where
  "observe now present grace p0 =
     (let p = (case pt_online p0 of None \<Rightarrow> p0\<lparr>pt_online := Some [], pt_started_at := now\<rparr> | Some _ \<Rightarrow> p0);
          warm = now - pt_started_at p \<ge> grace;
          (came, online) = observe_present now warm present ([], the (pt_online p));
          gone = filter (\<lambda>(_, lastSeen). now - lastSeen \<ge> grace) online
      in ((sort came, sort (map fst gone)),
          p\<lparr>pt_online := Some (filter (\<lambda>(_, lastSeen). \<not> now - lastSeen \<ge> grace) online)\<rparr>))"

definition reset :: "presence_tracker \<Rightarrow> presence_tracker" where
  "reset p = p\<lparr>pt_online := None\<rparr>"

definition presenceGraceDefault :: int where
  "presenceGraceDefault = 5 * minute"

definition presenceLabels :: "bool \<Rightarrow> db \<Rightarrow> string list \<Rightarrow> string list \<Rightarrow> string list \<times> string list" where
  "presenceLabels ok d cameOnline wentOffline =
     (let (err, descs) = clientDescs ok d (cameOnline @ wentOffline)
      in (map (\<lambda>n. ClientLabel n (gget0 [] descs n)) cameOnline,
          map (\<lambda>n. ClientLabel n (gget0 [] descs n))
            (filter (\<lambda>n. \<not> (gget descs n = None \<and> err = None)) wentOffline)))"

definition presence_event :: "kind \<Rightarrow> string list \<Rightarrow> event" where
  "presence_event k names =
     \<lparr>ev_kind = k, ev_subject = ''batch'',
      ev_data = ClientData \<lparr>cd_names = names, cd_label = [], cd_days_left = 0, cd_bytes_left = 0, cd_targets = []\<rparr>,
      ev_text = [], ev_at = None\<rparr>"

text \<open>
  One call after a flush: \<open>onlines\<close> is what \<^verbatim>\<open>GetClusterOnlines\<close> returns, \<open>graceMinutes\<close> the setting, \<open>ok\<close> whether
  the client table can be read. The result is what is handed to \<^verbatim>\<open>notify.Publish\<close>.
\<close>

definition ObservePresence ::
  "notify_config \<Rightarrow> string list res \<Rightarrow> int \<Rightarrow> int \<Rightarrow> bool \<Rightarrow> db \<Rightarrow> presence_tracker \<Rightarrow> event list \<times> presence_tracker" where
  "ObservePresence cfg onlines graceMinutes now ok d p =
     (if \<not> NotifyWants cfg [ClientOnline, ClientOffline] then ([], reset p)
      else case onlines of
        Inl _ \<Rightarrow> ([], p)
      | Inr current \<Rightarrow>
          let g = i64 (graceMinutes * minute);
              grace = (if g < minute then presenceGraceDefault else g);
              ((came, went), p1) = observe now current grace p
          in if came = [] \<and> went = [] then ([], p1)
             else
               let (on, off) = presenceLabels ok d came went
               in ((if on \<noteq> [] then [presence_event ClientOnline on] else []) @
                   (if off \<noteq> [] then [presence_event ClientOffline off] else []), p1))"

section \<open>One client at a time\<close>

text \<open>The reference: what happens to one client, by when it was last seen if it is declared online.\<close>

definition watch :: "int \<Rightarrow> bool \<Rightarrow> int \<Rightarrow> bool \<Rightarrow> int option \<Rightarrow> bool option \<times> int option" where
  "watch now here grace warm st =
     (if here then (if st = None \<and> warm then Some True else None, Some now)
      else case st of
        None \<Rightarrow> (None, None)
      | Some s \<Rightarrow> if now - s \<ge> grace then (Some False, None) else (None, Some s))"

definition last_seen :: "presence_tracker \<Rightarrow> string \<Rightarrow> int option" where
  "last_seen p n = (case pt_online p of None \<Rightarrow> None | Some m \<Rightarrow> gget m n)"

definition started :: "int \<Rightarrow> presence_tracker \<Rightarrow> int" where
  "started now p = (case pt_online p of None \<Rightarrow> now | Some _ \<Rightarrow> pt_started_at p)"

definition announced :: "string list \<times> string list \<Rightarrow> string \<Rightarrow> bool option" where
  "announced out n = (if n \<in> set (fst out) then Some True else if n \<in> set (snd out) then Some False else None)"

definition presence_ok :: "presence_tracker \<Rightarrow> bool" where
  "presence_ok p \<longleftrightarrow> (case pt_online p of None \<Rightarrow> True | Some m \<Rightarrow> gmap_ok m)"

lemma observe_present_simps:
  assumes "gmap_ok m" and "observe_present now warm present (came0, m) = (came, m')"
  shows "gmap_ok m'" and "gget m' n = (if n \<in> set present then Some now else gget m n)"
    and "n \<in> set came \<longleftrightarrow> n \<in> set came0 \<or> (n \<in> set present \<and> gget m n = None \<and> warm)"
proof -
  have "gmap_ok m' \<and> gget m' n = (if n \<in> set present then Some now else gget m n)
    \<and> (n \<in> set came \<longleftrightarrow> n \<in> set came0 \<or> (n \<in> set present \<and> gget m n = None \<and> warm))"
    using assms
  proof (induction present arbitrary: came0 m)
    case (Cons x present)
    let ?came = "if gget m x = None \<and> warm then came0 @ [x] else came0"
    have "observe_present now warm present (?came, gput x now m) = (came, m')"
      using Cons.prems(2) by (simp add: observe_present_def)
    from Cons.IH [OF _ this] Cons.prems(1) show ?case by (auto simp: distinct_update)
  qed (simp add: observe_present_def)
  then show "gmap_ok m'" and "gget m' n = (if n \<in> set present then Some now else gget m n)"
    and "n \<in> set came \<longleftrightarrow> n \<in> set came0 \<or> (n \<in> set present \<and> gget m n = None \<and> warm)" by blast+
qed

lemma observe_watch:
  assumes "observe now present grace p = (out, p')" and "presence_ok p" and "0 < grace"
  shows "watch now (n \<in> set present) grace (now - started now p \<ge> grace) (last_seen p n) = (announced out n, last_seen p' n)"
    and "presence_ok p'" and "pt_online p' \<noteq> None" and "started t p' = started now p"
proof -
  define m where "m = (case pt_online p of None \<Rightarrow> [] | Some m \<Rightarrow> m)"
  have ok: "gmap_ok m" using assms(2) by (simp add: m_def presence_ok_def split: option.splits)
  have seen: "last_seen p n = gget m n" by (simp add: last_seen_def m_def split: option.splits)
  let ?warm = "now - started now p \<ge> grace"
  obtain came online where r: "observe_present now ?warm present ([], m) = (came, online)" by force
  note f = observe_present_simps [OF ok r]
  have out_eq: "out = (sort came, sort (map fst (filter (\<lambda>(_, s). now - s \<ge> grace) online)))"
    and online: "pt_online p' = Some (filter (\<lambda>(_, s). \<not> now - s \<ge> grace) online)" and st: "pt_started_at p' = started now p"
    using assms(1) r by (auto simp: observe_def m_def started_def Let_def split: option.splits)
  have out: "set (fst out) = set came" "set (snd out) = fst ` set (filter (\<lambda>(_, s). now - s \<ge> grace) online)"
    by (simp_all add: out_eq)
  have went: "n \<in> set (snd out) \<longleftrightarrow> (\<exists>s. gget online n = Some s \<and> now - s \<ge> grace)"
    unfolding out(2) using gget_in_set [OF f(1), of n] by (force simp: image_iff)
  have last: "last_seen p' n = (case gget online n of None \<Rightarrow> None | Some s \<Rightarrow> if \<not> now - s \<ge> grace then Some s else None)"
    unfolding last_seen_def online option.case gget_filter [OF f(1)] by (simp split: option.splits)
  show "watch now (n \<in> set present) grace ?warm (last_seen p n) = (announced out n, last_seen p' n)"
    unfolding watch_def announced_def seen last went out(1) f(2,3) using assms(3) by (auto split: option.splits)
  show "presence_ok p'" "pt_online p' \<noteq> None" "started t p' = started now p"
    using f(1) by (simp_all add: presence_ok_def online started_def st)
qed

section \<open>Runs\<close>

fun observe_all :: "int \<Rightarrow> (int \<times> string list) list \<Rightarrow> presence_tracker \<Rightarrow> (string list \<times> string list) list \<times> presence_tracker" where
  "observe_all grace [] p = ([], p)"
| "observe_all grace ((t, present) # obs) p =
     (let (out, p1) = observe t present grace p; (outs, p2) = observe_all grace obs p1 in (out # outs, p2))"

text \<open>What is announced about one client, in order.\<close>

definition announcements :: "string \<Rightarrow> (string list \<times> string list) list \<Rightarrow> bool list" where
  "announcements n outs = List.map_filter (\<lambda>out. announced out n) outs"

lemma announcements_simps [simp]:
  "announcements n [] = []"
  "announcements n (out # outs) = (case announced out n of None \<Rightarrow> announcements n outs | Some b \<Rightarrow> b # announcements n outs)"
  by (simp_all add: announcements_def List.map_filter_simps split: option.split)

text \<open>
  A run that goes on from a state: the first announcement is the opposite of what is declared, except that
  a client may enter silently before the start-up grace is over.
\<close>

lemma observe_all_alternate:
  assumes "observe_all grace obs p = (outs, p')" and "presence_ok p" and "0 < grace" and "sorted (t0 # map fst obs)"
    and "pt_online p \<noteq> None" and "\<forall>s. last_seen p n = Some s \<longrightarrow> pt_started_at p \<le> s" and "pt_started_at p \<le> t0"
  shows "distinct_adj (announcements n outs)
    \<and> (last_seen p n \<noteq> None \<longrightarrow> announcements n outs = [] \<or> \<not> hd (announcements n outs))
    \<and> (last_seen p n = None \<and> grace \<le> t0 - pt_started_at p \<longrightarrow> announcements n outs = [] \<or> hd (announcements n outs))"
  using assms(1,2,4-7)
proof (induction obs arbitrary: p outs t0)
  case (Cons o1 obs)
  obtain t present where o1: "o1 = (t, present)" by (cases o1)
  obtain out p1 outs1 where O: "observe t present grace p = (out, p1)" and R: "observe_all grace obs p1 = (outs1, p')"
    and outs: "outs = out # outs1" using Cons.prems(1) by (auto simp: o1 split: prod.splits)
  note w = observe_watch [OF O Cons.prems(2) assms(3)]
  have st: "started t p = pt_started_at p" "pt_started_at p1 = pt_started_at p"
    using Cons.prems(4) w(3) w(4) [of t] by (auto simp: started_def)
  have tt: "t0 \<le> t" "sorted (t # map fst obs)" using Cons.prems(3) by (auto simp: o1)
  have W: "announced out n = fst (watch t (n \<in> set present) grace (grace \<le> t - pt_started_at p) (last_seen p n))"
    "last_seen p1 n = snd (watch t (n \<in> set present) grace (grace \<le> t - pt_started_at p) (last_seen p n))"
    using w(1) [of n] by (simp_all add: st)
  have seen1: "\<forall>s. last_seen p1 n = Some s \<longrightarrow> pt_started_at p1 \<le> s" and from1: "pt_started_at p1 \<le> t"
    using W Cons.prems(5,6) tt(1) by (auto simp: watch_def st split: if_splits option.splits)
  note IH = Cons.IH [OF R w(2) tt(2) w(3) seen1 from1]
  show ?case
    using IH W Cons.prems(5,6) tt(1) unfolding outs
    by (cases "announcements n outs1") (auto simp: watch_def st distinct_adj_Cons split: if_splits option.splits)
qed simp

text \<open>An offline announcement comes a whole grace period after every time the client was seen.\<close>

lemma observe_all_offline:
  assumes "observe_all grace obs p = (outs, p')" and "presence_ok p" and "0 < grace" and "sorted (map fst obs)"
    and "\<forall>s. last_seen p n = Some s \<longrightarrow> (\<forall>t \<in> fst ` set obs. s \<le> t)"
    and "k < length obs" and "announced (outs ! k) n = Some False"
    and "last_seen p n = Some s \<or> (\<exists>j \<le> k. n \<in> set (snd (obs ! j)) \<and> s = fst (obs ! j))"
  shows "fst (obs ! k) - s \<ge> grace"
  using assms(1,2,4-8)
proof (induction obs arbitrary: p outs k s)
  case (Cons o1 obs)
  obtain t present where o1: "o1 = (t, present)" by (cases o1)
  obtain out p1 outs1 where O: "observe t present grace p = (out, p1)" and R: "observe_all grace obs p1 = (outs1, p')"
    and outs: "outs = out # outs1" using Cons.prems(1) by (auto simp: o1 split: prod.splits)
  note w = observe_watch [OF O Cons.prems(2) assms(3)]
  define warm where "warm \<longleftrightarrow> t - started t p \<ge> grace"
  have W: "announced out n = fst (watch t (n \<in> set present) grace warm (last_seen p n))"
    "last_seen p1 n = snd (watch t (n \<in> set present) grace warm (last_seen p n))"
    using w(1) [of n] by (simp_all add: warm_def)
  show ?case
  proof (cases k)
    case 0
    then show ?thesis using Cons.prems W(1) by (auto simp: o1 outs watch_def split: if_splits option.splits)
  next
    case (Suc i)
    have later: "t \<le> fst (obs ! i)" "\<forall>x \<in> fst ` set obs. t \<le> x" using Cons.prems(3,5) Suc by (auto simp: o1)
    have seen1: "\<forall>s. last_seen p1 n = Some s \<longrightarrow> (\<forall>x \<in> fst ` set obs. s \<le> x)"
      using W(2) later(2) Cons.prems(4) by (auto simp: watch_def o1 split: if_splits option.splits)
    have IH: "fst (obs ! i) - s' \<ge> grace" if "last_seen p1 n = Some s' \<or> (\<exists>j \<le> i. n \<in> set (snd (obs ! j)) \<and> s' = fst (obs ! j))" for s'
      using Cons.IH [OF R w(2) _ seen1 _ _ that] Cons.prems(3,5,6) Suc by (simp add: o1 outs)
    consider "last_seen p n = Some s" | "n \<in> set present" "s = t" | j where "j \<le> i" "n \<in> set (snd (obs ! j))" "s = fst (obs ! j)"
    proof -
      have "n \<in> set present \<and> s = t \<or> (\<exists>j' \<le> i. n \<in> set (snd (obs ! j')) \<and> s = fst (obs ! j'))"
        if "j \<le> k" "n \<in> set (snd ((o1 # obs) ! j))" "s = fst ((o1 # obs) ! j)" for j
        using that by (cases j) (auto simp: o1 Suc)
      then show thesis using that Cons.prems(7) by blast
    qed
    then show ?thesis
    proof cases
      case 1
      have "s \<le> t" using Cons.prems(4) 1 by (simp add: o1)
      with 1 W(2) IH [of t] IH [of s] later(1) show ?thesis by (auto simp: Suc watch_def split: if_splits)
    next
      case 2
      then show ?thesis using IH [of t] W(2) by (simp add: Suc watch_def)
    next
      case 3
      then show ?thesis using IH [of s] by (auto simp: Suc)
    qed
  qed
qed simp

end
