(* ===== verification/PresenceProps.thy ===== *)
theory PresenceProps
  imports Presence
begin

text \<open>
  The property of the presence messages.
\<close>

definition vx_obs :: "(int \<times> string list) list" where
  "vx_obs = [(0, [''alice'']), (10, []), (60, [''bob'']), (80, []), (130, [])]"

definition vx_new :: presence_tracker where
  "vx_new = \<lparr>pt_started_at = 0, pt_online = None\<rparr>"

text \<open>
  Presence is debounced: over any sequence of flushes from a fresh tracker, the messages about one client
  alternate between online and offline, and an offline message is only sent a whole grace period after the
  last flush the client was in. An absence shorter than the grace is silent in both directions.
\<close>

lemma presence_is_debounced:
  assumes "observe_all grace ((t0, present) # obs) \<lparr>pt_started_at = x, pt_online = None\<rparr> = (outs, p)" and "0 < grace"
    and "sorted (map fst ((t0, present) # obs))"
  shows "distinct_adj (announcements n outs)
    \<and> (\<forall>k j. k < length outs \<and> announced (outs ! k) n = Some False \<and> j \<le> k \<and> n \<in> set (snd (((t0, present) # obs) ! j))
         \<longrightarrow> fst (((t0, present) # obs) ! k) - fst (((t0, present) # obs) ! j) \<ge> grace)"
proof (intro conjI allI impI)
  let ?p = "\<lparr>pt_started_at = x, pt_online = None\<rparr>"
  have ok: "presence_ok ?p" by (simp add: presence_ok_def)
  obtain out p1 outs1 where O: "observe t0 present grace ?p = (out, p1)" and R: "observe_all grace obs p1 = (outs1, p)"
    and outs: "outs = out # outs1" using assms(1) by (auto split: prod.splits)
  note w = observe_watch [OF O ok assms(2)]
  have st: "pt_started_at p1 = t0" using w(3) w(4) [of t0] by (auto simp: started_def)
  have W: "announced out n = None" "last_seen p1 n = None \<or> last_seen p1 n = Some t0"
    using w(1) [of n] assms(2) by (auto simp: watch_def last_seen_def started_def split: if_splits)
  have "distinct_adj (announcements n outs1)"
    using observe_all_alternate [OF R w(2) assms(2) _ w(3), of t0 n] assms(3) W(2) st by auto
  then show "distinct_adj (announcements n outs)" by (simp add: outs W(1))
  fix k j
  assume k: "k < length outs \<and> announced (outs ! k) n = Some False \<and> j \<le> k \<and> n \<in> set (snd (((t0, present) # obs) ! j))"
  have "length outs = length ((t0, present) # obs)"
  proof -
    have "length (fst (observe_all grace os q)) = length os" for os q
      by (induction grace os q rule: observe_all.induct) (auto split: prod.splits)
    then show ?thesis using assms(1) by (metis fst_conv)
  qed
  with k show "fst (((t0, present) # obs) ! k) - fst (((t0, present) # obs) ! j) \<ge> grace"
    using observe_all_offline [OF assms(1) ok assms(2,3), of n k "fst (((t0, present) # obs) ! j)"]
    by (auto simp: last_seen_def)
qed

end
