(* ===== verification/ClusterIp.thy ===== *)
theory ClusterIp
  imports IpLimitInv
begin

text \<open>
  The address limit across nodes (\<^verbatim>\<open>service/clusterIPLimit.go\<close>): a master collects who is connected where,
  plans one cap per client over all of it and leases the resulting bans to every panel. Also the views of
  addresses the panel shows (\<^verbatim>\<open>service/iplimit.go\<close>). Times of the plan are nanoseconds, leases are unix
  seconds.
\<close>

section \<open>State\<close>

definition clusterBanLease :: int where "clusterBanLease = 30"
definition nanos :: int where "nanos = 1000000000"

text \<open>\<open>None\<close> is the zero time.\<close>

record cluster_hold =
  ch_first :: "int option"
  ch_last :: "int option"

record online_ip =
  oi_ip :: string
  oi_since :: int
  oi_idle :: "bool option"

record cluster_ips =
  cl_holders :: "(ip_ban_key, cluster_hold) gomap"
  cl_bans :: "(ip_ban_key, int) gomap"
  cl_counts :: "(string, int) gomap"
  cl_list :: "(string, online_ip list) gomap"
  cl_active :: bool
  cl_updated_at :: "int option"

definition deactivateClusterIPSnapshot :: "cluster_ips \<Rightarrow> cluster_ips" where
  "deactivateClusterIPSnapshot c = c\<lparr>cl_active := False, cl_updated_at := None, cl_counts := [], cl_list := []\<rparr>"

section \<open>Snapshots\<close>

definition snapshot_of :: "(string, int) gomap \<Rightarrow> bool \<Rightarrow> int \<Rightarrow> tracker option \<Rightarrow> (string, string list) gomap" where
  "snapshot_of limits ipLimitActive now trk =
     (if limits = [] then []
      else case trk of
        None \<Rightarrow> []
      | Some tr \<Rightarrow>
          fold (\<lambda>(user, ips) out.
            let live = filter (\<lambda>(_, w). \<not> (ipLimitActive \<and> now - iw_last_seen w > ipIdleGrace)) ips
            in if live = [] then out else gput user (sort (map (\<lambda>(a, _). addr_string a) live)) out)
            (UserIPs (Some (\<lambda>u. gget limits u \<noteq> None)) tr) [])"

definition ClusterIPSnapshot :: "bool \<Rightarrow> db \<Rightarrow> bool \<Rightarrow> int \<Rightarrow> tracker option \<Rightarrow> (string, string list) gomap res" where
  "ClusterIPSnapshot ok d ipLimitActive now trk =
     (if \<not> ok then Inl EDb
      else Inr (snapshot_of
        (fold (\<lambda>c. gput (c_name c) (c_limit_ip c))
          (filter (\<lambda>c. c_limit_ip c > 0 \<and> c_enable c \<and> c_group c = clusterGroup) (db_clients d)) [])
        ipLimitActive now trk))"

definition normalizeClusterIP :: "string \<Rightarrow> addr res" where
  "normalizeClusterIP raw =
     (case ParseAddr raw of
        None \<Rightarrow> Inl EDecode
      | Some a0 \<Rightarrow>
          let a = Unmap a0
          in Inr (case a of V6 w z \<Rightarrow> V6 (w AND mask6 IPv6IdentityPrefixBits) [] | _ \<Rightarrow> a))"

section \<open>Leased bans\<close>

text \<open>The table \<^verbatim>\<open>ApplyClusterBans\<close> builds from the request; \<open>until\<close> is the end of the lease.\<close>

definition add_cluster_ban :: "int \<Rightarrow> string \<Rightarrow> string \<Rightarrow> (ip_ban_key, int) gomap \<Rightarrow> (ip_ban_key, int) gomap res" where
  "add_cluster_ban until user ip bans =
     rbind (normalizeClusterIP ip) (\<lambda>a.
     guard_err (length bans \<ge> ipBanMaxSize \<and> gget0 0 bans (user, a) = 0) (EMsg ''too many cluster IP bans'')
     (Inr (gput (user, a) until bans)))"

definition cluster_ban_table :: "int \<Rightarrow> (string, string list) gomap \<Rightarrow> (ip_ban_key, int) gomap res" where
  "cluster_ban_table until raw =
     fold_res (\<lambda>(user, ips) bans.
       guard_err (user = []) (EMsg ''cluster IP ban has an empty client name'')
       (fold_res (add_cluster_ban until user) ips bans)) raw []"

text \<open>\<open>drop[user]\<close>: the same pairs by client, for closing what is connected.\<close>

definition drops_of :: "(ip_ban_key, int) gomap \<Rightarrow> (string, addr list) gomap" where
  "drops_of bans = fold (\<lambda>((user, a), _) m. gput user (gget0 [] m user @ [a]) m) bans []"

definition lease_bans :: "(ip_ban_key, int) gomap \<Rightarrow> (string, bool) gomap \<Rightarrow> int \<Rightarrow> ip_limiter \<Rightarrow> ip_limiter" where
  "lease_bans bans managed until l =
     l\<lparr>il_cluster_bans := bans, il_cluster_managed := managed, il_cluster_lease_until := until\<rparr>"

definition ApplyClusterBans :: "bool \<Rightarrow> int \<Rightarrow> db \<Rightarrow> (string, string list) gomap \<Rightarrow> ip_state \<Rightarrow> ip_state res" where
  "ApplyClusterBans ok nowUnix d raw st =
     (let until = nowUnix + clusterBanLease
      in rbind (loadIPLimits ok d) (\<lambda>(_, managed).
         rbind (cluster_ban_table until raw) (\<lambda>bans.
         let drp = drops_of bans;
             trk = (case is_tracker st of
                      Some tr \<Rightarrow> Some (if drp \<noteq> [] then snd (CloseConnByUserIPs drp tr) else tr)
                    | None \<Rightarrow> None)
         in Inr (st\<lparr>is_limiter := lease_bans bans managed until (is_limiter st), is_tracker := trk\<rparr>))))"

section \<open>The plan\<close>

definition active_of :: "(string, string list) gomap \<Rightarrow> (string, int) gomap \<Rightarrow> (ip_ban_key, unit) gomap res" where
  "active_of snapshots limits =
     fold_res (\<lambda>(user, ips) active.
       if gget0 0 limits user \<le> 0 then Inr active
       else fold_res (\<lambda>ip active. rbind (normalizeClusterIP ip) (\<lambda>a. Inr (gput (user, a) () active))) ips active)
     snapshots []"

text \<open>Forget holders that have been away too long, note who is there.\<close>

definition refresh_holders :: "int \<Rightarrow> (ip_ban_key, unit) gomap \<Rightarrow> (ip_ban_key, cluster_hold) gomap \<Rightarrow> (ip_ban_key, cluster_hold) gomap" where
  "refresh_holders now active holders =
     fold (\<lambda>(k, _) m.
       let h = gget0 \<lparr>ch_first = None, ch_last = None\<rparr> m k
       in gput k \<lparr>ch_first = (if ch_first h = None then Some now else ch_first h), ch_last = Some now\<rparr> m)
       active
       (filter (\<lambda>(k, h). \<not> (gget active k = None \<and> (case ch_last h of None \<Rightarrow> True | Some t \<Rightarrow> now - t > ipHoldMemory))) holders)"

definition time_before :: "int option \<Rightarrow> int option \<Rightarrow> bool" where
  "time_before a b = (case b of None \<Rightarrow> False | Some y \<Rightarrow> (case a of None \<Rightarrow> True | Some x \<Rightarrow> x < y))"

definition holder_less :: "(ip_ban_key, cluster_hold) gomap \<Rightarrow> ip_ban_key \<Rightarrow> ip_ban_key \<Rightarrow> bool" where
  "holder_less holders a b =
     (let fa = ch_first (gget0 \<lparr>ch_first = None, ch_last = None\<rparr> holders a);
          fb = ch_first (gget0 \<lparr>ch_first = None, ch_last = None\<rparr> holders b)
      in if fa \<noteq> fb then time_before fa fb else addr_compare (snd a) (snd b) < 0)"

definition identityLabel :: "addr \<Rightarrow> string" where
  "identityLabel a = (case a of V6 w z \<Rightarrow> addr_string (V6 w []) @ ''/64'' | _ \<Rightarrow> addr_string a)"

record cluster_acc =
  ca_holders :: "(ip_ban_key, cluster_hold) gomap"
  ca_bans :: "(ip_ban_key, int) gomap"
  ca_counts :: "(string, int) gomap"
  ca_list :: "(string, online_ip list) gomap"

definition place_candidate :: "int \<Rightarrow> string \<Rightarrow> int \<Rightarrow> ip_ban_key \<Rightarrow> cluster_acc \<Rightarrow> cluster_acc" where
  "place_candidate now user limit k s =
     (if gget (ca_bans s) k \<noteq> None then s\<lparr>ca_holders := gdel k (ca_holders s)\<rparr>
      else if gget0 0 (ca_counts s) user \<ge> limit then
        s\<lparr>ca_bans := gput k (now + ipBanTTL * nanos) (ca_bans s), ca_holders := gdel k (ca_holders s)\<rparr>
      else
        s\<lparr>ca_counts := gput user (gget0 0 (ca_counts s) user + 1) (ca_counts s),
          ca_list := gput user (gget0 [] (ca_list s) user @ [\<lparr>oi_ip = identityLabel (snd k), oi_since = 0, oi_idle = None\<rparr>]) (ca_list s)\<rparr>)"

definition plan_user :: "int \<Rightarrow> (ip_ban_key, unit) gomap \<Rightarrow> string \<times> int \<Rightarrow> cluster_acc \<Rightarrow> cluster_acc" where
  "plan_user now active client s =
     (let (user, limit) = client;
          cands = sort_by (holder_less (ca_holders s)) (filter (\<lambda>k. fst k = user) (gkeys active));
          available = length (filter (\<lambda>k. gget (ca_bans s) k = None) cands);
          s1 = (if int available < limit then s\<lparr>ca_bans := filter (\<lambda>(k, _). fst k \<noteq> user) (ca_bans s)\<rparr> else s)
      in fold (place_candidate now user limit) cands s1)"

definition ban_less :: "(ip_ban_key \<times> int) \<Rightarrow> (ip_ban_key \<times> int) \<Rightarrow> bool" where
  "ban_less a b =
     (if snd a \<noteq> snd b then snd a < snd b
      else if fst (fst a) \<noteq> fst (fst b) then fst (fst a) < fst (fst b)
      else addr_compare (snd (fst a)) (snd (fst b)) < 0)"

definition trim_bans :: "(ip_ban_key, int) gomap \<Rightarrow> (ip_ban_key, int) gomap" where
  "trim_bans bans =
     (if length bans > ipBanMaxSize
      then fold gdel (map fst (take (length bans - ipBanMaxSize) (sort_by ban_less bans))) bans
      else bans)"

definition bans_by_user :: "(ip_ban_key, int) gomap \<Rightarrow> (string, string list) gomap" where
  "bans_by_user bans =
     map (\<lambda>(u, ips). (u, sort ips)) (fold (\<lambda>((u, a), _) m. gput u (gget0 [] m u @ [addr_string a]) m) bans [])"

text \<open>The refreshed state the loop over the clients starts from.\<close>

definition plan_start :: "int \<Rightarrow> (string, int) gomap \<Rightarrow> (ip_ban_key, unit) gomap \<Rightarrow> cluster_ips \<Rightarrow> cluster_acc" where
  "plan_start now limits active c =
     \<lparr>ca_holders = refresh_holders now active (cl_holders c),
      ca_bans = filter (\<lambda>(k, until). \<not> (gget0 0 limits (fst k) \<le> 0 \<or> \<not> until > now)) (cl_bans c),
      ca_counts = [], ca_list = []\<rparr>"

definition planClusterIPLimits ::
  "(string, string list) gomap \<Rightarrow> (string, int) gomap \<Rightarrow> int \<Rightarrow> cluster_ips \<Rightarrow> ((string, string list) gomap \<times> cluster_ips) res" where
  "planClusterIPLimits snapshots limits now c =
     rbind (active_of snapshots limits) (\<lambda>active.
     let acc = fold (plan_user now active) limits (plan_start now limits active c);
         bans = trim_bans (ca_bans acc)
     in Inr (bans_by_user bans,
             c\<lparr>cl_holders := ca_holders acc, cl_bans := bans, cl_counts := ca_counts acc, cl_list := ca_list acc,
               cl_active := True, cl_updated_at := Some now\<rparr>))"

section \<open>The coordination\<close>

text \<open>
  What one run reads of the other nodes: their state, the answer to the snapshot request and whether
  posting the bans succeeds, each by node id. \<open>posted\<close> in the result is what was sent to the nodes.
\<close>

record cluster_net =
  cn_state :: "nat \<Rightarrow> string"
  cn_fetch :: "nat \<Rightarrow> (string, string list) gomap res"
  cn_post :: "nat \<Rightarrow> bool"

definition merge_snapshot :: "(string, int) gomap \<Rightarrow> (string, string list) gomap \<Rightarrow> (string, string list) gomap \<Rightarrow> (string, string list) gomap" where
  "merge_snapshot limits snap all =
     fold (\<lambda>(user, ips) m. if gget0 0 limits user > 0 then gput user (gget0 [] m user @ ips) m else m) snap all"

definition clear_cluster :: "cluster_ips \<Rightarrow> cluster_ips" where
  "clear_cluster c = c\<lparr>cl_holders := [], cl_bans := [], cl_counts := [], cl_list := [], cl_active := False, cl_updated_at := None\<rparr>"

definition EnforceClusterIPLimits ::
  "bool \<Rightarrow> nat list res \<Rightarrow> cluster_net \<Rightarrow> int \<Rightarrow> int \<Rightarrow> int \<Rightarrow> bool \<Rightarrow> db \<Rightarrow> cluster_ips \<times> ip_state \<Rightarrow>
   (cluster_ips \<times> ip_state) \<times> (string, string list) gomap option" where
  "EnforceClusterIPLimits ok nodes net now nowPlan nowUnix applyOk d cs =
     (let (c, st) = cs; failed = ((deactivateClusterIPSnapshot c, st), None)
      in case loadIPLimits ok d of
        Inl _ \<Rightarrow> failed
      | Inr (limits0, managed) \<Rightarrow>
        (let limits = fold gdel (gkeys managed) limits0
         in case nodes of
           Inl _ \<Rightarrow> failed
         | Inr ids \<Rightarrow>
           if ids = [] \<or> limits = [] then ((clear_cluster c, st), None)
           else
             let own = snapshot_of limits (is_active st) now (is_tracker st)
             in if \<not> (\<forall>i \<in> set ids. cn_state net i = ''online'') then failed
                else case map_res (cn_fetch net) ids of
                  Inl _ \<Rightarrow> failed
                | Inr snaps \<Rightarrow>
                  (case planClusterIPLimits (fold (merge_snapshot limits) snaps own) limits nowPlan c of
                     Inl _ \<Rightarrow> failed
                   | Inr (bans, c1) \<Rightarrow>
                     (case ApplyClusterBans applyOk nowUnix d bans st of
                        Inl _ \<Rightarrow> ((deactivateClusterIPSnapshot c1, st), None)
                      | Inr st1 \<Rightarrow>
                        ((if \<forall>i \<in> set ids. cn_post net i then c1 else deactivateClusterIPSnapshot c1, st1), Some bans)))))"

section \<open>Views\<close>

definition cluster_fresh :: "int \<Rightarrow> cluster_ips \<Rightarrow> bool" where
  "cluster_fresh now c \<longleftrightarrow> cl_active c \<and> (case cl_updated_at c of None \<Rightarrow> False | Some t \<Rightarrow> \<not> now - t > clusterBanLease * nanos)"

definition clusterIPCountSnapshot :: "int \<Rightarrow> cluster_ips \<Rightarrow> (string, int) gomap option" where
  "clusterIPCountSnapshot now c = (if \<not> cluster_fresh now c then None else Some (filter (\<lambda>(_, n). n > 0) (cl_counts c)))"

definition ClusterIPActive :: "int \<Rightarrow> cluster_ips \<Rightarrow> bool" where
  "ClusterIPActive now c \<longleftrightarrow> cluster_fresh now c"

definition ClusterOnlineIPsOf :: "int \<Rightarrow> string \<Rightarrow> cluster_ips \<Rightarrow> online_ip list option" where
  "ClusterOnlineIPsOf now name c =
     (if \<not> cluster_fresh now c then None
      else if gget (cl_counts c) name = None then None
      else Some (gget0 [] (cl_list c) name))"

definition GetIPCounts :: "int \<Rightarrow> cluster_ips \<Rightarrow> ip_state \<Rightarrow> (string, int) gomap" where
  "GetIPCounts now c st =
     (case clusterIPCountSnapshot now c of Some m \<Rightarrow> m | None \<Rightarrow> map (\<lambda>(u, n). (u, int n)) (is_counts st))"

definition online_less :: "online_ip \<Rightarrow> online_ip \<Rightarrow> bool" where
  "online_less a b = (if oi_since a \<noteq> oi_since b then oi_since a < oi_since b else oi_ip a < oi_ip b)"

text \<open>\<open>wallNow\<close> is the wall clock in nanoseconds, \<open>now\<close> the tracker's.\<close>

definition OnlineIPsOf :: "bool \<Rightarrow> int \<Rightarrow> int \<Rightarrow> string \<Rightarrow> tracker option \<Rightarrow> online_ip list" where
  "OnlineIPsOf ipLimitActive wallNow now name trk =
     (case trk of
        None \<Rightarrow> []
      | Some tr \<Rightarrow>
          if name = [] then []
          else
            sort_by online_less
              (map (\<lambda>(a, w). \<lparr>oi_ip = identityLabel a, oi_since = (wallNow - (now - iw_first_seen w)) div nanos,
                     oi_idle = (if ipLimitActive then Some (now - iw_last_seen w > ipIdleGrace) else None)\<rparr>)
                (gget0 [] (UserIPs (Some (\<lambda>u. u = name)) tr) name)))"

end
