(* ===== verification/ClusterIpInv.thy ===== *)
theory ClusterIpInv
  imports ClusterIp
begin

text \<open>
  What the plan over all nodes guarantees: every client gets exactly the slots its limit and its live
  addresses allow, everyone else is banned, and the bans stay bounded.
\<close>

section \<open>One client\<close>

lemma gget_filter_key: "gget (filter (\<lambda>(k, _). P k) m) k = (if P k then gget m k else None)"
  by (induction m) (auto split: prod.splits)

lemma place_candidate_bans:
  "k' \<noteq> k \<Longrightarrow> gget (ca_bans (place_candidate now user limit k s)) k' = gget (ca_bans s) k'"
  "gget0 0 (ca_counts (place_candidate now user limit k s)) v = (if v = user \<and> gget (ca_bans s) k = None \<and> gget0 0 (ca_counts s) user < limit
     then gget0 0 (ca_counts s) user + 1 else gget0 0 (ca_counts s) v)"
  "gget (ca_bans (place_candidate now user limit k s)) k = None \<longleftrightarrow> gget (ca_bans s) k = None \<and> gget0 0 (ca_counts s) user < limit"
  by (auto simp: place_candidate_def gget0_def)

lemma place_all:
  assumes "distinct ks" and "gget0 0 (ca_counts s) user \<le> limit" and s'_def: "s' = fold (place_candidate now user limit) ks s"
  shows "gget0 0 (ca_counts s') user = min limit (gget0 0 (ca_counts s) user + int (length (filter (\<lambda>k. gget (ca_bans s) k = None) ks)))"
    and "int (length (filter (\<lambda>k. gget (ca_bans s') k = None) ks)) = gget0 0 (ca_counts s') user - gget0 0 (ca_counts s) user"
    and "k \<notin> set ks \<Longrightarrow> gget (ca_bans s') k = gget (ca_bans s) k"
    and "v \<noteq> user \<Longrightarrow> gget0 0 (ca_counts s') v = gget0 0 (ca_counts s) v"
proof -
  have "gget0 0 (ca_counts s') user = min limit (gget0 0 (ca_counts s) user + int (length (filter (\<lambda>k. gget (ca_bans s) k = None) ks)))
    \<and> int (length (filter (\<lambda>k. gget (ca_bans s') k = None) ks)) = gget0 0 (ca_counts s') user - gget0 0 (ca_counts s) user
    \<and> (\<forall>k. k \<notin> set ks \<longrightarrow> gget (ca_bans s') k = gget (ca_bans s) k)
    \<and> (\<forall>v. v \<noteq> user \<longrightarrow> gget0 0 (ca_counts s') v = gget0 0 (ca_counts s) v)"
    using assms(1,2) unfolding s'_def
  proof (induction ks arbitrary: s)
    case (Cons k ks)
    let ?s = "place_candidate now user limit k s"
    have "filter (\<lambda>k'. gget (ca_bans ?s) k' = None) ks = filter (\<lambda>k'. gget (ca_bans s) k' = None) ks"
    proof (rule filter_cong [OF refl])
      fix k' assume "k' \<in> set ks"
      then have "k' \<noteq> k" using Cons.prems(1) by auto
      from place_candidate_bans(1) [OF this, of now user limit s]
      show "(gget (ca_bans ?s) k' = None) = (gget (ca_bans s) k' = None)" by (rule arg_cong)
    qed
    moreover have "gget0 0 (ca_counts ?s) user \<le> limit" using Cons.prems(2) by (auto simp: place_candidate_bans(2))
    moreover note Cons.IH [of ?s]
    ultimately have IH: "gget0 0 (ca_counts (fold (place_candidate now user limit) ks ?s)) user
        = min limit (gget0 0 (ca_counts ?s) user + int (length (filter (\<lambda>k. gget (ca_bans s) k = None) ks)))"
      "int (length (filter (\<lambda>k'. gget (ca_bans (fold (place_candidate now user limit) ks ?s)) k' = None) ks))
        = gget0 0 (ca_counts (fold (place_candidate now user limit) ks ?s)) user - gget0 0 (ca_counts ?s) user"
      "k' \<notin> set ks \<Longrightarrow> gget (ca_bans (fold (place_candidate now user limit) ks ?s)) k' = gget (ca_bans ?s) k'"
      "v \<noteq> user \<Longrightarrow> gget0 0 (ca_counts (fold (place_candidate now user limit) ks ?s)) v = gget0 0 (ca_counts ?s) v" for k' v
      using Cons.prems(1) by (simp_all del: split_paired_All)
    have k: "gget (ca_bans (fold (place_candidate now user limit) ks ?s)) k = None
        \<longleftrightarrow> gget (ca_bans s) k = None \<and> gget0 0 (ca_counts s) user < limit"
      using IH(3) [of k] Cons.prems(1) by (simp add: place_candidate_bans(3))
    have rest: "gget (ca_bans (fold (place_candidate now user limit) (k # ks) s)) k' = gget (ca_bans s) k'" if "k' \<notin> set (k # ks)" for k'
      using that IH(3) [of k'] place_candidate_bans(1) [of k' k now user limit s] by simp
    show ?case
      using IH(1,2,4) k rest Cons.prems(2) by (intro conjI allI impI) (auto simp: place_candidate_bans(2))
  qed auto
  then show "gget0 0 (ca_counts s') user = min limit (gget0 0 (ca_counts s) user + int (length (filter (\<lambda>k. gget (ca_bans s) k = None) ks)))"
    and "int (length (filter (\<lambda>k. gget (ca_bans s') k = None) ks)) = gget0 0 (ca_counts s') user - gget0 0 (ca_counts s) user"
    and "k \<notin> set ks \<Longrightarrow> gget (ca_bans s') k = gget (ca_bans s) k"
    and "v \<noteq> user \<Longrightarrow> gget0 0 (ca_counts s') v = gget0 0 (ca_counts s) v" by blast+
qed

text \<open>The live identities of a client.\<close>

definition identities :: "(ip_ban_key, unit) gomap \<Rightarrow> string \<Rightarrow> ip_ban_key list" where
  "identities active u = filter (\<lambda>k. fst k = u) (gkeys active)"

definition unbanned_ids :: "(ip_ban_key, int) gomap \<Rightarrow> ip_ban_key list \<Rightarrow> nat" where
  "unbanned_ids bans ks = length (filter (\<lambda>k. gget bans k = None) ks)"

lemma unbanned_ids_sort: "unbanned_ids bans (sort_by lt ks) = unbanned_ids bans ks"
proof -
  have "mset (filter (\<lambda>k. gget bans k = None) (sort_by lt ks)) = mset (filter (\<lambda>k. gget bans k = None) ks)" by simp
  then show ?thesis unfolding unbanned_ids_def by (metis size_mset)
qed

lemma plan_user_self:
  assumes "gmap_ok active" and "0 < limit" and "gget0 0 (ca_counts s) u = 0"
  shows "gget0 0 (ca_counts (plan_user now active (u, limit) s)) u = min limit (int (length (identities active u)))"
    and "int (unbanned_ids (ca_bans (plan_user now active (u, limit) s)) (identities active u))
      = min limit (int (length (identities active u)))"
proof -
  define cands where "cands = sort_by (holder_less (ca_holders s)) (identities active u)"
  define s1 where "s1 = (if int (unbanned_ids (ca_bans s) cands) < limit then s\<lparr>ca_bans := filter (\<lambda>(k, _). fst k \<noteq> u) (ca_bans s)\<rparr> else s)"
  have run: "plan_user now active (u, limit) s = fold (place_candidate now u limit) cands s1"
    by (simp add: plan_user_def cands_def s1_def identities_def unbanned_ids_def Let_def)
  have d: "distinct cands" "set cands = {k \<in> set (gkeys active). fst k = u}" "length cands = length (identities active u)"
    using assms(1) by (auto simp: cands_def identities_def)
  have c0: "gget0 0 (ca_counts s1) u = 0" using assms(3) by (simp add: s1_def)
  have "min limit (int (unbanned_ids (ca_bans s1) cands)) = min limit (int (length cands))"
  proof (cases "int (unbanned_ids (ca_bans s) cands) < limit")
    case True
    have "filter (\<lambda>k. gget (ca_bans s1) k = None) cands = cands"
      using True d(2) by (intro filter_True) (auto simp: s1_def gget_filter_key)
    then show ?thesis by (simp add: unbanned_ids_def)
  next
    case False
    have "unbanned_ids (ca_bans s) cands \<le> length cands" by (simp add: unbanned_ids_def)
    with False show ?thesis by (simp add: s1_def)
  qed
  then show "gget0 0 (ca_counts (plan_user now active (u, limit) s)) u = min limit (int (length (identities active u)))"
    using place_all(1) [OF d(1) _ refl, of s1 u limit now] c0 assms(2) by (simp add: run d(3) unbanned_ids_def)
  then have "int (unbanned_ids (ca_bans (plan_user now active (u, limit) s)) cands) = min limit (int (length (identities active u)))"
    using place_all(2) [OF d(1) _ refl, of s1 u limit now] c0 assms(2) by (simp add: run unbanned_ids_def)
  then show "int (unbanned_ids (ca_bans (plan_user now active (u, limit) s)) (identities active u)) = min limit (int (length (identities active u)))"
    by (simp add: cands_def unbanned_ids_sort)
qed

lemma plan_user_other:
  assumes "gmap_ok active" and "0 < snd c" and "gget0 0 (ca_counts s) (fst c) = 0" and "v \<noteq> fst c"
  shows "gget0 0 (ca_counts (plan_user now active c s)) v = gget0 0 (ca_counts s) v"
    and "fst k = v \<Longrightarrow> gget (ca_bans (plan_user now active c s)) k = gget (ca_bans s) k"
proof -
  obtain u limit where c: "c = (u, limit)" by (cases c)
  define cands where "cands = sort_by (holder_less (ca_holders s)) (filter (\<lambda>k. fst k = u) (gkeys active))"
  define s1 where "s1 = (if int (unbanned_ids (ca_bans s) cands) < limit then s\<lparr>ca_bans := filter (\<lambda>(k, _). fst k \<noteq> u) (ca_bans s)\<rparr> else s)"
  have run: "plan_user now active c s = fold (place_candidate now u limit) cands s1"
    by (simp add: c plan_user_def cands_def s1_def unbanned_ids_def Let_def)
  have d: "distinct cands" "k \<in> set cands \<Longrightarrow> fst k = u" for k using assms(1) by (auto simp: cands_def)
  have le: "gget0 0 (ca_counts s1) u \<le> limit" using assms(2,3) by (simp add: s1_def c)
  show "gget0 0 (ca_counts (plan_user now active c s)) v = gget0 0 (ca_counts s) v"
    unfolding run using place_all(4) [OF d(1) le refl] assms(4) by (simp add: c s1_def)
  assume k: "fst k = v"
  then have "k \<notin> set cands" using d(2) [of k] assms(4) by (auto simp only: c fst_conv)
  then have "gget (ca_bans (plan_user now active c s)) k = gget (ca_bans s1) k"
    unfolding run by (rule place_all(3) [OF d(1) le refl])
  with k assms(4) show "gget (ca_bans (plan_user now active c s)) k = gget (ca_bans s) k"
    by (simp add: s1_def gget_filter_key c)
qed

section \<open>All clients\<close>

lemma plan_users_client:
  assumes "gmap_ok active" and "distinct (map fst cs)" and "\<forall>(u, l) \<in> set cs. 0 < l" and "\<forall>(u, l) \<in> set cs. gget0 0 (ca_counts s) u = 0"
    and "(u, limit) \<in> set cs" and s'_def: "s' = fold (plan_user now active) cs s"
  shows "gget0 0 (ca_counts s') u = min limit (int (length (identities active u)))"
    and "int (unbanned_ids (ca_bans s') (identities active u)) = min limit (int (length (identities active u)))"
proof -
  have other: "gget0 0 (ca_counts (fold (plan_user now active) xs t)) v = gget0 0 (ca_counts t) v
      \<and> (\<forall>k. fst k = v \<longrightarrow> gget (ca_bans (fold (plan_user now active) xs t)) k = gget (ca_bans t) k)"
    if "distinct (map fst xs)" "v \<notin> fst ` set xs" "\<forall>(u, l) \<in> set xs. 0 < l" "\<forall>(u, l) \<in> set xs. gget0 0 (ca_counts t) u = 0" for xs t v
    using that
  proof (induction xs arbitrary: t)
    case (Cons x xs)
    let ?t = "plan_user now active x t"
    have x: "0 < snd x" "gget0 0 (ca_counts t) (fst x) = 0" using Cons.prems by (auto split: prod.splits)
    note o1 = plan_user_other [OF assms(1) x]
    have "\<forall>(u, l) \<in> set xs. gget0 0 (ca_counts ?t) u = 0"
    proof safe
      fix u l assume "(u, l) \<in> set xs"
      then have "u \<noteq> fst x" "gget0 0 (ca_counts t) u = 0" using Cons.prems(1,4) by (auto simp: rev_image_eqI)
      then show "gget0 0 (ca_counts ?t) u = 0" using o1(1) by simp
    qed
    then have "gget0 0 (ca_counts (fold (plan_user now active) xs ?t)) v = gget0 0 (ca_counts ?t) v
      \<and> (\<forall>k. fst k = v \<longrightarrow> gget (ca_bans (fold (plan_user now active) xs ?t)) k = gget (ca_bans ?t) k)"
      using Cons.prems by (intro Cons.IH) auto
    then show ?case using o1 [of v] Cons.prems(2) by simp
  qed simp
  obtain xs ys where cs: "cs = xs @ (u, limit) # ys" using assms(5) by (meson split_list)
  let ?t = "fold (plan_user now active) xs s" and ?t1 = "plan_user now active (u, limit) (fold (plan_user now active) xs s)"
  have fresh: "u \<notin> fst ` set xs" "u \<notin> fst ` set ys" "distinct (map fst xs)" "distinct (map fst ys)" using assms(2) cs by auto
  have t: "gget0 0 (ca_counts ?t) v = gget0 0 (ca_counts s) v" if "v \<notin> fst ` set xs" for v
    using other [OF fresh(3) that] assms(3,4) cs by simp
  have lim: "0 < limit" and cu: "gget0 0 (ca_counts ?t) u = 0" using assms(3,4) cs t [OF fresh(1)] by auto
  note self = plan_user_self [OF assms(1) lim cu]
  have "\<forall>(v, l) \<in> set ys. gget0 0 (ca_counts ?t1) v = 0"
  proof safe
    fix v l assume v: "(v, l) \<in> set ys"
    then have "v \<noteq> u" "v \<notin> fst ` set xs" using assms(2) cs fresh(2) by (auto simp: rev_image_eqI)
    then show "gget0 0 (ca_counts ?t1) v = 0"
      using plan_user_other(1) [OF assms(1), of "(u, limit)" ?t v now] lim cu t [of v] assms(4) v cs by auto
  qed
  moreover have "\<forall>(v, l) \<in> set ys. 0 < l" using assms(3) cs by simp
  moreover have "s' = fold (plan_user now active) ys ?t1" by (simp add: s'_def cs)
  ultimately have keep: "gget0 0 (ca_counts s') u = gget0 0 (ca_counts ?t1) u" "fst k = u \<Longrightarrow> gget (ca_bans s') k = gget (ca_bans ?t1) k" for k
    using other [OF fresh(4) fresh(2), of ?t1] by blast+
  show "gget0 0 (ca_counts s') u = min limit (int (length (identities active u)))" using keep(1) self(1) by simp
  have "unbanned_ids (ca_bans s') (identities active u) = unbanned_ids (ca_bans ?t1) (identities active u)"
    unfolding unbanned_ids_def by (intro arg_cong [of _ _ length] filter_cong) (auto simp: identities_def keep(2))
  then show "int (unbanned_ids (ca_bans s') (identities active u)) = min limit (int (length (identities active u)))" using self(2) by simp
qed

section \<open>The table of bans\<close>

lemma place_candidate_keys:
  "gmap_ok (ca_bans s) \<Longrightarrow> gmap_ok (ca_bans (place_candidate now u limit k s))"
  "fst ` set (ca_bans (place_candidate now u limit k s)) \<subseteq> insert k (fst ` set (ca_bans s))"
  by (auto simp: place_candidate_def distinct_update)

lemma place_all_keys:
  "gmap_ok (ca_bans s) \<Longrightarrow> gmap_ok (ca_bans (fold (place_candidate now u limit) ks s))
    \<and> fst ` set (ca_bans (fold (place_candidate now u limit) ks s)) \<subseteq> set ks \<union> fst ` set (ca_bans s)"
proof (induction ks arbitrary: s)
  case (Cons k ks)
  let ?s = "place_candidate now u limit k s"
  have "gmap_ok (ca_bans ?s)" by (rule place_candidate_keys(1) [OF Cons.prems])
  from Cons.IH [OF this] place_candidate_keys(2) [of now u limit k s] show ?case
    unfolding fold_Cons comp_apply list.set by blast
qed simp

lemma plan_user_keys:
  assumes "gmap_ok (ca_bans s)"
  shows "gmap_ok (ca_bans (plan_user now active c s))
    \<and> fst ` set (ca_bans (plan_user now active c s)) \<subseteq> fst ` set active \<union> fst ` set (ca_bans s)"
proof -
  obtain u limit where c: "c = (u, limit)" by (cases c)
  define cands where "cands = sort_by (holder_less (ca_holders s)) (filter (\<lambda>k. fst k = u) (gkeys active))"
  define s1 where "s1 = (if int (length (filter (\<lambda>k. gget (ca_bans s) k = None) cands)) < limit
     then s\<lparr>ca_bans := filter (\<lambda>(k, _). fst k \<noteq> u) (ca_bans s)\<rparr> else s)"
  have run: "plan_user now active c s = fold (place_candidate now u limit) cands s1"
    by (simp add: c plan_user_def cands_def s1_def Let_def)
  have "gmap_ok (ca_bans s1)" "fst ` set (ca_bans s1) \<subseteq> fst ` set (ca_bans s)" using assms by (auto simp: s1_def)
  moreover have "set cands \<subseteq> fst ` set active" by (auto simp: cands_def)
  ultimately show ?thesis using place_all_keys [of s1 now u limit cands] unfolding run by blast
qed

lemma plan_users_keys:
  "gmap_ok (ca_bans s) \<Longrightarrow> gmap_ok (ca_bans (fold (plan_user now active) cs s))
    \<and> fst ` set (ca_bans (fold (plan_user now active) cs s)) \<subseteq> fst ` set active \<union> fst ` set (ca_bans s)"
proof (induction cs arbitrary: s)
  case (Cons c cs)
  have k: "gmap_ok (ca_bans (plan_user now active c s))"
    "fst ` set (ca_bans (plan_user now active c s)) \<subseteq> fst ` set active \<union> fst ` set (ca_bans s)"
    using plan_user_keys [OF Cons.prems, of now active c] by blast+
  from Cons.IH [OF k(1)] k(2) show ?case unfolding fold_Cons comp_apply by blast
qed simp

lemma gmap_length: "gmap_ok m \<Longrightarrow> length m = card (fst ` set m)"
  by (metis distinct_card length_map list.set_map)

lemma trim_bans_bound:
  assumes "gmap_ok bans"
  shows "length (trim_bans bans) \<le> ipBanMaxSize" and "length bans \<le> ipBanMaxSize \<Longrightarrow> trim_bans bans = bans"
proof -
  show "length bans \<le> ipBanMaxSize \<Longrightarrow> trim_bans bans = bans" by (simp add: trim_bans_def)
  define es where "es = sort_by ban_less bans"
  define n where "n = length bans - ipBanMaxSize"
  have d: "distinct (map fst es)" "length es = length bans" "fst ` set es = fst ` set bans" using assms by (auto simp: es_def)
  show "length (trim_bans bans) \<le> ipBanMaxSize"
  proof (cases "length bans > ipBanMaxSize")
    case True
    let ?gone = "fst ` set (take n es)"
    have t: "trim_bans bans = filter (\<lambda>(k, v). k \<notin> ?gone) bans"
      using True by (simp add: trim_bans_def es_def n_def fold_gdel_filter)
    have gone: "card ?gone = n" "?gone \<subseteq> fst ` set bans"
    proof -
      have "distinct (map fst (take n es))" using d(1) by (metis distinct_take take_map)
      then show "card ?gone = n" using d(2) True by (metis card_image diff_le_self distinct_card distinct_map length_map length_take min.absorb2 n_def list.set_map)
      show "?gone \<subseteq> fst ` set bans" using d(3) by (metis image_mono set_take_subset)
    qed
    have "length (trim_bans bans) = card (fst ` set (trim_bans bans))"
      unfolding t by (rule gmap_length) (rule gmap_ok_filter [OF assms])
    also have "fst ` set (trim_bans bans) = fst ` set bans - ?gone" unfolding t by force
    also have "card \<dots> = length bans - n" using gone gmap_length [OF assms] by (simp add: card_Diff_subset)
    finally show ?thesis using True by (simp add: n_def)
  qed (simp add: trim_bans_def)
qed

section \<open>The plan\<close>

lemma fold_res_inv:
  "fold_res f xs s = Inr s' \<Longrightarrow> P s \<Longrightarrow> (\<And>x s s'. x \<in> set xs \<Longrightarrow> P s \<Longrightarrow> f x s = Inr s' \<Longrightarrow> P s') \<Longrightarrow> P s'"
proof (induction xs arbitrary: s)
  case (Cons x xs)
  from Cons.prems(1) obtain s1 where 1: "f x s = Inr s1" "fold_res f xs s1 = Inr s'" by (auto simp: rbind_def split: sum.splits)
  have "P s1" using Cons.prems(2,3) 1(1) by auto
  with 1(2) show ?case by (rule Cons.IH) (use Cons.prems(3) in auto)
qed simp

lemma active_of_ok:
  assumes "active_of snapshots limits = Inr active"
  shows "gmap_ok active"
proof -
  have inner: "gmap_ok s'" if "fold_res (\<lambda>ip m. rbind (normalizeClusterIP ip) (\<lambda>a. Inr (gput (u, a) () m))) ips s = Inr s'" "gmap_ok s"
    for u ips s s'
    using that by (rule fold_res_inv) (auto simp: rbind_def distinct_update split: sum.splits)
  show ?thesis
    using assms unfolding active_of_def
    by (rule fold_res_inv) (auto dest: inner split: if_splits)
qed

lemma plan_cluster:
  assumes "planClusterIPLimits snapshots limits now c = Inr (bans, c')" and "gmap_ok limits" and "\<forall>(u, l) \<in> set limits. 0 < l"
    and "(u, limit) \<in> set limits" and "active_of snapshots limits = Inr active" and "gmap_ok (cl_bans c)"
  shows "gget0 0 (cl_counts c') u = min limit (int (length (identities active u)))"
    and "length (cl_bans c') \<le> ipBanMaxSize"
    and "length (cl_bans c) + length active \<le> ipBanMaxSize
      \<Longrightarrow> int (unbanned_ids (cl_bans c') (identities active u)) = min limit (int (length (identities active u)))"
proof -
  define s where "s = plan_start now limits active c"
  define acc where "acc = fold (plan_user now active) limits s"
  have c': "cl_counts c' = ca_counts acc" "cl_bans c' = trim_bans (ca_bans acc)"
    using assms(1,5) by (auto simp: planClusterIPLimits_def acc_def s_def Let_def)
  have s: "ca_counts s = []" "gmap_ok (ca_bans s)" "fst ` set (ca_bans s) \<subseteq> fst ` set (cl_bans c)"
    using assms(6) by (auto simp: s_def plan_start_def)
  have ok: "gmap_ok active" by (rule active_of_ok [OF assms(5)])
  have zero: "\<forall>(u, l) \<in> set limits. gget0 0 (ca_counts s) u = 0" by (simp add: s(1) gget0_def)
  note plan = plan_users_client [OF ok assms(2,3) zero assms(4) acc_def]
  note keys = plan_users_keys [OF s(2), of now active limits, folded acc_def]
  show "gget0 0 (cl_counts c') u = min limit (int (length (identities active u)))" using plan(1) by (simp add: c'(1))
  show "length (cl_bans c') \<le> ipBanMaxSize" unfolding c'(2) by (rule trim_bans_bound(1)) (use keys in blast)
  assume room: "length (cl_bans c) + length active \<le> ipBanMaxSize"
  have "length (ca_bans acc) = card (fst ` set (ca_bans acc))" using keys gmap_length by blast
  also have "\<dots> \<le> card (fst ` set active \<union> fst ` set (cl_bans c))"
  proof (rule card_mono)
    show "fst ` set (ca_bans acc) \<subseteq> fst ` set active \<union> fst ` set (cl_bans c)" using keys s(3) by blast
  qed simp
  also have "\<dots> \<le> length active + length (cl_bans c)"
    using card_Un_le [of "fst ` set active" "fst ` set (cl_bans c)"] gmap_length [OF ok] gmap_length [OF assms(6)] by simp
  finally have "trim_bans (ca_bans acc) = ca_bans acc" using room keys by (intro trim_bans_bound(2)) auto
  then show "int (unbanned_ids (cl_bans c') (identities active u)) = min limit (int (length (identities active u)))"
    using plan(2) by (simp add: c'(2))
qed

section \<open>Leased bans\<close>

lemma normalizeClusterIP_identity: "normalizeClusterIP raw = (case ParseAddr raw of None \<Rightarrow> Inl EDecode | Some a \<Rightarrow> Inr (normalizeSrc a))"
  by (simp add: normalizeClusterIP_def normalizeSrc_cases IPv6IdentityPrefixBits_def Let_def split: option.splits addr.splits)

interpretation clgate: ban_gate "\<lambda>l t u a. \<not> allow l t u a"
  "\<lambda>(u :: string) (ips :: addr list) now l. lease_bans (fold (\<lambda>ip. gput (u, ip) (now + clusterBanLease)) ips []) managed (now + clusterBanLease) l"
  "\<lambda>u ips now t l. 0 \<le> now" clusterBanLease
  for managed
proof
  fix u :: string and ips :: "addr list" and now t :: int and a :: addr and l :: ip_limiter
  assume *: "0 \<le> now" "a \<in> set ips" "now \<le> t" "t < now + clusterBanLease"
  have "gget (fold (\<lambda>ip. gput (u, ip) (now + clusterBanLease)) ips []) (u, a) = Some (now + clusterBanLease)"
    using * gmap.get_fold_put [of "[]" "\<lambda>_. now + clusterBanLease" "map (Pair u) ips" "(u, a)"] by (simp add: fold_map comp_def)
  then show "\<not> allow (lease_bans (fold (\<lambda>ip. gput (u, ip) (now + clusterBanLease)) ips []) managed (now + clusterBanLease) l) t u a"
    using * by (simp add: allow_def lease_bans_def gget0_def clusterBanLease_def Let_def)
qed

text \<open>Every pair of the request is in the table, with the end of the lease.\<close>

lemma fold_res_Inr_mem:
  assumes "fold_res f xs s = Inr s'" and "x \<in> set xs" and "\<And>s s'. f x s = Inr s' \<Longrightarrow> P s'"
    and "\<And>y s s'. y \<in> set xs \<Longrightarrow> P s \<Longrightarrow> f y s = Inr s' \<Longrightarrow> P s'"
  shows "P s'"
  using assms
proof (induction xs arbitrary: s)
  case (Cons y ys)
  from Cons.prems(1) obtain s1 where 1: "f y s = Inr s1" "fold_res f ys s1 = Inr s'" by (auto simp: rbind_def split: sum.splits)
  show ?case
  proof (cases "x \<in> set ys")
    case True
    have later: "P t'" if "z \<in> set ys" "P t" "f z t = Inr t'" for z t t'
      using that by (intro Cons.prems(4) [of z t t']) simp_all
    show ?thesis by (rule Cons.IH [OF 1(2) True Cons.prems(3) later])
  next
    case False
    then have "P s1" using Cons.prems(2,3) 1(1) by auto
    with 1(2) show ?thesis by (rule fold_res_inv) (use Cons.prems(4) in auto)
  qed
qed simp

lemma add_cluster_ban_get:
  assumes "add_cluster_ban until user ip bans = Inr bans'"
  shows "\<exists>a. normalizeClusterIP ip = Inr a \<and> bans' = gput (user, a) until bans"
  using assms by (auto simp: add_cluster_ban_def rbind_def guard_err_def split: sum.splits if_splits)

lemma cluster_ban_table_get:
  assumes "cluster_ban_table until raw = Inr bans" and "(u, ips) \<in> set raw" and "ip \<in> set ips" and "normalizeClusterIP ip = Inr a"
  shows "gget bans (u, a) = Some until"
proof -
  have keep: "gget b' (u, a) = Some until" if "add_cluster_ban until v x b = Inr b'" "gget b (u, a) = Some until" for v x b b'
    using add_cluster_ban_get [OF that(1)] that(2) by auto
  have keeps: "gget b' (u, a) = Some until" if "fold_res (add_cluster_ban until v) xs b = Inr b'" "gget b (u, a) = Some until" for v xs b b'
    using fold_res_inv [OF that(1), of "\<lambda>b. gget b (u, a) = Some until"] that(2) keep by blast
  have put: "gget b' (u, a) = Some until" if "fold_res (add_cluster_ban until u) ips b = Inr b'" for b b'
    using fold_res_Inr_mem [OF that assms(3), of "\<lambda>b. gget b (u, a) = Some until"] add_cluster_ban_get assms(4) keep by fastforce
  show ?thesis
  proof (rule fold_res_Inr_mem [OF assms(1) [unfolded cluster_ban_table_def] assms(2)])
    fix b b'
    assume "(case (u, ips) of (user, ips) \<Rightarrow> \<lambda>bans. guard_err (user = []) (EMsg ''cluster IP ban has an empty client name'') (fold_res (add_cluster_ban until user) ips bans)) b = Inr b'"
    then show "gget b' (u, a) = Some until" using put by (auto simp: guard_err_def split: if_splits)
  next
    fix y b b'
    assume "gget b (u, a) = Some until"
      and "(case y of (user, ips) \<Rightarrow> \<lambda>bans. guard_err (user = []) (EMsg ''cluster IP ban has an empty client name'') (fold_res (add_cluster_ban until user) ips bans)) b = Inr b'"
    then show "gget b' (u, a) = Some until" using keeps by (cases y) (auto simp: guard_err_def split: if_splits)
  qed
qed

lemma drops_of_mem:
  assumes "gget bans (u, a) = Some t"
  shows "\<exists>ips. gget (drops_of bans) u = Some ips \<and> a \<in> set ips"
proof -
  let ?step = "\<lambda>((user, a), _) m. gput user (gget0 [] m user @ [a]) m"
  have "\<exists>ips. gget (fold ?step xs m) u = Some ips \<and> a \<in> set ips"
    if "(\<exists>ips. gget m u = Some ips \<and> a \<in> set ips) \<or> (u, a) \<in> fst ` set xs" for xs :: "(ip_ban_key, int) gomap" and m
    using that
  proof (induction xs arbitrary: m)
    case (Cons x xs)
    have "(\<exists>ips. gget (?step x m) u = Some ips \<and> a \<in> set ips) \<or> (u, a) \<in> fst ` set xs"
      using Cons.prems by (cases x) (auto simp: gget0_def)
    from Cons.IH [OF this] show ?case by simp
  qed simp
  moreover have "(u, a) \<in> fst ` set bans" using map_of_SomeD [OF assms] by force
  ultimately show ?thesis unfolding drops_of_def by blast
qed

end
