(* ===== verification/ClusterProps.thy ===== *)
theory ClusterProps
  imports ClusterIpInv
begin

text \<open>
  The properties of the address limit across nodes.
\<close>

section \<open>Two nodes\<close>

definition cx_limits :: "(string, int) gomap" where
  "cx_limits = [(''alice'', 1)]"

definition cx_snap :: "(string, string list) gomap" where
  "cx_snap = [(''alice'', [''192.0.2.1'', ''192.0.2.2'', ''::ffff:192.0.2.1''])]"

definition cx_ips :: cluster_ips where
  "cx_ips = \<lparr>cl_holders = [], cl_bans = [], cl_counts = [], cl_list = [], cl_active = False, cl_updated_at = None\<rparr>"

definition cx_state :: ip_state where
  "cx_state = \<lparr>is_limiter = \<lparr>il_bans = [], il_cluster_bans = [], il_cluster_managed = [], il_cluster_lease_until = 0,
     il_holders = [], il_last_generation = 1\<rparr>, is_counts = [], is_active = True, is_tracker = None\<rparr>"

definition cx_db :: db where
  "cx_db = \<lparr>db_clients = [], db_inbounds = [], db_nodes = [], db_changes = [], db_next_id = 1\<rparr>"

section \<open>Properties\<close>

text \<open>
  C12. The cluster-wide cap is exact: over the snapshots of all nodes a client is granted as many of its live
  identities as its limit allows and no more, and with room in the ban list every other live identity is
  banned; the ban list itself never exceeds its bound.
\<close>

theorem cluster_cap_is_exact:
  assumes "planClusterIPLimits snapshots limits now c = Inr (bans, c')" and "gmap_ok limits" and "\<forall>(u, l) \<in> set limits. 0 < l"
    and "(u, limit) \<in> set limits" and "active_of snapshots limits = Inr active" and "gmap_ok (cl_bans c)"
  shows "gget0 0 (cl_counts c') u = min limit (int (length (identities active u)))
    \<and> length (cl_bans c') \<le> ipBanMaxSize
    \<and> (length (cl_bans c) + length active \<le> ipBanMaxSize \<longrightarrow>
         int (unbanned_ids (cl_bans c') (identities active u)) = min limit (int (length (identities active u))))"
  using plan_cluster [OF assms] by simp

theorem cluster_cap_is_exact_witness:
  "gget0 0 (cl_counts (snd (projr (planClusterIPLimits cx_snap cx_limits 5 cx_ips)))) ''alice'' = 1"
proof -
  let ?r = "planClusterIPLimits cx_snap cx_limits 5 cx_ips"
  obtain active where a: "active_of cx_snap cx_limits = Inr active" and two: "length (identities active ''alice'') = 2"
  proof -
    have "\<not> isl (active_of cx_snap cx_limits)" "length (identities (projr (active_of cx_snap cx_limits)) ''alice'') = 2" by code_simp+
    then show thesis using that by (metis sum.collapse(2))
  qed
  then have "?r = Inr (fst (projr ?r), snd (projr ?r))" by (simp add: planClusterIPLimits_def Let_def)
  from cluster_cap_is_exact [OF this _ _ _ a, of "''alice''" 1] two show ?thesis
    by (simp add: cx_limits_def cx_ips_def)
qed

text \<open>
  Leased bans take effect at once and for the whole lease: after they are applied, every pair of the
  request is refused at the gate until the lease ends, and no connection of such a pair is left open.
\<close>

lemma leased_bans_take_effect:
  assumes "ApplyClusterBans ok nowUnix d raw st = Inr st'" and "(u, ips) \<in> set raw" and "ip \<in> set ips"
    and "normalizeClusterIP ip = Inr a" and "0 \<le> nowUnix" and "nowUnix \<le> t" and "t < nowUnix + clusterBanLease"
  shows "\<not> allow (is_limiter st') t u a
    \<and> (case is_tracker st' of None \<Rightarrow> is_tracker st = None | Some tr \<Rightarrow> list_all (\<lambda>i. \<not> (ci_user i = u \<and> ci_source i = a)) (infos tr))"
proof
  obtain managed bans where b: "cluster_ban_table (nowUnix + clusterBanLease) raw = Inr bans"
    and lim: "is_limiter st' = lease_bans bans managed (nowUnix + clusterBanLease) (is_limiter st)"
    and trk: "is_tracker st' = (case is_tracker st of Some tr \<Rightarrow> Some (if drops_of bans \<noteq> [] then snd (CloseConnByUserIPs (drops_of bans) tr) else tr) | None \<Rightarrow> None)"
    using assms(1) by (auto simp: ApplyClusterBans_def rbind_def Let_def split: sum.splits prod.splits)
  have g: "gget bans (u, a) = Some (nowUnix + clusterBanLease)" by (rule cluster_ban_table_get [OF b assms(2-4)])
  then show "\<not> allow (is_limiter st') t u a"
    using assms(5-7) by (simp add: lim allow_def lease_bans_def gget0_def clusterBanLease_def Let_def)
  obtain ips' where drp: "gget (drops_of bans) u = Some ips'" "a \<in> set ips'" using drops_of_mem [OF g] by blast
  show "case is_tracker st' of None \<Rightarrow> is_tracker st = None | Some tr \<Rightarrow> list_all (\<lambda>i. \<not> (ci_user i = u \<and> ci_source i = a)) (infos tr)"
  proof (cases "is_tracker st")
    case (Some tr)
    obtain n tr1 where c: "CloseConnByUserIPs (drops_of bans) tr = (n, tr1)" by force
    have "drops_of bans \<noteq> []" using drp(1) by auto
    then show ?thesis
      using close_where_infos(1) [OF c [unfolded CloseConnByUserIPs_def]] drp c Some by (auto simp: trk list_all_iff)
  qed (simp add: trk)
qed

end
