(* ===== verification/StatsTracker.thy ===== *)
theory StatsTracker
  imports NetAddr
begin

text \<open>
  The traffic counters of the running core (\<^verbatim>\<open>core/tracker_stats.go\<close>). A connection keeps pointers to the
  counters it adds to, and a counter may leave its map while a connection still holds it; so every counter
  carries the number it was created under, and a connection's reference only reaches the entry that has
  that number. Byte counts are unbounded integers here, times of samples are nanoseconds, dates of rows
  unix seconds.
\<close>

section \<open>Counters\<close>

record counter =
  ct_id :: nat
  ct_read :: int
  ct_write :: int

record target_counter = counter +
  ct_active :: int

record user_bytes =
  ub_up :: int
  ub_down :: int

definition zero_bytes :: user_bytes where
  "zero_bytes = \<lparr>ub_up = 0, ub_down = 0\<rparr>"

record stats_tracker =
  sk_inbounds :: "(string, counter) gomap"
  sk_outbounds :: "(string, counter) gomap"
  sk_users :: "(string, counter) gomap"
  sk_targets :: "(string, target_counter) gomap"
  sk_target_idle :: "(string, int) gomap"
  sk_traffic :: bool
  sk_sampled :: "(string, user_bytes) gomap"
  sk_drained :: "(string, user_bytes) gomap"
  sk_sampled_at :: int
  sk_next :: nat

definition NewStatsTracker :: "int \<Rightarrow> nat \<Rightarrow> stats_tracker" where
  "NewStatsTracker now fresh =
     \<lparr>sk_inbounds = [], sk_outbounds = [], sk_users = [], sk_targets = [], sk_target_idle = [], sk_traffic = True,
      sk_sampled = [], sk_drained = [], sk_sampled_at = now, sk_next = fresh\<rparr>"

definition stats_Reset :: "int \<Rightarrow> stats_tracker \<Rightarrow> stats_tracker" where
  "stats_Reset now s =
     s\<lparr>sk_inbounds := [], sk_outbounds := [], sk_users := [], sk_targets := [], sk_target_idle := [],
       sk_sampled := [], sk_drained := [], sk_sampled_at := now\<rparr>"

definition SetTrafficEnabled :: "bool \<Rightarrow> stats_tracker \<Rightarrow> stats_tracker" where
  "SetTrafficEnabled b s = s\<lparr>sk_traffic := b\<rparr>"

section \<open>Targets\<close>


text \<open>A destination; \<open>sa_valid\<close> is what \<^verbatim>\<open>Socksaddr.IsValid\<close> says of it.\<close>

record socksaddr =
  sa_addr :: addr
  sa_fqdn :: string
  sa_valid :: bool

definition addr_target :: "addr \<Rightarrow> string" where
  "addr_target a =
     (case a of
        NoAddr \<Rightarrow> []
      | V4 w \<Rightarrow> show4 (w AND NOT (mask 8)) @ ''/24''
      | V6 w z \<Rightarrow> show6 (w AND mask6 48) @ ''/48'')"

definition ExtractTarget :: "(string \<Rightarrow> string) \<Rightarrow> string \<Rightarrow> socksaddr \<Rightarrow> string" where
  "ExtractTarget lower domain dest =
     (let t1 = TrimSpace domain;
          t2 = (if t1 = [] then TrimSpace (sa_fqdn dest) else t1);
          t3 = (if t2 = [] \<and> sa_valid dest \<and> addr_valid (sa_addr dest) then addr_target (sa_addr dest) else t2)
      in if t3 = [] then []
         else ToLower lower (TrimSpace (case SplitHost t3 of Some host \<Rightarrow> host | None \<Rightarrow> t3)))"

text \<open>The key of a target: user, a zero byte, target.\<close>

definition target_key :: "string \<Rightarrow> string \<Rightarrow> string" where
  "target_key user target = user @ [CHR 0x00] @ target"

definition split_key :: "string \<Rightarrow> string \<times> string" where
  "split_key key =
     (case index_byte CHR 0x00 key of Some i \<Rightarrow> (take i key, drop (i + 1) key) | None \<Rightarrow> ([], key))"

section \<open>Connections\<close>

datatype counter_ref = RInbound string nat | ROutbound string nat | RUser string nat | RTarget string nat

definition loadOrCreateCounter :: "string \<Rightarrow> nat \<Rightarrow> (string, counter) gomap \<Rightarrow> nat \<times> (string, counter) gomap \<times> nat" where
  "loadOrCreateCounter name fresh m =
     (case gget m name of
        Some c \<Rightarrow> (ct_id c, m, fresh)
      | None \<Rightarrow> (fresh, gput name \<lparr>ct_id = fresh, ct_read = 0, ct_write = 0\<rparr> m, Suc fresh))"

definition loadOrCreateTargetCounter :: "string \<Rightarrow> stats_tracker \<Rightarrow> target_counter \<times> stats_tracker" where
  "loadOrCreateTargetCounter name s =
     (case gget (sk_targets s) name of
        Some c \<Rightarrow> (c, s)
      | None \<Rightarrow>
          let c = \<lparr>ct_id = sk_next s, ct_read = 0, ct_write = 0, ct_active = 0\<rparr>
          in (c, s\<lparr>sk_targets := gput name c (sk_targets s), sk_next := Suc (sk_next s)\<rparr>))"

text \<open>
  The counters of a new connection, in the order in which they are looked up; a reference to a target is
  what closing the connection releases.
\<close>

definition attach_inbound :: "string \<Rightarrow> counter_ref list \<times> stats_tracker \<Rightarrow> counter_ref list \<times> stats_tracker" where
  "attach_inbound k rs =
     (if k = [] then rs
      else let (refs, s) = rs; (i, m, f) = loadOrCreateCounter k (sk_next s) (sk_inbounds s)
           in (refs @ [RInbound k i], s\<lparr>sk_inbounds := m, sk_next := f\<rparr>))"

definition attach_outbound :: "string \<Rightarrow> counter_ref list \<times> stats_tracker \<Rightarrow> counter_ref list \<times> stats_tracker" where
  "attach_outbound k rs =
     (if k = [] then rs
      else let (refs, s) = rs; (i, m, f) = loadOrCreateCounter k (sk_next s) (sk_outbounds s)
           in (refs @ [ROutbound k i], s\<lparr>sk_outbounds := m, sk_next := f\<rparr>))"

definition attach_user :: "string \<Rightarrow> counter_ref list \<times> stats_tracker \<Rightarrow> counter_ref list \<times> stats_tracker" where
  "attach_user k rs =
     (if k = [] then rs
      else let (refs, s) = rs; (i, m, f) = loadOrCreateCounter k (sk_next s) (sk_users s)
           in (refs @ [RUser k i], s\<lparr>sk_users := m, sk_next := f\<rparr>))"

definition attach_target :: "string \<Rightarrow> string \<Rightarrow> counter_ref list \<times> stats_tracker \<Rightarrow> counter_ref list \<times> stats_tracker" where
  "attach_target user target rs =
     (let (refs, s) = rs
      in if \<not> (sk_traffic s \<and> target \<noteq> []) then rs
         else
           let key = target_key user target; (c, s1) = loadOrCreateTargetCounter key s
           in (refs @ [RTarget key (ct_id c)],
               s1\<lparr>sk_targets := gput key (c\<lparr>ct_active := ct_active c + 1\<rparr>) (sk_targets s1)\<rparr>))"

definition getReadCounters :: "string \<Rightarrow> string \<Rightarrow> string \<Rightarrow> string \<Rightarrow> stats_tracker \<Rightarrow> counter_ref list \<times> stats_tracker" where
  "getReadCounters inb out user target s =
     attach_target user target (attach_user user (attach_outbound out (attach_inbound inb ([], s))))"

text \<open>\<^verbatim>\<open>RoutedConnection\<close> and \<^verbatim>\<open>RoutedPacketConnection\<close>: the references the counting wrapper is given.\<close>

definition stats_routed ::
  "(string \<Rightarrow> string) \<Rightarrow> string \<Rightarrow> string \<Rightarrow> string \<Rightarrow> string \<Rightarrow> socksaddr \<Rightarrow> stats_tracker \<Rightarrow> counter_ref list \<times> stats_tracker" where
  "stats_routed lower inb out user domain dest s =
     getReadCounters inb out user (if sk_traffic s then ExtractTarget lower domain dest else []) s"

definition bump_counter :: "nat \<Rightarrow> int \<Rightarrow> int \<Rightarrow> (string, 'a counter_scheme) gomap \<Rightarrow> string \<Rightarrow> (string, 'a counter_scheme) gomap" where
  "bump_counter i rd wr m k =
     (case gget m k of
        Some c \<Rightarrow> if ct_id c = i then gput k (c\<lparr>ct_read := ct_read c + rd, ct_write := ct_write c + wr\<rparr>) m else m
      | None \<Rightarrow> m)"

text \<open>Bytes on a connection: \<open>rd\<close> read from the client and \<open>wr\<close> written to it.\<close>

fun count_ref :: "int \<Rightarrow> int \<Rightarrow> counter_ref \<Rightarrow> stats_tracker \<Rightarrow> stats_tracker" where
  "count_ref rd wr (RInbound k i) s = s\<lparr>sk_inbounds := bump_counter i rd wr (sk_inbounds s) k\<rparr>"
| "count_ref rd wr (ROutbound k i) s = s\<lparr>sk_outbounds := bump_counter i rd wr (sk_outbounds s) k\<rparr>"
| "count_ref rd wr (RUser k i) s = s\<lparr>sk_users := bump_counter i rd wr (sk_users s) k\<rparr>"
| "count_ref rd wr (RTarget k i) s = s\<lparr>sk_targets := bump_counter i rd wr (sk_targets s) k\<rparr>"

definition count_bytes :: "int \<Rightarrow> int \<Rightarrow> counter_ref list \<Rightarrow> stats_tracker \<Rightarrow> stats_tracker" where
  "count_bytes rd wr refs s = fold (count_ref rd wr) refs s"

fun release_ref :: "counter_ref \<Rightarrow> stats_tracker \<Rightarrow> stats_tracker" where
  "release_ref (RTarget k i) s =
     (case gget (sk_targets s) k of
        Some c \<Rightarrow> if ct_id c = i then s\<lparr>sk_targets := gput k (c\<lparr>ct_active := ct_active c - 1\<rparr>) (sk_targets s)\<rparr> else s
      | None \<Rightarrow> s)"
| "release_ref _ s = s"

text \<open>Closing runs the release once; \<open>closed\<close> is the wrapper's flag.\<close>

definition trackerConn_Close :: "bool \<Rightarrow> counter_ref list \<Rightarrow> stats_tracker \<Rightarrow> bool \<times> stats_tracker" where
  "trackerConn_Close closed refs s = (if closed then (True, s) else (True, fold release_ref refs s))"

section \<open>Draining\<close>

record stat_row =
  st_id :: nat
  st_date_time :: int
  st_resource :: string
  st_tag :: string
  st_direction :: bool
  st_traffic :: int

record target_row =
  tg_id :: nat
  tg_date_time :: int
  tg_user :: string
  tg_target :: string
  tg_up :: int
  tg_down :: int

definition appendStat :: "int \<Rightarrow> string \<Rightarrow> string \<Rightarrow> int \<Rightarrow> int \<Rightarrow> stat_row list" where
  "appendStat dt resource tag down up =
     (if down > 0 then [\<lparr>st_id = 0, st_date_time = dt, st_resource = resource, st_tag = tag, st_direction = False, st_traffic = down\<rparr>] else []) @
     (if up > 0 then [\<lparr>st_id = 0, st_date_time = dt, st_resource = resource, st_tag = tag, st_direction = True, st_traffic = up\<rparr>] else [])"

definition rows_of :: "int \<Rightarrow> string \<Rightarrow> (string, counter) gomap \<Rightarrow> stat_row list" where
  "rows_of dt resource m = concat (map (\<lambda>(tag, c). appendStat dt resource tag (ct_write c) (ct_read c)) m)"

definition zeroed :: "(string, counter) gomap \<Rightarrow> (string, counter) gomap" where
  "zeroed m = map (\<lambda>(k, c). (k, c\<lparr>ct_read := 0, ct_write := 0\<rparr>)) m"

definition add_bytes :: "int \<Rightarrow> int \<Rightarrow> user_bytes \<Rightarrow> user_bytes" where
  "add_bytes up down d = \<lparr>ub_up = ub_up d + up, ub_down = ub_down d + down\<rparr>"

definition book_drained :: "(string, counter) gomap \<Rightarrow> (string, user_bytes) gomap \<Rightarrow> (string, user_bytes) gomap" where
  "book_drained =
     fold (\<lambda>(u, c) d. if ct_write c \<noteq> 0 \<or> ct_read c \<noteq> 0 then gput u (add_bytes (ct_read c) (ct_write c) (gget0 zero_bytes d u)) d else d)"

definition tracker_GetStats :: "int \<Rightarrow> stats_tracker \<Rightarrow> stat_row list \<times> stats_tracker" where
  "tracker_GetStats dt s =
     (rows_of dt ''inbound'' (sk_inbounds s) @ rows_of dt ''outbound'' (sk_outbounds s) @ rows_of dt ''user'' (sk_users s),
      s\<lparr>sk_inbounds := zeroed (sk_inbounds s), sk_outbounds := zeroed (sk_outbounds s), sk_users := zeroed (sk_users s),
        sk_drained := book_drained (sk_users s) (sk_drained s)\<rparr>)"

definition target_tick :: "int \<Rightarrow> string \<times> target_counter \<Rightarrow> target_row list \<times> stats_tracker \<Rightarrow> target_row list \<times> stats_tracker" where
  "target_tick dt kc rs =
     (let (k, c) = kc; (rows, s) = rs;
          s1 = s\<lparr>sk_targets := gput k (c\<lparr>ct_read := 0, ct_write := 0\<rparr>) (sk_targets s)\<rparr>
      in if ct_write c > 0 \<or> ct_read c > 0 then
           (rows @ [\<lparr>tg_id = 0, tg_date_time = dt, tg_user = fst (split_key k), tg_target = snd (split_key k), tg_up = ct_read c, tg_down = ct_write c\<rparr>],
            s1\<lparr>sk_target_idle := gput k 0 (sk_target_idle s1)\<rparr>)
         else if ct_active c \<le> 0 then
           (let idle = gget0 0 (sk_target_idle s1) k + 1
            in if idle \<ge> 6 then (rows, s1\<lparr>sk_targets := gdel k (sk_targets s1), sk_target_idle := gdel k (sk_target_idle s1)\<rparr>)
               else (rows, s1\<lparr>sk_target_idle := gput k idle (sk_target_idle s1)\<rparr>))
         else (rows, s1\<lparr>sk_target_idle := gput k 0 (sk_target_idle s1)\<rparr>))"

definition tracker_GetTargetStats :: "int \<Rightarrow> stats_tracker \<Rightarrow> target_row list \<times> stats_tracker" where
  "tracker_GetTargetStats dt s =
     (if \<not> sk_traffic s then ([], if sk_targets s \<noteq> [] then s\<lparr>sk_targets := [], sk_target_idle := []\<rparr> else s)
      else fold (target_tick dt) (sk_targets s) ([], s))"

section \<open>Rate samples\<close>

definition user_delta :: "stats_tracker \<Rightarrow> string \<Rightarrow> counter \<Rightarrow> user_bytes" where
  "user_delta s u c =
     (let prev = gget0 zero_bytes (sk_sampled s) u; drained = gget0 zero_bytes (sk_drained s) u
      in \<lparr>ub_up = ct_read c + ub_up drained - ub_up prev, ub_down = ct_write c + ub_down drained - ub_down prev\<rparr>)"

definition SampleUsers :: "int \<Rightarrow> int \<Rightarrow> stats_tracker \<Rightarrow> ((string, user_bytes) gomap \<times> int \<times> bool) \<times> stats_tracker" where
  "SampleUsers now minWindow s =
     (let window = now - sk_sampled_at s
      in if window < minWindow then (([], window, False), s)
         else
           let moved = filter (\<lambda>(u, d). ub_up d \<noteq> 0 \<or> ub_down d \<noteq> 0) (map (\<lambda>(u, c). (u, user_delta s u c)) (sk_users s));
               sampled = fold (\<lambda>(u, c). gput u \<lparr>ub_up = ct_read c, ub_down = ct_write c\<rparr>) (sk_users s) (sk_sampled s)
           in ((moved, window, True), s\<lparr>sk_sampled := sampled, sk_drained := [], sk_sampled_at := now\<rparr>))"

end
