(* ===== verification/StatsService.thy ===== *)
theory StatsService
  imports StatsTracker ClientModel
begin

text \<open>
  Traffic accounting (\<^verbatim>\<open>service/stats.go\<close>): the flush that moves what the core has counted into the
  database, the rows it still owes after a failure, the totals and lists it publishes, the queries behind
  the charts and reports, and the deletion of old rows.
\<close>

section \<open>State\<close>

record onlines =
  on_inbound :: "string list"
  on_user :: "string list"
  on_outbound :: "string list"

definition no_onlines :: onlines where
  "no_onlines = \<lparr>on_inbound = [], on_user = [], on_outbound = []\<rparr>"

text \<open>The tables, with the ids they assign next.\<close>

record stats_db =
  sd_clients :: "client list"
  sd_stats :: "stat_row list"
  sd_targets :: "target_row list"
  sd_next_stat :: nat
  sd_next_target :: nat

text \<open>The process: the tracker of the core's instance, if there is one, whether the core runs, and the package's variables.\<close>

record stats_state =
  ss_core :: "stats_tracker option"
  ss_running :: bool
  ss_pending :: "stat_row list"
  ss_pending_targets :: "target_row list"
  ss_onlines :: onlines
  ss_inbound :: "(string, int) gomap"
  ss_seeded :: bool
  ss_db :: stats_db

text \<open>The statements of a flush; a run is given the ones that fail.\<close>

datatype stats_stmt = TSeed | TUpdate string | TInsertStats | TInsertTargets | TCommit

section \<open>Totals per inbound\<close>

definition tag_totals :: "(stat_row \<Rightarrow> bool) \<Rightarrow> stat_row list \<Rightarrow> (string \<times> int) list" where
  "tag_totals P rows =
     map (\<lambda>tag. (tag, sum_list (map st_traffic (filter (\<lambda>r. P r \<and> st_tag r = tag) rows))))
       (remdups (map st_tag (filter P rows)))"

definition seedInboundTrafficLocked :: "(stats_stmt \<Rightarrow> bool) \<Rightarrow> stats_state \<Rightarrow> bool \<times> stats_state" where
  "seedInboundTrafficLocked fails s =
     (if ss_seeded s then (True, s)
      else if fails TSeed then (False, s)
      else (True, s\<lparr>ss_inbound := fold (\<lambda>(tag, t). gput tag t) (tag_totals (\<lambda>r. st_resource r = ''inbound'') (sd_stats (ss_db s))) (ss_inbound s),
                    ss_seeded := True\<rparr>))"

definition addInboundTraffic :: "(stats_stmt \<Rightarrow> bool) \<Rightarrow> (string, int) gomap \<Rightarrow> stats_state \<Rightarrow> stats_state" where
  "addInboundTraffic fails delta s =
     (case seedInboundTrafficLocked fails s of
        (False, s1) \<Rightarrow> s1
      | (True, s1) \<Rightarrow> s1\<lparr>ss_inbound := fold (\<lambda>(tag, t) m. gput tag (gget0 0 m tag + t) m) delta (ss_inbound s1)\<rparr>)"

definition InvalidateInboundTraffic :: "stats_state \<Rightarrow> stats_state" where
  "InvalidateInboundTraffic s = s\<lparr>ss_inbound := [], ss_seeded := False\<rparr>"

definition GetInboundTraffic :: "(stats_stmt \<Rightarrow> bool) \<Rightarrow> stats_state \<Rightarrow> (string, int) gomap \<times> stats_state" where
  "GetInboundTraffic fails s = (let (_, s1) = seedInboundTrafficLocked fails s in (ss_inbound s1, s1))"

section \<open>Rows owed to the database\<close>

definition maxPendingStats :: nat where
  "maxPendingStats = 50000"

definition keepPendingLocked :: "'a list \<Rightarrow> 'a list" where
  "keepPendingLocked batch =
     (if length batch > maxPendingStats then drop (length batch - maxPendingStats) batch else batch)"

definition takePending :: "stats_state \<Rightarrow> stat_row list \<times> stats_state" where
  "takePending s = (ss_pending s, s\<lparr>ss_pending := []\<rparr>)"

definition takePendingTargets :: "stats_state \<Rightarrow> target_row list \<times> stats_state" where
  "takePendingTargets s = (ss_pending_targets s, s\<lparr>ss_pending_targets := []\<rparr>)"

definition holdPending :: "stat_row list \<Rightarrow> stats_state \<Rightarrow> stats_state" where
  "holdPending batch s = s\<lparr>ss_pending := keepPendingLocked (batch @ ss_pending s)\<rparr>"

definition holdPendingTargets :: "target_row list \<Rightarrow> stats_state \<Rightarrow> stats_state" where
  "holdPendingTargets batch s = s\<lparr>ss_pending_targets := keepPendingLocked (batch @ ss_pending_targets s)\<rparr>"

definition carryPending :: "stat_row list \<Rightarrow> stats_state \<Rightarrow> stats_state" where
  "carryPending rows s = s\<lparr>ss_pending := keepPendingLocked (ss_pending s @ rows)\<rparr>"

definition carryPendingTargets :: "target_row list \<Rightarrow> stats_state \<Rightarrow> stats_state" where
  "carryPendingTargets rows s = s\<lparr>ss_pending_targets := keepPendingLocked (ss_pending_targets s @ rows)\<rparr>"

text \<open>
  Folding rows with equal keys into one, in order of first appearance; \<open>index\<close> has the position of a key's
  row. \<open>clear\<close> is what the first row of a key is stripped of.
\<close>

definition merge_step :: "('r \<Rightarrow> 'k) \<Rightarrow> ('r \<Rightarrow> 'r \<Rightarrow> 'r) \<Rightarrow> ('r \<Rightarrow> 'r) \<Rightarrow> 'r \<Rightarrow> ('k, nat) gomap \<times> 'r list \<Rightarrow> ('k, nat) gomap \<times> 'r list" where
  "merge_step key add clear row im =
     (case im of (index, merged) \<Rightarrow>
        (case gget index (key row) of
           Some i \<Rightarrow> (index, merged[i := add (merged ! i) row])
         | None \<Rightarrow> (gput (key row) (length merged) index, merged @ [clear row])))"

definition merge_rows :: "('r \<Rightarrow> 'k) \<Rightarrow> ('r \<Rightarrow> 'r \<Rightarrow> 'r) \<Rightarrow> ('r \<Rightarrow> 'r) \<Rightarrow> 'r list \<Rightarrow> 'r list" where
  "merge_rows key add clear rows = snd (fold (merge_step key add clear) rows ([], []))"

definition stat_key :: "stat_row \<Rightarrow> string \<times> string \<times> bool" where
  "stat_key r = (st_resource r, st_tag r, st_direction r)"

definition mergeStats :: "stat_row list \<Rightarrow> stat_row list" where
  "mergeStats = merge_rows stat_key (\<lambda>m r. m\<lparr>st_traffic := st_traffic m + st_traffic r\<rparr>) (\<lambda>r. r\<lparr>st_id := 0\<rparr>)"

definition tgt_key :: "target_row \<Rightarrow> string \<times> string" where
  "tgt_key r = (tg_user r, tg_target r)"

definition mergeTargetStats :: "target_row list \<Rightarrow> target_row list" where
  "mergeTargetStats = merge_rows tgt_key (\<lambda>m r. m\<lparr>tg_up := tg_up m + tg_up r, tg_down := tg_down m + tg_down r\<rparr>) (\<lambda>r. r\<lparr>tg_id := 0\<rparr>)"

section \<open>The flush\<close>

text \<open>What a flush gathers: the online lists, the traffic per user and the deltas per inbound.\<close>

record gathered =
  ga_onlines :: onlines
  ga_users :: "(string, user_bytes) gomap"
  ga_delta :: "(string, int) gomap"

definition add_new :: "string \<Rightarrow> string list \<Rightarrow> string list" where
  "add_new x xs = (if x \<in> set xs then xs else xs @ [x])"

definition note_drained :: "stat_row \<Rightarrow> gathered \<Rightarrow> gathered" where
  "note_drained r g =
     (if st_resource r = ''inbound'' then
        g\<lparr>ga_onlines := (ga_onlines g)\<lparr>on_inbound := add_new (st_tag r) (on_inbound (ga_onlines g))\<rparr>,
          ga_delta := gput (st_tag r) (gget0 0 (ga_delta g) (st_tag r) + st_traffic r) (ga_delta g)\<rparr>
      else if st_resource r = ''outbound'' then
        g\<lparr>ga_onlines := (ga_onlines g)\<lparr>on_outbound := add_new (st_tag r) (on_outbound (ga_onlines g))\<rparr>\<rparr>
      else if st_resource r = ''user'' \<and> gget (ga_users g) (st_tag r) = None then
        g\<lparr>ga_users := gput (st_tag r) zero_bytes (ga_users g),
          ga_onlines := (ga_onlines g)\<lparr>on_user := on_user (ga_onlines g) @ [st_tag r]\<rparr>\<rparr>
      else g)"

definition charge :: "stat_row \<Rightarrow> (string, user_bytes) gomap \<Rightarrow> (string, user_bytes) gomap" where
  "charge r m =
     (if st_resource r \<noteq> ''user'' then m
      else let t = gget0 zero_bytes m (st_tag r)
           in gput (st_tag r) (if st_direction r then t\<lparr>ub_up := ub_up t + st_traffic r\<rparr> else t\<lparr>ub_down := ub_down t + st_traffic r\<rparr>) m)"

definition gather :: "stat_row list \<Rightarrow> stat_row list \<Rightarrow> gathered" where
  "gather drained batch =
     (let g = fold note_drained drained \<lparr>ga_onlines = no_onlines, ga_users = [], ga_delta = []\<rparr>
      in g\<lparr>ga_users := fold charge batch (ga_users g)\<rparr>)"

definition update_traffic :: "int \<Rightarrow> string \<times> user_bytes \<Rightarrow> client list \<Rightarrow> client list" where
  "update_traffic now nt cs =
     (case nt of (name, t) \<Rightarrow>
        map (\<lambda>c. if c_name c = name then
                   c\<lparr>c_online_at := now, c_up := (if ub_up t > 0 then c_up c + ub_up t else c_up c),
                     c_down := (if ub_down t > 0 then c_down c + ub_down t else c_down c)\<rparr>
                 else c) cs)"

definition update_clients :: "(stats_stmt \<Rightarrow> bool) \<Rightarrow> int \<Rightarrow> (string, user_bytes) gomap \<Rightarrow> client list \<Rightarrow> client list res" where
  "update_clients fails now users cs =
     fold_res (\<lambda>nt cs. if fails (TUpdate (fst nt)) then Inl EDb else Inr (update_traffic now nt cs)) users cs"

text \<open>
  The upserts: a row whose key is in the table adds to it, any other is inserted, under its own id or the
  next one. The rows come back with the ids they have in the table.
\<close>

definition same_bucket :: "stat_row \<Rightarrow> stat_row \<Rightarrow> bool" where
  "same_bucket a b \<longleftrightarrow> stat_key a = stat_key b \<and> st_date_time a = st_date_time b"

definition upsert_stat :: "stat_row \<Rightarrow> stat_row list \<times> stats_db \<Rightarrow> stat_row list \<times> stats_db" where
  "upsert_stat r bd =
     (case bd of (done, d) \<Rightarrow>
        (case find (same_bucket r) (sd_stats d) of
           Some old \<Rightarrow> (done @ [r\<lparr>st_id := st_id old\<rparr>],
             d\<lparr>sd_stats := map (\<lambda>x. if same_bucket r x then x\<lparr>st_traffic := st_traffic x + st_traffic r\<rparr> else x) (sd_stats d)\<rparr>)
         | None \<Rightarrow>
             let r' = (if st_id r = 0 then r\<lparr>st_id := sd_next_stat d\<rparr> else r)
             in (done @ [r'], d\<lparr>sd_stats := sd_stats d @ [r'], sd_next_stat := max (sd_next_stat d) (Suc (st_id r'))\<rparr>)))"

definition same_tbucket :: "target_row \<Rightarrow> target_row \<Rightarrow> bool" where
  "same_tbucket a b \<longleftrightarrow> tgt_key a = tgt_key b \<and> tg_date_time a = tg_date_time b"

definition upsert_target :: "target_row \<Rightarrow> target_row list \<times> stats_db \<Rightarrow> target_row list \<times> stats_db" where
  "upsert_target r bd =
     (case bd of (done, d) \<Rightarrow>
        (case find (same_tbucket r) (sd_targets d) of
           Some old \<Rightarrow> (done @ [r\<lparr>tg_id := tg_id old\<rparr>],
             d\<lparr>sd_targets := map (\<lambda>x. if same_tbucket r x then x\<lparr>tg_up := tg_up x + tg_up r, tg_down := tg_down x + tg_down r\<rparr> else x) (sd_targets d)\<rparr>)
         | None \<Rightarrow>
             let r' = (if tg_id r = 0 then r\<lparr>tg_id := sd_next_target d\<rparr> else r)
             in (done @ [r'], d\<lparr>sd_targets := sd_targets d @ [r'], sd_next_target := max (sd_next_target d) (Suc (tg_id r'))\<rparr>)))"

text \<open>The remainder of Go's division.\<close>

definition go_rem :: "int \<Rightarrow> int \<Rightarrow> int" where
  "go_rem a b = a - go_div a b * b"

definition stats_bucket :: "int \<Rightarrow> int \<Rightarrow> int" where
  "stats_bucket bucketSeconds now = now - go_rem now (if bucketSeconds < 1 then 1 else bucketSeconds)"

text \<open>
  The transaction's work after the updates: \<open>Inl\<close> is a failed statement. Either way the batches come
  back as the statements left them, since they are what is held back for a retry.
\<close>

definition insert_history ::
  "(stats_stmt \<Rightarrow> bool) \<Rightarrow> int \<Rightarrow> int \<Rightarrow> stat_row list \<Rightarrow> target_row list \<Rightarrow> stats_db \<Rightarrow> (stat_row list \<times> target_row list) \<times> stats_db res" where
  "insert_history fails bucketSeconds now batch targets d =
     (let batch1 = map (\<lambda>r. r\<lparr>st_date_time := stats_bucket bucketSeconds now\<rparr>) batch;
          targets1 = map (\<lambda>r. r\<lparr>tg_date_time := now - go_rem now 3600\<rparr>) targets
      in if batch \<noteq> [] \<and> fails TInsertStats then ((batch1, targets), Inl EDb)
         else
           let (batch2, d1) = fold upsert_stat batch1 ([], d)
           in if targets \<noteq> [] \<and> fails TInsertTargets then ((batch2, targets1), Inl EDb)
              else let (targets2, d2) = fold upsert_target targets1 ([], d1) in ((batch2, targets2), Inr d2))"

definition drain_core :: "bool \<Rightarrow> int \<Rightarrow> int \<Rightarrow> stats_state \<Rightarrow> (stat_row list \<times> target_row list) \<times> stats_state" where
  "drain_core enableTraffic dt dt' s =
     (case (if ss_running s then ss_core s else None) of
        None \<Rightarrow> (([], []), s)
      | Some st \<Rightarrow>
          let st0 = SetTrafficEnabled enableTraffic st; (rows, st1) = tracker_GetStats dt st0; (targets, st2) = tracker_GetTargetStats dt' st1
          in ((rows, targets), s\<lparr>ss_core := Some st2\<rparr>))"

definition take_batch :: "stat_row list \<Rightarrow> target_row list \<Rightarrow> stats_state \<Rightarrow> (stat_row list \<times> target_row list) \<times> stats_state" where
  "take_batch drained drainedTargets s =
     (let (pending, s1) = takePending s; (pendingTargets, s2) = takePendingTargets s1
      in ((if pending = [] then drained else mergeStats (pending @ drained),
           if pendingTargets = [] then drainedTargets else mergeTargetStats (pendingTargets @ drainedTargets)), s2))"

text \<open>
  The deferred end of the transaction. The error of a failed commit is assigned to a local variable after
  the return value has been fixed, so the caller does not see it.
\<close>

definition end_flush :: "(stats_stmt \<Rightarrow> bool) \<Rightarrow> (stat_row list \<times> target_row list) \<times> stats_db res \<Rightarrow> stats_state \<Rightarrow> err option \<times> stats_state" where
  "end_flush fails out s =
     (let ((batch, targets), r) = out;
          held = holdPending batch s;
          hold = (if targets \<noteq> [] then holdPendingTargets targets held else held)
      in case r of
           Inl e \<Rightarrow> (Some e, hold)
         | Inr d \<Rightarrow> if fails TCommit then (None, hold) else (None, s\<lparr>ss_db := d\<rparr>))"

definition SaveStats :: "(stats_stmt \<Rightarrow> bool) \<Rightarrow> bool \<Rightarrow> int \<Rightarrow> int \<Rightarrow> int \<Rightarrow> int \<Rightarrow> stats_state \<Rightarrow> err option \<times> stats_state" where
  "SaveStats fails enableTraffic bucketSeconds dt dt' now s =
     (let ((drained, drainedTargets), s1) = drain_core enableTraffic dt dt' s;
          ((batch, targets), s2) = take_batch drained drainedTargets s1
      in if batch = [] \<and> targets = [] then (None, s2\<lparr>ss_onlines := no_onlines\<rparr>)
         else
           let g = gather drained batch;
               s3 = addInboundTraffic fails (ga_delta g) (s2\<lparr>ss_onlines := ga_onlines g\<rparr>)
           in end_flush fails
                (case update_clients fails now (ga_users g) (sd_clients (ss_db s3)) of
                   Inl e \<Rightarrow> ((batch, targets), Inl e)
                 | Inr cs \<Rightarrow>
                     let d = (ss_db s3)\<lparr>sd_clients := cs\<rparr>
                     in if \<not> enableTraffic then ((batch, targets), Inr d)
                        else insert_history fails bucketSeconds now batch targets d) s3)"

definition SaveStatsForCurrentSettings :: "int res \<Rightarrow> (stats_stmt \<Rightarrow> bool) \<Rightarrow> int \<Rightarrow> int \<Rightarrow> int \<Rightarrow> int \<Rightarrow> stats_state \<Rightarrow> err option \<times> stats_state" where
  "SaveStatsForCurrentSettings trafficAge fails bucketSeconds dt dt' now s =
     (case trafficAge of Inl e \<Rightarrow> (Some e, s) | Inr age \<Rightarrow> SaveStats fails (age > 0) bucketSeconds dt dt' now s)"

text \<open>Before the core is stopped its counters are carried over to the next flush.\<close>

definition inbound_delta :: "stat_row list \<Rightarrow> (string, int) gomap" where
  "inbound_delta rows =
     fold (\<lambda>r m. if st_resource r = ''inbound'' then gput (st_tag r) (gget0 0 m (st_tag r) + st_traffic r) m else m) rows []"

definition carryOverStats :: "(stats_stmt \<Rightarrow> bool) \<Rightarrow> int \<Rightarrow> int \<Rightarrow> stats_state \<Rightarrow> stats_state" where
  "carryOverStats fails dt dt' s =
     (case ss_core s of
        None \<Rightarrow> s
      | Some st \<Rightarrow>
          let (drained, st1) = tracker_GetStats dt st;
              s1 = s\<lparr>ss_core := Some st1\<rparr>;
              s2 = (if drained \<noteq> [] then carryPending drained (addInboundTraffic fails (inbound_delta drained) s1) else s1);
              (targets, st2) = tracker_GetTargetStats dt' st1;
              s3 = s2\<lparr>ss_core := Some st2\<rparr>
          in if targets \<noteq> [] then carryPendingTargets targets s3 else s3)"

section \<open>Queries\<close>

definition periodDuration :: "string \<Rightarrow> string \<Rightarrow> int" where
  "periodDuration period defaultPeriod =
     (let p = (if period = [] then defaultPeriod else period)
      in if p = ''hour'' then 3600 else if p = ''day'' then 86400 else if p = ''month'' then 86400 * 30
         else if p = ''60day'' then 86400 * 60 else if p = ''90day'' then 86400 * 90
         else if defaultPeriod = ''hour'' then 3600 else 86400)"

definition periodStart :: "int \<Rightarrow> string \<Rightarrow> string \<Rightarrow> int \<Rightarrow> int" where
  "periodStart now period defaultPeriod alignBucket =
     (let startTime = now - periodDuration period defaultPeriod
      in if alignBucket > 1 then startTime - go_rem startTime alignBucket else startTime)"

definition read_bucket :: "int res \<Rightarrow> string \<Rightarrow> int" where
  "read_bucket storedBucket period =
     (let b = (if period = ''day'' then 3600 else if period \<in> {''month'', ''60day'', ''90day''} then 86400 else 60)
      in case storedBucket of Inr sb \<Rightarrow> if sb > b then sb else b | Inl _ \<Rightarrow> b)"

text \<open>The query: traffic summed per bucket and direction over the rows in the window.\<close>

definition in_window :: "string \<Rightarrow> string \<Rightarrow> int \<Rightarrow> int \<Rightarrow> stat_row \<Rightarrow> bool" where
  "in_window resource tag startTime now r \<longleftrightarrow>
     st_resource r \<in> set (if resource = ''endpoint'' then [''inbound'', ''outbound''] else [resource]) \<and>
     st_tag r = tag \<and> st_date_time r > startTime \<and> st_date_time r \<le> now"

definition bucket_rows :: "int \<Rightarrow> stat_row list \<Rightarrow> ((int \<times> bool) \<times> int) list" where
  "bucket_rows bucketSec rows =
     (let key = (\<lambda>r. (go_div (st_date_time r) bucketSec * bucketSec, st_direction r))
      in map (\<lambda>k. (k, sum_list (map st_traffic (filter (\<lambda>r. key r = k) rows)))) (remdups (map key rows)))"

text \<open>The loop over the buckets; the step is at least 60.\<close>

function bucket_starts :: "int \<Rightarrow> int \<Rightarrow> int \<Rightarrow> int list" where
  "bucket_starts b step now = (if step \<le> 0 \<or> now < b then [] else b # bucket_starts (b + step) step now)"
  by pat_completeness auto
termination
  by (relation "measure (\<lambda>(b, step, now). nat (now - b + 1))") auto

declare bucket_starts.simps [simp del]

definition GetStats :: "int res \<Rightarrow> bool \<Rightarrow> int \<Rightarrow> int \<Rightarrow> string \<Rightarrow> string \<Rightarrow> string \<Rightarrow> stats_db \<Rightarrow> stat_row list res" where
  "GetStats storedBucket fail now now' resource tag period d =
     (let bucketSec = read_bucket storedBucket period;
          startTime = periodStart now' period ''hour'' bucketSec;
          rows = bucket_rows bucketSec (filter (in_window resource tag startTime now) (sd_stats d));
          firstBucket = go_div startTime bucketSec * bucketSec
      in if fail then Inl EDb
         else Inr (concat (map (\<lambda>b. map (\<lambda>dir.
           \<lparr>st_id = 0, st_date_time = b, st_resource = resource, st_tag = tag, st_direction = dir, st_traffic = gget0 0 rows (b, dir)\<rparr>)
             [False, True]) (bucket_starts firstBucket bucketSec now))))"

text \<open>Ordering by traffic leaves ties open; they keep the order of the groups here. A negative limit is none.\<close>

definition sql_limit :: "int \<Rightarrow> 'a list \<Rightarrow> 'a list" where
  "sql_limit n xs = (if n < 0 then xs else take (nat n) xs)"

definition TopTags :: "bool \<Rightarrow> string \<Rightarrow> int \<Rightarrow> int \<Rightarrow> stats_db \<Rightarrow> (string \<times> int) list res" where
  "TopTags fail resource since limit d =
     (if fail then Inl EDb
      else Inr (sql_limit limit (sort_by (\<lambda>a b. snd a > snd b)
        (filter (\<lambda>(_, t). t > 0) (tag_totals (\<lambda>r. st_resource r = resource \<and> st_date_time r > since) (sd_stats d))))))"

text \<open>
  \<^verbatim>\<open>LIKE\<close>: a percent sign stands for any text, an underscore for one character (of UTF-8), and ASCII letters
  match in both cases.
\<close>

definition utf8_tail :: "char \<Rightarrow> bool" where
  "utf8_tail c \<longleftrightarrow> (of_char c :: nat) div 64 = 2"

function sql_like :: "string \<Rightarrow> string \<Rightarrow> bool" where
  "sql_like [] s = (s = [])"
| "sql_like (p # ps) s =
     (if p = CHR ''%'' then sql_like ps s \<or> (case s of [] \<Rightarrow> False | _ # s' \<Rightarrow> sql_like (p # ps) s')
      else case s of
        [] \<Rightarrow> False
      | c # s' \<Rightarrow>
          if p = CHR ''_'' then sql_like ps (dropWhile utf8_tail s')
          else ascii_lower p = ascii_lower c \<and> sql_like ps s')"
  by pat_completeness auto
termination
  by (relation "measure (\<lambda>(p, s). length p + length s)") (auto intro: le_less_trans [OF length_dropWhile_le])

record target_query =
  tq_user :: string
  tq_period :: string
  tq_search :: string
  tq_sort :: string
  tq_order :: string
  tq_page :: int
  tq_limit :: int

record target_item =
  ti_target :: string
  ti_up :: int
  ti_down :: int
  ti_total :: int

record target_report =
  tp_items :: "target_item list"
  tp_total_up :: int
  tp_total_down :: int
  tp_summary_total :: int
  tp_total_sites :: int
  tp_total :: int
  tp_page :: int
  tp_limit :: int

definition query_filter :: "(string \<Rightarrow> string) \<Rightarrow> int \<Rightarrow> target_query \<Rightarrow> target_row \<Rightarrow> bool" where
  "query_filter lower startTime q r \<longleftrightarrow>
     tg_date_time r \<ge> startTime \<and> (tq_user q \<noteq> [] \<longrightarrow> tg_user r = tq_user q) \<and>
     (tq_search q \<noteq> [] \<longrightarrow> sql_like (''%'' @ ToLower lower (TrimSpace (tq_search q)) @ ''%'') (tg_target r))"

definition target_items :: "target_row list \<Rightarrow> target_item list" where
  "target_items rows =
     map (\<lambda>t. let rs = filter (\<lambda>r. tg_target r = t) rows; up = sum_list (map tg_up rs); dn = sum_list (map tg_down rs)
               in \<lparr>ti_target = t, ti_up = up, ti_down = dn, ti_total = up + dn\<rparr>) (remdups (map tg_target rows))"

definition item_less :: "string \<Rightarrow> bool \<Rightarrow> target_item \<Rightarrow> target_item \<Rightarrow> bool" where
  "item_less field asc a b =
     (let col = (if field = ''up'' then ti_up else if field = ''down'' then ti_down else ti_total)
      in if asc then col a < col b else col b < col a)"

definition page_limit :: "int \<Rightarrow> int" where
  "page_limit l = (if l < 1 then 20 else if l > 200 then 200 else l)"

definition GetTargetStats :: "(string \<Rightarrow> string) \<Rightarrow> (string \<Rightarrow> string) \<Rightarrow> bool \<Rightarrow> int \<Rightarrow> target_query \<Rightarrow> stats_db \<Rightarrow> target_report res" where
  "GetTargetStats lower upper fail now q d =
     (let startTime = periodStart now (tq_period q) ''day'' 3600;
          rows = filter (query_filter lower startTime q) (sd_targets d);
          up = sum_list (map tg_up rows); dn = sum_list (map tg_down rows); sites = int (length (remdups (map tg_target rows)));
          page = (if tq_page q < 1 then 1 else tq_page q);
          limit = page_limit (tq_limit q);
          items = sort_by (item_less (tq_sort q) (ToUpper upper (tq_order q) = ''ASC'')) (target_items rows)
      in if fail then Inl EDb
         else Inr \<lparr>tp_items = take (nat limit) (drop (nat ((page - 1) * limit)) items),
                   tp_total_up = up, tp_total_down = dn, tp_summary_total = up + dn, tp_total_sites = sites,
                   tp_total = sites, tp_page = page, tp_limit = limit\<rparr>)"

section \<open>Who is online, and how fast\<close>

definition nodeOnlineTTL :: int where
  "nodeOnlineTTL = 20"

record node_status =
  ns_state :: string
  ns_online_users :: "string list"
  ns_online_checked_at :: int

definition node_users :: "int \<Rightarrow> node_status list \<Rightarrow> string list" where
  "node_users now statuses =
     concat (map ns_online_users (filter (\<lambda>st. ns_state st = ''online'' \<and> ns_online_checked_at st > 0 \<and>
       now - ns_online_checked_at st \<le> nodeOnlineTTL) statuses))"

definition GetClusterOnlines :: "bool \<Rightarrow> int \<Rightarrow> node_status list \<Rightarrow> stats_state \<Rightarrow> onlines res" where
  "GetClusterOnlines fail now statuses s =
     (let result = ss_onlines s; nodeUsers = sort (node_users now statuses)
      in if nodeUsers = [] then Inr result
         else if fail then Inl EDb
         else
           let known = filter (\<lambda>n. n \<in> set nodeUsers) (map c_name (sd_clients (ss_db s)))
           in Inr (result\<lparr>on_user := fold (\<lambda>name us. if name \<in> set known \<and> name \<notin> set us then us @ [name] else us) nodeUsers (on_user result)\<rparr>))"

text \<open>
  Rates: \<open>quot bytes window\<close> is the whole part of the bytes per second, which the code computes in floating
  point. Times are nanoseconds.
\<close>

definition minRateWindow :: int where "minRateWindow = 1000000000"
definition maxRateWindow :: int where "maxRateWindow = 5000000000"

record rates_state =
  rt_rates :: "(string, user_bytes) gomap"
  rt_live :: bool

definition ratesOf :: "(int \<Rightarrow> int \<Rightarrow> int) \<Rightarrow> (string, user_bytes) gomap \<Rightarrow> int \<Rightarrow> (string, user_bytes) gomap" where
  "ratesOf quot moved window =
     (if window \<le> 0 \<or> window > maxRateWindow then []
      else map (\<lambda>(name, b). (name, \<lparr>ub_up = quot (ub_up b) window, ub_down = quot (ub_down b) window\<rparr>)) moved)"

definition sampleClientRates :: "(int \<Rightarrow> int \<Rightarrow> int) \<Rightarrow> int \<Rightarrow> stats_state \<times> rates_state \<Rightarrow> stats_state \<times> rates_state" where
  "sampleClientRates quot now sr =
     (case sr of (s, r) \<Rightarrow>
        (case (if ss_running s then ss_core s else None) of
           None \<Rightarrow> (s, r\<lparr>rt_rates := []\<rparr>)
         | Some st \<Rightarrow>
             let ((moved, window, ok), st1) = SampleUsers now minRateWindow st; s1 = s\<lparr>ss_core := Some st1\<rparr>
             in if \<not> ok then (s1, r) else (s1, r\<lparr>rt_rates := ratesOf quot moved window\<rparr>)))"

definition pauseClientRates :: "rates_state \<Rightarrow> bool \<times> rates_state" where
  "pauseClientRates r = (if rt_live r then (True, r\<lparr>rt_live := False, rt_rates := []\<rparr>) else (False, r))"

definition resumeClientRates :: "(int \<Rightarrow> int \<Rightarrow> int) \<Rightarrow> int \<Rightarrow> stats_state \<times> rates_state \<Rightarrow> stats_state \<times> rates_state" where
  "resumeClientRates quot now sr =
     (if rt_live (snd sr) then sr else sampleClientRates quot now (fst sr, (snd sr)\<lparr>rt_live := True\<rparr>))"

text \<open>
  The job (\<^verbatim>\<open>TickClientRates\<close> in \<^verbatim>\<open>service/hub.go\<close>): \<open>subs\<close> says whether someone is watching, \<open>subs'\<close> whether someone
  is when the pause looks again.
\<close>

definition TickClientRates :: "(int \<Rightarrow> int \<Rightarrow> int) \<Rightarrow> bool \<Rightarrow> bool \<Rightarrow> int \<Rightarrow> stats_state \<times> rates_state \<Rightarrow> stats_state \<times> rates_state" where
  "TickClientRates quot subs subs' now sr =
     (case sr of (s, r) \<Rightarrow>
        if \<not> subs then
          (let (paused, r1) = pauseClientRates r in if paused \<and> subs' then resumeClientRates quot now (s, r1) else (s, r1))
        else sampleClientRates quot now (s, r\<lparr>rt_live := True\<rparr>))"

section \<open>Old rows\<close>

definition delOldStatsChunk :: nat where
  "delOldStatsChunk = 5000"

definition purgeStatsHistory :: "bool \<Rightarrow> bool \<Rightarrow> stats_db \<Rightarrow> err option \<times> stats_db" where
  "purgeStatsHistory fail1 fail2 d =
     (if fail1 then (Some EDb, d)
      else
        let d1 = d\<lparr>sd_stats := filter (\<lambda>r. \<not> st_id r > 0) (sd_stats d)\<rparr>
        in if fail2 then (Some EDb, d1)
           else (None, d1\<lparr>sd_targets := filter (\<lambda>r. \<not> tg_id r > 0) (sd_targets d1)\<rparr>))"

definition PurgeTrafficHistoryIfDisabled :: "int res \<Rightarrow> bool \<Rightarrow> bool \<Rightarrow> stats_state \<Rightarrow> err option \<times> stats_state" where
  "PurgeTrafficHistoryIfDisabled trafficAge fail1 fail2 s =
     (case trafficAge of
        Inl e \<Rightarrow> (Some e, s)
      | Inr age \<Rightarrow>
          if age > 0 then (None, s)
          else case purgeStatsHistory fail1 fail2 (ss_db s) of
            (Some e, d) \<Rightarrow> (Some e, s\<lparr>ss_db := d\<rparr>)
          | (None, d) \<Rightarrow> (None, InvalidateInboundTraffic (s\<lparr>ss_db := d\<rparr>)))"

text \<open>
  Deletion in chunks: each statement deletes the rows with the ids of the first \<open>delOldStatsChunk\<close> old rows, and the
  loop ends when it removed fewer. \<open>fails n\<close> says that the \<open>n\<close>-th statement fails.
\<close>

function del_chunks :: "(nat \<Rightarrow> bool) \<Rightarrow> ('r \<Rightarrow> nat) \<Rightarrow> ('r \<Rightarrow> bool) \<Rightarrow> nat \<Rightarrow> 'r list \<Rightarrow> err option \<times> nat \<times> 'r list" where
  "del_chunks fails rid old n rows =
     (let ids = map rid (take delOldStatsChunk (filter old rows));
          rest = filter (\<lambda>r. rid r \<notin> set ids) rows
      in if fails n then (Some EDb, n, rows)
         else if length rows - length rest < delOldStatsChunk then (None, Suc n, rest)
         else del_chunks fails rid old (Suc n) rest)"
  by pat_completeness auto
termination
  by (relation "measure (\<lambda>(fails, rid, old, n, rows). length rows)") (auto simp: delOldStatsChunk_def)

declare del_chunks.simps [simp del]

text \<open>\<^verbatim>\<open>t.AddDate(0, 0, n)\<close>: the same wall clock reading \<open>n\<close> days on, resolved as \<^verbatim>\<open>time.Date\<close> does.\<close>

definition from_wall :: "location \<Rightarrow> int \<Rightarrow> int" where
  "from_wall loc unix =
     (case zone_lookup loc unix of (off, start, end') \<Rightarrow>
        if off = 0 then unix
        else let u = unix - off in if u < start \<or> end' \<le> u then unix - zone_offset loc u else u)"

definition add_days :: "location \<Rightarrow> int \<Rightarrow> int \<Rightarrow> int" where
  "add_days loc sec n = from_wall loc (sec + zone_offset loc sec + n * 86400)"

definition DelOldStats :: "(nat \<Rightarrow> bool) \<Rightarrow> location \<Rightarrow> int \<Rightarrow> int \<Rightarrow> stats_db \<Rightarrow> err option \<times> stats_db" where
  "DelOldStats fails loc now days d =
     (let oldTime = add_days loc now (- days);
          (e1, n, stats) = del_chunks fails st_id (\<lambda>r. st_date_time r < oldTime) 0 (sd_stats d);
          d1 = d\<lparr>sd_stats := stats\<rparr>
      in case e1 of
           Some e \<Rightarrow> (Some e, d1)
         | None \<Rightarrow>
             let (e2, _, targets) = del_chunks fails tg_id (\<lambda>r. tg_date_time r < oldTime) n (sd_targets d1)
             in (e2, d1\<lparr>sd_targets := targets\<rparr>))"

text \<open>The daily job.\<close>

definition DelStatsJob_Run :: "int res \<Rightarrow> (nat \<Rightarrow> bool) \<Rightarrow> location \<Rightarrow> int \<Rightarrow> stats_db \<Rightarrow> stats_db" where
  "DelStatsJob_Run trafficAge fails loc now d =
     (case trafficAge of
        Inl _ \<Rightarrow> d
      | Inr age \<Rightarrow> if age \<le> 0 then d else snd (DelOldStats fails loc now age d))"

end
