(* ===== verification/StatsTrackerInv.thy ===== *)
theory StatsTrackerInv
  imports StatsTracker
begin

text \<open>
  What the counters promise: both readers of a user's counter, the flush that empties it and the rate
  samples that look at it in place, account for every byte; and a target's counter lives as long as a
  connection holds it.
\<close>

section \<open>Runs of the tracker\<close>

text \<open>
  A tracker with the connections routed through it, everything its readers have been given, and a log of
  the bytes each user's connections carried.
\<close>

record meter =
  mt_tracker :: stats_tracker
  mt_conns :: "(string \<times> counter_ref list \<times> bool) list"
  mt_rows :: "stat_row list"
  mt_moved :: "(string, user_bytes) gomap list"
  mt_log :: "(string \<times> nat \<times> nat) list"

datatype meter_op =
  MRoute string string string string
| MCount nat nat nat
| MClose nat
| MFlush int
| MTargets int
| MSample int int
| MTraffic bool

definition new_meter :: "int \<Rightarrow> meter" where
  "new_meter now = \<lparr>mt_tracker = NewStatsTracker now 0, mt_conns = [], mt_rows = [], mt_moved = [], mt_log = []\<rparr>"

fun meter_step :: "meter_op \<Rightarrow> meter \<Rightarrow> meter" where
  "meter_step (MRoute inb out user target) m =
     (let (refs, s) = getReadCounters inb out user target (mt_tracker m)
      in m\<lparr>mt_tracker := s, mt_conns := mt_conns m @ [(user, refs, False)]\<rparr>)"
| "meter_step (MCount i rd wr) m =
     (if i < length (mt_conns m) then
        let (user, refs, closed) = mt_conns m ! i
        in m\<lparr>mt_tracker := count_bytes (int rd) (int wr) refs (mt_tracker m), mt_log := mt_log m @ [(user, rd, wr)]\<rparr>
      else m)"
| "meter_step (MClose i) m =
     (if i < length (mt_conns m) then
        let (user, refs, closed) = mt_conns m ! i; (closed', s) = trackerConn_Close closed refs (mt_tracker m)
        in m\<lparr>mt_tracker := s, mt_conns := (mt_conns m)[i := (user, refs, closed')]\<rparr>
      else m)"
| "meter_step (MFlush dt) m =
     (let (rows, s) = tracker_GetStats dt (mt_tracker m) in m\<lparr>mt_tracker := s, mt_rows := mt_rows m @ rows\<rparr>)"
| "meter_step (MTargets dt) m = m\<lparr>mt_tracker := snd (tracker_GetTargetStats dt (mt_tracker m))\<rparr>"
| "meter_step (MSample now w) m =
     (let ((moved, _, _), s) = SampleUsers now w (mt_tracker m) in m\<lparr>mt_tracker := s, mt_moved := mt_moved m @ [moved]\<rparr>)"
| "meter_step (MTraffic b) m = m\<lparr>mt_tracker := SetTrafficEnabled b (mt_tracker m)\<rparr>"

definition meter_run :: "int \<Rightarrow> meter_op list \<Rightarrow> meter" where
  "meter_run now ops = fold meter_step ops (new_meter now)"

section \<open>Sums\<close>

definition amount :: "bool \<Rightarrow> user_bytes \<Rightarrow> int" where
  "amount up b = (if up then ub_up b else ub_down b)"

definition held :: "stats_tracker \<Rightarrow> string \<Rightarrow> bool \<Rightarrow> int" where
  "held s u up = (case gget (sk_users s) u of None \<Rightarrow> 0 | Some c \<Rightarrow> if up then ct_read c else ct_write c)"

definition row_sum :: "string \<Rightarrow> string \<Rightarrow> bool \<Rightarrow> stat_row list \<Rightarrow> int" where
  "row_sum res tag up rows =
     sum_list (map st_traffic (filter (\<lambda>r. st_resource r = res \<and> st_tag r = tag \<and> st_direction r = up) rows))"

definition moved_sum :: "string \<Rightarrow> bool \<Rightarrow> (string, user_bytes) gomap list \<Rightarrow> int" where
  "moved_sum u up ms = sum_list (map (\<lambda>m. amount up (gget0 zero_bytes m u)) ms)"

definition log_sum :: "string \<Rightarrow> bool \<Rightarrow> (string \<times> nat \<times> nat) list \<Rightarrow> int" where
  "log_sum u up l = sum_list (map (\<lambda>(v, rd, wr). if v = u then int (if up then rd else wr) else 0) l)"

lemma sums_append [simp]:
  "row_sum res tag up (xs @ ys) = row_sum res tag up xs + row_sum res tag up ys"
  "moved_sum u up (ms @ ns) = moved_sum u up ms + moved_sum u up ns"
  "log_sum u up (l @ k) = log_sum u up l + log_sum u up k"
  by (simp_all add: row_sum_def moved_sum_def log_sum_def)

lemma sums_one [simp]:
  "row_sum res tag up [] = 0" "moved_sum u up [] = 0" "log_sum u up [] = 0"
  "moved_sum u up [m] = amount up (gget0 zero_bytes m u)"
  "log_sum u up [(v, rd, wr)] = (if v = u then int (if up then rd else wr) else 0)"
  by (simp_all add: row_sum_def moved_sum_def log_sum_def)

lemma amount_zero [simp]: "amount up zero_bytes = 0"
  by (simp add: amount_def zero_bytes_def)

section \<open>Draining\<close>

lemma row_sum_appendStat:
  "0 \<le> dn \<Longrightarrow> 0 \<le> up' \<Longrightarrow> row_sum res tag up (appendStat dt res' tag' dn up') =
     (if res = res' \<and> tag = tag' then if up then up' else dn else 0)"
  by (auto simp: row_sum_def appendStat_def)

definition counters_pos :: "(string, counter) gomap \<Rightarrow> bool" where
  "counters_pos m \<longleftrightarrow> (\<forall>(k, c) \<in> set m. 0 \<le> ct_read c \<and> 0 \<le> ct_write c)"

lemma row_sum_rows_of:
  assumes "gmap_ok m" and "counters_pos m"
  shows "row_sum res tag up (rows_of dt res' m) =
     (if res = res' then case gget m tag of None \<Rightarrow> 0 | Some c \<Rightarrow> if up then ct_read c else ct_write c else 0)"
  using assms
proof (induction m)
  case (Cons kc m)
  obtain k c where kc: "kc = (k, c)" by force
  have "gget m tag = None" if "tag = k" using Cons.prems(1) that by (simp add: kc map_of_eq_None_iff)
  moreover have "0 \<le> ct_read c" "0 \<le> ct_write c" "counters_pos m" "gmap_ok m" using Cons.prems by (auto simp: counters_pos_def kc)
  moreover have "rows_of dt res' (kc # m) = appendStat dt res' k (ct_write c) (ct_read c) @ rows_of dt res' m"
    by (simp add: rows_of_def kc)
  ultimately show ?case using Cons.IH by (auto simp: row_sum_appendStat kc)
qed (simp add: rows_of_def)

lemma row_sum_GetStats:
  assumes "gmap_ok (sk_users s)" and "counters_pos (sk_users s)" and "tracker_GetStats dt s = (rows, s')"
  shows "row_sum ''user'' u up rows = held s u up"
proof -
  have "row_sum ''user'' u up (rows_of dt res m) = 0" if "res \<noteq> ''user''" for res m
  proof -
    have "filter (\<lambda>r. st_resource r = ''user'' \<and> st_tag r = u \<and> st_direction r = up) (rows_of dt res m) = []"
      using that by (auto simp: filter_empty_conv rows_of_def appendStat_def split: if_splits)
    then show ?thesis by (simp add: row_sum_def)
  qed
  with assms show ?thesis by (auto simp: tracker_GetStats_def row_sum_rows_of held_def)
qed

lemma gget_zeroed [simp]: "gget (zeroed m) k = map_option (\<lambda>c. c\<lparr>ct_read := 0, ct_write := 0\<rparr>) (gget m k)"
  by (induction m) (auto simp: zeroed_def)

lemma gkeys_zeroed [simp]: "map fst (zeroed m) = map fst m"
  by (simp add: zeroed_def case_prod_unfold)

lemma counters_pos_zeroed [simp]: "counters_pos (zeroed m)"
  by (auto simp: counters_pos_def zeroed_def)

lemma book_drained_amount:
  assumes "gmap_ok m"
  shows "amount up (gget0 zero_bytes (book_drained m d) u) = amount up (gget0 zero_bytes d u) +
     (case gget m u of None \<Rightarrow> 0 | Some c \<Rightarrow> if up then ct_read c else ct_write c)"
    and "fst ` set (book_drained m d) \<subseteq> fst ` set d \<union> fst ` set m"
proof -
  show "amount up (gget0 zero_bytes (book_drained m d) u) = amount up (gget0 zero_bytes d u) +
     (case gget m u of None \<Rightarrow> 0 | Some c \<Rightarrow> if up then ct_read c else ct_write c)"
    using assms
  proof (induction m arbitrary: d)
    case (Cons kc m)
    obtain k c where kc: "kc = (k, c)" by force
    have "gget m u = None" if "u = k" using Cons.prems that by (simp add: kc map_of_eq_None_iff)
    moreover have "gmap_ok m" using Cons.prems by simp
    ultimately show ?case using Cons.IH
      by (auto simp: book_drained_def kc gget0_def add_bytes_def amount_def)
  qed (simp add: book_drained_def)
  show "fst ` set (book_drained m d) \<subseteq> fst ` set d \<union> fst ` set m"
  proof (induction m arbitrary: d)
    case (Cons kc m)
    obtain k c where kc: "kc = (k, c)" by force
    define d' where "d' = (if ct_write c \<noteq> 0 \<or> ct_read c \<noteq> 0
      then gput k (add_bytes (ct_read c) (ct_write c) (gget0 zero_bytes d k)) d else d)"
    have "fst ` set d' \<subseteq> insert k (fst ` set d)" by (simp add: d'_def subset_insertI)
    from subset_trans [OF Cons.IH [of d'] Un_mono [OF this order_refl]]
    have "fst ` set (book_drained m d') \<subseteq> insert k (fst ` set d) \<union> fst ` set m" .
    moreover have "book_drained (kc # m) d = book_drained m d'" by (simp add: book_drained_def kc d'_def)
    ultimately show ?case by (simp add: kc)
  qed (simp add: book_drained_def)
qed

section \<open>Sampling\<close>

lemma sampled_get:
  assumes "gmap_ok m"
  shows "gget (fold (\<lambda>(u, c). gput u (f c)) m d) u = (case gget m u of Some c \<Rightarrow> Some (f c) | None \<Rightarrow> gget d u)"
  using assms
proof (induction m arbitrary: d)
  case (Cons kc m)
  obtain k c where kc: "kc = (k, c)" by force
  have "gget m u = None" if "u = k" using Cons.prems that by (simp add: kc map_of_eq_None_iff)
  with Cons show ?case by (auto simp: kc split: option.splits)
qed simp

lemma gget_moved:
  "gmap_ok m \<Longrightarrow> gget (filter P (map (\<lambda>(u, c). (u, f u c)) m)) u =
     (case gget m u of None \<Rightarrow> None | Some c \<Rightarrow> if P (u, f u c) then Some (f u c) else None)"
proof (induction m)
  case (Cons kc m)
  obtain k c where kc: "kc = (k, c)" by force
  have "gget m u = None" if "u = k" using Cons.prems that by (simp add: kc map_of_eq_None_iff)
  with Cons show ?case by (auto simp: kc split: option.splits)
qed simp

section \<open>Connections\<close>

definition user_refs :: "counter_ref list \<Rightarrow> (string \<times> nat) list" where
  "user_refs refs = concat (map (\<lambda>r. case r of RUser k i \<Rightarrow> [(k, i)] | _ \<Rightarrow> []) refs)"

lemma user_refs_simps [simp]:
  "user_refs [] = []" "user_refs (r # refs) = (case r of RUser k i \<Rightarrow> [(k, i)] | _ \<Rightarrow> []) @ user_refs refs"
  "user_refs (xs @ ys) = user_refs xs @ user_refs ys"
  by (simp_all add: user_refs_def)

lemma count_bytes_fields [simp]:
  "sk_sampled (count_bytes rd wr refs s) = sk_sampled s" "sk_drained (count_bytes rd wr refs s) = sk_drained s"
  "sk_next (count_bytes rd wr refs s) = sk_next s"
proof -
  have "sk_sampled (count_ref rd wr r s) = sk_sampled s" "sk_drained (count_ref rd wr r s) = sk_drained s"
    "sk_next (count_ref rd wr r s) = sk_next s" for r s by (cases r; simp)+
  then show "sk_sampled (count_bytes rd wr refs s) = sk_sampled s" "sk_drained (count_bytes rd wr refs s) = sk_drained s"
    "sk_next (count_bytes rd wr refs s) = sk_next s"
    unfolding count_bytes_def by (induction refs arbitrary: s) auto
qed

lemma count_bytes_users:
  "sk_users (count_bytes rd wr refs s) = fold (\<lambda>(k, i) m. bump_counter i rd wr m k) (user_refs refs) (sk_users s)"
proof -
  have "sk_users (count_ref rd wr r s) = fold (\<lambda>(k, i) m. bump_counter i rd wr m k) (user_refs [r]) (sk_users s)" for r s
    by (cases r) auto
  then show ?thesis
    unfolding count_bytes_def by (induction refs arbitrary: s) (auto split: counter_ref.splits)
qed

lemma release_fields [simp]:
  "sk_users (fold release_ref refs s) = sk_users s" "sk_sampled (fold release_ref refs s) = sk_sampled s"
  "sk_drained (fold release_ref refs s) = sk_drained s" "sk_next (fold release_ref refs s) = sk_next s"
proof -
  have "sk_users (release_ref r s) = sk_users s" "sk_sampled (release_ref r s) = sk_sampled s"
    "sk_drained (release_ref r s) = sk_drained s" "sk_next (release_ref r s) = sk_next s" for r s
    by (cases r; simp split: option.splits)+
  then show "sk_users (fold release_ref refs s) = sk_users s" "sk_sampled (fold release_ref refs s) = sk_sampled s"
    "sk_drained (fold release_ref refs s) = sk_drained s" "sk_next (fold release_ref refs s) = sk_next s"
    by (induction refs arbitrary: s) auto
qed

lemma target_tick_fields:
  "sk_users (snd (target_tick dt kc rs)) = sk_users (snd rs)" "sk_sampled (snd (target_tick dt kc rs)) = sk_sampled (snd rs)"
  "sk_drained (snd (target_tick dt kc rs)) = sk_drained (snd rs)" "sk_next (snd (target_tick dt kc rs)) = sk_next (snd rs)"
  by (cases kc; cases rs; simp add: target_tick_def Let_def)+

lemma GetTargetStats_fields [simp]:
  "sk_users (snd (tracker_GetTargetStats dt s)) = sk_users s" "sk_sampled (snd (tracker_GetTargetStats dt s)) = sk_sampled s"
  "sk_drained (snd (tracker_GetTargetStats dt s)) = sk_drained s" "sk_next (snd (tracker_GetTargetStats dt s)) = sk_next s"
proof -
  have "sk_users (snd (fold (target_tick dt) m rs)) = sk_users (snd rs) \<and> sk_sampled (snd (fold (target_tick dt) m rs)) = sk_sampled (snd rs) \<and>
    sk_drained (snd (fold (target_tick dt) m rs)) = sk_drained (snd rs) \<and> sk_next (snd (fold (target_tick dt) m rs)) = sk_next (snd rs)" for m rs
    by (induction m arbitrary: rs) (simp_all add: target_tick_fields)
  then show "sk_users (snd (tracker_GetTargetStats dt s)) = sk_users s" "sk_sampled (snd (tracker_GetTargetStats dt s)) = sk_sampled s"
    "sk_drained (snd (tracker_GetTargetStats dt s)) = sk_drained s" "sk_next (snd (tracker_GetTargetStats dt s)) = sk_next s"
    by (simp_all add: tracker_GetTargetStats_def)
qed

text \<open>A new connection's only reference to a user counter is to the user's entry, made if it was missing.\<close>

lemma getReadCounters_users:
  assumes "getReadCounters inb out u target s = (refs, s')"
  obtains i where "u = [] \<Longrightarrow> user_refs refs = [] \<and> sk_users s' = sk_users s"
    and "u \<noteq> [] \<Longrightarrow> user_refs refs = [(u, i)] \<and> gget (sk_users s') u = Some (case gget (sk_users s) u of Some c \<Rightarrow> c | None \<Rightarrow> \<lparr>ct_id = i, ct_read = 0, ct_write = 0\<rparr>)
      \<and> ct_id (case gget (sk_users s) u of Some c \<Rightarrow> c | None \<Rightarrow> \<lparr>ct_id = i, ct_read = 0, ct_write = 0\<rparr>) = i
      \<and> (sk_users s' = sk_users s \<or> gget (sk_users s) u = None \<and> sk_users s' = gput u \<lparr>ct_id = i, ct_read = 0, ct_write = 0\<rparr> (sk_users s))"
    and "sk_sampled s' = sk_sampled s" and "sk_drained s' = sk_drained s"
proof -
  obtain r2 s2 where two: "attach_outbound out (attach_inbound inb ([], s)) = (r2, s2)" by force
  have f2: "user_refs r2 = []" "sk_users s2 = sk_users s" "sk_sampled s2 = sk_sampled s" "sk_drained s2 = sk_drained s"
    using two by (auto simp: attach_outbound_def attach_inbound_def Let_def split: if_splits prod.splits)
  obtain r3 s3 where three: "attach_user u (r2, s2) = (r3, s3)" by force
  have four: "attach_target u target (r3, s3) = (refs, s')" using assms two three by (simp add: getReadCounters_def)
  have f4: "user_refs refs = user_refs r3" "sk_users s' = sk_users s3" "sk_sampled s' = sk_sampled s3" "sk_drained s' = sk_drained s3"
    using four by (auto simp: attach_target_def loadOrCreateTargetCounter_def Let_def split: if_splits prod.splits option.splits)
  define i where "i = (case gget (sk_users s) u of Some c \<Rightarrow> ct_id c | None \<Rightarrow> sk_next s2)"
  show thesis
  proof (rule that [of i])
    show "u = [] \<Longrightarrow> user_refs refs = [] \<and> sk_users s' = sk_users s"
      using three f2 f4 by (simp add: attach_user_def)
    show "u \<noteq> [] \<Longrightarrow> user_refs refs = [(u, i)] \<and> gget (sk_users s') u = Some (case gget (sk_users s) u of Some c \<Rightarrow> c | None \<Rightarrow> \<lparr>ct_id = i, ct_read = 0, ct_write = 0\<rparr>)
      \<and> ct_id (case gget (sk_users s) u of Some c \<Rightarrow> c | None \<Rightarrow> \<lparr>ct_id = i, ct_read = 0, ct_write = 0\<rparr>) = i
      \<and> (sk_users s' = sk_users s \<or> gget (sk_users s) u = None \<and> sk_users s' = gput u \<lparr>ct_id = i, ct_read = 0, ct_write = 0\<rparr> (sk_users s))"
      using three f2 f4 by (auto simp: attach_user_def loadOrCreateCounter_def i_def Let_def split: option.splits)
    show "sk_sampled s' = sk_sampled s" "sk_drained s' = sk_drained s"
      using three f2 f4 by (auto simp: attach_user_def Let_def split: if_splits prod.splits)
  qed
qed

section \<open>Every byte is accounted for\<close>

definition owed :: "stats_tracker \<Rightarrow> string \<Rightarrow> bool \<Rightarrow> int" where
  "owed s u up = held s u up + amount up (gget0 zero_bytes (sk_drained s) u) - amount up (gget0 zero_bytes (sk_sampled s) u)"

definition seen_only :: "stats_tracker \<Rightarrow> bool" where
  "seen_only s \<longleftrightarrow> fst ` set (sk_drained s) \<union> fst ` set (sk_sampled s) \<subseteq> fst ` set (sk_users s)"

definition conn_ok :: "stats_tracker \<Rightarrow> string \<times> counter_ref list \<times> bool \<Rightarrow> bool" where
  "conn_ok s cn \<longleftrightarrow> (case cn of (u, refs, _) \<Rightarrow>
     if u = [] then user_refs refs = []
     else \<exists>c. gget (sk_users s) u = Some c \<and> user_refs refs = [(u, ct_id c)])"

definition meter_ok :: "meter \<Rightarrow> bool" where
  "meter_ok m \<longleftrightarrow> (let s = mt_tracker m in
     gmap_ok (sk_users s) \<and> counters_pos (sk_users s) \<and> seen_only s \<and> (\<forall>cn \<in> set (mt_conns m). conn_ok s cn) \<and>
     (\<forall>u up. u \<noteq> [] \<longrightarrow> log_sum u up (mt_log m) = row_sum ''user'' u up (mt_rows m) + held s u up \<and>
       log_sum u up (mt_log m) = moved_sum u up (mt_moved m) + owed s u up))"

lemma meter_okD:
  assumes "meter_ok m"
  shows "gmap_ok (sk_users (mt_tracker m))" and "counters_pos (sk_users (mt_tracker m))" and "seen_only (mt_tracker m)"
    and "cn \<in> set (mt_conns m) \<Longrightarrow> conn_ok (mt_tracker m) cn"
    and "u \<noteq> [] \<Longrightarrow> log_sum u up (mt_log m) = row_sum ''user'' u up (mt_rows m) + held (mt_tracker m) u up"
    and "u \<noteq> [] \<Longrightarrow> log_sum u up (mt_log m) = moved_sum u up (mt_moved m) + owed (mt_tracker m) u up"
  using assms unfolding meter_ok_def Let_def by blast+

lemma meter_okI:
  assumes "gmap_ok (sk_users (mt_tracker m))" and "counters_pos (sk_users (mt_tracker m))" and "seen_only (mt_tracker m)"
    and "\<And>cn. cn \<in> set (mt_conns m) \<Longrightarrow> conn_ok (mt_tracker m) cn"
    and "\<And>u up. u \<noteq> [] \<Longrightarrow> log_sum u up (mt_log m) = row_sum ''user'' u up (mt_rows m) + held (mt_tracker m) u up"
    and "\<And>u up. u \<noteq> [] \<Longrightarrow> log_sum u up (mt_log m) = moved_sum u up (mt_moved m) + owed (mt_tracker m) u up"
  shows "meter_ok m"
  unfolding meter_ok_def Let_def using assms by blast

lemma covered: "D \<union> S \<subseteq> U \<Longrightarrow> D' \<subseteq> D \<union> U \<Longrightarrow> D' \<union> S \<subseteq> U"
  by blast

lemma seen_only_unseen:
  assumes "seen_only s" and "gget (sk_users s) u = None"
  shows "gget (sk_drained s) u = None" and "gget (sk_sampled s) u = None"
  using assms by (auto simp: seen_only_def map_of_eq_None_iff)

text \<open>Steps that leave the user counters and the connections' references alone.\<close>

lemma meter_ok_same:
  assumes "meter_ok m" and "sk_users s = sk_users (mt_tracker m)" and "sk_drained s = sk_drained (mt_tracker m)"
    and "sk_sampled s = sk_sampled (mt_tracker m)"
    and "\<forall>cn \<in> set cs. \<exists>cn' \<in> set (mt_conns m). fst cn = fst cn' \<and> fst (snd cn) = fst (snd cn')"
  shows "meter_ok (m\<lparr>mt_tracker := s, mt_conns := cs\<rparr>)"
proof -
  have "conn_ok s cn" if "cn \<in> set cs" for cn
  proof -
    obtain cn' where "cn' \<in> set (mt_conns m)" "fst cn = fst cn'" "fst (snd cn) = fst (snd cn')" using assms(5) \<open>cn \<in> set cs\<close> by blast
    with meter_okD(4) [OF assms(1)] show ?thesis by (fastforce simp: conn_ok_def assms(2) split: prod.splits)
  qed
  moreover have "seen_only s" "held s u up = held (mt_tracker m) u up" "owed s u up = owed (mt_tracker m) u up" for u up
    using meter_okD(3) [OF assms(1)] by (simp_all add: seen_only_def held_def owed_def assms(2-4))
  ultimately show ?thesis
    using meter_okD [OF assms(1)] by (intro meter_okI) (simp_all add: assms(2))
qed

lemma meter_ok_route:
  assumes "meter_ok m"
  shows "meter_ok (meter_step (MRoute inb out u target) m)"
proof -
  let ?s = "mt_tracker m"
  obtain refs s' where r: "getReadCounters inb out u target ?s = (refs, s')" by force
  obtain i where none: "u = [] \<Longrightarrow> user_refs refs = [] \<and> sk_users s' = sk_users ?s"
    and some: "u \<noteq> [] \<Longrightarrow> user_refs refs = [(u, i)] \<and> gget (sk_users s') u = Some (case gget (sk_users ?s) u of Some c \<Rightarrow> c | None \<Rightarrow> \<lparr>ct_id = i, ct_read = 0, ct_write = 0\<rparr>)
      \<and> ct_id (case gget (sk_users ?s) u of Some c \<Rightarrow> c | None \<Rightarrow> \<lparr>ct_id = i, ct_read = 0, ct_write = 0\<rparr>) = i
      \<and> (sk_users s' = sk_users ?s \<or> gget (sk_users ?s) u = None \<and> sk_users s' = gput u \<lparr>ct_id = i, ct_read = 0, ct_write = 0\<rparr> (sk_users ?s))"
    and sd: "sk_sampled s' = sk_sampled ?s" "sk_drained s' = sk_drained ?s"
    using getReadCounters_users [OF r] by blast
  have users: "sk_users s' = sk_users ?s \<or> gget (sk_users ?s) u = None \<and> sk_users s' = gput u \<lparr>ct_id = i, ct_read = 0, ct_write = 0\<rparr> (sk_users ?s)"
    using none some by (cases "u = []") auto
  have held: "held s' v up = held ?s v up" for v up using users by (auto simp: held_def)
  have keep: "gget (sk_users ?s) v = Some c \<Longrightarrow> gget (sk_users s') v = Some c" for v c using users by auto
  have "conn_ok s' (u, refs, False)" using none some by (auto simp: conn_ok_def)
  moreover have "conn_ok s' cn" if "cn \<in> set (mt_conns m)" for cn
    using meter_okD(4) [OF assms that] keep by (auto simp: conn_ok_def split: if_splits)
  moreover have "gmap_ok (sk_users s')" using users meter_okD(1) [OF assms] by (auto simp: distinct_update)
  moreover have "counters_pos (sk_users s')"
    using users meter_okD(2) [OF assms] by (auto simp: counters_pos_def dest!: gput_in_set)
  moreover have "fst ` set (sk_users ?s) \<subseteq> fst ` set (sk_users s')"
    using users by (elim disjE) (simp_all add: subset_insertI)
  then have "seen_only s'" using meter_okD(3) [OF assms] unfolding seen_only_def sd by blast
  moreover have "owed s' v up = owed ?s v up" for v up by (simp add: held owed_def sd)
  ultimately show ?thesis
    using meter_okD(5,6) [OF assms] by (intro meter_okI) (auto simp: r held)
qed

lemma meter_ok_count:
  assumes "meter_ok m"
  shows "meter_ok (meter_step (MCount i rd wr) m)"
proof (cases "i < length (mt_conns m)")
  case True
  let ?s = "mt_tracker m"
  obtain u refs cl where c: "mt_conns m ! i = (u, refs, cl)" by (cases "mt_conns m ! i") auto
  let ?t = "count_bytes (int rd) (int wr) refs ?s"
  have conn: "conn_ok ?s (u, refs, cl)" using meter_okD(4) [OF assms] True c by (metis nth_mem)
  have step: "meter_step (MCount i rd wr) m = m\<lparr>mt_tracker := ?t, mt_log := mt_log m @ [(u, rd, wr)]\<rparr>"
    using True by (simp add: c)
  show ?thesis
  proof (cases "u = []")
    case True
    then have "sk_users ?t = sk_users ?s" using conn by (simp add: conn_ok_def count_bytes_users)
    then have "meter_ok (m\<lparr>mt_tracker := ?t, mt_conns := mt_conns m\<rparr>)" by (intro meter_ok_same [OF assms]) auto
    then show ?thesis
      unfolding step using True by (intro meter_okI) (auto dest: meter_okD)
  next
    case False
    then obtain k where k: "gget (sk_users ?s) u = Some k" "user_refs refs = [(u, ct_id k)]" using conn by (auto simp: conn_ok_def)
    let ?k = "k\<lparr>ct_read := ct_read k + int rd, ct_write := ct_write k + int wr\<rparr>"
    have users: "sk_users ?t = gput u ?k (sk_users ?s)" by (simp add: count_bytes_users k bump_counter_def)
    have "0 \<le> ct_read k" "0 \<le> ct_write k" using meter_okD(2) [OF assms] k(1) by (auto simp: counters_pos_def dest!: map_of_SomeD)
    then have "counters_pos (sk_users ?t)"
      using meter_okD(2) [OF assms] unfolding users counters_pos_def by (auto dest!: gput_in_set)
    moreover have "conn_ok ?t cn" if "cn \<in> set (mt_conns m)" for cn
      using meter_okD(4) [OF assms that] k(1) by (auto simp: conn_ok_def users split: if_splits)
    moreover have "gmap_ok (sk_users ?t)" using meter_okD(1) [OF assms] by (simp add: users distinct_update)
    moreover have "seen_only ?t" using meter_okD(3) [OF assms] unfolding seen_only_def users gkeys_put_set count_bytes_fields by blast
    moreover have "held ?t v up = held ?s v up + log_sum v up [(u, rd, wr)]" for v up
      using k(1) by (auto simp: held_def users)
    moreover from this have "owed ?t v up = owed ?s v up + log_sum v up [(u, rd, wr)]" for v up by (simp add: owed_def)
    ultimately show ?thesis
      unfolding step using meter_okD(5,6) [OF assms] by (intro meter_okI) (auto simp del: sums_one)
  qed
qed (simp add: assms)

lemma meter_ok_flush:
  assumes "meter_ok m"
  shows "meter_ok (meter_step (MFlush dt) m)"
proof -
  let ?s = "mt_tracker m"
  obtain rows s' where r: "tracker_GetStats dt ?s = (rows, s')" by force
  note ok = meter_okD(1,2) [OF assms]
  have users: "sk_users s' = zeroed (sk_users ?s)" and dr: "sk_drained s' = book_drained (sk_users ?s) (sk_drained ?s)"
    and sa: "sk_sampled s' = sk_sampled ?s" using r by (auto simp: tracker_GetStats_def)
  have held: "held s' u up = 0" for u up by (simp add: held_def users split: option.splits)
  have "owed s' u up = owed ?s u up" for u up
    unfolding owed_def held dr sa book_drained_amount(1) [OF ok(1)] by (simp add: held_def)
  moreover have "fst ` set (sk_users s') = fst ` set (sk_users ?s)" unfolding users by (metis gkeys_zeroed set_map)
  then have "seen_only s'"
    using covered [OF meter_okD(3) [OF assms, unfolded seen_only_def] book_drained_amount(2) [OF ok(1)]]
    by (simp only: seen_only_def dr sa)
  moreover have "conn_ok s' cn" if "cn \<in> set (mt_conns m)" for cn
    using meter_okD(4) [OF assms that] by (auto simp: conn_ok_def users split: if_splits)
  ultimately show ?thesis
    using ok meter_okD(5,6) [OF assms] row_sum_GetStats [OF ok r] by (intro meter_okI) (simp_all add: r held users)
qed

lemma meter_ok_sample:
  assumes "meter_ok m"
  shows "meter_ok (meter_step (MSample now w) m)"
proof (cases "now - sk_sampled_at (mt_tracker m) < w")
  case True
  then show ?thesis using meter_okD [OF assms] by (intro meter_okI) (simp_all add: SampleUsers_def gget0_def)
next
  case False
  let ?s = "mt_tracker m"
  obtain moved win ok s' where r: "SampleUsers now w ?s = ((moved, win, ok), s')" by (cases "SampleUsers now w ?s") auto
  note g = meter_okD(1) [OF assms]
  have users: "sk_users s' = sk_users ?s" and dr: "sk_drained s' = []"
    and sa: "gget (sk_sampled s') u = (case gget (sk_users ?s) u of Some c \<Rightarrow> Some \<lparr>ub_up = ct_read c, ub_down = ct_write c\<rparr> | None \<Rightarrow> gget (sk_sampled ?s) u)"
    and mv: "gget moved u = (case gget (sk_users ?s) u of None \<Rightarrow> None | Some c \<Rightarrow>
      if ub_up (user_delta ?s u c) \<noteq> 0 \<or> ub_down (user_delta ?s u c) \<noteq> 0 then Some (user_delta ?s u c) else None)" for u
    using r False by (auto simp: SampleUsers_def Let_def sampled_get [OF g] gget_moved [OF g] split: option.splits)
  have held: "held s' u up = held ?s u up" for u up by (simp add: held_def users)
  have "owed s' u up = 0 \<and> amount up (gget0 zero_bytes moved u) = owed ?s u up" for u up
  proof (cases "gget (sk_users ?s) u")
    case None
    with seen_only_unseen [OF meter_okD(3) [OF assms]] show ?thesis
      by (simp add: owed_def held_def users dr gget0_def sa mv)
  next
    case (Some c)
    then show ?thesis by (auto simp: owed_def held_def users dr gget0_def sa mv amount_def user_delta_def Let_def zero_bytes_def)
  qed
  moreover have "seen_only s'"
  proof -
    have "u \<in> fst ` set (sk_sampled ?s) \<union> fst ` set (sk_users ?s)" if "u \<in> fst ` set (sk_sampled s')" for u
    proof (cases "gget (sk_users ?s) u")
      case None
      moreover have "gget (sk_sampled s') u \<noteq> None" using that by (simp add: map_of_eq_None_iff)
      ultimately have "gget (sk_sampled ?s) u \<noteq> None" using sa [of u] by simp
      then show ?thesis by (simp only: map_of_eq_None_iff) simp
    next
      case (Some c)
      then have "gget (sk_users ?s) u \<noteq> None" by simp
      then show ?thesis by (simp only: map_of_eq_None_iff) simp
    qed
    then have "fst ` set (sk_sampled s') \<subseteq> fst ` set (sk_sampled ?s) \<union> fst ` set (sk_users ?s)" by (rule subsetI)
    from covered [OF _ this, of "{}"] have "fst ` set (sk_sampled s') \<union> {} \<subseteq> fst ` set (sk_users ?s)"
      using meter_okD(3) [OF assms] by (simp add: seen_only_def)
    then show ?thesis by (simp add: seen_only_def users dr)
  qed
  moreover have "conn_ok s' cn" if "cn \<in> set (mt_conns m)" for cn
    using meter_okD(4) [OF assms that] unfolding conn_ok_def users .
  ultimately show ?thesis
    using g meter_okD(2,5,6) [OF assms] by (intro meter_okI) (simp_all add: r held users)
qed

theorem meter_ok_step: "meter_ok m \<Longrightarrow> meter_ok (meter_step op m)"
proof (cases op)
  case (MClose i)
  assume ok: "meter_ok m"
  obtain u refs cl where c: "i < length (mt_conns m) \<Longrightarrow> mt_conns m ! i = (u, refs, cl)" by (cases "mt_conns m ! i") auto
  have "\<exists>cn' \<in> set (mt_conns m). fst cn = fst cn' \<and> fst (snd cn) = fst (snd cn')"
    if "i < length (mt_conns m)" "cn \<in> set ((mt_conns m)[i := (u, refs, b)])" for cn b
  proof -
    have "cn = (u, refs, b) \<or> cn \<in> set (mt_conns m)"
      using set_update_subset_insert [of "mt_conns m" i "(u, refs, b)"] that(2) by blast
    moreover have "(u, refs, cl) \<in> set (mt_conns m)" using nth_mem [OF that(1)] c [OF that(1)] by simp
    ultimately show ?thesis by force
  qed
  then have "meter_ok (m\<lparr>mt_tracker := s, mt_conns := (mt_conns m)[i := (u, refs, b)]\<rparr>)"
    if "i < length (mt_conns m)" "s = mt_tracker m \<or> s = fold release_ref refs (mt_tracker m)" for s b
    using that by (intro meter_ok_same [OF ok]) auto
  from this [of "mt_tracker m"] this [of "fold release_ref refs (mt_tracker m)"] show ?thesis
    using ok by (cases "i < length (mt_conns m)"; cases cl) (simp_all add: MClose c trackerConn_Close_def)
next
  case (MTargets dt)
  assume "meter_ok m"
  with meter_ok_same [OF this, of "snd (tracker_GetTargetStats dt (mt_tracker m))" "mt_conns m"] show ?thesis by (auto simp: MTargets)
next
  case (MTraffic b)
  assume "meter_ok m"
  with meter_ok_same [OF this, of "SetTrafficEnabled b (mt_tracker m)" "mt_conns m"] show ?thesis by (auto simp: MTraffic SetTrafficEnabled_def)
qed (simp_all only: meter_ok_route meter_ok_count meter_ok_flush meter_ok_sample)

theorem meter_ok_run: "meter_ok (meter_run now ops)"
proof -
  have "meter_ok (new_meter now)"
    by (simp add: meter_ok_def new_meter_def NewStatsTracker_def counters_pos_def seen_only_def held_def owed_def gget0_def)
  then have "meter_ok (fold meter_step ops (new_meter now))"
    by (induction ops rule: rev_induct) (simp_all add: meter_ok_step)
  then show ?thesis by (simp add: meter_run_def)
qed

section \<open>A target's counter lives as long as its connections\<close>

definition target_refs :: "counter_ref list \<Rightarrow> (string \<times> nat) list" where
  "target_refs refs = concat (map (\<lambda>r. case r of RTarget k i \<Rightarrow> [(k, i)] | _ \<Rightarrow> []) refs)"

lemma target_refs_simps [simp]:
  "target_refs [] = []" "target_refs (r # refs) = (case r of RTarget k i \<Rightarrow> [(k, i)] | _ \<Rightarrow> []) @ target_refs refs"
  "target_refs (xs @ ys) = target_refs xs @ target_refs ys"
  by (simp_all add: target_refs_def)

text \<open>The open connections that hold the counter created for a key under a number.\<close>

definition holders_of :: "string \<Rightarrow> nat \<Rightarrow> (string \<times> counter_ref list \<times> bool) list \<Rightarrow> nat" where
  "holders_of k i cs = sum_list (map (\<lambda>(u, refs, closed). if closed then 0 else count_list (target_refs refs) (k, i)) cs)"

definition lives_ok :: "meter \<Rightarrow> bool" where
  "lives_ok m \<longleftrightarrow> gmap_ok (sk_targets (mt_tracker m)) \<and>
     (\<forall>k c. gget (sk_targets (mt_tracker m)) k = Some c \<longrightarrow> ct_id c < sk_next (mt_tracker m) \<and> ct_active c = int (holders_of k (ct_id c) (mt_conns m))) \<and>
     (\<forall>k i. sk_next (mt_tracker m) \<le> i \<longrightarrow> holders_of k i (mt_conns m) = 0)"

lemma holders_of_append [simp]: "holders_of k i (cs @ ds) = holders_of k i cs + holders_of k i ds"
  by (simp add: holders_of_def)

lemma holders_of_update:
  "j < length cs \<Longrightarrow> cs ! j = (u, refs, False) \<Longrightarrow>
     holders_of k i cs = holders_of k i (cs[j := (u, refs, True)]) + count_list (target_refs refs) (k, i)"
proof (induction cs arbitrary: j)
  case (Cons c cs)
  then show ?case by (cases j) (auto simp: holders_of_def)
qed simp

lemma bump_same:
  "gmap_ok m \<Longrightarrow> gmap_ok (bump_counter i rd wr m k)"
  "gget (bump_counter i rd wr m k) k' =
     (case gget m k' of None \<Rightarrow> None | Some c \<Rightarrow> Some (if k' = k \<and> ct_id c = i then c\<lparr>ct_read := ct_read c + rd, ct_write := ct_write c + wr\<rparr> else c))"
  by (auto simp: bump_counter_def distinct_update update_Some_unfold split: option.splits)

text \<open>What the steps between routing and closing leave of a target's entry: its number and its holders.\<close>

definition same_lives :: "(string, target_counter) gomap \<Rightarrow> (string, target_counter) gomap \<Rightarrow> bool" where
  "same_lives m m' \<longleftrightarrow> (gmap_ok m \<longrightarrow> gmap_ok m') \<and>
     (\<forall>k c'. gget m' k = Some c' \<longrightarrow> (\<exists>c. gget m k = Some c \<and> ct_id c' = ct_id c \<and> ct_active c' = ct_active c))"

lemma same_lives_refl: "same_lives m m"
  by (simp add: same_lives_def)

lemma same_lives_trans: "same_lives m m' \<Longrightarrow> same_lives m' m'' \<Longrightarrow> same_lives m m''"
  unfolding same_lives_def by metis

lemma lives_ok_same:
  assumes "lives_ok m" and "same_lives (sk_targets (mt_tracker m)) (sk_targets (mt_tracker m'))"
    and "sk_next (mt_tracker m') = sk_next (mt_tracker m)" and "mt_conns m' = mt_conns m"
  shows "lives_ok m'"
  using assms unfolding lives_ok_def same_lives_def by metis

lemma same_lives_bump: "same_lives m (bump_counter i rd wr m k)"
  by (auto simp: same_lives_def bump_same split: option.splits if_splits)

lemma same_lives_count: "same_lives (sk_targets s) (sk_targets (count_bytes rd wr refs s))"
  unfolding count_bytes_def
proof (induction refs arbitrary: s)
  case (Cons r refs)
  have "same_lives (sk_targets s) (sk_targets (count_ref rd wr r s))"
    by (cases r) (simp_all add: same_lives_refl same_lives_bump)
  with Cons show ?case by (auto intro: same_lives_trans)
qed (simp add: same_lives_refl)

text \<open>One pass over the targets: what is reported, what is zeroed, and what is forgotten.\<close>

definition expires :: "(string, int) gomap \<Rightarrow> string \<Rightarrow> target_counter \<Rightarrow> bool" where
  "expires idle k c \<longleftrightarrow> \<not> (ct_write c > 0 \<or> ct_read c > 0) \<and> ct_active c \<le> 0 \<and> gget0 0 idle k + 1 \<ge> 6"

lemma target_tick_fold:
  assumes "gmap_ok m" and "fold (target_tick dt) m (rows, s) = (rows', s')"
  shows "rows' = rows @ map (\<lambda>(k, c). \<lparr>tg_id = 0, tg_date_time = dt, tg_user = fst (split_key k), tg_target = snd (split_key k),
      tg_up = ct_read c, tg_down = ct_write c\<rparr>) (filter (\<lambda>(k, c). ct_write c > 0 \<or> ct_read c > 0) m)"
    and "gget (sk_targets s') k = (case gget m k of None \<Rightarrow> gget (sk_targets s) k
      | Some c \<Rightarrow> if expires (sk_target_idle s) k c then None else Some (c\<lparr>ct_read := 0, ct_write := 0\<rparr>))"
    and "gmap_ok (sk_targets s) \<Longrightarrow> gmap_ok (sk_targets s')"
proof -
  let ?row = "\<lambda>(k, c). \<lparr>tg_id = 0, tg_date_time = dt, tg_user = fst (split_key k), tg_target = snd (split_key k), tg_up = ct_read c, tg_down = ct_write c\<rparr>"
  have "rows' = rows @ map ?row (filter (\<lambda>(k, c). ct_write c > 0 \<or> ct_read c > 0) m) \<and>
    gget (sk_targets s') k = (case gget m k of None \<Rightarrow> gget (sk_targets s) k
      | Some c \<Rightarrow> if expires (sk_target_idle s) k c then None else Some (c\<lparr>ct_read := 0, ct_write := 0\<rparr>)) \<and>
    (gmap_ok (sk_targets s) \<longrightarrow> gmap_ok (sk_targets s'))"
    using assms
  proof (induction m arbitrary: rows s)
    case (Cons kc m)
    obtain k0 c0 where kc: "kc = (k0, c0)" by force
    obtain rows1 s1 where one: "target_tick dt kc (rows, s) = (rows1, s1)" by force
    have k0: "gget m k = None" if "k = k0" using Cons.prems(1) that by (simp add: kc map_of_eq_None_iff)
    have a: "rows1 = rows @ (if ct_write c0 > 0 \<or> ct_read c0 > 0 then [?row (k0, c0)] else [])"
      and b: "gget (sk_targets s1) k = (if k = k0 then if expires (sk_target_idle s) k0 c0 then None else Some (c0\<lparr>ct_read := 0, ct_write := 0\<rparr>) else gget (sk_targets s) k)"
      and c: "k \<noteq> k0 \<Longrightarrow> gget (sk_target_idle s1) k = gget (sk_target_idle s) k"
      and d: "gmap_ok (sk_targets s) \<Longrightarrow> gmap_ok (sk_targets s1)"
      using one by (auto simp: kc target_tick_def expires_def Let_def distinct_update distinct_delete split: if_splits)
    have "expires (sk_target_idle s1) k x = expires (sk_target_idle s) k x" if "k \<noteq> k0" for x
      using c [OF that] by (simp add: expires_def gget0_def)
    with Cons.IH [of rows1 s1] Cons.prems one k0 a b d show ?case
      by (cases "k = k0") (auto simp: kc split: option.splits)
  qed simp
  then show "rows' = rows @ map ?row (filter (\<lambda>(k, c). ct_write c > 0 \<or> ct_read c > 0) m)"
    and "gget (sk_targets s') k = (case gget m k of None \<Rightarrow> gget (sk_targets s) k
      | Some c \<Rightarrow> if expires (sk_target_idle s) k c then None else Some (c\<lparr>ct_read := 0, ct_write := 0\<rparr>))"
    and "gmap_ok (sk_targets s) \<Longrightarrow> gmap_ok (sk_targets s')" by blast+
qed

lemma same_lives_targets:
  assumes "gmap_ok (sk_targets s)"
  shows "same_lives (sk_targets s) (sk_targets (snd (tracker_GetTargetStats dt s)))"
proof (cases "sk_traffic s")
  case True
  obtain rows s' where r: "fold (target_tick dt) (sk_targets s) ([], s) = (rows, s')" by force
  note f = target_tick_fold [OF assms r]
  show ?thesis using True assms f(3) by (auto simp: tracker_GetTargetStats_def r same_lives_def f(2) split: option.splits if_splits)
next
  case False
  then show ?thesis by (simp add: tracker_GetTargetStats_def same_lives_def)
qed

lemma release_targets:
  assumes "gget (sk_targets (fold release_ref refs s)) k = Some c'"
  shows "\<exists>c. gget (sk_targets s) k = Some c \<and> ct_id c' = ct_id c \<and> ct_active c' = ct_active c - int (count_list (target_refs refs) (k, ct_id c))"
  using assms
proof (induction refs arbitrary: s)
  case (Cons r refs)
  then obtain c1 where c1: "gget (sk_targets (release_ref r s)) k = Some c1" "ct_id c' = ct_id c1"
    "ct_active c' = ct_active c1 - int (count_list (target_refs refs) (k, ct_id c1))" by fastforce
  then show ?case by (cases r) (auto split: option.splits if_splits)
qed simp

lemma release_gmap_ok: "gmap_ok (sk_targets s) \<Longrightarrow> gmap_ok (sk_targets (fold release_ref refs s))"
proof (induction refs arbitrary: s)
  case (Cons r refs)
  have "gmap_ok (sk_targets (release_ref r s))" using Cons.prems by (cases r) (auto simp: distinct_update split: option.splits)
  with Cons show ?case by simp
qed simp

lemma getReadCounters_targets:
  assumes "getReadCounters inb out u target s = (refs, s')"
  shows "sk_next s \<le> sk_next s'" and "target_refs refs = [] \<and> sk_targets s' = sk_targets s \<or>
     (\<exists>key c. target_refs refs = [(key, ct_id c)] \<and> (gmap_ok (sk_targets s) \<longrightarrow> gmap_ok (sk_targets s')) \<and>
       (\<forall>k. gget (sk_targets s') k = (if k = key then Some (c\<lparr>ct_active := ct_active c + 1\<rparr>) else gget (sk_targets s) k)) \<and>
       (gget (sk_targets s) key = Some c \<or> gget (sk_targets s) key = None \<and> sk_next s \<le> ct_id c \<and> ct_id c < sk_next s' \<and> ct_active c = 0))"
proof -
  obtain r3 s3 where three: "attach_user u (attach_outbound out (attach_inbound inb ([], s))) = (r3, s3)" by force
  have f3: "target_refs r3 = []" "sk_targets s3 = sk_targets s" "sk_next s \<le> sk_next s3"
    using three by (auto simp: attach_user_def attach_outbound_def attach_inbound_def loadOrCreateCounter_def Let_def
      split: if_splits prod.splits option.splits)
  have four: "attach_target u target (r3, s3) = (refs, s')" using assms three by (simp add: getReadCounters_def)
  show "sk_next s \<le> sk_next s'"
    using four f3(3) by (auto simp: attach_target_def loadOrCreateTargetCounter_def Let_def split: if_splits option.splits)
  show "target_refs refs = [] \<and> sk_targets s' = sk_targets s \<or>
     (\<exists>key c. target_refs refs = [(key, ct_id c)] \<and> (gmap_ok (sk_targets s) \<longrightarrow> gmap_ok (sk_targets s')) \<and>
       (\<forall>k. gget (sk_targets s') k = (if k = key then Some (c\<lparr>ct_active := ct_active c + 1\<rparr>) else gget (sk_targets s) k)) \<and>
       (gget (sk_targets s) key = Some c \<or> gget (sk_targets s) key = None \<and> sk_next s \<le> ct_id c \<and> ct_id c < sk_next s' \<and> ct_active c = 0))"
  proof (cases "sk_traffic s3 \<and> target \<noteq> []")
    case True
    with four f3 show ?thesis
      by (intro disjI2 exI [of _ "target_key u target"] exI [of _ "fst (loadOrCreateTargetCounter (target_key u target) s3)"])
        (auto simp: attach_target_def loadOrCreateTargetCounter_def Let_def distinct_update split: option.splits)
  next
    case False
    with four f3 show ?thesis by (simp add: attach_target_def)
  qed
qed

theorem lives_ok_step:
  assumes ok: "lives_ok m"
  shows "lives_ok (meter_step op m)"
proof (cases op)
  case (MRoute inb out u target)
  let ?s = "mt_tracker m"
  obtain refs s' where r: "getReadCounters inb out u target ?s = (refs, s')" by force
  note f = getReadCounters_targets [OF r]
  have one: "holders_of k i [(u, refs, False)] = count_list (target_refs refs) (k, i)" for k i by (simp add: holders_of_def)
  have old: "ct_id c < sk_next s' \<and> ct_active c = int (holders_of k (ct_id c) (mt_conns m))" if "gget (sk_targets ?s) k = Some c" for k c
    using ok f(1) that unfolding lives_ok_def by force
  have zero: "sk_next ?s \<le> i \<Longrightarrow> holders_of k i (mt_conns m) = 0" for k i using ok by (simp add: lives_ok_def)
  have idlt: "target_refs refs = [(key, i)] \<Longrightarrow> i < sk_next s'" for key i using f(2) old by auto
  have "gmap_ok (sk_targets s')" using f(2) ok by (auto simp: lives_ok_def)
  moreover have "count_list (target_refs refs) (k, i) = 0" if "sk_next s' \<le> i" for k i
    using f(2) idlt that by auto
  moreover have "ct_id c < sk_next s' \<and> ct_active c = int (holders_of k (ct_id c) (mt_conns m)) + int (count_list (target_refs refs) (k, ct_id c))"
    if g: "gget (sk_targets s') k = Some c" for k c
    using f(2)
  proof (elim disjE conjE exE)
    assume "target_refs refs = []" "sk_targets s' = sk_targets ?s"
    with old g show ?thesis by simp
  next
    fix key c0
    assume tr: "target_refs refs = [(key, ct_id c0)]"
      and get: "\<forall>k. gget (sk_targets s') k = (if k = key then Some (c0\<lparr>ct_active := ct_active c0 + 1\<rparr>) else gget (sk_targets ?s) k)"
      and "gget (sk_targets ?s) key = Some c0"
    moreover have "k \<noteq> key \<Longrightarrow> gget (sk_targets ?s) k = Some c" using g get by simp
    ultimately show ?thesis using g get [rule_format, of k] old [of k c] old [of key c0] by (cases "k = key") auto
  next
    fix key c0
    assume tr: "target_refs refs = [(key, ct_id c0)]"
      and get: "\<forall>k. gget (sk_targets s') k = (if k = key then Some (c0\<lparr>ct_active := ct_active c0 + 1\<rparr>) else gget (sk_targets ?s) k)"
      and new: "sk_next ?s \<le> ct_id c0" "ct_id c0 < sk_next s'" "ct_active c0 = 0"
    show ?thesis
    proof (cases "k = key")
      case True
      then have "c = c0\<lparr>ct_active := 1\<rparr>" using g get new(3) by simp
      then show ?thesis using new(2) zero [OF new(1)] by (simp add: tr True)
    next
      case False
      then have "gget (sk_targets ?s) k = Some c" using g get by simp
      from old [OF this] show ?thesis using False by (simp add: tr)
    qed
  qed
  moreover have "holders_of k i (mt_conns m) = 0" if "sk_next s' \<le> i" for k i using zero f(1) that by simp
  ultimately show ?thesis unfolding lives_ok_def MRoute by (simp add: r one)
next
  case (MClose i)
  obtain u refs cl where c: "mt_conns m ! i = (u, refs, cl)" by (cases "mt_conns m ! i") auto
  show ?thesis
  proof (cases "i < length (mt_conns m) \<and> \<not> cl")
    case False
    have "(mt_conns m)[i := (u, refs, True)] = mt_conns m" if "i < length (mt_conns m)" using False that c by (metis list_update_id)
    with False show ?thesis by (intro lives_ok_same [OF ok]) (auto simp: MClose c trackerConn_Close_def same_lives_refl)
  next
    case True
    let ?cs = "(mt_conns m)[i := (u, refs, True)]" and ?s = "fold release_ref refs (mt_tracker m)"
    have h: "holders_of k j (mt_conns m) = holders_of k j ?cs + count_list (target_refs refs) (k, j)" for k j
      using holders_of_update [of i "mt_conns m" u refs] True c by simp
    have "gmap_ok (sk_targets ?s)" using ok by (simp add: lives_ok_def release_gmap_ok)
    moreover have "ct_id c' < sk_next (mt_tracker m) \<and> ct_active c' = int (holders_of k (ct_id c') ?cs)"
      if "gget (sk_targets ?s) k = Some c'" for k c'
      using release_targets [OF that] ok h unfolding lives_ok_def by fastforce
    moreover have "holders_of k j ?cs = 0" if "sk_next (mt_tracker m) \<le> j" for k j
      using h [of k j] ok that by (simp add: lives_ok_def)
    ultimately show ?thesis
      using True c unfolding lives_ok_def by (simp add: MClose trackerConn_Close_def)
  qed
next
  case (MCount i rd wr)
  obtain u refs cl where c: "mt_conns m ! i = (u, refs, cl)" by (cases "mt_conns m ! i") auto
  show ?thesis by (rule lives_ok_same [OF ok]) (auto simp: MCount c same_lives_count same_lives_refl)
next
  case (MFlush dt)
  show ?thesis by (rule lives_ok_same [OF ok]) (auto simp: MFlush tracker_GetStats_def same_lives_refl)
next
  case (MTargets dt)
  have "gmap_ok (sk_targets (mt_tracker m))" using ok by (simp add: lives_ok_def)
  then show ?thesis by (intro lives_ok_same [OF ok]) (simp_all add: MTargets same_lives_targets)
next
  case (MSample now w)
  show ?thesis by (rule lives_ok_same [OF ok]) (auto simp: MSample SampleUsers_def same_lives_refl Let_def)
next
  case (MTraffic b)
  show ?thesis by (rule lives_ok_same [OF ok]) (auto simp: MTraffic SetTrafficEnabled_def same_lives_refl)
qed

theorem lives_ok_run: "lives_ok (meter_run now ops)"
proof -
  have "lives_ok (new_meter now)" by (simp add: lives_ok_def new_meter_def NewStatsTracker_def holders_of_def)
  then have "lives_ok (fold meter_step ops (new_meter now))"
    by (induction ops rule: rev_induct) (simp_all add: lives_ok_step)
  then show ?thesis by (simp add: meter_run_def)
qed

section \<open>Keys of targets\<close>

lemma index_byte_append: "c \<notin> set s \<Longrightarrow> index_byte c (s @ c # t) = Some (length s)"
  by (induction s) auto

text \<open>A name without a zero byte is told apart from the target again.\<close>

lemma split_target_key: "CHR 0x00 \<notin> set user \<Longrightarrow> split_key (target_key user target) = (user, target)"
  by (simp add: split_key_def target_key_def index_byte_append)

end
