(* ===== verification/StatsInv.thy ===== *)
theory StatsInv
  imports StatsService StatsTrackerInv
begin

text \<open>
  What the flush guarantees: whatever fails, traffic is in the core's counter, among the rows still owed or
  in the client's row, never lost and never counted twice; the totals per inbound follow the table; the
  tables keep their keys. Also the queries and the deletion of old rows against their definitions.
\<close>

section \<open>Folding rows\<close>

definition key_sum :: "('r \<Rightarrow> 'k) \<Rightarrow> ('r \<Rightarrow> int) \<Rightarrow> 'k \<Rightarrow> 'r list \<Rightarrow> int" where
  "key_sum key f k rows = sum_list (map f (filter (\<lambda>r. key r = k) rows))"

lemma key_sum_simps [simp]:
  "key_sum key f k [] = 0"
  "key_sum key f k (r # rows) = (if key r = k then f r else 0) + key_sum key f k rows"
  "key_sum key f k (xs @ ys) = key_sum key f k xs + key_sum key f k ys"
  by (simp_all add: key_sum_def)

lemma key_sum_update:
  assumes "i < length xs" and "key y = key (xs ! i)"
  shows "key_sum key f k (xs[i := y]) = key_sum key f k xs + (if key y = k then f y - f (xs ! i) else 0)"
  using assms
proof (induction xs arbitrary: i)
  case (Cons x xs)
  then show ?case by (cases i) auto
qed simp

locale row_merge =
  fixes key :: "'r \<Rightarrow> 'k" and add :: "'r \<Rightarrow> 'r \<Rightarrow> 'r" and clear :: "'r \<Rightarrow> 'r"
  assumes key_add: "key (add m r) = key m" and key_clear: "key (clear r) = key r"
begin

definition indexed :: "('k, nat) gomap \<times> 'r list \<Rightarrow> bool" where
  "indexed im \<longleftrightarrow> (\<forall>k i. gget (fst im) k = Some i \<longleftrightarrow> i < length (snd im) \<and> key (snd im ! i) = k)"

lemma indexed_step: "indexed im \<Longrightarrow> indexed (merge_step key add clear r im)"
proof -
  assume ok: "indexed im"
  obtain index merged where im: "im = (index, merged)" by force
  show ?thesis
  proof (cases "gget index (key r)")
    case None
    then have "\<not> (i < length merged \<and> key (merged ! i) = key r)" for i using ok by (metis indexed_def im fst_conv snd_conv option.distinct(1))
    with None ok show ?thesis
      by (auto simp: indexed_def im merge_step_def key_clear nth_append less_Suc_eq)
  next
    case (Some i)
    then have i: "i < length merged" "key (merged ! i) = key r" using ok by (auto simp: indexed_def im)
    have "key (merged[i := add (merged ! i) r] ! j) = key (merged ! j)" if "j < length merged" for j
      using that i by (cases "j = i") (simp_all add: key_add)
    moreover have "merge_step key add clear r im = (index, merged[i := add (merged ! i) r])" by (simp add: im merge_step_def Some)
    ultimately show ?thesis using ok by (auto simp: indexed_def im)
  qed
qed

lemma indexed_distinct: "indexed im \<Longrightarrow> distinct (map key (snd im))"
  unfolding indexed_def distinct_conv_nth by (metis length_map nth_map option.inject)

lemma fold_indexed: "indexed im \<Longrightarrow> indexed (fold (merge_step key add clear) rows im)"
  by (induction rows arbitrary: im) (simp_all add: indexed_step)

lemma merge_distinct: "distinct (map key (merge_rows key add clear rows))"
  unfolding merge_rows_def by (intro indexed_distinct fold_indexed) (simp add: indexed_def)

lemma step_sum:
  assumes "indexed im" and "\<And>m r. f (add m r) = f m + f r" and "\<And>r. f (clear r) = f r"
  shows "key_sum key f k (snd (merge_step key add clear r im)) = key_sum key f k (snd im) + (if key r = k then f r else 0)"
proof -
  obtain index merged where im: "im = (index, merged)" by force
  show ?thesis
  proof (cases "gget index (key r)")
    case None
    then show ?thesis by (simp add: im merge_step_def key_clear assms(3))
  next
    case (Some i)
    then have "i < length merged" "key (merged ! i) = key r" using assms(1) by (auto simp: indexed_def im)
    then show ?thesis using Some by (simp add: im merge_step_def key_sum_update key_add assms(2))
  qed
qed

lemma merge_sum:
  assumes "\<And>m r. f (add m r) = f m + f r" and "\<And>r. f (clear r) = f r"
  shows "key_sum key f k (merge_rows key add clear rows) = key_sum key f k rows"
proof -
  have "key_sum key f k (snd (fold (merge_step key add clear) rows im)) = key_sum key f k (snd im) + key_sum key f k rows" if "indexed im" for im
    using that
  proof (induction rows arbitrary: im)
    case (Cons r rows)
    then show ?case using step_sum [OF Cons.prems assms, of k r] indexed_step [OF Cons.prems, of r] by simp
  qed simp
  from this [of "([], [])"] show ?thesis by (simp add: merge_rows_def indexed_def)
qed

text \<open>Every merged row comes from cleared rows by adding.\<close>

lemma merge_induct:
  assumes "\<And>r. r \<in> set rows \<Longrightarrow> P (clear r)" and "\<And>m r. P m \<Longrightarrow> r \<in> set rows \<Longrightarrow> P (add m r)"
  shows "\<forall>r \<in> set (merge_rows key add clear rows). P r"
proof -
  have "\<forall>r \<in> set (snd (fold (merge_step key add clear) rs im)). P r" if "indexed im" "\<forall>r \<in> set (snd im). P r" "set rs \<subseteq> set rows" for rs im
    using that
  proof (induction rs arbitrary: im)
    case (Cons r rs)
    obtain index merged where im: "im = (index, merged)" by force
    have r: "r \<in> set rows" using Cons.prems(3) by simp
    have "\<forall>x \<in> set (snd (merge_step key add clear r im)). P x"
    proof (cases "gget index (key r)")
      case None
      then show ?thesis using Cons.prems(2) assms(1) [OF r] by (simp add: im merge_step_def)
    next
      case (Some i)
      then have "i < length merged" using Cons.prems(1) by (auto simp: indexed_def im)
      then have "P (add (merged ! i) r)" using Cons.prems(2) assms(2) r by (simp add: im)
      then show ?thesis using Some Cons.prems(2) set_update_subset_insert [of merged i] by (auto simp: im merge_step_def)
    qed
    then show ?case using Cons.IH [of "merge_step key add clear r im"] Cons.prems indexed_step by simp
  qed simp
  from this [of "([], [])" rows] show ?thesis by (simp add: merge_rows_def indexed_def)
qed

lemma merge_length: "length (merge_rows key add clear rows) \<le> length rows"
proof -
  have "length (snd (fold (merge_step key add clear) rows im)) \<le> length (snd im) + length rows" for im
  proof (induction rows arbitrary: im)
    case (Cons r rows)
    have "length (snd (merge_step key add clear r im)) \<le> Suc (length (snd im))"
      by (cases im) (auto simp: merge_step_def split: option.splits)
    with Cons [of "merge_step key add clear r im"] show ?case by simp
  qed simp
  from this [of "([], [])"] show ?thesis by (simp add: merge_rows_def)
qed

end

interpretation sm: row_merge stat_key "\<lambda>m r. m\<lparr>st_traffic := st_traffic m + st_traffic r\<rparr>" "\<lambda>r. r\<lparr>st_id := 0\<rparr>"
  by unfold_locales (simp_all add: stat_key_def)

interpretation tm: row_merge tgt_key "\<lambda>m r. m\<lparr>tg_up := tg_up m + tg_up r, tg_down := tg_down m + tg_down r\<rparr>" "\<lambda>r. r\<lparr>tg_id := 0\<rparr>"
  by unfold_locales (simp_all add: tgt_key_def)

lemma row_sum_key: "row_sum res tag up rows = key_sum stat_key st_traffic (res, tag, up) rows"
  by (simp add: row_sum_def key_sum_def stat_key_def)

lemma mergeStats_facts:
  "row_sum res tag up (mergeStats rows) = row_sum res tag up rows"
  "\<forall>r \<in> set (mergeStats rows). st_id r = 0"
  "(\<forall>r \<in> set rows. 0 \<le> st_traffic r) \<Longrightarrow> \<forall>r \<in> set (mergeStats rows). 0 \<le> st_traffic r"
  "distinct (map stat_key (mergeStats rows))"
  "length (mergeStats rows) \<le> length rows"
proof -
  show "row_sum res tag up (mergeStats rows) = row_sum res tag up rows"
    unfolding row_sum_key mergeStats_def by (rule sm.merge_sum) simp_all
  show "\<forall>r \<in> set (mergeStats rows). st_id r = 0" unfolding mergeStats_def by (rule sm.merge_induct) simp_all
  show "\<forall>r \<in> set (mergeStats rows). 0 \<le> st_traffic r" if "\<forall>r \<in> set rows. 0 \<le> st_traffic r"
    unfolding mergeStats_def using that by (intro sm.merge_induct) simp_all
  show "distinct (map stat_key (mergeStats rows))" unfolding mergeStats_def by (rule sm.merge_distinct)
  show "length (mergeStats rows) \<le> length rows" unfolding mergeStats_def by (rule sm.merge_length)
qed

section \<open>What a flush takes\<close>

definition held_core :: "stats_state \<Rightarrow> string \<Rightarrow> bool \<Rightarrow> int" where
  "held_core s u up = (case ss_core s of None \<Rightarrow> 0 | Some st \<Rightarrow> held st u up)"

definition core_ok :: "stats_state \<Rightarrow> bool" where
  "core_ok s \<longleftrightarrow> (case ss_core s of None \<Rightarrow> True | Some st \<Rightarrow> gmap_ok (sk_users st) \<and> counters_pos (sk_users st))"

lemma GetStats_facts:
  assumes "tracker_GetStats dt st = (rows, st')"
  shows "r \<in> set rows \<Longrightarrow> st_id r = 0 \<and> 0 < st_traffic r"
    and "sk_users st' = zeroed (sk_users st)" and "held st' u up = 0"
proof -
  have "st_id r = 0 \<and> 0 < st_traffic r" if "r \<in> set (rows_of dt res m)" for r res m
    using that by (auto simp: rows_of_def appendStat_def split: if_splits)
  then show "r \<in> set rows \<Longrightarrow> st_id r = 0 \<and> 0 < st_traffic r" using assms by (auto simp: tracker_GetStats_def)
  show users: "sk_users st' = zeroed (sk_users st)" using assms by (auto simp: tracker_GetStats_def)
  show "held st' u up = 0" by (simp add: held_def users split: option.splits)
qed

text \<open>Draining the core moves what its counters held into rows; targets do not matter to the users' counters.\<close>

lemma drain_core_facts:
  assumes "drain_core en dt dt' s = ((rows, targets), s1)" and "core_ok s"
  shows "row_sum ''user'' u up rows + held_core s1 u up = held_core s u up" and "core_ok s1"
    and "r \<in> set rows \<Longrightarrow> st_id r = 0 \<and> 0 < st_traffic r"
    and "ss_running s \<Longrightarrow> held_core s1 u up = 0"
    and "s1 = s\<lparr>ss_core := ss_core s1\<rparr>"
proof -
  consider (idle) "rows = []" "s1 = s" "ss_running s \<Longrightarrow> ss_core s = None"
    | (run) st st1 st2 where "ss_core s = Some st" "tracker_GetStats dt (SetTrafficEnabled en st) = (rows, st1)"
      "tracker_GetTargetStats dt' st1 = (targets, st2)" "s1 = s\<lparr>ss_core := Some st2\<rparr>"
  proof (cases "if ss_running s then ss_core s else None")
    case None
    then show thesis using assms(1) by (intro idle) (auto simp: drain_core_def split: if_splits)
  next
    case (Some st)
    obtain rows' st1 where a: "tracker_GetStats dt (SetTrafficEnabled en st) = (rows', st1)" by force
    obtain targets' st2 where b: "tracker_GetTargetStats dt' st1 = (targets', st2)" by force
    have "ss_core s = Some st" using Some by (simp split: if_splits)
    with Some show thesis using assms(1) a b by (intro run [of st st1 st2]) (simp_all add: drain_core_def)
  qed
  then have "(row_sum ''user'' u up rows + held_core s1 u up = held_core s u up) \<and> core_ok s1 \<and>
    (r \<in> set rows \<longrightarrow> st_id r = 0 \<and> 0 < st_traffic r) \<and> (ss_running s \<longrightarrow> held_core s1 u up = 0) \<and> s1 = s\<lparr>ss_core := ss_core s1\<rparr>"
  proof cases
    case idle
    then show ?thesis using assms(2) by (auto simp: held_core_def)
  next
    case run
    have same: "sk_users (SetTrafficEnabled en st) = sk_users st" by (simp add: SetTrafficEnabled_def)
    have ok: "gmap_ok (sk_users (SetTrafficEnabled en st))" "counters_pos (sk_users (SetTrafficEnabled en st))"
      using assms(2) run(1) by (simp_all add: core_ok_def same)
    note g = GetStats_facts [OF run(2)]
    have users: "sk_users st2 = sk_users st1" using run(3) GetTargetStats_fields(1) [of dt' st1] by simp
    then have "held st2 u up = 0" using g(3) [of u up] by (simp add: held_def)
    moreover have "held (SetTrafficEnabled en st) u up = held st u up" by (simp add: held_def same)
    moreover have "core_ok s1" using ok by (simp add: core_ok_def run(4) users g(2))
    ultimately show ?thesis
      using row_sum_GetStats [OF ok run(2)] g(1) run(1,4) by (simp add: held_core_def)
  qed
  then show "row_sum ''user'' u up rows + held_core s1 u up = held_core s u up" and "core_ok s1"
    and "r \<in> set rows \<Longrightarrow> st_id r = 0 \<and> 0 < st_traffic r"
    and "ss_running s \<Longrightarrow> held_core s1 u up = 0" and "s1 = s\<lparr>ss_core := ss_core s1\<rparr>" by blast+
qed

definition rows_ok :: "stat_row list \<Rightarrow> bool" where
  "rows_ok rows \<longleftrightarrow> (\<forall>r \<in> set rows. 0 \<le> st_traffic r)"

lemma take_batch_facts:
  assumes "take_batch drained dtargets s = ((batch, targets), s')" and "rows_ok (ss_pending s)" and "rows_ok drained"
    and "\<forall>r \<in> set drained. st_id r = 0"
  shows "row_sum res tag up batch = row_sum res tag up (ss_pending s) + row_sum res tag up drained"
    and "rows_ok batch" and "\<forall>r \<in> set batch. st_id r = 0" and "length batch \<le> length (ss_pending s) + length drained"
    and "s' = s\<lparr>ss_pending := [], ss_pending_targets := []\<rparr>"
proof -
  have b: "batch = (if ss_pending s = [] then drained else mergeStats (ss_pending s @ drained))"
    and "s' = s\<lparr>ss_pending := [], ss_pending_targets := []\<rparr>"
    using assms(1) by (auto simp: take_batch_def takePending_def takePendingTargets_def split: if_splits)
  then show "s' = s\<lparr>ss_pending := [], ss_pending_targets := []\<rparr>" by simp
  show "row_sum res tag up batch = row_sum res tag up (ss_pending s) + row_sum res tag up drained"
    by (simp add: b mergeStats_facts(1))
  show "rows_ok batch" using assms(2,3) mergeStats_facts(3) [of "ss_pending s @ drained"] by (auto simp: b rows_ok_def)
  show "\<forall>r \<in> set batch. st_id r = 0" using assms(4) mergeStats_facts(2) by (simp add: b)
  show "length batch \<le> length (ss_pending s) + length drained" using mergeStats_facts(5) [of "ss_pending s @ drained"] by (simp add: b)
qed

section \<open>What a flush gathers\<close>

lemma charge_fold:
  assumes "gmap_ok m"
  shows "gmap_ok (fold charge batch m) \<and>
    amount up (gget0 zero_bytes (fold charge batch m) u) = amount up (gget0 zero_bytes m u) + row_sum ''user'' u up batch"
  using assms
proof (induction batch arbitrary: m)
  case (Cons r batch)
  have ok: "gmap_ok (charge r m)" using Cons.prems by (simp add: charge_def Let_def distinct_update)
  have "amount up (gget0 zero_bytes (charge r m) u) = amount up (gget0 zero_bytes m u) + row_sum ''user'' u up [r]"
  proof (cases "st_resource r = ''user'' \<and> st_tag r = u")
    case True
    then show ?thesis by (cases up) (simp_all add: charge_def Let_def gget0_def amount_def row_sum_def)
  next
    case False
    then have "gget0 zero_bytes (charge r m) u = gget0 zero_bytes m u"
      by (cases "st_resource r = ''user''") (simp_all add: charge_def Let_def gget0_def)
    moreover have "row_sum ''user'' u up [r] = 0" using False by (auto simp: row_sum_def)
    ultimately show ?thesis by simp
  qed
  moreover have "row_sum ''user'' u up (r # batch) = row_sum ''user'' u up [r] + row_sum ''user'' u up batch"
    by (simp add: row_sum_def)
  ultimately show ?case using Cons.IH [OF ok] by simp
qed simp

lemma note_drained_users:
  "ga_users (note_drained r g) = ga_users g \<or> ga_users (note_drained r g) = gput (st_tag r) zero_bytes (ga_users g)"
  by (simp add: note_drained_def)

lemma note_drained_fold:
  assumes "gmap_ok (ga_users g)" and "\<And>u. gget0 zero_bytes (ga_users g) u = zero_bytes"
  shows "gmap_ok (ga_users (fold note_drained drained g)) \<and> gget0 zero_bytes (ga_users (fold note_drained drained g)) u = zero_bytes"
  using assms
proof (induction drained arbitrary: g)
  case (Cons r drained)
  have "gmap_ok (ga_users (note_drained r g))"
    using note_drained_users [of r g] Cons.prems(1) by (elim disjE) (simp_all add: distinct_update)
  moreover have "gget0 zero_bytes (ga_users (note_drained r g)) u = zero_bytes" for u
    using note_drained_users [of r g] Cons.prems(2) [of u] by (elim disjE) (simp_all add: gget0_def)
  ultimately show ?case using Cons.IH [of "note_drained r g"] by simp
qed simp

lemma gather_users:
  "gmap_ok (ga_users (gather drained batch))"
  "amount up (gget0 zero_bytes (ga_users (gather drained batch)) u) = row_sum ''user'' u up batch"
proof -
  define g where "g = fold note_drained drained \<lparr>ga_onlines = no_onlines, ga_users = [], ga_delta = []\<rparr>"
  have "gmap_ok (ga_users g) \<and> gget0 zero_bytes (ga_users g) u = zero_bytes"
    unfolding g_def by (rule note_drained_fold) (simp_all add: gget0_def)
  moreover have "ga_users (gather drained batch) = fold charge batch (ga_users g)" by (simp add: gather_def g_def Let_def)
  ultimately show "gmap_ok (ga_users (gather drained batch))"
    "amount up (gget0 zero_bytes (ga_users (gather drained batch)) u) = row_sum ''user'' u up batch"
    using charge_fold [of "ga_users g" batch up u] by simp_all
qed

text \<open>The updates, client by client.\<close>

definition credited :: "int \<Rightarrow> (string, user_bytes) gomap \<Rightarrow> client \<Rightarrow> client" where
  "credited now users c =
     (case gget users (c_name c) of
        None \<Rightarrow> c
      | Some t \<Rightarrow> c\<lparr>c_online_at := now, c_up := (if ub_up t > 0 then c_up c + ub_up t else c_up c),
                    c_down := (if ub_down t > 0 then c_down c + ub_down t else c_down c)\<rparr>)"

lemma update_clients_credited:
  assumes "gmap_ok users" and "update_clients fails now users cs = Inr cs'"
  shows "cs' = map (credited now users) cs"
  using assms
proof (induction users arbitrary: cs)
  case (Cons nt users)
  obtain n t where nt: "nt = (n, t)" by force
  have "update_clients fails now users (update_traffic now nt cs) = Inr cs'"
    using Cons.prems(2) by (simp add: update_clients_def split: if_splits)
  from Cons.IH [OF _ this] Cons.prems(1) have "cs' = map (credited now users) (update_traffic now nt cs)" by simp
  moreover have "gget users n = None" using Cons.prems(1) by (simp add: nt map_of_eq_None_iff)
  ultimately show ?case by (auto simp: nt update_traffic_def credited_def)
next
  case Nil
  have "map (credited now []) cs = cs" by (rule map_idI) (simp add: credited_def)
  with Nil show ?case by (simp add: update_clients_def)
qed

definition client_amount :: "client list \<Rightarrow> string \<Rightarrow> bool \<Rightarrow> int" where
  "client_amount cs u up = (case find (\<lambda>c. c_name c = u) cs of None \<Rightarrow> 0 | Some c \<Rightarrow> if up then c_up c else c_down c)"

lemma client_amount_credited:
  assumes "u \<in> c_name ` set cs" and "\<And>up. 0 \<le> amount up (gget0 zero_bytes users u)"
  shows "client_amount (map (credited now users) cs) u up = client_amount cs u up + amount up (gget0 zero_bytes users u)"
  using assms
proof (induction cs)
  case (Cons c cs)
  have name: "c_name (credited now users c) = c_name c" for c by (simp add: credited_def split: option.splits)
  show ?case
  proof (cases "c_name c = u")
    case True
    then show ?thesis using Cons.prems(2) [of True] Cons.prems(2) [of False]
      by (auto simp: client_amount_def name credited_def amount_def gget0_def zero_bytes_def split: option.splits)
  next
    case False
    then show ?thesis using Cons by (auto simp: client_amount_def name)
  qed
qed simp

section \<open>The end of a flush\<close>

text \<open>What a row contributes, whatever date and id it carries.\<close>

definition weight :: "stat_row \<Rightarrow> (string \<times> string \<times> bool) \<times> int" where
  "weight r = (stat_key r, st_traffic r)"

lemma row_sum_weight: "map weight xs = map weight ys \<Longrightarrow> row_sum res tag up xs = row_sum res tag up ys"
proof -
  have "row_sum res tag up xs = sum_list (map snd (filter (\<lambda>w. fst w = (res, tag, up)) (map weight xs)))" for xs
    by (induction xs) (simp_all add: row_sum_def weight_def stat_key_def)
  then show "map weight xs = map weight ys \<Longrightarrow> row_sum res tag up xs = row_sum res tag up ys" by simp
qed

lemma rows_ok_weight: "map weight xs = map weight ys \<Longrightarrow> rows_ok ys \<Longrightarrow> rows_ok xs"
proof -
  have "rows_ok xs = list_all (\<lambda>w. 0 \<le> snd w) (map weight xs)" for xs by (simp add: rows_ok_def weight_def list_all_iff)
  then show "map weight xs = map weight ys \<Longrightarrow> rows_ok ys \<Longrightarrow> rows_ok xs" by simp
qed

lemma upsert_stat_weight:
  "map weight (fst (fold upsert_stat rows bd)) = map weight (fst bd) @ map weight rows"
  "sd_clients (snd (fold upsert_stat rows bd)) = sd_clients (snd bd)"
proof -
  have "map weight (fst (upsert_stat r bd)) = map weight (fst bd) @ [weight r] \<and> sd_clients (snd (upsert_stat r bd)) = sd_clients (snd bd)" for r bd
    by (cases bd) (auto simp: upsert_stat_def weight_def stat_key_def Let_def split: option.splits)
  then show "map weight (fst (fold upsert_stat rows bd)) = map weight (fst bd) @ map weight rows"
    "sd_clients (snd (fold upsert_stat rows bd)) = sd_clients (snd bd)"
    by (induction rows arbitrary: bd) simp_all
qed

lemma upsert_target_rest:
  "sd_clients (snd (fold upsert_target rows bd)) = sd_clients (snd bd)" "sd_stats (snd (fold upsert_target rows bd)) = sd_stats (snd bd)"
  "sd_next_stat (snd (fold upsert_target rows bd)) = sd_next_stat (snd bd)"
proof -
  have "sd_clients (snd (upsert_target r bd)) = sd_clients (snd bd) \<and> sd_stats (snd (upsert_target r bd)) = sd_stats (snd bd)
    \<and> sd_next_stat (snd (upsert_target r bd)) = sd_next_stat (snd bd)" for r bd
    by (cases bd) (auto simp: upsert_target_def Let_def split: option.splits)
  then show "sd_clients (snd (fold upsert_target rows bd)) = sd_clients (snd bd)" "sd_stats (snd (fold upsert_target rows bd)) = sd_stats (snd bd)"
    "sd_next_stat (snd (fold upsert_target rows bd)) = sd_next_stat (snd bd)"
    by (induction rows arbitrary: bd) simp_all
qed

text \<open>The rows a flush writes to the history.\<close>

definition stamped :: "int \<Rightarrow> int \<Rightarrow> stat_row list \<Rightarrow> stat_row list" where
  "stamped bucketSeconds now batch = map (\<lambda>r. r\<lparr>st_date_time := stats_bucket bucketSeconds now\<rparr>) batch"

lemma insert_history_facts:
  assumes "insert_history fails b now batch targets d = ((batch', targets'), r)"
  shows "map weight batch' = map weight batch"
    and "r = Inr d' \<Longrightarrow> sd_clients d' = sd_clients d \<and> sd_stats d' = sd_stats (snd (fold upsert_stat (stamped b now batch) ([], d)))
      \<and> sd_next_stat d' = sd_next_stat (snd (fold upsert_stat (stamped b now batch) ([], d)))"
    and "(\<And>st. \<not> fails st) \<Longrightarrow> \<exists>d'. r = Inr d'"
proof -
  define bd where "bd = fold upsert_stat (stamped b now batch) ([], d)"
  have stamp: "map weight (stamped b now batch) = map weight batch" by (simp add: stamped_def weight_def stat_key_def)
  have bd: "map weight (fst bd) = map weight batch" "sd_clients (snd bd) = sd_clients d"
    unfolding bd_def by (simp_all add: upsert_stat_weight stamp)
  define targets1 where "targets1 = map (\<lambda>r. r\<lparr>tg_date_time := now - go_rem now 3600\<rparr>) targets"
  have h: "insert_history fails b now batch targets d =
    (if batch \<noteq> [] \<and> fails TInsertStats then ((stamped b now batch, targets), Inl EDb)
     else if targets \<noteq> [] \<and> fails TInsertTargets then ((fst bd, targets1), Inl EDb)
     else ((fst bd, fst (fold upsert_target targets1 ([], snd bd))), Inr (snd (fold upsert_target targets1 ([], snd bd)))))"
    by (simp add: insert_history_def Let_def stamped_def bd_def targets1_def split_beta)
  show "map weight batch' = map weight batch" using assms h stamp bd(1) by (auto split: if_splits)
  show "r = Inr d' \<Longrightarrow> sd_clients d' = sd_clients d \<and> sd_stats d' = sd_stats (snd (fold upsert_stat (stamped b now batch) ([], d)))
      \<and> sd_next_stat d' = sd_next_stat (snd (fold upsert_stat (stamped b now batch) ([], d)))"
    using assms h bd(2) by (auto simp: upsert_target_rest simp flip: bd_def split: if_splits)
  show "(\<And>st. \<not> fails st) \<Longrightarrow> \<exists>d'. r = Inr d'" using assms h by (auto split: if_splits)
qed

lemma keepPending_id: "length xs \<le> maxPendingStats \<Longrightarrow> keepPendingLocked xs = xs"
  by (simp add: keepPendingLocked_def)

text \<open>Either the batch is held back and the tables stay, or they are replaced and nothing is held.\<close>

lemma end_flush_cases:
  assumes "end_flush fails ((batch, targets), r) s = (e, s')" and "length batch \<le> maxPendingStats" and "ss_pending s = []"
  obtains (held) "ss_pending s' = batch" "ss_db s' = ss_db s" "ss_core s' = ss_core s" "ss_inbound s' = ss_inbound s" "ss_seeded s' = ss_seeded s"
      "fails TCommit \<or> (\<exists>e. r = Inl e)"
    | (written) d where "r = Inr d" "\<not> fails TCommit" "s' = s\<lparr>ss_db := d\<rparr>" "e = None"
proof (cases "\<exists>d. r = Inr d \<and> \<not> fails TCommit")
  case True
  then show thesis using assms(1) by (auto simp: end_flush_def Let_def intro: written)
next
  case False
  have "s' = (if targets \<noteq> [] then holdPendingTargets targets (holdPending batch s) else holdPending batch s)"
    using False assms(1) by (cases r) (auto simp: end_flush_def Let_def)
  moreover have "fails TCommit \<or> (\<exists>e. r = Inl e)" using False by (cases r) auto
  ultimately show thesis
    using assms(2,3) by (intro held) (simp_all add: holdPending_def holdPendingTargets_def keepPending_id)
qed

end
