(* ===== verification/StatsFlush.thy ===== *)
theory StatsFlush
  imports StatsInv
begin

text \<open>
  The guarantees of a whole flush, of carrying counters over a restart, and of the tables behind them.
\<close>

section \<open>A flush in three outcomes\<close>

lemma addInboundTraffic_rest:
  "addInboundTraffic fails delta s = s\<lparr>ss_inbound := ss_inbound (addInboundTraffic fails delta s), ss_seeded := ss_seeded (addInboundTraffic fails delta s)\<rparr>"
  by (simp add: addInboundTraffic_def seedInboundTrafficLocked_def)

text \<open>The batch of a flush: what was owed and what the core had counted.\<close>

definition flush_drain :: "bool \<Rightarrow> int \<Rightarrow> int \<Rightarrow> stats_state \<Rightarrow> stat_row list" where
  "flush_drain en dt dt' s = fst (fst (drain_core en dt dt' s))"

definition flush_batch :: "bool \<Rightarrow> int \<Rightarrow> int \<Rightarrow> stats_state \<Rightarrow> stat_row list" where
  "flush_batch en dt dt' s =
     (if ss_pending s = [] then flush_drain en dt dt' s else mergeStats (ss_pending s @ flush_drain en dt dt' s))"

definition room :: "bool \<Rightarrow> int \<Rightarrow> int \<Rightarrow> stats_state \<Rightarrow> bool" where
  "room en dt dt' s \<longleftrightarrow> length (ss_pending s) + length (flush_drain en dt dt' s) \<le> maxPendingStats"

lemma flush_batch_facts:
  assumes "core_ok s" and "rows_ok (ss_pending s)"
  shows "row_sum res tag up (flush_batch en dt dt' s) = row_sum res tag up (ss_pending s) + row_sum res tag up (flush_drain en dt dt' s)"
    and "rows_ok (flush_batch en dt dt' s)" and "\<forall>r \<in> set (flush_batch en dt dt' s). st_id r = 0"
    and "room en dt dt' s \<Longrightarrow> length (flush_batch en dt dt' s) \<le> maxPendingStats"
proof -
  obtain dr tg s1 where d: "drain_core en dt dt' s = ((dr, tg), s1)" by (metis surj_pair)
  have dr: "flush_drain en dt dt' s = dr" by (simp add: flush_drain_def d)
  note f = drain_core_facts [OF d assms(1)]
  have ok: "rows_ok dr" "\<forall>r \<in> set dr. st_id r = 0" using f(3) by (auto simp: rows_ok_def order.strict_implies_order)
  have p: "ss_pending s1 = ss_pending s" using f(5) by (metis stats_state.ext_inject stats_state.select_convs(3) stats_state.surjective stats_state.update_convs(1))
  obtain ta where t: "take_batch dr tg s1 = ((flush_batch en dt dt' s, ta), s1\<lparr>ss_pending := [], ss_pending_targets := []\<rparr>)"
    by (simp add: take_batch_def takePending_def takePendingTargets_def flush_batch_def p dr)
  note b = take_batch_facts [OF t, unfolded p, OF assms(2) ok]
  show "row_sum res tag up (flush_batch en dt dt' s) = row_sum res tag up (ss_pending s) + row_sum res tag up (flush_drain en dt dt' s)"
    "rows_ok (flush_batch en dt dt' s)" "\<forall>r \<in> set (flush_batch en dt dt' s). st_id r = 0"
    using b(1-3) by (simp_all add: dr)
  show "room en dt dt' s \<Longrightarrow> length (flush_batch en dt dt' s) \<le> maxPendingStats" using b(4) by (simp add: room_def dr)
qed

lemma upsert_stat_cong:
  assumes "sd_stats d = sd_stats d'" and "sd_next_stat d = sd_next_stat d'"
  shows "sd_stats (snd (fold upsert_stat rows (acc, d))) = sd_stats (snd (fold upsert_stat rows (acc, d')))
    \<and> sd_next_stat (snd (fold upsert_stat rows (acc, d))) = sd_next_stat (snd (fold upsert_stat rows (acc, d')))"
  using assms
proof (induction rows arbitrary: acc d d')
  case (Cons r rows)
  obtain x e where x: "upsert_stat r (acc, d) = (x, e)" by force
  obtain x' e' where x': "upsert_stat r (acc, d') = (x', e')" by force
  have "x = x'" "sd_stats e = sd_stats e'" "sd_next_stat e = sd_next_stat e'"
    using x x' Cons.prems by (auto simp: upsert_stat_def Let_def split: option.splits if_splits)
  then show ?case using Cons.IH [of e e' x'] by (simp add: x x')
qed simp

text \<open>
  A flush finds nothing to do, or holds its batch back and leaves the tables alone, or writes all of it.
\<close>

lemma SaveStats_cases:
  assumes "SaveStats fails en b dt dt' now s = (e, s')" and "core_ok s" and "rows_ok (ss_pending s)" and "room en dt dt' s"
  defines "batch \<equiv> flush_batch en dt dt' s" and "g \<equiv> gather (flush_drain en dt dt' s) (flush_batch en dt dt' s)"
  obtains (idle) "batch = []" "ss_db s' = ss_db s" "ss_pending s' = []" "ss_inbound s' = ss_inbound s" "ss_seeded s' = ss_seeded s"
      "ss_core s' = ss_core (snd (drain_core en dt dt' s))" "e = None"
    | (held) "map weight (ss_pending s') = map weight batch" "ss_db s' = ss_db s"
      "ss_inbound s' = ss_inbound (addInboundTraffic fails (ga_delta g) s)" "ss_seeded s' = ss_seeded (addInboundTraffic fails (ga_delta g) s)"
      "ss_core s' = ss_core (snd (drain_core en dt dt' s))" "\<exists>st. fails st"
    | (written) "ss_pending s' = []" "sd_clients (ss_db s') = map (credited now (ga_users g)) (sd_clients (ss_db s))"
      "en \<Longrightarrow> sd_stats (ss_db s') = sd_stats (snd (fold upsert_stat (stamped b now batch) ([], ss_db s)))
        \<and> sd_next_stat (ss_db s') = sd_next_stat (snd (fold upsert_stat (stamped b now batch) ([], ss_db s)))"
      "\<not> en \<Longrightarrow> sd_stats (ss_db s') = sd_stats (ss_db s) \<and> sd_next_stat (ss_db s') = sd_next_stat (ss_db s)"
      "ss_inbound s' = ss_inbound (addInboundTraffic fails (ga_delta g) s)" "ss_seeded s' = ss_seeded (addInboundTraffic fails (ga_delta g) s)"
      "ss_core s' = ss_core (snd (drain_core en dt dt' s))" "e = None"
proof -
  obtain dr tg s1 where d: "drain_core en dt dt' s = ((dr, tg), s1)" by (metis surj_pair)
  have dr: "flush_drain en dt dt' s = dr" and core: "snd (drain_core en dt dt' s) = s1" by (simp_all add: flush_drain_def d)
  have s1: "s1 = s\<lparr>ss_core := ss_core s1\<rparr>" using drain_core_facts(5) [OF d assms(2)] .
  define st1 where "st1 = ss_core s1"
  have s1: "s1 = s\<lparr>ss_core := st1\<rparr>" using s1 st1_def by simp
  define s2 where "s2 = s\<lparr>ss_core := st1, ss_pending := [], ss_pending_targets := []\<rparr>"
  obtain ta where t: "take_batch dr tg s1 = ((batch, ta), s2)"
    by (simp add: take_batch_def takePending_def takePendingTargets_def batch_def flush_batch_def dr s1 s2_def)
  have len: "length batch \<le> maxPendingStats" unfolding batch_def by (rule flush_batch_facts(4) [OF assms(2-4)])
  have g: "gather dr batch = g" by (simp add: g_def dr batch_def)
  show thesis
  proof (cases "batch = [] \<and> ta = []")
    case True
    then have "s' = s2\<lparr>ss_onlines := no_onlines\<rparr>" "e = None" using assms(1) by (simp_all add: SaveStats_def d t)
    then show thesis by - (rule idle, use True in \<open>simp_all add: s2_def core s1\<close>)
  next
    case False
    define s3 where "s3 = addInboundTraffic fails (ga_delta g) (s2\<lparr>ss_onlines := ga_onlines g\<rparr>)"
    have s3: "ss_inbound s3 = ss_inbound (addInboundTraffic fails (ga_delta g) s)" "ss_seeded s3 = ss_seeded (addInboundTraffic fails (ga_delta g) s)"
      "ss_db s3 = ss_db s" "ss_core s3 = st1" "ss_pending s3 = []"
      unfolding s3_def addInboundTraffic_def seedInboundTrafficLocked_def s2_def by simp_all
    define out where "out = (case update_clients fails now (ga_users g) (sd_clients (ss_db s)) of Inl e \<Rightarrow> ((batch, ta), Inl e)
      | Inr cs \<Rightarrow> if \<not> en then ((batch, ta), Inr ((ss_db s)\<lparr>sd_clients := cs\<rparr>))
         else insert_history fails b now batch ta ((ss_db s)\<lparr>sd_clients := cs\<rparr>))"
    have flush: "end_flush fails out s3 = (e, s')"
    proof -
      have "SaveStats fails en b dt dt' now s = end_flush fails (case update_clients fails now (ga_users g) (sd_clients (ss_db s3)) of Inl e \<Rightarrow> ((batch, ta), Inl e)
        | Inr cs \<Rightarrow> let d = (ss_db s3)\<lparr>sd_clients := cs\<rparr> in if \<not> en then ((batch, ta), Inr d) else insert_history fails b now batch ta d) s3"
        unfolding SaveStats_def d t split Let_def g s3_def using False by (simp only: if_False)
      then show ?thesis using assms(1) unfolding out_def s3(3) Let_def by simp
    qed
    obtain batch' ta' r where o': "out = ((batch', ta'), r)" by (metis surj_pair)
    have w: "map weight batch' = map weight batch"
      using o' insert_history_facts(1) by (auto simp: out_def split: sum.splits if_splits)
    then have len': "length batch' \<le> maxPendingStats" using len by (metis length_map)
    show thesis
    proof (rule end_flush_cases [OF flush [unfolded o'] len' s3(5)])
      assume h: "ss_pending s' = batch'" "ss_db s' = ss_db s3" "ss_core s' = ss_core s3" "ss_inbound s' = ss_inbound s3" "ss_seeded s' = ss_seeded s3"
        "fails TCommit \<or> (\<exists>e. r = Inl e)"
      have "\<exists>st. fails st"
      proof (rule ccontr)
        assume no: "\<nexists>st. fails st"
        then have "update_clients fails now us cs = Inr (fold (update_traffic now) us cs)" for us cs
          by (induction us arbitrary: cs) (simp_all add: update_clients_def)
        then have "\<exists>d'. r = Inr d'"
          using o' no insert_history_facts(3) [of fails b now batch ta _ batch' ta' r] by (cases en) (auto simp: out_def)
        then obtain d' where "r = Inr d'" ..
        then show False using h(6) no by simp
      qed
      then show thesis using h w by (intro held) (simp_all add: s3 core st1_def)
    next
      fix d'
      assume wr: "r = Inr d'" "\<not> fails TCommit" "s' = s3\<lparr>ss_db := d'\<rparr>" "e = None"
      obtain cs where cs: "update_clients fails now (ga_users g) (sd_clients (ss_db s)) = Inr cs"
        using o' wr(1) by (cases "update_clients fails now (ga_users g) (sd_clients (ss_db s))") (auto simp: out_def)
      have credit: "cs = map (credited now (ga_users g)) (sd_clients (ss_db s))"
        using update_clients_credited [OF _ cs] gather_users(1) by (simp add: g_def)
      let ?d = "(ss_db s)\<lparr>sd_clients := cs\<rparr>"
      have no: "\<not> en \<Longrightarrow> d' = ?d" and yes: "en \<Longrightarrow> insert_history fails b now batch ta ?d = ((batch', ta'), Inr d')"
        using o' wr(1) by (auto simp: out_def cs)
      have cl: "sd_clients d' = cs" using no insert_history_facts(2) [OF yes, of d'] by (cases en) simp_all
      show thesis
      proof (rule written)
        show "sd_clients (ss_db s') = map (credited now (ga_users g)) (sd_clients (ss_db s))" by (simp add: wr(3) cl credit)
        show "sd_stats (ss_db s') = sd_stats (snd (fold upsert_stat (stamped b now batch) ([], ss_db s)))
          \<and> sd_next_stat (ss_db s') = sd_next_stat (snd (fold upsert_stat (stamped b now batch) ([], ss_db s)))" if en
          using insert_history_facts(2) [OF yes [OF that], of d'] upsert_stat_cong [of ?d "ss_db s"] by (simp add: wr(3))
        show "sd_stats (ss_db s') = sd_stats (ss_db s) \<and> sd_next_stat (ss_db s') = sd_next_stat (ss_db s)" if "\<not> en"
          using no [OF that] by (simp add: wr(3))
      qed (simp_all add: wr(3,4) s3 core st1_def)
    qed
  qed
qed

section \<open>No byte of a client is lost or counted twice\<close>

text \<open>Where the traffic of a user can be: in its client's row, among the rows owed, in the core.\<close>

definition ledger :: "stats_state \<Rightarrow> string \<Rightarrow> bool \<Rightarrow> int" where
  "ledger s u up = client_amount (sd_clients (ss_db s)) u up + row_sum ''user'' u up (ss_pending s) + held_core s u up"

lemma row_sum_nonneg: "rows_ok rows \<Longrightarrow> 0 \<le> row_sum res tag up rows"
  by (auto simp: rows_ok_def row_sum_def intro!: sum_list_nonneg)

theorem flush_ledger:
  assumes "SaveStats fails en b dt dt' now s = (e, s')" and "core_ok s" and "rows_ok (ss_pending s)" and "room en dt dt' s"
    and "u \<in> c_name ` set (sd_clients (ss_db s))"
  shows "ledger s' u up = ledger s u up"
    and "core_ok s'" and "rows_ok (ss_pending s')" and "u \<in> c_name ` set (sd_clients (ss_db s'))"
    and "(\<And>st. \<not> fails st) \<Longrightarrow> e = None \<and> ss_pending s' = [] \<and> (ss_running s \<longrightarrow> held_core s' u up = 0)"
proof -
  obtain dr tg s1 where d: "drain_core en dt dt' s = ((dr, tg), s1)" by (metis surj_pair)
  have dr: "flush_drain en dt dt' s = dr" and core: "snd (drain_core en dt dt' s) = s1" by (simp_all add: flush_drain_def d)
  note f = drain_core_facts [OF d assms(2)] and b = flush_batch_facts [OF assms(2,3)]
  let ?batch = "flush_batch en dt dt' s" and ?g = "gather (flush_drain en dt dt' s) (flush_batch en dt dt' s)"
  have owed: "row_sum ''user'' u up ?batch + held_core s1 u up = row_sum ''user'' u up (ss_pending s) + held_core s u up"
    using f(1) [of u up] b(1) [of "''user''" u up] by (simp add: dr)
  have same: "core_ok s' \<and> held_core s' u up = held_core s1 u up" if "ss_core s' = ss_core s1"
    using f(2) that by (simp add: core_ok_def held_core_def)
  have name: "c_name (credited now us c) = c_name c" for us c by (simp add: credited_def split: option.splits)
  from assms(1-4) have "ledger s' u up = ledger s u up \<and> core_ok s' \<and> rows_ok (ss_pending s') \<and> u \<in> c_name ` set (sd_clients (ss_db s')) \<and>
    ((\<forall>st. \<not> fails st) \<longrightarrow> e = None \<and> ss_pending s' = [] \<and> (ss_running s \<longrightarrow> held_core s' u up = 0))"
  proof (cases rule: SaveStats_cases)
    case idle
    then show ?thesis using same owed assms(5) f(4) [of u up] by (auto simp: core ledger_def rows_ok_def)
  next
    case held
    have "row_sum ''user'' u up (ss_pending s') = row_sum ''user'' u up ?batch" using held(1) by (rule row_sum_weight)
    moreover have "rows_ok (ss_pending s')" using held(1) b(2) by (rule rows_ok_weight)
    ultimately show ?thesis using held same owed assms(5) by (auto simp: core ledger_def)
  next
    case written
    have "0 \<le> amount up (gget0 zero_bytes (ga_users ?g) u)" for up
      unfolding gather_users(2) by (rule row_sum_nonneg [OF b(2)])
    from client_amount_credited [OF assms(5) this, of now up]
    have "client_amount (sd_clients (ss_db s')) u up = client_amount (sd_clients (ss_db s)) u up + row_sum ''user'' u up ?batch"
      by (simp add: written(2) gather_users(2))
    moreover have "u \<in> c_name ` set (sd_clients (ss_db s'))" using assms(5) by (simp add: written(2) image_image name)
    ultimately show ?thesis using written(1,7,8) same owed f(4) [of u up] by (auto simp: core ledger_def rows_ok_def)
  qed
  then show "ledger s' u up = ledger s u up"
    and "core_ok s'" and "rows_ok (ss_pending s')" and "u \<in> c_name ` set (sd_clients (ss_db s'))"
    and "(\<And>st. \<not> fails st) \<Longrightarrow> e = None \<and> ss_pending s' = [] \<and> (ss_running s \<longrightarrow> held_core s' u up = 0)" by blast+
qed

theorem carry_ledger:
  assumes "core_ok s" and "length (ss_pending s) + length (fst (tracker_GetStats dt st)) \<le> maxPendingStats" and "ss_core s = Some st"
  shows "ledger (carryOverStats fails dt dt' s) u up = ledger s u up"
proof -
  obtain dr st1 where g: "tracker_GetStats dt st = (dr, st1)" by force
  obtain tg st2 where t: "tracker_GetTargetStats dt' st1 = (tg, st2)" by force
  have ok: "gmap_ok (sk_users st)" "counters_pos (sk_users st)" using assms(1,3) by (simp_all add: core_ok_def)
  define s2 where "s2 = (if dr \<noteq> [] then carryPending dr (addInboundTraffic fails (inbound_delta dr) (s\<lparr>ss_core := Some st1\<rparr>)) else s\<lparr>ss_core := Some st1\<rparr>)"
  have s2: "ss_pending s2 = ss_pending s @ dr" "ss_db s2 = ss_db s"
    using assms(2) unfolding s2_def carryPending_def
    by (subst addInboundTraffic_rest; simp add: g keepPending_id)+
  have c: "carryOverStats fails dt dt' s = (if tg \<noteq> [] then carryPendingTargets tg (s2\<lparr>ss_core := Some st2\<rparr>) else s2\<lparr>ss_core := Some st2\<rparr>)"
    by (simp add: carryOverStats_def assms(3) g t s2_def)
  have "held st2 u up = 0" using GetStats_facts(3) [OF g, of u up] t GetTargetStats_fields(1) [of dt' st1] by (simp add: held_def)
  with row_sum_GetStats [OF ok g, of u up] show ?thesis
    by (simp add: c carryPendingTargets_def ledger_def held_core_def assms(3) s2)
qed

section \<open>The history table\<close>

definition bucket_key :: "stat_row \<Rightarrow> (string \<times> string \<times> bool) \<times> int" where
  "bucket_key r = (stat_key r, st_date_time r)"

definition history_ok :: "stats_db \<Rightarrow> bool" where
  "history_ok d \<longleftrightarrow> distinct (map bucket_key (sd_stats d)) \<and> distinct (map st_id (sd_stats d)) \<and>
     0 < sd_next_stat d \<and> (\<forall>r \<in> set (sd_stats d). 0 < st_id r \<and> st_id r < sd_next_stat d)"

lemma same_bucket_iff: "same_bucket a b \<longleftrightarrow> bucket_key a = bucket_key b"
  by (auto simp: same_bucket_def bucket_key_def)

lemma row_sum_add_one:
  assumes "distinct (map bucket_key rows)" and "old \<in> set rows" and "bucket_key r = bucket_key old"
  shows "row_sum res tag up (map (\<lambda>x. if same_bucket r x then x\<lparr>st_traffic := st_traffic x + st_traffic r\<rparr> else x) rows)
    = row_sum res tag up rows + row_sum res tag up [r]"
  using assms
proof (induction rows)
  case (Cons x rows)
  let ?f = "\<lambda>x. if same_bucket r x then x\<lparr>st_traffic := st_traffic x + st_traffic r\<rparr> else x"
  have cons: "row_sum res tag up (y # ys) = row_sum res tag up [y] + row_sum res tag up ys" for y ys by (simp add: row_sum_def)
  show ?case
  proof (cases "bucket_key x = bucket_key r")
    case True
    then have "bucket_key r \<notin> bucket_key ` set rows" using Cons.prems(1) by simp
    then have "\<not> same_bucket r y" if "y \<in> set rows" for y using that by (metis imageI same_bucket_iff)
    then have "map ?f rows = rows" by (intro map_idI) simp
    moreover have "row_sum res tag up [?f x] = row_sum res tag up [x] + row_sum res tag up [r]"
    proof -
      have "same_bucket r x" "stat_key x = stat_key r" using True by (simp_all add: same_bucket_iff bucket_key_def)
      moreover have "stat_key (x\<lparr>st_traffic := t\<rparr>) = stat_key x" for t by (simp add: stat_key_def)
      ultimately show ?thesis by (simp add: row_sum_key)
    qed
    ultimately show ?thesis unfolding list.map cons [of "?f x" "map ?f rows"] cons [of x rows] by simp
  next
    case False
    then have "?f x = x" by (simp add: same_bucket_iff)
    moreover have "row_sum res tag up (map ?f rows) = row_sum res tag up rows + row_sum res tag up [r]" using Cons False by auto
    ultimately show ?thesis unfolding list.map cons [of "?f x" "map ?f rows"] cons [of x rows] by simp
  qed
qed simp

lemma upsert_stat_step:
  assumes "history_ok d" and "st_id r = 0" and "upsert_stat r (acc, d) = (acc', d')"
  shows "history_ok d'" and "row_sum res tag up (sd_stats d') = row_sum res tag up (sd_stats d) + row_sum res tag up [r]"
proof -
  show "history_ok d'"
  proof (cases "find (same_bucket r) (sd_stats d)")
    case None
    then have "bucket_key r \<notin> bucket_key ` set (sd_stats d)" by (auto simp: find_None_iff same_bucket_iff)
    moreover have "bucket_key (r\<lparr>st_id := n\<rparr>) = bucket_key r" for n by (simp add: bucket_key_def stat_key_def)
    moreover have "sd_next_stat d \<notin> st_id ` set (sd_stats d)" "\<forall>r \<in> set (sd_stats d). st_id r < Suc (sd_next_stat d)"
      using assms(1) by (auto simp: history_ok_def less_SucI)
    moreover have "d' = d\<lparr>sd_stats := sd_stats d @ [r\<lparr>st_id := sd_next_stat d\<rparr>], sd_next_stat := Suc (sd_next_stat d)\<rparr>"
      using assms(2,3) None by (simp add: upsert_stat_def Let_def)
    ultimately show ?thesis using assms(1) by (simp add: history_ok_def)
  next
    case (Some old)
    let ?f = "\<lambda>x. if same_bucket r x then x\<lparr>st_traffic := st_traffic x + st_traffic r\<rparr> else x"
    have "d' = d\<lparr>sd_stats := map ?f (sd_stats d)\<rparr>" using assms(3) Some by (simp add: upsert_stat_def)
    moreover have "map bucket_key (map ?f xs) = map bucket_key xs" "map st_id (map ?f xs) = map st_id xs" for xs
      by (simp_all add: bucket_key_def stat_key_def)
    moreover have "st_id (?f x) = st_id x" for x by simp
    ultimately show ?thesis using assms(1) by (auto simp: history_ok_def simp del: map_map)
  qed
  show "row_sum res tag up (sd_stats d') = row_sum res tag up (sd_stats d) + row_sum res tag up [r]"
  proof (cases "find (same_bucket r) (sd_stats d)")
    case None
    have "row_sum res tag up [r\<lparr>st_id := n\<rparr>] = row_sum res tag up [r]" for n by (simp add: row_sum_def)
    with None assms(2,3) show ?thesis by (auto simp: upsert_stat_def Let_def)
  next
    case (Some old)
    then have "old \<in> set (sd_stats d)" "bucket_key r = bucket_key old" by (auto simp: find_Some_iff same_bucket_iff)
    from row_sum_add_one [OF _ this] Some assms(1,3) show ?thesis by (auto simp: upsert_stat_def history_ok_def)
  qed
qed

lemma upsert_stat_fold:
  assumes "history_ok d" and "\<forall>r \<in> set rows. st_id r = 0"
  shows "history_ok (snd (fold upsert_stat rows (acc, d)))
    \<and> row_sum res tag up (sd_stats (snd (fold upsert_stat rows (acc, d)))) = row_sum res tag up (sd_stats d) + row_sum res tag up rows"
  using assms
proof (induction rows arbitrary: acc d)
  case (Cons r rows)
  obtain acc' d' where u: "upsert_stat r (acc, d) = (acc', d')" by force
  have cons: "row_sum res tag up (r # rows) = row_sum res tag up [r] + row_sum res tag up rows" by (simp add: row_sum_def)
  from Cons upsert_stat_step [OF Cons.prems(1) _ u] show ?case by (simp add: u cons)
qed simp

theorem flush_history:
  assumes "SaveStats fails en b dt dt' now s = (e, s')" and "core_ok s" and "rows_ok (ss_pending s)" and "room en dt dt' s"
    and "history_ok (ss_db s)"
  shows "history_ok (ss_db s')"
  using assms(1-4)
proof (cases rule: SaveStats_cases)
  case written
  let ?rows = "stamped b now (flush_batch en dt dt' s)"
  have "\<forall>r \<in> set ?rows. st_id r = 0" using flush_batch_facts(3) [OF assms(2,3)] by (simp add: stamped_def)
  with upsert_stat_fold [OF assms(5), of ?rows] written(3,4) assms(5) show ?thesis
    by (cases en) (simp_all add: history_ok_def)
qed (simp_all add: assms(5))

section \<open>Totals per inbound\<close>

definition both :: "string \<Rightarrow> stat_row list \<Rightarrow> int" where
  "both tag rows = row_sum ''inbound'' tag False rows + row_sum ''inbound'' tag True rows"

lemma both_append [simp]: "both tag (xs @ ys) = both tag xs + both tag ys"
  by (simp add: both_def)

lemma delta_fold:
  assumes "gmap_ok delta"
  shows "gget0 0 (fold (\<lambda>(tag, t) m. gput tag (gget0 0 m tag + t) m) delta m) tag = gget0 0 m tag + gget0 (0 :: int) delta tag"
  using assms
proof (induction delta arbitrary: m)
  case (Cons kt delta)
  obtain k t where kt: "kt = (k, t)" by force
  have "gget delta k = None" using Cons.prems by (simp add: kt map_of_eq_None_iff)
  with Cons show ?case by (cases "tag = k") (simp_all add: kt gget0_def)
qed (simp add: gget0_def)

lemma note_drained_delta:
  "ga_delta (note_drained r g) =
     (if st_resource r = ''inbound'' then gput (st_tag r) (gget0 0 (ga_delta g) (st_tag r) + st_traffic r) (ga_delta g) else ga_delta g)"
  by (simp add: note_drained_def)

lemma both_one: "both tag [r] = (if st_resource r = ''inbound'' \<and> st_tag r = tag then st_traffic r else 0)"
  by (simp add: both_def row_sum_def)

lemma gather_delta:
  "gmap_ok (ga_delta (gather drained batch)) \<and> gget0 0 (ga_delta (gather drained batch)) tag = both tag drained"
proof -
  have "gmap_ok (ga_delta (fold note_drained drained g)) \<and> gget0 0 (ga_delta (fold note_drained drained g)) tag = gget0 0 (ga_delta g) tag + both tag drained"
    if "gmap_ok (ga_delta g)" for g
    using that
  proof (induction drained arbitrary: g)
    case (Cons r drained)
    have "gmap_ok (ga_delta (note_drained r g))" using Cons.prems by (simp add: note_drained_delta distinct_update)
    moreover have "gget0 0 (ga_delta (note_drained r g)) tag = gget0 0 (ga_delta g) tag + both tag [r]"
      by (simp add: note_drained_delta both_one gget0_def)
    moreover have "both tag (r # drained) = both tag [r] + both tag drained" using both_append [of tag "[r]" drained] by simp
    ultimately show ?case using Cons.IH [of "note_drained r g"] by simp
  qed (simp add: both_def)
  from this [of "\<lparr>ga_onlines = no_onlines, ga_users = [], ga_delta = []\<rparr>"] show ?thesis
    by (simp add: gather_def Let_def gget0_def)
qed

text \<open>How far the published total of an inbound is from the history and the rows still owed to it.\<close>

definition total_gap :: "stats_state \<Rightarrow> string \<Rightarrow> int" where
  "total_gap s tag = gget0 0 (ss_inbound s) tag - (both tag (sd_stats (ss_db s)) + both tag (ss_pending s))"

theorem flush_total_gap:
  assumes "SaveStats fails True b dt dt' now s = (e, s')" and "core_ok s" and "rows_ok (ss_pending s)" and "room True dt dt' s"
    and "history_ok (ss_db s)" and "ss_seeded s"
  shows "total_gap s' tag = total_gap s tag" and "ss_seeded s'"
proof -
  let ?dr = "flush_drain True dt dt' s" and ?batch = "flush_batch True dt dt' s"
  let ?g = "gather ?dr ?batch"
  note b = flush_batch_facts [OF assms(2,3)]
  have batch: "both tag ?batch = both tag (ss_pending s) + both tag ?dr" by (simp add: both_def b(1))
  have total: "gget0 0 (ss_inbound (addInboundTraffic fails (ga_delta ?g) s)) tag = gget0 0 (ss_inbound s) tag + both tag ?dr"
    "ss_seeded (addInboundTraffic fails (ga_delta ?g) s)"
    using gather_delta [of ?dr ?batch tag] assms(6) by (simp_all add: addInboundTraffic_def seedInboundTrafficLocked_def delta_fold)
  have weight: "map weight xs = map weight ys \<Longrightarrow> both tag xs = both tag ys" for xs ys
    unfolding both_def using row_sum_weight [of xs ys] by simp
  from assms(1-4) have "total_gap s' tag = total_gap s tag \<and> ss_seeded s'"
  proof (cases rule: SaveStats_cases)
    case idle
    have pos: "0 \<le> both tag (ss_pending s)" "0 \<le> both tag ?dr"
    proof -
      show "0 \<le> both tag (ss_pending s)" using row_sum_nonneg [OF assms(3)] by (simp add: both_def)
      have "rows_ok ?dr"
      proof -
        obtain dr tg s1 where d: "drain_core True dt dt' s = ((dr, tg), s1)" by (metis surj_pair)
        then show ?thesis using drain_core_facts(3) [OF d assms(2)] by (auto simp: flush_drain_def rows_ok_def order.strict_implies_order)
      qed
      then show "0 \<le> both tag ?dr" using row_sum_nonneg by (simp add: both_def)
    qed
    have "both tag ?batch = 0" using idle(1) by (simp add: both_def)
    with batch pos have "both tag (ss_pending s) = 0" by linarith
    with idle assms(6) show ?thesis by (simp add: total_gap_def both_def [of tag "[]"])
  next
    case held
    then show ?thesis using total batch weight [OF held(1)] by (simp add: total_gap_def)
  next
    case written
    let ?rows = "stamped b now ?batch"
    have "\<forall>r \<in> set ?rows. st_id r = 0" using b(3) by (simp add: stamped_def)
    then have "both tag (sd_stats (ss_db s')) = both tag (sd_stats (ss_db s)) + both tag ?rows"
      using upsert_stat_fold [OF assms(5)] written(3) by (simp add: both_def)
    moreover have "both tag ?rows = both tag ?batch" by (rule weight) (simp add: stamped_def weight_def stat_key_def)
    ultimately show ?thesis using written(1,5,6) total batch by (simp add: total_gap_def both_def [of tag "[]"])
  qed
  then show "total_gap s' tag = total_gap s tag" and "ss_seeded s'" by simp_all
qed

end
