(* ===== verification/StatsQuery.thy ===== *)
theory StatsQuery
  imports StatsFlush
begin

text \<open>
  The queries over the history and the deletion of old rows, against what they are meant to compute.
\<close>

section \<open>Deleting in chunks\<close>

lemma take_filter_rest:
  assumes "distinct (map rid rows)"
  shows "filter (\<lambda>r. rid r \<notin> set (map rid (take n (filter old rows)))) rows = filter (\<lambda>r. r \<notin> set (take n (filter old rows))) rows"
proof (rule filter_cong [OF refl])
  fix r assume r: "r \<in> set rows"
  have "r = x" if "x \<in> set (take n (filter old rows))" "rid r = rid x" for x
  proof -
    have "x \<in> set rows" using that(1) by (auto dest: in_set_takeD)
    from distinct_map_eqD [OF assms r this that(2)] show ?thesis .
  qed
  then show "(rid r \<notin> set (map rid (take n (filter old rows)))) = (r \<notin> set (take n (filter old rows)))" by force
qed

lemma chunk_facts:
  assumes "distinct (map rid rows)" and "rest = filter (\<lambda>r. rid r \<notin> set (map rid (take n (filter old rows)))) rows"
  shows "length rows - length rest = min n (length (filter old rows))"
    and "filter (\<lambda>r. \<not> old r) rest = filter (\<lambda>r. \<not> old r) rows" and "length (filter old rest) = length (filter old rows) - n"
    and "distinct (map rid rest)"
proof -
  let ?v = "take n (filter old rows)"
  have rest: "rest = filter (\<lambda>r. r \<notin> set ?v) rows" using take_filter_rest [OF assms(1)] assms(2) by simp
  have "distinct rows" using assms(1) by (simp add: distinct_map)
  then have dv: "distinct ?v" by simp
  have sub: "set ?v \<subseteq> set rows" by (auto dest: in_set_takeD)
  have sum: "length (filter (\<lambda>r. r \<in> set ?v) rows) + length rest = length rows"
    unfolding rest by (rule sum_length_filter_compl)
  have lv: "length (filter (\<lambda>r. r \<in> set ?v) rows) = length ?v"
  proof -
    have "set (filter (\<lambda>r. r \<in> set ?v) rows) = set ?v" using sub by auto
    then show ?thesis using dv \<open>distinct rows\<close> by (metis distinct_card distinct_filter)
  qed
  then show "length rows - length rest = min n (length (filter old rows))" using sum by simp
  show young: "filter (\<lambda>r. \<not> old r) rest = filter (\<lambda>r. \<not> old r) rows"
    unfolding rest filter_filter by (rule filter_cong) (auto dest: in_set_takeD)
  have "length (filter old rest) + length (filter (\<lambda>r. \<not> old r) rest) = length rest"
    "length (filter old rows) + length (filter (\<lambda>r. \<not> old r) rows) = length rows" by (rule sum_length_filter_compl)+
  then show "length (filter old rest) = length (filter old rows) - n" using sum lv young by simp
  show "distinct (map rid rest)" unfolding rest using assms(1) by (simp add: distinct_map_filter)
qed

text \<open>Without a failure the loop ends with exactly the old rows gone, after the expected number of statements.\<close>

theorem del_chunks_ok:
  assumes "distinct (map rid rows)" and "\<And>n. \<not> fails n"
  shows "del_chunks fails rid old n rows = (None, n + length (filter old rows) div delOldStatsChunk + 1, filter (\<lambda>r. \<not> old r) rows)"
  using assms
proof (induction "length (filter old rows)" arbitrary: rows n rule: less_induct)
  case less
  define rest where "rest = filter (\<lambda>r. rid r \<notin> set (map rid (take delOldStatsChunk (filter old rows)))) rows"
  note f = chunk_facts [OF less.prems(1) rest_def]
  have eq: "del_chunks fails rid old n rows =
    (if length rows - length rest < delOldStatsChunk then (None, Suc n, rest) else del_chunks fails rid old (Suc n) rest)"
    by (subst del_chunks.simps) (simp add: Let_def less.prems(2) rest_def)
  show ?case
  proof (cases "length (filter old rows) < delOldStatsChunk")
    case True
    then have "length (filter old rest) = 0" using f(3) by simp
    then have "filter (\<lambda>r. \<not> old r) rest = rest" by (auto simp: filter_empty_conv intro: filter_True)
    then have "rest = filter (\<lambda>r. \<not> old r) rows" using f(2) by simp
    then show ?thesis using True f(1) by (simp add: eq)
  next
    case False
    then have "length (filter old rest) < length (filter old rows)" using f(3) by (simp add: delOldStatsChunk_def)
    from less.hyps [OF this f(4) less.prems(2)] have
      "del_chunks fails rid old (Suc n) rest = (None, Suc n + length (filter old rest) div delOldStatsChunk + 1, filter (\<lambda>r. \<not> old r) rest)" .
    moreover have "length (filter old rows) div delOldStatsChunk = Suc (length (filter old rest) div delOldStatsChunk)"
      unfolding f(3) using False by (simp add: delOldStatsChunk_def le_div_geq)
    ultimately show ?thesis using False f(1,2) by (simp add: eq)
  qed
qed

text \<open>Whatever fails, no row in its time is deleted.\<close>

lemma del_chunks_keeps:
  assumes "distinct (map rid rows)" and "del_chunks fails rid old n rows = (e, n', rows')"
  shows "filter (\<lambda>r. \<not> old r) rows' = filter (\<lambda>r. \<not> old r) rows" and "set rows' \<subseteq> set rows" and "distinct (map rid rows')"
proof -
  have "filter (\<lambda>r. \<not> old r) rows' = filter (\<lambda>r. \<not> old r) rows \<and> set rows' \<subseteq> set rows \<and> distinct (map rid rows')"
    using assms
  proof (induction "length rows" arbitrary: rows n rule: less_induct)
    case less
    define rest where "rest = filter (\<lambda>r. rid r \<notin> set (map rid (take delOldStatsChunk (filter old rows)))) rows"
    note f = chunk_facts [OF less.prems(1) rest_def]
    have sub: "set rest \<subseteq> set rows" by (auto simp: rest_def)
    have eq: "del_chunks fails rid old n rows = (if fails n then (Some EDb, n, rows)
      else if length rows - length rest < delOldStatsChunk then (None, Suc n, rest) else del_chunks fails rid old (Suc n) rest)"
      by (subst del_chunks.simps) (simp add: Let_def rest_def)
    show ?case
    proof (cases "fails n \<or> length rows - length rest < delOldStatsChunk")
      case True
      then show ?thesis using less.prems eq f(2,4) sub by (auto split: if_splits)
    next
      case False
      moreover have "0 < delOldStatsChunk" by (simp add: delOldStatsChunk_def)
      ultimately have "length rest < length rows" by linarith
      moreover have "del_chunks fails rid old (Suc n) rest = (e, n', rows')" using False less.prems(2) eq by simp
      ultimately show ?thesis using less.hyps [of rest "Suc n"] f(2,4) sub by auto
    qed
  qed
  then show "filter (\<lambda>r. \<not> old r) rows' = filter (\<lambda>r. \<not> old r) rows" and "set rows' \<subseteq> set rows" and "distinct (map rid rows')"
    by blast+
qed

section \<open>The chart\<close>

lemma bucket_starts_mem:
  assumes "0 < step"
  shows "set (bucket_starts b step now) = {x. \<exists>k. x = b + int k * step \<and> x \<le> now}"
  using assms
proof (induction b step now rule: bucket_starts.induct)
  case (1 b step now)
  show ?case
  proof (cases "now < b")
    case True
    then have "b + int k * step > now" for k using 1(2) by (smt (verit) zero_le_mult_iff of_nat_0_le_iff)
    then show ?thesis using True by (subst bucket_starts.simps) (auto simp: not_le)
  next
    case False
    have "set (bucket_starts b step now) = insert b (set (bucket_starts (b + step) step now))"
      using False 1(2) by (subst bucket_starts.simps) simp
    also have "\<dots> = insert b {x. \<exists>k. x = b + step + int k * step \<and> x \<le> now}" using 1 False by simp
    also have "\<dots> = {x. \<exists>k. x = b + int k * step \<and> x \<le> now}"
    proof (intro set_eqI iffI)
      fix x assume "x \<in> insert b {x. \<exists>k. x = b + step + int k * step \<and> x \<le> now}"
      then consider "x = b" | k where "x = b + step + int k * step" "x \<le> now" by auto
      then show "x \<in> {x. \<exists>k. x = b + int k * step \<and> x \<le> now}"
      proof cases
        case 1
        then show ?thesis using False by (auto intro!: exI [of _ 0])
      next
        case 2
        then show ?thesis by (auto intro!: exI [of _ "Suc k"] simp: algebra_simps)
      qed
    next
      fix x assume "x \<in> {x. \<exists>k. x = b + int k * step \<and> x \<le> now}"
      then obtain k where k: "x = b + int k * step" "x \<le> now" by auto
      then show "x \<in> insert b {x. \<exists>k. x = b + step + int k * step \<and> x \<le> now}"
        by (cases k) (auto simp: algebra_simps)
    qed
    finally show ?thesis .
  qed
qed

lemma bucket_starts_sorted: "0 < step \<Longrightarrow> sorted_wrt (<) (bucket_starts b step now)"
proof (induction b step now rule: bucket_starts.induct)
  case (1 b step now)
  have "b < x" if "x \<in> set (bucket_starts (b + step) step now)" for x
    using that 1(2) unfolding bucket_starts_mem [OF 1(2)] by (auto simp: add_pos_nonneg)
  then show ?case using 1 by (subst bucket_starts.simps) auto
qed

lemma gget0_bucket_rows:
  "gget0 0 (bucket_rows sec rows) k =
     sum_list (map st_traffic (filter (\<lambda>r. (go_div (st_date_time r) sec * sec, st_direction r) = k) rows))"
proof -
  have "gget (map (\<lambda>k. (k, f k)) ks) k = (if k \<in> set ks then Some (f k) else None)" for f :: "int \<times> bool \<Rightarrow> int" and ks k
    by (induction ks) auto
  moreover have "filter (\<lambda>r. key r = k) rows = []" if "k \<notin> key ` set rows" for key :: "stat_row \<Rightarrow> int \<times> bool"
    using that by (auto simp: filter_empty_conv)
  ultimately show ?thesis by (auto simp: bucket_rows_def gget0_def Let_def)
qed

text \<open>Summing the groups of rows by a key that takes its values in a list without repetition gives all rows.\<close>

lemma sum_groups:
  fixes f :: "'r \<Rightarrow> int"
  assumes "distinct ks" and "\<forall>r \<in> set rows. key r \<in> set ks"
  shows "sum_list (map (\<lambda>k. sum_list (map f (filter (\<lambda>r. key r = k) rows))) ks) = sum_list (map f rows)"
  using assms(2)
proof (induction rows)
  case (Cons r rows)
  have "sum_list (map (\<lambda>k. sum_list (map f (filter (\<lambda>x. key x = k) (r # rows)))) ks)
    = sum_list (map (\<lambda>k. (if key r = k then f r else 0) + sum_list (map f (filter (\<lambda>x. key x = k) rows))) ks)"
    by (intro arg_cong [where f = sum_list] map_cong) simp_all
  also have "\<dots> = sum_list (map (\<lambda>k. if key r = k then f r else 0) ks) + sum_list (map f rows)"
    using Cons by (simp add: sum_list_addf)
  also have "sum_list (map (\<lambda>k. if key r = k then f r else 0) ks) = f r"
    using Cons.prems assms(1) by (simp add: sum_list_map_eq_sum_count2 sum_list_distinct_conv_sum_set)
  finally show ?case by simp
qed (simp add: sum_list_triv)

lemma read_bucket_ge: "60 \<le> read_bucket sb period"
  by (simp add: read_bucket_def Let_def split: sum.splits)

lemma bucket_in_chart:
  assumes "0 < sec" and "0 \<le> start" and "start < t" and "t \<le> now"
  shows "go_div t sec * sec \<in> set (bucket_starts (go_div start sec * sec) sec now)"
proof -
  have "start div sec \<le> t div sec" using assms by (simp add: zdiv_mono1)
  then have "t div sec * sec = start div sec * sec + int (nat (t div sec - start div sec)) * sec" by (simp add: algebra_simps)
  moreover have "t div sec * sec \<le> now" using assms by (smt (verit) minus_mod_eq_div_mult pos_mod_sign)
  ultimately show ?thesis
    using assms unfolding bucket_starts_mem [OF assms(1)] by (auto intro: exI [of _ "nat (t div sec - start div sec)"])
qed

text \<open>The chart's columns are the buckets of the window, evenly spaced; together they hold the window's traffic.\<close>

theorem chart_sums:
  assumes "GetStats sb False now now' res tag period d = Inr rows"
  defines "sec \<equiv> read_bucket sb period"
  defines "start \<equiv> periodStart now' period ''hour'' sec"
  assumes "0 \<le> start"
  shows "map st_date_time (filter (\<lambda>r. st_direction r = up) rows) = bucket_starts (go_div start sec * sec) sec now"
    and "sum_list (map st_traffic (filter (\<lambda>r. st_direction r = up) rows)) =
      sum_list (map st_traffic (filter (\<lambda>r. in_window res tag start now r \<and> st_direction r = up) (sd_stats d)))"
proof -
  define bs where "bs = bucket_starts (go_div start sec * sec) sec now"
  define win where "win = filter (in_window res tag start now) (sd_stats d)"
  define val where "val = (\<lambda>b dir. gget0 0 (bucket_rows sec win) (b, dir))"
  have sec: "0 < sec" using read_bucket_ge [of sb period] by (simp add: sec_def)
  have rows: "rows = concat (map (\<lambda>b. map (\<lambda>dir. \<lparr>st_id = 0, st_date_time = b, st_resource = res, st_tag = tag, st_direction = dir, st_traffic = val b dir\<rparr>)
      [False, True]) bs)"
    using assms(1) by (simp add: GetStats_def Let_def bs_def win_def val_def sec_def start_def)
  have dir: "filter (\<lambda>r. st_direction r = up) rows =
      map (\<lambda>b. \<lparr>st_id = 0, st_date_time = b, st_resource = res, st_tag = tag, st_direction = up, st_traffic = val b up\<rparr>) bs"
    unfolding rows by (induction bs) auto
  show "map st_date_time (filter (\<lambda>r. st_direction r = up) rows) = bucket_starts (go_div start sec * sec) sec now"
    unfolding dir by (simp add: comp_def flip: bs_def)
  let ?rows = "filter (\<lambda>r. st_direction r = up) win"
  have "val b up = sum_list (map st_traffic (filter (\<lambda>r. go_div (st_date_time r) sec * sec = b) ?rows))" for b
    unfolding val_def gget0_bucket_rows filter_filter by (intro arg_cong [where f = sum_list] arg_cong [where f = "map st_traffic"] filter_cong) auto
  then have "sum_list (map st_traffic (filter (\<lambda>r. st_direction r = up) rows)) =
      sum_list (map (\<lambda>b. sum_list (map st_traffic (filter (\<lambda>r. go_div (st_date_time r) sec * sec = b) ?rows))) bs)"
    unfolding dir by (simp add: comp_def)
  also have "\<dots> = sum_list (map st_traffic ?rows)"
  proof (rule sum_groups)
    show "distinct bs" using bucket_starts_sorted [OF sec] by (simp add: bs_def strict_sorted_iff)
    show "\<forall>r \<in> set ?rows. go_div (st_date_time r) sec * sec \<in> set bs"
      using bucket_in_chart [OF sec assms(4)] by (auto simp: bs_def win_def in_window_def)
  qed
  finally show "sum_list (map st_traffic (filter (\<lambda>r. st_direction r = up) rows)) =
      sum_list (map st_traffic (filter (\<lambda>r. in_window res tag start now r \<and> st_direction r = up) (sd_stats d)))"
    by (simp add: win_def conj_commute)
qed

section \<open>The report on targets\<close>

lemma target_items_sums:
  "length (target_items rows) = length (remdups (map tg_target rows))"
  "sum_list (map ti_up (target_items rows)) = sum_list (map tg_up rows)"
  "sum_list (map ti_down (target_items rows)) = sum_list (map tg_down rows)"
proof -
  have keys: "\<forall>r \<in> set rows. tg_target r \<in> set (remdups (map tg_target rows))" by simp
  show "length (target_items rows) = length (remdups (map tg_target rows))" by (simp add: target_items_def)
  show "sum_list (map ti_up (target_items rows)) = sum_list (map tg_up rows)"
    "sum_list (map ti_down (target_items rows)) = sum_list (map tg_down rows)"
    using sum_groups [OF distinct_remdups keys, of tg_up] sum_groups [OF distinct_remdups keys, of tg_down]
    by (simp_all add: target_items_def Let_def comp_def)
qed

interpretation items: strict_order "item_less field asc"
  by unfold_locales (auto simp: item_less_def Let_def split: if_splits)

section \<open>Who is online\<close>

lemma GetClusterOnlines_users:
  assumes "GetClusterOnlines fail now statuses s = Inr r"
  shows "set (on_user r) = set (on_user (ss_onlines s)) \<union> (set (node_users now statuses) \<inter> c_name ` set (sd_clients (ss_db s)))"
    and "distinct (on_user (ss_onlines s)) \<Longrightarrow> distinct (on_user r)"
proof -
  define add where "add = (\<lambda>known name us. if name \<in> set known \<and> name \<notin> set us then us @ [name :: string] else us)"
  have fold: "set (fold (add known) ns us) = set us \<union> (set ns \<inter> set known) \<and> (distinct us \<longrightarrow> distinct (fold (add known) ns us))" for known ns us
  proof (induction ns arbitrary: us)
    case (Cons n ns)
    show ?case using Cons [of "add known n us"] by (auto simp: add_def)
  qed simp
  let ?ns = "sort (node_users now statuses)" and ?names = "map c_name (sd_clients (ss_db s))"
  have "on_user r = fold (add (filter (\<lambda>n. n \<in> set ?ns) ?names)) ?ns (on_user (ss_onlines s))"
    using assms by (auto simp: GetClusterOnlines_def Let_def add_def split: if_splits)
  then show "set (on_user r) = set (on_user (ss_onlines s)) \<union> (set (node_users now statuses) \<inter> c_name ` set (sd_clients (ss_db s)))"
    and "distinct (on_user (ss_onlines s)) \<Longrightarrow> distinct (on_user r)"
    using fold [of "filter (\<lambda>n. n \<in> set ?ns) ?names" ?ns "on_user (ss_onlines s)"] by auto
qed

end
