(* ===== verification/StatsProps.thy ===== *)
theory StatsProps
  imports StatsQuery
begin

text \<open>
  The properties of traffic accounting, from the core's counters to the charts.
\<close>

section \<open>A run and a state\<close>

definition sx_ops :: "meter_op list" where
  "sx_ops = [MRoute ''in'' ''direct'' ''alice'' ''example.org'', MCount 0 100 2000, MSample 3 2, MCount 0 10 0, MFlush 1700000000,
     MCount 0 1 1, MSample 6 2]"

definition sx_idle :: "meter_op list" where
  "sx_idle = [MRoute ''in'' ''direct'' ''alice'' ''example.org'', MCount 0 100 2000, MClose 0] @ map MTargets [1, 2, 3, 4, 5, 6]"

definition sx_tracker :: stats_tracker where
  "sx_tracker = mt_tracker (meter_run 0 [MRoute ''in'' ''direct'' ''alice'' ''example.org'', MCount 0 100 2000])"

definition sx_row :: "nat \<Rightarrow> int \<Rightarrow> string \<Rightarrow> string \<Rightarrow> bool \<Rightarrow> int \<Rightarrow> stat_row" where
  "sx_row i t res tag up n = \<lparr>st_id = i, st_date_time = t, st_resource = res, st_tag = tag, st_direction = up, st_traffic = n\<rparr>"

definition sx_target :: "nat \<Rightarrow> int \<Rightarrow> string \<Rightarrow> int \<Rightarrow> int \<Rightarrow> target_row" where
  "sx_target i t tg up dn = \<lparr>tg_id = i, tg_date_time = t, tg_user = ''alice'', tg_target = tg, tg_up = up, tg_down = dn\<rparr>"

definition sx_db :: stats_db where
  "sx_db = \<lparr>sd_clients = [zero_client\<lparr>c_id := 1, c_name := ''alice'', c_up := 5\<rparr>],
     sd_stats = [sx_row 1 1700000040 ''inbound'' ''in'' True 11, sx_row 2 1700003000 ''inbound'' ''in'' True 13],
     sd_targets = [sx_target 1 1700000000 ''a.org'' 1 2, sx_target 2 1700000000 ''b.org'' 30 40, sx_target 3 1700003600 ''a.org'' 5 6],
     sd_next_stat = 3, sd_next_target = 4\<rparr>"

definition sx_state :: stats_state where
  "sx_state = \<lparr>ss_core = Some sx_tracker, ss_running = True, ss_pending = [sx_row 9 1700003000 ''user'' ''alice'' True 7],
     ss_pending_targets = [], ss_onlines = no_onlines, ss_inbound = [(''in'', 24)], ss_seeded = True, ss_db = sx_db\<rparr>"

definition sx_query :: target_query where
  "sx_query = \<lparr>tq_user = ''alice'', tq_period = ''day'', tq_search = [], tq_sort = ''down'', tq_order = ''asc'', tq_page = 1, tq_limit = 1\<rparr>"

lemma sx_history: "history_ok (ss_db sx_state)" by code_simp

section \<open>Properties\<close>

text \<open>
  C13. Two readers share a user's counter and neither takes anything from the other: in every run of
  connections, flushes and rate samples, in any order, the bytes the user's connections carried are the rows of the
  flushes plus what the counter still holds, and also the deltas of the samples plus what the next sample
  will report.
\<close>

theorem both_readers_see_every_byte:
  assumes "u \<noteq> []" and "m = meter_run now ops"
  shows "log_sum u up (mt_log m) = row_sum ''user'' u up (mt_rows m) + held (mt_tracker m) u up \<and>
    log_sum u up (mt_log m) = moved_sum u up (mt_moved m) + owed (mt_tracker m) u up"
  using meter_okD(5,6) [OF meter_ok_run assms(1)] assms(2) by blast

theorem both_readers_see_every_byte_witness:
  "row_sum ''user'' ''alice'' True (mt_rows (meter_run 0 sx_ops)) = 110 \<and> moved_sum ''alice'' True (mt_moved (meter_run 0 sx_ops)) = 111"
proof -
  have "log_sum ''alice'' True (mt_log (meter_run 0 sx_ops)) = 111" "held (mt_tracker (meter_run 0 sx_ops)) ''alice'' True = 1"
    "owed (mt_tracker (meter_run 0 sx_ops)) ''alice'' True = 0" by code_simp+
  with both_readers_see_every_byte [of "''alice''" _ 0 sx_ops True, OF _ refl] show ?thesis by simp
qed

text \<open>
  A target's counter is dropped only when it has reported everything and no open connection holds it,
  so a connection never counts into a counter nobody reads while target statistics stay on.
\<close>

lemma open_connection_keeps_its_target:
  assumes "m = meter_run now ops" and "sk_traffic (mt_tracker m)" and "gget (sk_targets (mt_tracker m)) k = Some c"
    and "gget (sk_targets (snd (tracker_GetTargetStats dt (mt_tracker m)))) k = None"
  shows "holders_of k (ct_id c) (mt_conns m) = 0 \<and> ct_read c \<le> 0 \<and> ct_write c \<le> 0"
proof -
  have ok: "lives_ok m" using lives_ok_run assms(1) by simp
  then have "gmap_ok (sk_targets (mt_tracker m))" and active: "ct_active c = int (holders_of k (ct_id c) (mt_conns m))"
    using assms(3) by (auto simp: lives_ok_def)
  then have "expires (sk_target_idle (mt_tracker m)) k c"
    using assms(2-4) target_tick_fold(2) [of "sk_targets (mt_tracker m)" dt "[]" "mt_tracker m"]
    by (cases "fold (target_tick dt) (sk_targets (mt_tracker m)) ([], mt_tracker m)") (fastforce simp: tracker_GetTargetStats_def split: if_splits)
  then show ?thesis using active by (simp add: expires_def)
qed



text \<open>
  The history keeps one row per resource, tag, direction and bucket with distinct ids, a retried batch
  included (its rows may carry the ids of an insert that was rolled back), and the published total of an
  inbound moves with it: once seeded, its distance from the history and the rows still owed does not change, whatever fails.
\<close>

lemma flush_keeps_history:
  assumes "SaveStats fails True b dt dt' now s = (e, s')" and "core_ok s" and "rows_ok (ss_pending s)" and "room True dt dt' s"
    and "history_ok (ss_db s)" and "ss_seeded s"
  shows "history_ok (ss_db s') \<and> ss_seeded s' \<and> total_gap s' tag = total_gap s tag"
  using flush_history [OF assms(1-5)] flush_total_gap [OF assms] by simp





text \<open>
  The report on targets is one list cut into pages: the list is in the order asked for, has one item per
  site, and its columns add up to the totals shown beside it; a page holds at most two hundred items, and consecutive
  pages continue each other.
\<close>

lemma target_report_pages:
  assumes "GetTargetStats lower upper False now q d = Inr rep"
    and "rows = filter (query_filter lower (periodStart now (tq_period q) ''day'' 3600) q) (sd_targets d)"
    and "items = sort_by (item_less (tq_sort q) (ToUpper upper (tq_order q) = ''ASC'')) (target_items rows)"
  shows "sorted_wrt (\<lambda>a b. \<not> item_less (tq_sort q) (ToUpper upper (tq_order q) = ''ASC'') b a) items \<and>
    tp_items rep = take (nat (tp_limit rep)) (drop (nat ((tp_page rep - 1) * tp_limit rep)) items) \<and>
    1 \<le> tp_limit rep \<and> tp_limit rep \<le> 200 \<and> 1 \<le> tp_page rep \<and> int (length items) = tp_total_sites rep \<and>
    sum_list (map ti_up items) = tp_total_up rep \<and> sum_list (map ti_down items) = tp_total_down rep"
proof -
  have perm: "sum_list (map f items) = sum_list (map f (target_items rows))" for f :: "target_item \<Rightarrow> int"
    unfolding assms(3) by (metis mset_map mset_sort_by sum_mset_sum_list)
  have "sorted_wrt (\<lambda>a b. \<not> item_less (tq_sort q) (ToUpper upper (tq_order q) = ''ASC'') b a) items"
    unfolding assms(3) by (rule items.sorted_sort_by)
  moreover have "length items = length (remdups (map tg_target rows))" by (simp add: assms(3) target_items_sums(1))
  ultimately show ?thesis
    using assms(1) perm [of ti_up] perm [of ti_down] target_items_sums(2,3) [of rows]
    by (auto simp: GetTargetStats_def Let_def page_limit_def simp flip: assms(2,3))
qed

end
