(* ===== verification/NodeSync.thy ===== *)
theory NodeSync
  imports ClientJobs "HOL-Library.List_Lexorder" "HOL-Library.Char_ord"
begin

text \<open>
  Synchronisation with the nodes of a cluster (\<^verbatim>\<open>service/nodeSync.go\<close>): adopting a node's inbounds as
  replicas, making its clients match the master's, folding its links into the subscriptions and collecting
  its traffic. The node itself is reached over HTTP; it is a state \<open>'r\<close> with the requests the code makes of it.
\<close>

section \<open>JSON\<close>

text \<open>
  A value that has been decoded and printed again: decoding an object keeps the last of equal keys and printing sorts
  them; \<open>num\<close> is how a number reads after its trip through \<^verbatim>\<open>float64\<close>.
\<close>

fun json_canon :: "(string \<Rightarrow> string) \<Rightarrow> json \<Rightarrow> json" where
  "json_canon num (JArr vs) = JArr (map (json_canon num) vs)"
| "json_canon num (JObj kvs) =
     JObj (sort_by (\<lambda>a b. fst a < fst b) (fold (\<lambda>(k, v). gput k v) (map (\<lambda>(k, v). (k, json_canon num v)) kvs) []))"
| "json_canon num (JNum t) = JNum (num t)"
| "json_canon num v = v"

text \<open>A number in decimal.\<close>

fun nat_str :: "nat \<Rightarrow> string" where
  "nat_str n = (if n < 10 then [char_of (48 + n)] else nat_str (n div 10) @ [char_of (48 + n mod 10)])"

declare nat_str.simps [simp del]

definition obj_get :: "json \<Rightarrow> string \<Rightarrow> json option" where
  "obj_get j k = (case j of JObj kvs \<Rightarrow> gget (rev kvs) k | _ \<Rightarrow> None)"

definition config_json :: "proto_config \<Rightarrow> json" where
  "config_json cfg = JObj (map (\<lambda>(k, v). (k, case v of None \<Rightarrow> JNull | Some m \<Rightarrow> JObj m)) cfg)"

definition links_json :: "link list \<Rightarrow> json" where
  "links_json ls = JArr (map (\<lambda>l. JObj (map (\<lambda>(k, v). (k, JStr v)) l)) ls)"

text \<open>
  \<^verbatim>\<open>jsonEqual\<close> on a column of a given type: \<open>toj\<close> is the value as JSON and \<open>dec\<close> the decoder, for texts that do not have
  the column's type.
\<close>

definition jsonEqual :: "(string \<Rightarrow> string) \<Rightarrow> (string \<Rightarrow> json option) \<Rightarrow> ('a \<Rightarrow> json) \<Rightarrow> 'a raw \<Rightarrow> 'a raw \<Rightarrow> bool" where
  "jsonEqual num dec toj a b =
     (let val = (\<lambda>r. case r of RawNil \<Rightarrow> None | RawNull \<Rightarrow> Some JNull | RawBad t _ \<Rightarrow> dec t | RawVal _ v \<Rightarrow> Some (toj v))
      in case (val a, val b) of (Some x, Some y) \<Rightarrow> json_canon num x = json_canon num y | _ \<Rightarrow> False)"

section \<open>State\<close>

record traffic_baseline =
  tb_up :: int
  tb_down :: int

record node_row =
  nd_id :: nat
  nd_enable :: bool
  nd_name :: string
  nd_base_url :: string
  nd_web_path :: string
  nd_token :: string
  nd_insecure :: bool
  nd_cert_pin :: string
  nd_desc :: string
  nd_last_seen :: int
  nd_dirty :: bool
  nd_last_sync :: int
  nd_baselines :: "(string, traffic_baseline) gomap raw"

text \<open>The tables and the package's variables; \<open>sy_last\<close> is in the clock of \<^verbatim>\<open>time.Since\<close> (nanoseconds).\<close>

record sync_state =
  sy_world :: world
  sy_nodes :: "node_row list"
  sy_gen :: nat
  sy_busy :: "(nat, bool) gomap"
  sy_last :: "(nat, int) gomap"

record node_client =
  nk_id :: nat
  nk_name :: string
  nk_enable :: bool
  nk_config :: "proto_config raw"
  nk_inbounds :: "nat list raw"
  nk_expiry :: int
  nk_group :: string
  nk_up :: int
  nk_down :: int
  nk_limit_ip :: "int option"

text \<open>A client as it is pushed; the links, the volume and the group of the payload are constants.\<close>

record wanted =
  wt_name :: string
  wt_enable :: bool
  wt_config :: "proto_config raw"
  wt_inbounds :: "nat list"
  wt_expiry :: int
  wt_desc :: string
  wt_limit_ip :: int

datatype push = PNew wanted | PEdit nat wanted | PDel nat

text \<open>The requests to a node: its inbounds, some of them in full, its clients, and a save.\<close>

record 'r remote =
  rm_inbounds :: "'r \<Rightarrow> (nat \<times> string) list res"
  rm_full :: "nat list \<Rightarrow> 'r \<Rightarrow> json list res"
  rm_clients :: "'r \<Rightarrow> node_client list res"
  rm_push :: "push \<Rightarrow> 'r \<Rightarrow> unit res \<times> 'r"

text \<open>
  What a run reads besides: the clock, the JSON decoder, how a number is printed again and the spelling a text has once \<^verbatim>\<open>json.Marshal\<close> has compacted it,
  the remark setting, the link generator, the id the inbounds table assigns next, and which local statements fail.
\<close>

datatype sync_stmt = YReplicas | YClients | YReplica string | YLinks string | YLog | YDirty | YNode | YTraffic string

record sync_env =
  sv_now :: int
  sv_num :: "string \<Rightarrow> string"
  sv_dec :: "string \<Rightarrow> json option"
  sv_prefix :: bool
  sv_linkgen :: "proto_config raw \<Rightarrow> inbound \<Rightarrow> string \<Rightarrow> string \<Rightarrow> string list"
  sv_respell :: "string \<Rightarrow> spelling"
  sv_new_id :: "db \<Rightarrow> nat"
  sv_fails :: "sync_stmt \<Rightarrow> bool"

definition getNodeById :: "nat \<Rightarrow> sync_state \<Rightarrow> node_row res" where
  "getNodeById i s = (case find (\<lambda>n. nd_id n = i) (sy_nodes s) of None \<Rightarrow> Inl ENotFound | Some n \<Rightarrow> Inr n)"

definition set_node :: "nat \<Rightarrow> (node_row \<Rightarrow> node_row) \<Rightarrow> sync_state \<Rightarrow> sync_state" where
  "set_node i f s = s\<lparr>sy_nodes := map (\<lambda>n. if nd_id n = i then f n else n) (sy_nodes s)\<rparr>"

definition replicas_of :: "nat \<Rightarrow> db \<Rightarrow> inbound list" where
  "replicas_of nodeId d = filter (\<lambda>ib. ib_node_id ib = Some nodeId) (db_inbounds d)"

section \<open>Single flight\<close>

definition reconcileBackoff :: int where
  "reconcileBackoff = 30 * 1000000000"

definition claimReconcile :: "nat \<Rightarrow> bool \<Rightarrow> int \<Rightarrow> sync_state \<Rightarrow> nat option \<times> sync_state" where
  "claimReconcile i force now s =
     (if gget0 False (sy_busy s) i then (None, s)
      else if \<not> force \<and> (case gget (sy_last s) i of Some t \<Rightarrow> now - t < reconcileBackoff | None \<Rightarrow> False) then (None, s)
      else (Some (sy_gen s), s\<lparr>sy_busy := gput i True (sy_busy s)\<rparr>))"

definition releaseReconcile :: "nat \<Rightarrow> int \<Rightarrow> sync_state \<Rightarrow> sync_state" where
  "releaseReconcile i now s = s\<lparr>sy_busy := gput i False (sy_busy s), sy_last := gput i now (sy_last s)\<rparr>"

definition bumpDirtyGen :: "sync_state \<Rightarrow> sync_state" where
  "bumpDirtyGen s = s\<lparr>sy_gen := Suc (sy_gen s)\<rparr>"

definition dirtyUnchangedSince :: "nat \<Rightarrow> sync_state \<Rightarrow> bool" where
  "dirtyUnchangedSince gen s \<longleftrightarrow> sy_gen s = gen"

definition mark_rows :: "sync_state \<Rightarrow> sync_state" where
  "mark_rows s = s\<lparr>sy_nodes := map (\<lambda>n. if nd_enable n \<and> \<not> nd_dirty n then n\<lparr>nd_dirty := True\<rparr> else n) (sy_nodes s)\<rparr>"

definition MarkAllDirty :: "bool \<Rightarrow> sync_state \<Rightarrow> sync_state" where
  "MarkAllDirty fail s = (let s1 = bumpDirtyGen s in if fail then s1 else mark_rows s1)"

section \<open>Replicas\<close>

text \<open>
  The columns of a replica that come from the node are printed from decoded values; they are kept in the body
  in canonical form, absent columns left out.
\<close>

definition AsString :: "json option \<Rightarrow> string" where
  "AsString v = (case v of Some (JStr s) \<Rightarrow> s | _ \<Rightarrow> [])"

definition replica_column :: "(string \<Rightarrow> string) \<Rightarrow> json \<Rightarrow> string \<Rightarrow> (string \<times> json) list" where
  "replica_column num full k = (case obj_get full k of None \<Rightarrow> [] | Some JNull \<Rightarrow> [] | Some v \<Rightarrow> [(k, json_canon num v)])"

definition buildReplicaInbound :: "(string \<Rightarrow> string) \<Rightarrow> json \<Rightarrow> nat \<Rightarrow> inbound res" where
  "buildReplicaInbound num raw nodeId =
     (case raw of
        JObj kvs \<Rightarrow>
          Inr \<lparr>ib_id = 0, ib_type = AsString (obj_get raw ''type''), ib_tag = AsString (obj_get raw ''tag''), ib_node_id = Some nodeId,
               ib_body = JObj (replica_column num raw ''addrs'' @
                 [(''options'', json_canon num (JObj (filter (\<lambda>(k, v).
                    k \<notin> {''id'', ''tls_id'', ''tls'', ''addrs'', ''out_json'', ''users'', ''node_id'', ''type'', ''tag''}) kvs)))] @
                 replica_column num raw ''out_json'')\<rparr>
      | JNull \<Rightarrow>
          Inr \<lparr>ib_id = 0, ib_type = [], ib_tag = [], ib_node_id = Some nodeId, ib_body = JObj [(''options'', JNull)]\<rparr>
      | _ \<Rightarrow> Inl EDecode)"

text \<open>One inbound of the node's answer: rewrite the replica under its tag when it moved.\<close>

definition refresh_replica :: "sync_env \<Rightarrow> node_row \<Rightarrow> inbound list \<Rightarrow> json \<Rightarrow> bool \<times> world \<Rightarrow> bool \<times> world" where
  "refresh_replica e node byTag raw tw =
     (case tw of (touched, w) \<Rightarrow>
        (case buildReplicaInbound (sv_num e) raw (nd_id node) of
           Inl _ \<Rightarrow> (touched, w)
         | Inr fresh \<Rightarrow>
             (case find (\<lambda>r. ib_tag r = ib_tag fresh) (rev byTag) of
                None \<Rightarrow> (touched, w)
              | Some cur \<Rightarrow>
                  if ib_type fresh = ib_type cur \<and> ib_body fresh = ib_body cur then (touched, w)
                  else if sv_fails e (YReplica (ib_tag fresh)) then (touched, w)
                  else
                    let d = w_db w;
                        d1 = d\<lparr>db_inbounds := map (\<lambda>ib. if ib_id ib = ib_id cur then ib\<lparr>ib_type := ib_type fresh, ib_body := ib_body fresh\<rparr> else ib) (db_inbounds d),
                               db_changes := db_changes d @ [\<lparr>ch_datetime = sv_now e, ch_actor = ''NodeSync'', ch_key = ''inbounds'', ch_action = ''edit'',
                                 ch_obj = JObj [(''node'', JStr (nd_name node)), (''tag'', JStr (ib_tag fresh))]\<rparr>]\<rparr>
                    in (True, w\<lparr>w_db := d1\<rparr>))))"

definition refreshReplicas :: "sync_env \<Rightarrow> 'r remote \<Rightarrow> 'r \<Rightarrow> node_row \<Rightarrow> (string, nat) gomap \<Rightarrow> world \<Rightarrow> bool \<times> world" where
  "refreshReplicas e rm r node tagToId w =
     (if sv_fails e YReplicas then (False, w)
      else
        let byTag = filter (\<lambda>ib. gget tagToId (ib_tag ib) \<noteq> None) (replicas_of (nd_id node) (w_db w));
            ids = map (\<lambda>ib. the (gget tagToId (ib_tag ib))) byTag
        in if ids = [] then (False, w)
           else case rm_full rm ids r of
             Inl _ \<Rightarrow> (False, w)
           | Inr raws \<Rightarrow>
               let (touched, w1) = fold (refresh_replica e node byTag) raws (False, w)
               in (touched, if touched then SetLastUpdate (sv_now e) w1 else w1))"

section \<open>Links of a node\<close>

definition addr_tls :: "json option \<Rightarrow> (string \<times> json) list \<Rightarrow> (string \<times> json) list" where
  "addr_tls baseTls a =
     (case baseTls of
        None \<Rightarrow> a
      | Some bt \<Rightarrow>
          (case gget a ''tls'' of
             None \<Rightarrow> gput ''tls'' bt a
           | Some (JObj t) \<Rightarrow> gput ''tls'' (JObj (fold (\<lambda>(k, v). gput k v) t (case bt of JObj b \<Rightarrow> b | _ \<Rightarrow> []))) a
           | Some _ \<Rightarrow> a))"

definition replica_addrs :: "json \<Rightarrow> json option \<Rightarrow> (string \<times> json) list list" where
  "replica_addrs out book =
     (let port = (case obj_get out ''server_port'' of Some p \<Rightarrow> p | None \<Rightarrow> JNull);
          server = JStr (AsString (obj_get out ''server''));
          tls = (case obj_get out ''tls'' of
                   Some (JObj t) \<Rightarrow> (case obj_get (JObj t) ''enabled'' of Some (JBool _) \<Rightarrow> Some (JObj t) | _ \<Rightarrow> None)
                 | _ \<Rightarrow> None);
          base = [(''server'', server), (''server_port'', port)] @ (case tls of Some t \<Rightarrow> [(''tls'', t)] | None \<Rightarrow> []);
          rows = (case book of Some (JArr vs) \<Rightarrow> concat (map (\<lambda>v. case v of JObj a \<Rightarrow> [a] | _ \<Rightarrow> []) vs) | _ \<Rightarrow> []);
          fill = (\<lambda>k v a. if gget a k = None then gput k v a else a);
          addrs = map (\<lambda>a. addr_tls tls (fill ''server_port'' port (fill ''server'' server a))) rows
      in if addrs = [] then [base] else addrs)"

definition genNodeReplicaLinks :: "sync_env \<Rightarrow> inbound \<Rightarrow> client \<Rightarrow> string list" where
  "genNodeReplicaLinks e replica c =
     (case obj_get (ib_body replica) ''out_json'' of
        Some (JObj o1) \<Rightarrow>
          (let server = AsString (obj_get (JObj o1) ''server'')
           in if server = [] then []
              else sv_linkgen e (c_config c)
                (replica\<lparr>ib_body := JObj [(''addrs'', JArr (map JObj (replica_addrs (JObj o1) (obj_get (ib_body replica) ''addrs'')))),
                   (''options'', case obj_get (ib_body replica) ''options'' of Some v \<Rightarrow> v | None \<Rightarrow> JNull), (''out_json'', JObj o1)]\<rparr>)
                server (c_remark c))
      | _ \<Rightarrow> [])"

definition node_link :: "string \<Rightarrow> string \<Rightarrow> string \<Rightarrow> link" where
  "node_link pre tag uri = [(''remark'', pre @ tag), (''type'', ''external''), (''uri'', uri)]"

definition desired_links :: "sync_env \<Rightarrow> node_row \<Rightarrow> db \<Rightarrow> client \<Rightarrow> link list" where
  "desired_links e node d c =
     concat (map (\<lambda>i. case find (\<lambda>ib. ib_id ib = i) (replicas_of (nd_id node) d) of
         None \<Rightarrow> []
       | Some rep \<Rightarrow> map (node_link (nodeLinkPrefix (nd_name node)) (ib_tag rep))
           (genNodeReplicaLinks e rep (c\<lparr>c_remark := linkRemark (sv_prefix e) (c_remark c)\<rparr>)))
       (unmarshal_ignore [] (c_inbounds c)))"

definition owned_by :: "string \<Rightarrow> link \<Rightarrow> bool" where
  "owned_by name l \<longleftrightarrow> link_type l \<noteq> ''local'' \<and> has_prefix (link_remark l) (nodeLinkPrefix name)"

text \<open>The links a client should have, or none when it needs no write.\<close>

definition refreshed_links :: "sync_env \<Rightarrow> node_row \<Rightarrow> db \<Rightarrow> client \<Rightarrow> link list option" where
  "refreshed_links e node d c =
     (let desired = desired_links e node d c;
          existing = unmarshal_ignore [] (c_links c);
          kept = filter (\<lambda>l. \<not> owned_by (nd_name node) l) existing;
          merged = kept @ desired
      in if desired = [] \<and> \<not> (\<exists>l \<in> set existing. owned_by (nd_name node) l) then None
         else if jsonEqual (sv_num e) (sv_dec e) links_json (c_links c) (marshal_indent merged) then None
         else Some merged)"

definition refresh_client_links :: "sync_env \<Rightarrow> node_row \<Rightarrow> db \<Rightarrow> client \<Rightarrow> bool \<times> world \<Rightarrow> bool \<times> world" where
  "refresh_client_links e node d c tw =
     (case tw of (touched, w) \<Rightarrow>
        (case refreshed_links e node d c of
           None \<Rightarrow> (touched, w)
         | Some merged \<Rightarrow>
             if sv_fails e (YLinks (c_name c)) then (touched, w)
             else
               let d1 = w_db w
               in (True, w\<lparr>w_db := d1\<lparr>db_clients := map (\<lambda>r. if c_id r = c_id c then r\<lparr>c_links := marshal_indent merged\<rparr> else r) (db_clients d1),
                    db_changes := db_changes d1 @ [log_row (sv_now e) ''NodeSync'' ''edit''
                      (JObj [(''name'', JStr (c_name c)), (''node'', JStr (nd_name node))])]\<rparr>\<rparr>)))"

definition refreshNodeLinks :: "sync_env \<Rightarrow> node_row \<Rightarrow> world \<Rightarrow> world" where
  "refreshNodeLinks e node w =
     (if sv_fails e YReplicas \<or> sv_fails e YClients then w
      else
        let (touched, w1) = fold (refresh_client_links e node (w_db w)) (db_clients (w_db w)) (False, w)
        in if touched then SetLastUpdate (sv_now e) w1 else w1)"

end
