(* ===== verification/NodeReconcile.thy ===== *)
theory NodeReconcile
  imports NodeSync
begin

text \<open>
  The runs over a node (\<^verbatim>\<open>service/nodeSync.go\<close>): the clients a node should have, the ones it has, the pushes that make
  them agree, and around them the single flight, the dirty flag, adoption and the collection of traffic.
\<close>

section \<open>Wanted and actual clients\<close>

definition tag_map :: "(nat \<times> string) list \<Rightarrow> (string, nat) gomap" where
  "tag_map ibs = fold (\<lambda>(i, tag). gput tag i) ibs []"

definition nodeInboundTagMap :: "'r remote \<Rightarrow> 'r \<Rightarrow> (string, nat) gomap res" where
  "nodeInboundTagMap rm r = rbind (rm_inbounds rm r) (\<lambda>ibs. Inr (tag_map ibs))"

definition node_local_ids :: "inbound list \<Rightarrow> (string, nat) gomap \<Rightarrow> nat list \<Rightarrow> nat list" where
  "node_local_ids replicas tagToId ids =
     concat (map (\<lambda>i. case find (\<lambda>ib. ib_id ib = i) replicas of
         None \<Rightarrow> []
       | Some rep \<Rightarrow> (case gget tagToId (ib_tag rep) of None \<Rightarrow> [] | Some localId \<Rightarrow> [localId])) ids)"

definition wanted_of :: "client \<Rightarrow> nat list \<Rightarrow> wanted" where
  "wanted_of c ids =
     \<lparr>wt_name = c_name c, wt_enable = c_enable c, wt_config = c_config c, wt_inbounds = ids, wt_expiry = c_expiry c,
      wt_desc = c_desc c, wt_limit_ip = c_limit_ip c\<rparr>"

definition expect_client :: "inbound list \<Rightarrow> (string, nat) gomap \<Rightarrow> client \<Rightarrow> (string, wanted) gomap \<Rightarrow> (string, wanted) gomap" where
  "expect_client replicas tagToId c m =
     (case unmarshal [] (c_inbounds c) of
        Inl _ \<Rightarrow> m
      | Inr ids \<Rightarrow>
          let localIds = node_local_ids replicas tagToId ids
          in if localIds = [] then m else gput (c_name c) (wanted_of c localIds) m)"

definition expectedClients :: "sync_env \<Rightarrow> nat \<Rightarrow> (string, nat) gomap \<Rightarrow> db \<Rightarrow> (string, wanted) gomap res" where
  "expectedClients e nodeId tagToId d =
     (if sv_fails e YReplicas then Inl EDb
      else let replicas = replicas_of nodeId d
        in if replicas = [] then Inr []
           else if sv_fails e YClients then Inl EDb
           else Inr (fold (expect_client replicas tagToId) (db_clients d) []))"

definition cluster_map :: "node_client list \<Rightarrow> (string, node_client) gomap" where
  "cluster_map ks = fold (\<lambda>k m. if nk_group k = clusterGroup then gput (nk_name k) k m else m) ks []"

definition actualClusterClients :: "'r remote \<Rightarrow> 'r \<Rightarrow> (string, node_client) gomap res" where
  "actualClusterClients rm r = rbind (rm_clients rm r) (\<lambda>ks. Inr (cluster_map ks))"

definition inbounds_json :: "nat list \<Rightarrow> json" where
  "inbounds_json ids = JArr (map (\<lambda>i. JNum (nat_str i)) ids)"

definition clientDiffers :: "sync_env \<Rightarrow> wanted \<Rightarrow> node_client \<Rightarrow> bool" where
  "clientDiffers e want cur \<longleftrightarrow>
     wt_enable want \<noteq> nk_enable cur \<or>
     wt_expiry want \<noteq> nk_expiry cur \<or>
     (\<not> raw_is_empty (wt_config want) \<and> \<not> raw_is_empty (nk_config cur) \<and>
       \<not> jsonEqual (sv_num e) (sv_dec e) config_json (wt_config want) (nk_config cur)) \<or>
     \<not> jsonEqual (sv_num e) (sv_dec e) inbounds_json (marshal (wt_inbounds want)) (nk_inbounds cur) \<or>
     (case nk_limit_ip cur of None \<Rightarrow> False | Some n \<Rightarrow> wt_limit_ip want \<noteq> n)"

section \<open>Pushing\<close>

text \<open>
  \<^verbatim>\<open>json.Marshal\<close> of a \<^verbatim>\<open>json.RawMessage\<close>: no bytes print as \<^verbatim>\<open>null\<close>, a text is checked and compacted.
\<close>

definition compact_raw :: "sync_env \<Rightarrow> 'a raw \<Rightarrow> 'a raw res" where
  "compact_raw e r =
     (case r of
        RawNil \<Rightarrow> Inr RawNull
      | RawNull \<Rightarrow> Inr RawNull
      | RawBad t z \<Rightarrow> if sv_dec e t = None then Inl EDecode
          else Inr (RawBad (case sv_respell e t of Other t' \<Rightarrow> t' | _ \<Rightarrow> t) z)
      | RawVal (Other t) v \<Rightarrow> Inr (RawVal (sv_respell e t) v)
      | RawVal _ v \<Rightarrow> Inr (RawVal Compact v))"

definition push_payload :: "sync_env \<Rightarrow> push \<Rightarrow> push res" where
  "push_payload e p =
     (let body = (\<lambda>w. rbind (compact_raw e (wt_config w)) (\<lambda>c. Inr (w\<lparr>wt_config := c\<rparr>)))
      in case p of PNew w \<Rightarrow> rbind (body w) (\<lambda>w'. Inr (PNew w')) | PEdit i w \<Rightarrow> rbind (body w) (\<lambda>w'. Inr (PEdit i w'))
         | PDel i \<Rightarrow> Inr (PDel i))"

definition pushClient :: "sync_env \<Rightarrow> 'r remote \<Rightarrow> push \<Rightarrow> 'r \<Rightarrow> unit res \<times> 'r" where
  "pushClient e rm p r = (case push_payload e p of Inl err \<Rightarrow> (Inl err, r) | Inr q \<Rightarrow> rm_push rm q r)"

definition new_edit_pushes :: "sync_env \<Rightarrow> (string, wanted) gomap \<Rightarrow> (string, node_client) gomap \<Rightarrow> push list" where
  "new_edit_pushes e expected actual =
     concat (map (\<lambda>(name, want). case gget actual name of
         None \<Rightarrow> [PNew want]
       | Some cur \<Rightarrow> if clientDiffers e want cur then [PEdit (nk_id cur) want] else []) expected)"

definition del_pushes :: "(string, wanted) gomap \<Rightarrow> (string, node_client) gomap \<Rightarrow> push list" where
  "del_pushes expected actual =
     concat (map (\<lambda>(name, cur). if gget expected name = None then [PDel (nk_id cur)] else []) actual)"

definition reconcile_pushes :: "sync_env \<Rightarrow> (string, wanted) gomap \<Rightarrow> (string, node_client) gomap \<Rightarrow> push list" where
  "reconcile_pushes e expected actual = new_edit_pushes e expected actual @ del_pushes expected actual"

text \<open>The two loops: the first push that fails ends the run.\<close>

fun push_all :: "sync_env \<Rightarrow> 'r remote \<Rightarrow> push list \<Rightarrow> 'r \<Rightarrow> unit res \<times> 'r" where
  "push_all e rm [] r = (Inr (), r)"
| "push_all e rm (p # ps) r =
     (case pushClient e rm p r of (Inl err, r1) \<Rightarrow> (Inl err, r1) | (Inr _, r1) \<Rightarrow> push_all e rm ps r1)"

section \<open>A run\<close>

text \<open>Everything up to the last refresh of the links.\<close>

definition sync_body :: "sync_env \<Rightarrow> 'r remote \<Rightarrow> nat \<Rightarrow> sync_state \<Rightarrow> 'r \<Rightarrow> unit res \<times> sync_state \<times> 'r" where
  "sync_body e rm nodeId s r =
     (case getNodeById nodeId s of
        Inl err \<Rightarrow> (Inl err, s, r)
      | Inr node \<Rightarrow>
          if \<not> nd_enable node then (Inl (EMsg ''node is disabled''), s, r)
          else case nodeInboundTagMap rm r of
            Inl err \<Rightarrow> (Inl err, s, r)
          | Inr tagToId \<Rightarrow>
              let (moved, w1) = refreshReplicas e rm r node tagToId (sy_world s);
                  w2 = (if moved then refreshNodeLinks e node w1 else w1);
                  s2 = s\<lparr>sy_world := w2\<rparr>
              in case expectedClients e nodeId tagToId (w_db w2) of
                   Inl err \<Rightarrow> (Inl err, s2, r)
                 | Inr expected \<Rightarrow>
                     (case actualClusterClients rm r of
                        Inl err \<Rightarrow> (Inl err, s2, r)
                      | Inr actual \<Rightarrow>
                          (case push_all e rm (reconcile_pushes e expected actual) r of
                             (Inl err, r1) \<Rightarrow> (Inl err, s2, r1)
                           | (Inr _, r1) \<Rightarrow> (Inr (), s2\<lparr>sy_world := refreshNodeLinks e node w2\<rparr>, r1))))"

text \<open>The end of a run: what it writes to the node's row, given whether the generation was still the claimed one.\<close>

definition sync_finish :: "sync_env \<Rightarrow> nat \<Rightarrow> bool \<Rightarrow> sync_state \<Rightarrow> unit res \<times> sync_state" where
  "sync_finish e nodeId unchanged s =
     (if sv_fails e YNode then (Inl EDb, s)
      else
        let stamp = set_node nodeId (\<lambda>n. n\<lparr>nd_last_sync := sv_now e\<rparr>) s
        in if \<not> unchanged then (Inr (), stamp)
           else if \<exists>n \<in> set (sy_nodes s). nd_id n = nodeId \<and> nd_dirty n then
             let s1 = set_node nodeId (\<lambda>n. if nd_dirty n then n\<lparr>nd_dirty := False, nd_last_sync := sv_now e\<rparr> else n) s
             in (Inr (), s1\<lparr>sy_world := SetLastUpdate (sv_now e) (sy_world s1)\<rparr>)
           else (Inr (), stamp))"

definition runReconcile :: "sync_env \<Rightarrow> 'r remote \<Rightarrow> nat \<Rightarrow> nat \<Rightarrow> sync_state \<Rightarrow> 'r \<Rightarrow> unit res \<times> sync_state \<times> 'r" where
  "runReconcile e rm nodeId startGen s r =
     (case sync_body e rm nodeId s r of
        (Inl err, s1, r1) \<Rightarrow> (Inl err, s1, r1)
      | (Inr _, s1, r1) \<Rightarrow>
          (case sync_finish e nodeId (dirtyUnchangedSince startGen s1) s1 of (res, s2) \<Rightarrow> (res, s2, r1)))"

text \<open>\<open>t\<close> and \<open>t'\<close> are the times of claim and release.\<close>

definition Reconcile :: "sync_env \<Rightarrow> int \<Rightarrow> int \<Rightarrow> 'r remote \<Rightarrow> nat \<Rightarrow> sync_state \<Rightarrow> 'r \<Rightarrow> unit res \<times> sync_state \<times> 'r" where
  "Reconcile e t t' rm nodeId s r =
     (case claimReconcile nodeId False t s of
        (None, s1) \<Rightarrow> (Inr (), s1, r)
      | (Some gen, s1) \<Rightarrow>
          (case runReconcile e rm nodeId gen s1 r of (res, s2, r1) \<Rightarrow> (res, releaseReconcile nodeId t' s2, r1)))"

definition ReconcileNow :: "sync_env \<Rightarrow> int \<Rightarrow> int \<Rightarrow> 'r remote \<Rightarrow> nat \<Rightarrow> sync_state \<Rightarrow> 'r \<Rightarrow> unit res \<times> sync_state \<times> 'r" where
  "ReconcileNow e t t' rm nodeId s r =
     (case claimReconcile nodeId True t s of
        (None, s1) \<Rightarrow> (Inl (EMsg ''a sync for this node is already running''), s1, r)
      | (Some gen, s1) \<Rightarrow>
          (case runReconcile e rm nodeId gen s1 r of (res, s2, r1) \<Rightarrow> (res, releaseReconcile nodeId t' s2, r1)))"

text \<open>
  The triggers. The heartbeat starts one run per node in this list; the hourly round runs them one after the other.
  \<open>online\<close> is the snapshot of the last probes.
\<close>

definition dirty_online :: "(nat \<Rightarrow> bool) \<Rightarrow> sync_state \<Rightarrow> nat list" where
  "dirty_online online s = filter online (map nd_id (filter (\<lambda>n. nd_enable n \<and> nd_dirty n) (sy_nodes s)))"

definition ReconcileAllOnline ::
  "sync_env \<Rightarrow> (nat \<Rightarrow> int \<times> int) \<Rightarrow> (nat \<Rightarrow> bool) \<Rightarrow> 'r remote \<Rightarrow> sync_state \<Rightarrow> (nat \<Rightarrow> 'r) \<Rightarrow> sync_state \<times> (nat \<Rightarrow> 'r)" where
  "ReconcileAllOnline e clock online rm s rs =
     fold (\<lambda>i (s, rs). case Reconcile e (fst (clock i)) (snd (clock i)) rm i s (rs i) of (_, s1, r1) \<Rightarrow> (s1, rs(i := r1)))
       (filter online (map nd_id (filter nd_enable (sy_nodes s)))) (s, rs)"

section \<open>Adoption\<close>

definition adoptedTags :: "nat \<Rightarrow> db \<Rightarrow> string list" where
  "adoptedTags nodeId d = map ib_tag (replicas_of nodeId d)"

text \<open>The inbounds of the node, with their types and whether they are adopted.\<close>

definition FetchNodeInbounds ::
  "sync_env \<Rightarrow> ('r \<Rightarrow> (nat \<times> string \<times> string) list res) \<Rightarrow> nat \<Rightarrow> sync_state \<Rightarrow> 'r \<Rightarrow> (nat \<times> string \<times> string \<times> bool) list res" where
  "FetchNodeInbounds e lst nodeId s r =
     rbind (getNodeById nodeId s) (\<lambda>_.
     rbind (lst r) (\<lambda>ibs.
     if sv_fails e YReplicas then Inl EDb
     else Inr (map (\<lambda>(i, ty, tag). (i, ty, tag, tag \<in> set (adoptedTags nodeId (w_db (sy_world s))))) ibs)))"

text \<open>
  The tag of one inbound of the answer, decoded into a struct field: the key is matched in any case, the last one counts,
  \<^verbatim>\<open>null\<close> is skipped, and an answer that is no object or a tag that is no string fails.
\<close>

definition tag_members :: "(string \<times> json) list \<Rightarrow> json list" where
  "tag_members kvs = filter (\<lambda>v. v \<noteq> JNull) (map snd (filter (\<lambda>(k, _). map ascii_lower k = ''tag'') kvs))"

definition meta_tag :: "json \<Rightarrow> string res" where
  "meta_tag raw =
     (case raw of
        JObj kvs \<Rightarrow>
          (let vs = tag_members kvs
           in if \<exists>v \<in> set vs. (case v of JStr _ \<Rightarrow> False | _ \<Rightarrow> True) then Inl EDecode
              else Inr (case rev vs of JStr t # _ \<Rightarrow> t | _ \<Rightarrow> []))
      | JNull \<Rightarrow> Inr []
      | _ \<Rightarrow> Inl EDecode)"

text \<open>The column of the tags is unique, so a second row under a tag is refused by the database too.\<close>

definition adopt_one :: "sync_env \<Rightarrow> nat \<Rightarrow> string list \<Rightarrow> json \<Rightarrow> nat \<times> db \<Rightarrow> (nat \<times> db) res" where
  "adopt_one e nodeId tags raw nd =
     (case nd of (adopted, d) \<Rightarrow>
        rbind (meta_tag raw) (\<lambda>tag.
        if tag \<notin> set tags then Inr (adopted, d)
        else guard_err (\<exists>ib \<in> set (db_inbounds d). ib_tag ib = tag) (EMsg ''tag already exists here'')
          (rbind (buildReplicaInbound (sv_num e) raw nodeId) (\<lambda>replica.
           if sv_fails e (YReplica (ib_tag replica)) \<or> (\<exists>ib \<in> set (db_inbounds d). ib_tag ib = ib_tag replica) then Inl EDb
           else Inr (Suc adopted, d\<lparr>db_inbounds := db_inbounds d @ [replica\<lparr>ib_id := sv_new_id e d\<rparr>]\<rparr>)))))"

definition adopt_log :: "sync_env \<Rightarrow> nat \<Rightarrow> string list \<Rightarrow> string \<Rightarrow> change" where
  "adopt_log e nodeId tags actor =
     \<lparr>ch_datetime = sv_now e, ch_actor = actor, ch_key = ''inbounds'', ch_action = ''adopt'',
      ch_obj = JObj [(''nodeId'', JNum (nat_str nodeId)), (''tags'', JArr (map JStr tags))]\<rparr>"

text \<open>The transaction up to the change log; after it come the mark and the commit.\<close>

definition adopt_tx :: "sync_env \<Rightarrow> nat \<Rightarrow> string list \<Rightarrow> string \<Rightarrow> json list \<Rightarrow> db \<Rightarrow> db res" where
  "adopt_tx e nodeId tags actor raws d =
     rbind (fold_res (adopt_one e nodeId tags) raws (0, d)) (\<lambda>(adopted, d1).
     guard_err (adopted = 0) (EMsg ''no matching inbounds found on the node'')
     (if sv_fails e YLog then Inl EDb else Inr (d1\<lparr>db_changes := db_changes d1 @ [adopt_log e nodeId tags actor]\<rparr>)))"

definition AdoptInbounds :: "sync_env \<Rightarrow> 'r remote \<Rightarrow> nat \<Rightarrow> string list \<Rightarrow> string \<Rightarrow> sync_state \<Rightarrow> 'r \<Rightarrow> unit res \<times> sync_state" where
  "AdoptInbounds e rm nodeId tags actor s r =
     (if tags = [] then (Inr (), s)
      else
        let fetch =
          rbind (getNodeById nodeId s) (\<lambda>_.
          rbind (rm_inbounds rm r) (\<lambda>ibs.
          let ids = map fst (filter (\<lambda>(i, tag). tag \<in> set tags) ibs)
          in guard_err (ids = []) (EMsg ''no matching inbounds found on the node'') (rm_full rm ids r)))
        in case fetch of
             Inl err \<Rightarrow> (Inl err, s)
           | Inr raws \<Rightarrow>
               (case adopt_tx e nodeId tags actor raws (w_db (sy_world s)) of
                  Inl err \<Rightarrow> (Inl err, s)
                | Inr d1 \<Rightarrow>
                    let s1 = bumpDirtyGen s
                    in if sv_fails e YDirty then (Inl EDb, s1)
                       else
                         let s2 = set_node nodeId (\<lambda>n. n\<lparr>nd_dirty := True\<rparr>) s1
                         in (Inr (), s2\<lparr>sy_world := SetLastUpdate (sv_now e) ((sy_world s2)\<lparr>w_db := d1\<rparr>)\<rparr>)))"

section \<open>Traffic\<close>

definition node_baselines :: "node_row \<Rightarrow> (string, traffic_baseline) gomap" where
  "node_baselines n = unmarshal_ignore [] (nd_baselines n)"

text \<open>What a counter has moved by since its baseline; a counter that fell starts over.\<close>

definition counter_delta :: "int \<Rightarrow> int \<Rightarrow> int" where
  "counter_delta base cur = (let d = i64 (cur - base) in if d < 0 then cur else d)"

definition traffic_deltas ::
  "(string, traffic_baseline) gomap \<Rightarrow> string list \<Rightarrow> (string, node_client) gomap \<Rightarrow> (string \<times> int \<times> int) list" where
  "traffic_deltas baseline masterNames current =
     concat (map (\<lambda>(name, cur).
       if name \<notin> set masterNames then []
       else
         let base = gget0 \<lparr>tb_up = 0, tb_down = 0\<rparr> baseline name;
             du = counter_delta (tb_up base) (nk_up cur);
             dd = counter_delta (tb_down base) (nk_down cur)
         in if du > 0 \<or> dd > 0 then [(name, du, dd)] else []) current)"

text \<open>\<^verbatim>\<open>up + ?\<close> is computed by the database.\<close>

definition add_traffic :: "string \<times> int \<times> int \<Rightarrow> client \<Rightarrow> client" where
  "add_traffic = (\<lambda>(name, du, dd) c. if c_name c = name then c\<lparr>c_up := c_up c + du, c_down := c_down c + dd\<rparr> else c)"

definition new_baselines :: "(string, node_client) gomap \<Rightarrow> (string, traffic_baseline) gomap" where
  "new_baselines current = map (\<lambda>(name, cur). (name, \<lparr>tb_up = nk_up cur, tb_down = nk_down cur\<rparr>)) current"

definition traffic_tx :: "sync_env \<Rightarrow> nat \<Rightarrow> (string \<times> int \<times> int) list \<Rightarrow> (string, traffic_baseline) gomap \<Rightarrow> sync_state \<Rightarrow> sync_state res" where
  "traffic_tx e nodeId deltas base s =
     rbind (fold_res (\<lambda>x cs. if sv_fails e (YTraffic (fst x)) then Inl EDb else Inr (map (add_traffic x) cs)) deltas
              (db_clients (w_db (sy_world s)))) (\<lambda>cs.
     if sv_fails e YNode then Inl EDb
     else
       let w = sy_world s
       in Inr (set_node nodeId (\<lambda>n. n\<lparr>nd_baselines := marshal base\<rparr>) (s\<lparr>sy_world := w\<lparr>w_db := (w_db w)\<lparr>db_clients := cs\<rparr>\<rparr>\<rparr>)))"

definition collectNodeTraffic :: "sync_env \<Rightarrow> 'r remote \<Rightarrow> node_row \<Rightarrow> sync_state \<Rightarrow> 'r \<Rightarrow> unit res \<times> sync_state" where
  "collectNodeTraffic e rm node s r =
     (case actualClusterClients rm r of
        Inl err \<Rightarrow> (Inl err, s)
      | Inr current \<Rightarrow>
          let names = (if sv_fails e YClients then [] else map c_name (db_clients (w_db (sy_world s))))
          in case traffic_tx e (nd_id node) (traffic_deltas (node_baselines node) names current) (new_baselines current) s of
               Inl err \<Rightarrow> (Inl err, s)
             | Inr s1 \<Rightarrow> (Inr (), s1))"

definition CollectTraffic :: "sync_env \<Rightarrow> (nat \<Rightarrow> bool) \<Rightarrow> 'r remote \<Rightarrow> (nat \<Rightarrow> 'r) \<Rightarrow> sync_state \<Rightarrow> sync_state" where
  "CollectTraffic e online rm rs s =
     fold (\<lambda>node s. snd (collectNodeTraffic e rm node s (rs (nd_id node))))
       (filter (\<lambda>n. online (nd_id n)) (filter nd_enable (sy_nodes s))) s"

end
