(* ===== verification/NodePanel.thy ===== *)
theory NodePanel
  imports NodeReconcile ClientEdit
begin

text \<open>
  What a run relies on from the node, as an interface, and what a run achieves over any node that keeps it. The
  interface is then shown to be kept by a node that is a panel of this same program: its answers are read from its
  tables and a push is its own \<open>Save\<close>.
\<close>

section \<open>The interface of a node\<close>

text \<open>
  \<open>look\<close> is the node's table of cluster clients by name and \<open>locals\<close> everything else it stores. A push that is not
  answered may have been carried out or not.
\<close>

locale cluster_node =
  fixes e :: sync_env and rm :: "'r remote" and inv :: "'r \<Rightarrow> bool" and ok :: "wanted \<Rightarrow> bool"
    and look :: "'r \<Rightarrow> string \<Rightarrow> node_client option" and locals :: "'r \<Rightarrow> 'l"
  assumes clients: "inv r \<Longrightarrow> rm_clients rm r = Inr ks \<Longrightarrow> gget (cluster_map ks) = look r"
    and push_new: "inv r \<Longrightarrow> ok w \<Longrightarrow> look r (wt_name w) = None \<Longrightarrow> pushClient e rm (PNew w) r = (res, r') \<Longrightarrow>
      inv r' \<and> locals r' = locals r \<and> (isl res \<or> (\<exists>k. \<not> clientDiffers e w k \<and> look r' = (look r)(wt_name w \<mapsto> k)))"
    and push_edit: "inv r \<Longrightarrow> ok w \<Longrightarrow> look r (wt_name w) = Some c \<Longrightarrow> pushClient e rm (PEdit (nk_id c) w) r = (res, r') \<Longrightarrow>
      inv r' \<and> locals r' = locals r \<and> (isl res \<or> (\<exists>k. \<not> clientDiffers e w k \<and> look r' = (look r)(wt_name w \<mapsto> k)))"
    and push_del: "inv r \<Longrightarrow> look r n = Some c \<Longrightarrow> pushClient e rm (PDel (nk_id c)) r = (res, r') \<Longrightarrow>
      inv r' \<and> locals r' = locals r \<and> (isl res \<or> look r' = (look r)(n := None))"
begin

text \<open>A push of the first loop, for one entry of the wanted clients.\<close>

definition entry_push :: "(string \<rightharpoonup> node_client) \<Rightarrow> string \<times> wanted \<Rightarrow> push list" where
  "entry_push actual = (\<lambda>(name, want). case actual name of
     None \<Rightarrow> [PNew want] | Some cur \<Rightarrow> if clientDiffers e want cur then [PEdit (nk_id cur) want] else [])"

lemma new_edit_pushes_entries: "new_edit_pushes e expected actual = concat (map (entry_push (gget actual)) expected)"
  by (simp add: new_edit_pushes_def entry_push_def)

lemma push_all_append:
  "push_all e rm (ps @ qs) r =
     (case push_all e rm ps r of (Inl err, r1) \<Rightarrow> (Inl err, r1) | (Inr _, r1) \<Rightarrow> push_all e rm qs r1)"
  by (induction ps arbitrary: r) (auto split: prod.splits sum.splits)

lemma push_all_single: "push_all e rm [p] r = pushClient e rm p r"
  by (auto split: prod.splits sum.splits)

lemma entry_push_step:
  assumes "inv r" and "ok w" and "look r (wt_name w) = actual (wt_name w)"
    and "push_all e rm (entry_push actual (wt_name w, w)) r = (res, r')"
  shows "inv r' \<and> locals r' = locals r \<and> (isl res \<or> (\<exists>k. \<not> clientDiffers e w k \<and> look r' = (look r)(wt_name w \<mapsto> k)))"
proof (cases "actual (wt_name w)")
  case None
  with assms show ?thesis
    using push_new [of r w res r'] by (simp add: entry_push_def push_all_single del: push_all.simps)
next
  case (Some c)
  show ?thesis
  proof (cases "clientDiffers e w c")
    case True
    with Some assms show ?thesis
      using push_edit [of r w c res r'] by (simp add: entry_push_def push_all_single del: push_all.simps)
  next
    case False
    moreover have "look r = (look r)(wt_name w \<mapsto> c)" using Some assms(3) by auto
    ultimately show ?thesis using Some assms by (auto simp: entry_push_def)
  qed
qed

lemma new_edit_run:
  assumes "inv r" and "\<forall>(n, w) \<in> set expected. wt_name w = n \<and> ok w" and "gmap_ok expected"
    and "\<forall>n \<in> fst ` set expected. look r n = actual n"
    and "push_all e rm (concat (map (entry_push actual) expected)) r = (res, r')"
  shows "inv r' \<and> locals r' = locals r \<and> (isl res \<or>
    (\<forall>(n, w) \<in> set expected. \<exists>k. look r' n = Some k \<and> \<not> clientDiffers e w k) \<and>
    (\<forall>n. n \<notin> fst ` set expected \<longrightarrow> look r' n = look r n))"
  using assms
proof (induction expected arbitrary: r)
  case (Cons x xs)
  obtain n w where x: "x = (n, w)" and w: "wt_name w = n" "ok w" using Cons.prems(2) by (cases x) auto
  obtain res1 r1 where one: "push_all e rm (entry_push actual (wt_name w, w)) r = (res1, r1)" by fastforce
  have step: "inv r1 \<and> locals r1 = locals r \<and> (isl res1 \<or> (\<exists>k. \<not> clientDiffers e w k \<and> look r1 = (look r)(n \<mapsto> k)))"
    using entry_push_step [OF Cons.prems(1) w(2) _ one] Cons.prems(4) x w by simp
  show ?case
  proof (cases res1)
    case (Inl err)
    with one Cons.prems(5) have "res = res1" "r' = r1" by (auto simp: x w push_all_append simp del: push_all.simps)
    with step Inl show ?thesis by simp
  next
    case (Inr u)
    with step obtain k where k: "\<not> clientDiffers e w k" "look r1 = (look r)(n \<mapsto> k)" by auto
    have fresh: "n \<notin> fst ` set xs" using Cons.prems(3) x by simp
    have rest: "push_all e rm (concat (map (entry_push actual) xs)) r1 = (res, r')"
      using Cons.prems(5) one Inr by (simp add: x w push_all_append del: push_all.simps)
    have same: "look r1 m = actual m" if "m \<in> fst ` set xs" for m
      using Cons.prems(4) [rule_format, of m] that fresh k(2) by (cases "m = n") simp_all
    have "inv r' \<and> locals r' = locals r1 \<and> (isl res \<or>
      (\<forall>(n, w) \<in> set xs. \<exists>k. look r' n = Some k \<and> \<not> clientDiffers e w k) \<and>
      (\<forall>n. n \<notin> fst ` set xs \<longrightarrow> look r' n = look r1 n))"
      using step Cons.prems(2,3) same x by (intro Cons.IH [OF _ _ _ _ rest]) auto
    moreover from this have "isl res \<or> look r' n = Some k" using fresh k(2) by auto
    ultimately show ?thesis using step k x by auto
  qed
qed auto

definition stale_push :: "(string, wanted) gomap \<Rightarrow> string \<times> node_client \<Rightarrow> push list" where
  "stale_push expected = (\<lambda>(name, cur). if gget expected name = None then [PDel (nk_id cur)] else [])"

lemma del_run:
  assumes "inv r" and "gmap_ok actual" and "\<forall>(n, c) \<in> set actual. gget expected n = None \<longrightarrow> look r n = Some c"
    and "push_all e rm (concat (map (stale_push expected) actual)) r = (res, r')"
  shows "inv r' \<and> locals r' = locals r \<and> (isl res \<or>
    (\<forall>n. look r' n = (if n \<in> fst ` set actual \<and> gget expected n = None then None else look r n)))"
  using assms
proof (induction actual arbitrary: r)
  case (Cons x xs)
  obtain n c where x: "x = (n, c)" by (cases x)
  show ?case
  proof (cases "gget expected n")
    case (Some w)
    have "push_all e rm (concat (map (stale_push expected) xs)) r = (res, r')"
      using Some Cons.prems(4) by (simp add: x stale_push_def)
    then have "inv r' \<and> locals r' = locals r \<and> (isl res \<or>
        (\<forall>n. look r' n = (if n \<in> fst ` set xs \<and> gget expected n = None then None else look r n)))"
      using Cons.prems by (intro Cons.IH) simp_all
    with Some x show ?thesis by (auto del: imageE)
  next
    case None
    obtain res1 r1 where one: "pushClient e rm (PDel (nk_id c)) r = (res1, r1)" by fastforce
    have lk: "look r n = Some c" using Cons.prems(3) x None by auto
    have step: "inv r1 \<and> locals r1 = locals r \<and> (isl res1 \<or> look r1 = (look r)(n := None))"
      by (rule push_del [OF Cons.prems(1) lk one])
    show ?thesis
    proof (cases res1)
      case (Inl err)
      with one None Cons.prems(4) have "res = res1" "r' = r1" by (auto simp: x stale_push_def)
      with step Inl show ?thesis by simp
    next
      case (Inr u)
      with step have r1: "look r1 = (look r)(n := None)" by simp
      have fresh: "n \<notin> fst ` set xs" using Cons.prems(2) x by simp
      have rest: "push_all e rm (concat (map (stale_push expected) xs)) r1 = (res, r')"
        using Cons.prems(4) one Inr None by (simp add: x stale_push_def)
      have "look r1 m = Some c" if "(m, c) \<in> set xs" "gget expected m = None" for m c
      proof -
        have "m \<noteq> n" using that fresh by force
        with that Cons.prems(3) r1 show ?thesis by auto
      qed
      then have "inv r' \<and> locals r' = locals r1 \<and> (isl res \<or>
        (\<forall>n. look r' n = (if n \<in> fst ` set xs \<and> gget expected n = None then None else look r1 n)))"
        using step Cons.prems(2) x by (intro Cons.IH [OF _ _ _ rest]) auto
      with step r1 x None show ?thesis by (auto del: imageE)
    qed
  qed
qed simp

lemma del_pushes_stale: "del_pushes expected actual = concat (map (stale_push expected) actual)"
  by (simp add: del_pushes_def stale_push_def)

text \<open>What a run does to the node: whatever the outcome, nothing outside the cluster; on success, agreement.\<close>

lemma pushes_run:
  assumes "inv r" and "\<forall>(n, w) \<in> set expected. wt_name w = n \<and> ok w" and "gmap_ok expected"
    and "gmap_ok actual" and "gget actual = look r"
    and "push_all e rm (reconcile_pushes e expected actual) r = (res, r')"
  shows "inv r' \<and> locals r' = locals r \<and> (isl res \<or>
    (\<forall>n. case gget expected n of None \<Rightarrow> look r' n = None | Some w \<Rightarrow> \<exists>k. look r' n = Some k \<and> \<not> clientDiffers e w k))"
proof -
  obtain res1 r1 where one: "push_all e rm (concat (map (entry_push (gget actual)) expected)) r = (res1, r1)" by fastforce
  have first: "inv r1 \<and> locals r1 = locals r \<and> (isl res1 \<or>
    (\<forall>(n, w) \<in> set expected. \<exists>k. look r1 n = Some k \<and> \<not> clientDiffers e w k) \<and>
    (\<forall>n. n \<notin> fst ` set expected \<longrightarrow> look r1 n = look r n))"
    using assms by (intro new_edit_run [OF _ _ _ _ one]) simp_all
  have both: "push_all e rm (reconcile_pushes e expected actual) r =
      (case (res1, r1) of (Inl err, r1) \<Rightarrow> (Inl err, r1) | (Inr _, r1) \<Rightarrow> push_all e rm (concat (map (stale_push expected) actual)) r1)"
    by (simp only: reconcile_pushes_def new_edit_pushes_entries del_pushes_stale push_all_append one)
  show ?thesis
  proof (cases res1)
    case (Inl err)
    with both assms(6) have "res = res1" "r' = r1" by auto
    with first Inl show ?thesis by simp
  next
    case (Inr u)
    with first have agree: "\<And>n w. (n, w) \<in> set expected \<Longrightarrow> \<exists>k. look r1 n = Some k \<and> \<not> clientDiffers e w k"
      and same: "\<And>n. n \<notin> fst ` set expected \<Longrightarrow> look r1 n = look r n" by auto
    have none: "gget expected n = None \<longleftrightarrow> n \<notin> fst ` set expected" for n by (simp add: map_of_eq_None_iff)
    have stale: "\<forall>(n, c) \<in> set actual. gget expected n = None \<longrightarrow> look r1 n = Some c"
    proof clarify
      fix n c
      assume "(n, c) \<in> set actual" "gget expected n = None"
      moreover have "look r n = Some c"
        using gget_in_set [OF assms(4), of n c] \<open>(n, c) \<in> set actual\<close> assms(5) by simp
      ultimately show "look r1 n = Some c" using same [of n] none [of n] by simp
    qed
    have "push_all e rm (concat (map (stale_push expected) actual)) r1 = (res, r')"
      using both assms(6) Inr by simp
    then have second: "inv r' \<and> locals r' = locals r1 \<and> (isl res \<or>
        (\<forall>n. look r' n = (if n \<in> fst ` set actual \<and> gget expected n = None then None else look r1 n)))"
      using first assms(4) stale by (intro del_run) auto
    have gone: "look r1 n = None" if "n \<notin> fst ` set actual" "gget expected n = None" for n
      using that same [of n] none [of n] assms(5) by (metis map_of_eq_None_iff)
    have "case gget expected n of None \<Rightarrow> look r' n = None | Some w \<Rightarrow> \<exists>k. look r' n = Some k \<and> \<not> clientDiffers e w k"
      if "\<not> isl res" for n
    proof (cases "gget expected n")
      case None
      with that second gone [of n] show ?thesis by simp
    next
      case (Some w)
      with that second agree [of n w] gget_in_set [OF assms(3), of n w] show ?thesis by simp
    qed
    moreover have "inv r'" "locals r' = locals r" using first second by simp_all
    ultimately show ?thesis by blast
  qed
qed

lemma agreement_is_quiet:
  assumes "gmap_ok expected"
    and "\<forall>n. case gget expected n of None \<Rightarrow> actual n = None | Some w \<Rightarrow> \<exists>k. actual n = Some k \<and> \<not> clientDiffers e w k"
    and "gget am = actual" and "gmap_ok am"
  shows "reconcile_pushes e expected am = []"
proof -
  have "entry_push actual (n, w) = []" if "(n, w) \<in> set expected" for n w
    using assms(2) [rule_format, of n] that gget_in_set [OF assms(1), of n w] by (auto simp: entry_push_def)
  moreover have "stale_push expected (n, c) = []" if "(n, c) \<in> set am" for n c
    using assms(2) [rule_format, of n] that gget_in_set [OF assms(4), of n c] assms(3)
    by (auto simp: stale_push_def split: option.splits)
  ultimately show ?thesis
    using assms(3) by (auto simp: reconcile_pushes_def new_edit_pushes_entries del_pushes_stale)
qed

lemma gmap_ok_cluster_map: "gmap_ok (cluster_map ks)"
proof -
  have "gmap_ok m \<Longrightarrow> gmap_ok (fold (\<lambda>k m. if nk_group k = clusterGroup then gput (nk_name k) k m else m) ks m)" for m
    by (induction ks arbitrary: m) (auto simp: distinct_update)
  then show ?thesis by (simp add: cluster_map_def)
qed

text \<open>The next round has nothing to push.\<close>

lemma converges:
  assumes "inv r" and "\<forall>(n, w) \<in> set expected. wt_name w = n \<and> ok w" and "gmap_ok expected"
    and "actualClusterClients rm r = Inr actual"
    and "push_all e rm (reconcile_pushes e expected actual) r = (Inr u, r')"
    and "actualClusterClients rm r' = Inr actual'"
  shows "reconcile_pushes e expected actual' = []" and "gget expected n = None \<longleftrightarrow> look r' n = None"
proof -
  have act: "gmap_ok actual \<and> gget actual = look r"
    using assms(4) clients [OF assms(1)] gmap_ok_cluster_map by (auto simp: actualClusterClients_def res_simps)
  have run: "inv r' \<and> (\<forall>n. case gget expected n of None \<Rightarrow> look r' n = None | Some w \<Rightarrow> \<exists>k. look r' n = Some k \<and> \<not> clientDiffers e w k)"
    using pushes_run [OF assms(1-3) _ _ assms(5)] act by simp
  have "gmap_ok actual' \<and> gget actual' = look r'"
    using assms(6) clients run gmap_ok_cluster_map by (auto simp: actualClusterClients_def res_simps)
  with run show "reconcile_pushes e expected actual' = []" by (intro agreement_is_quiet [OF assms(3)]) auto
  show "gget expected n = None \<longleftrightarrow> look r' n = None"
    using run [THEN conjunct2, rule_format, of n] by (auto split: option.splits)
qed

text \<open>Whatever happens, only cluster clients are touched.\<close>

lemma keeps_locals:
  assumes "inv r" and "\<forall>(n, w) \<in> set expected. wt_name w = n \<and> ok w" and "gmap_ok expected"
    and "actualClusterClients rm r = Inr actual"
    and "push_all e rm (reconcile_pushes e expected actual) r = (res, r')"
  shows "inv r'" and "locals r' = locals r"
proof -
  have "gmap_ok actual \<and> gget actual = look r"
    using assms(4) clients [OF assms(1)] gmap_ok_cluster_map by (auto simp: actualClusterClients_def res_simps)
  then show "inv r'" "locals r' = locals r" using pushes_run [OF assms(1-3) _ _ assms(5)] by simp_all
qed

end

section \<open>A panel as a node\<close>

text \<open>
  The payload of a push as the node decodes it; \<^verbatim>\<open>json.Marshal\<close> sorts the keys of the map.
\<close>

definition wanted_patch :: "nat option \<Rightarrow> wanted \<Rightarrow> client_patch" where
  "wanted_patch ident w =
     [(''config'', FConfig (wt_config w)), (''desc'', FDesc (wt_desc w)), (''enable'', FEnable (wt_enable w)),
      (''expiry'', FExpiry (wt_expiry w)), (''group'', FGroup clusterGroup)] @
     (case ident of None \<Rightarrow> [] | Some i \<Rightarrow> [(''id'', FId i)]) @
     [(''inbounds'', FInbounds (marshal (wt_inbounds w))), (''limitIp'', FLimitIp (wt_limit_ip w)),
      (''links'', FLinks (RawVal Compact [])), (''name'', FName (wt_name w)), (''volume'', FVolume 0)]"

fun push_request :: "push \<Rightarrow> string \<times> save_data" where
  "push_request (PNew w) = (''new'', DClient (wanted_patch None w))"
| "push_request (PEdit i w) = (''edit'', DClient (wanted_patch (Some i) w))"
| "push_request (PDel i) = (''del'', DId i)"

text \<open>
  Besides the outcome of \<open>Save\<close>, the node may refuse (its core does not take the users: rolled back) or its answer may
  not arrive in time (carried out).
\<close>

datatype reply = Answered | Refused | Unheard

definition panel_push :: "save_env \<Rightarrow> (push \<Rightarrow> db \<Rightarrow> reply) \<Rightarrow> push \<Rightarrow> db \<Rightarrow> unit res \<times> db" where
  "panel_push se rep p d =
     (case Save se (fst (push_request p)) (snd (push_request p)) d of
        Inl err \<Rightarrow> (Inl err, d)
      | Inr (_, d') \<Rightarrow>
          (case rep p d of Answered \<Rightarrow> (Inr (), d') | Refused \<Rightarrow> (Inl (EMsg ''node rejected the request''), d)
           | Unheard \<Rightarrow> (Inl (EMsg ''timeout''), d')))"

text \<open>A client of the node as the master decodes it; an empty config is left out of the answer.\<close>

definition node_view :: "sync_env \<Rightarrow> client \<Rightarrow> node_client res" where
  "node_view e c =
     rbind (if raw_is_empty (c_config c) then Inr RawNil else compact_raw e (c_config c)) (\<lambda>cfg.
     rbind (compact_raw e (c_inbounds c)) (\<lambda>ibs.
     Inr \<lparr>nk_id = c_id c, nk_name = c_name c, nk_enable = c_enable c, nk_config = cfg, nk_inbounds = ibs, nk_expiry = c_expiry c,
          nk_group = c_group c, nk_up = c_up c, nk_down = c_down c, nk_limit_ip = Some (c_limit_ip c)\<rparr>))"

definition panel :: "sync_env \<Rightarrow> save_env \<Rightarrow> (push \<Rightarrow> db \<Rightarrow> reply) \<Rightarrow> (nat list \<Rightarrow> db \<Rightarrow> json list res) \<Rightarrow> db remote" where
  "panel e se rep full =
     \<lparr>rm_inbounds = \<lambda>d. Inr (map (\<lambda>ib. (ib_id ib, ib_tag ib)) (db_inbounds d)), rm_full = full,
      rm_clients = \<lambda>d. map_res (node_view e) (db_clients d), rm_push = panel_push se rep\<rparr>"


section \<open>A panel keeps the interface\<close>

text \<open>The config a save stores, when the identity is already in it.\<close>

definition identity_in :: "string \<Rightarrow> proto_config raw \<Rightarrow> bool" where
  "identity_in name r =
     (case r of RawNil \<Rightarrow> True | RawNull \<Rightarrow> True | RawBad _ _ \<Rightarrow> False
      | RawVal _ v \<Rightarrow> map (\<lambda>(k, cfg). (k, map_option (set_identity name) cfg)) v = v)"

definition respelled :: "'a raw \<Rightarrow> 'a raw" where
  "respelled r = (case r of RawVal _ v \<Rightarrow> RawVal Compact v | _ \<Rightarrow> r)"

lemma setConfigIdentity_kept:
  assumes "identity_in (c_name c) (c_config c)" and "c_name c \<noteq> []" and "setConfigIdentity c = Inr c'"
  shows "c' = c\<lparr>c_config := respelled (c_config c)\<rparr>"
proof (cases "c_config c")
  case (RawVal sp v)
  then show ?thesis
    using assms by (auto simp: setConfigIdentity_def identity_in_def respelled_def unmarshal_def config_short_def marshal_def)
qed (use assms in \<open>auto simp: setConfigIdentity_def identity_in_def respelled_def config_short_def\<close>)

text \<open>The fields of a pushed client that the row keeps.\<close>

definition pushed_as :: "client \<Rightarrow> client \<Rightarrow> bool" where
  "pushed_as c0 c \<longleftrightarrow> c_id c = c_id c0 \<and> c_name c = c_name c0 \<and> c_enable c = c_enable c0 \<and> c_inbounds c = c_inbounds c0 \<and>
     c_expiry c = c_expiry c0 \<and> c_group c = c_group c0 \<and> c_limit_ip c = c_limit_ip c0 \<and> c_config c = respelled (c_config c0)"

lemma save_prepare_fields:
  assumes "save_prepare stored p d = Inr c3"
  defines "c0 \<equiv> decode_client p (case stored of None \<Rightarrow> zero_client | Some s \<Rightarrow> s)"
  assumes "TrimSpace (c_name c0) = c_name c0" and "c_inbounds c0 \<noteq> RawNil"
  shows "c_id c3 = c_id c0" "c_name c3 = c_name c0" "c_enable c3 = c_enable c0" "c_inbounds c3 = c_inbounds c0"
    "c_expiry c3 = c_expiry c0" "c_group c3 = c_group c0" "c_limit_ip c3 = c_limit_ip c0" "c_config c3 = c_config c0"
    "c_name c0 \<noteq> []"
  using assms(1) unfolding save_prepare_def c0_def [symmetric] rbind_eq_Inr normalizeClientName_Inr
  using assms(3,4)
  by (auto simp: Let_def res_simps normalizeResetSchedule_def defaultClientJSONFields_def raw_is_empty_def split: if_splits option.splits)

lemma save_one_row:
  assumes "save_one e stored p d = Inr (cw, d')"
  defines "c0 \<equiv> decode_client p (case stored of None \<Rightarrow> zero_client | Some s \<Rightarrow> s)"
  assumes "TrimSpace (c_name c0) = c_name c0" and "c_inbounds c0 \<noteq> RawNil" and "identity_in (c_name c0) (c_config c0)"
  obtains c where "d' = put_client c d" and "pushed_as c0 c"
proof -
  from assms(1) obtain c3 where c3: "save_prepare stored p d = Inr c3" "save_finish e stored d c3 = Inr (cw, d')"
    by (auto simp: save_one_def res_simps)
  note f = save_prepare_fields [OF c3(1), folded c0_def, OF assms(3,4)]
  from c3(2) obtain c4 c5 ids c7 where
    c4: "setConfigIdentity c3 = Inr c4" and c5: "updateLinksWithFixedInbounds e d [c4] = Inr c5"
    and c7: "save_server_fields e stored d (hd c5) = Inr (ids, c7)"
    and d': "d' = put_client (alignNextReset c7 stored (e_now e) (e_loc e)) d"
    by (auto simp: save_finish_def res_simps Let_def)
  have "c4 = c3\<lparr>c_config := respelled (c_config c3)\<rparr>"
    using setConfigIdentity_kept [OF _ _ c4] f assms(5) by simp
  moreover obtain y a b where "hd c5 = c4\<lparr>c_links := y\<rparr>" "c7 = (hd c5)\<lparr>c_created_at := a, c_online_at := b\<rparr>"
    using updateLinks_single [OF c5] save_server_fields_Inr [OF c7] by auto
  ultimately have "pushed_as c0 (alignNextReset c7 stored (e_now e) (e_loc e))"
    using f by (simp add: pushed_as_def alignNextReset_def Let_def)
  with d' show thesis by (rule that)
qed

text \<open>The table of cluster clients by name, as a reader of the answer builds it, and everything else.\<close>

definition cluster_row :: "string \<Rightarrow> client \<Rightarrow> bool" where
  "cluster_row n c \<longleftrightarrow> c_group c = clusterGroup \<and> c_name c = n"

definition node_look :: "sync_env \<Rightarrow> db \<Rightarrow> string \<Rightarrow> node_client option" where
  "node_look e d n =
     (case find (cluster_row n) (rev (db_clients d)) of
        None \<Rightarrow> None | Some c \<Rightarrow> (case node_view e c of Inl _ \<Rightarrow> None | Inr k \<Rightarrow> Some k))"

definition node_locals :: "db \<Rightarrow> client list \<times> inbound list \<times> string list" where
  "node_locals d = (filter (\<lambda>c. c_group c \<noteq> clusterGroup) (db_clients d), db_inbounds d, db_nodes d)"

definition node_ok :: "sync_env \<Rightarrow> db \<Rightarrow> bool" where
  "node_ok e d \<longleftrightarrow> ids_ok d \<and> distinct (map c_name (filter (\<lambda>c. c_group c = clusterGroup) (db_clients d))) \<and>
     (\<forall>c \<in> set (db_clients d). \<not> isl (node_view e c))"

definition wanted_ok :: "wanted \<Rightarrow> bool" where
  "wanted_ok w \<longleftrightarrow> TrimSpace (wt_name w) = wt_name w \<and> identity_in (wt_name w) (wt_config w)"

lemma gget_cluster_map: "gget (cluster_map ks) n = find (\<lambda>k. nk_group k = clusterGroup \<and> nk_name k = n) (rev ks)"
  by (induction ks rule: rev_induct) (auto simp: cluster_map_def)

lemma node_view_fields:
  "node_view e c = Inr k \<Longrightarrow> nk_id k = c_id c \<and> nk_name k = c_name c \<and> nk_group k = c_group c"
  by (auto simp: node_view_def res_simps split: if_splits)

lemma map_res_all: "map_res f xs = Inr ys \<Longrightarrow> x \<in> set xs \<Longrightarrow> \<not> isl (f x)"
  by (induction xs arbitrary: ys) (auto simp: res_simps)

lemma find_views:
  assumes "map_res (node_view e) cs = Inr ks"
  shows "find (\<lambda>k. nk_group k = clusterGroup \<and> nk_name k = n) (rev ks)
    = (case find (cluster_row n) (rev cs) of None \<Rightarrow> None | Some c \<Rightarrow> (case node_view e c of Inl _ \<Rightarrow> None | Inr k \<Rightarrow> Some k))"
  using assms
proof (induction cs arbitrary: ks)
  case (Cons c cs)
  then obtain k ks' where "node_view e c = Inr k" "map_res (node_view e) cs = Inr ks'" "ks = k # ks'"
    by (auto simp: res_simps)
  moreover have "\<not> isl (node_view e c')" if "find (cluster_row n) (rev cs) = Some c'" for c'
    using find_SomeD [OF that] map_res_all [OF \<open>map_res (node_view e) cs = Inr ks'\<close>] by auto
  ultimately show ?case
    using Cons.IH [of ks'] node_view_fields [of e c k]
    by (cases "cluster_row n c") (auto simp: find_append cluster_row_def [of n c] split: option.splits sum.splits)
qed simp

text \<open>A row replaced under its id.\<close>

lemma find_replaced:
  assumes "distinct (map c_id xs)" and "find P xs = Some r" and "c_id c = c_id r" and "P c"
  shows "find P (map (\<lambda>x. if c_id x = c_id c then c else x) xs) = Some c"
  using assms
proof (induction xs)
  case (Cons x xs)
  show ?case
  proof (cases "P x")
    case False
    with Cons.prems have "r \<in> set xs" by (auto simp: find_Some_iff)
    with Cons.prems have "c_id x \<noteq> c_id c" by auto
    with False Cons show ?thesis by auto
  qed (use Cons.prems in auto)
qed simp

lemma find_replaced_other:
  assumes "\<not> P c" and "\<forall>x \<in> set xs. c_id x = c_id c \<longrightarrow> \<not> P x"
  shows "find P (map (\<lambda>x. if c_id x = c_id c then c else x) xs) = find P xs"
  using assms by (induction xs) auto

text \<open>What the node stores for a pushed client does not differ from it.\<close>

lemma compact_identity:
  assumes "identity_in n r" and "compact_raw e r = Inr r'"
  shows "identity_in n r'" and "\<exists>k. compact_raw e (respelled r') = Inr k \<and> \<not> raw_is_empty (respelled r') \<and>
    (raw_is_empty r \<or> jsonEqual num dec toj r k)"
  using assms
  by (auto simp: identity_in_def compact_raw_def respelled_def raw_is_empty_def jsonEqual_def
      split: raw.splits spelling.splits if_splits)

lemma decoded_patch:
  "c_config (decode_client (wanted_patch i w) s) = wt_config w" "c_enable (decode_client (wanted_patch i w) s) = wt_enable w"
  "c_inbounds (decode_client (wanted_patch i w) s) = marshal (wt_inbounds w)"
  "c_expiry (decode_client (wanted_patch i w) s) = wt_expiry w" "c_limit_ip (decode_client (wanted_patch i w) s) = wt_limit_ip w"
  "c_name (decode_client (wanted_patch i w) s) = wt_name w" "c_group (decode_client (wanted_patch i w) s) = clusterGroup"
  "c_id (decode_client (wanted_patch i w) s) = (case i of None \<Rightarrow> c_id s | Some j \<Rightarrow> j)"
  by (simp_all add: wanted_patch_def decode_client_def split: option.split)

lemma pushed_view:
  assumes "wanted_ok w" and "compact_raw e (wt_config w) = Inr cfg"
    and "pushed_as (decode_client (wanted_patch ident (w\<lparr>wt_config := cfg\<rparr>)) s) c"
  shows "\<exists>k. node_view e (c\<lparr>c_id := i\<rparr>) = Inr k \<and> \<not> clientDiffers e w k"
proof -
  obtain k where k: "compact_raw e (respelled cfg) = Inr k" "\<not> raw_is_empty (respelled cfg)"
    "raw_is_empty (wt_config w) \<or> jsonEqual (sv_num e) (sv_dec e) config_json (wt_config w) k"
    using compact_identity(2) [OF _ assms(2)] assms(1) unfolding wanted_ok_def by metis
  have c: "c_config c = respelled cfg" "c_enable c = wt_enable w" "c_inbounds c = marshal (wt_inbounds w)" "c_expiry c = wt_expiry w"
    "c_limit_ip c = wt_limit_ip w"
    using assms(3) by (simp_all add: pushed_as_def decoded_patch)
  have ib: "compact_raw e (marshal ids) = Inr (marshal ids)" for ids :: "nat list"
    by (simp add: compact_raw_def marshal_def)
  have eq: "jsonEqual (sv_num e) (sv_dec e) inbounds_json (marshal ids) (marshal ids)" for ids
    by (simp add: jsonEqual_def marshal_def)
  show ?thesis
    using k c by (auto simp: node_view_def ib clientDiffers_def eq)
qed

text \<open>The effect of the three saves on the interface.\<close>

lemma node_look_None:
  assumes "node_ok e d"
  shows "node_look e d n = None \<longleftrightarrow> (\<forall>c \<in> set (db_clients d). \<not> cluster_row n c)"
proof -
  have "node_view e c \<noteq> Inl x" if "c \<in> set (db_clients d)" for c x
    using assms that unfolding node_ok_def by force
  then show ?thesis
    using find_SomeD [of "cluster_row n" "rev (db_clients d)"]
    by (auto simp: node_look_def find_None_iff split: option.splits sum.splits)
qed

lemma node_look_Some:
  assumes "node_look e d n = Some k"
  obtains s where "find (cluster_row n) (rev (db_clients d)) = Some s" and "s \<in> set (db_clients d)" and "cluster_row n s"
    and "node_view e s = Inr k"
  using assms find_SomeD [of "cluster_row n" "rev (db_clients d)"]
  by (auto simp: node_look_def split: option.splits sum.splits)

lemma saved_new:
  assumes "node_ok e d" and "wanted_ok w" and "compact_raw e (wt_config w) = Inr cfg" and "node_look e d (wt_name w) = None"
    and "save_new se (wanted_patch None (w\<lparr>wt_config := cfg\<rparr>)) d = Inr (cw, d')"
  shows "node_ok e d' \<and> node_locals d' = node_locals d \<and>
    (\<exists>k. \<not> clientDiffers e w k \<and> node_look e d' = (node_look e d)(wt_name w \<mapsto> k))"
proof -
  let ?c0 = "decode_client (wanted_patch None (w\<lparr>wt_config := cfg\<rparr>)) zero_client"
  have "identity_in (wt_name w) cfg" using assms(2,3) compact_identity(1) unfolding wanted_ok_def by blast
  then obtain c where d': "d' = put_client c d" and c: "pushed_as ?c0 c"
    using assms(2,5) save_one_row [of se None "wanted_patch None (w\<lparr>wt_config := cfg\<rparr>)" d cw d']
    by (auto simp: save_new_def decoded_patch wanted_ok_def marshal_def)
  let ?c = "c\<lparr>c_id := db_next_id d\<rparr>"
  have f: "c_id c = 0" "c_name c = wt_name w" "c_group c = clusterGroup"
    using c by (simp_all add: pushed_as_def decoded_patch zero_client_def)
  then have rows: "db_clients d' = db_clients d @ [?c]" by (simp add: d' put_client_def)
  obtain k where k: "node_view e ?c = Inr k" "\<not> clientDiffers e w k" using pushed_view [OF assms(2,3) c] by blast
  have free: "\<forall>r \<in> set (db_clients d). \<not> cluster_row (wt_name w) r" using assms(1,4) node_look_None by blast
  have "node_ok e d'"
    using assms(1) free f k(1) ids_ok_put [of d c] by (auto simp: node_ok_def rows d' [symmetric] cluster_row_def)
  moreover have "node_locals d' = node_locals d" using f by (simp add: node_locals_def rows) (simp add: d')
  moreover have "node_look e d' = (node_look e d)(wt_name w \<mapsto> k)"
    using f k by (auto simp: node_look_def rows cluster_row_def)
  ultimately show ?thesis using k(2) by blast
qed

lemma saved_edit:
  assumes "node_ok e d" and "wanted_ok w" and "compact_raw e (wt_config w) = Inr cfg" and "node_look e d (wt_name w) = Some cur"
    and "save_edit se (wanted_patch (Some (nk_id cur)) (w\<lparr>wt_config := cfg\<rparr>)) d = Inr (cw, d')"
  shows "node_ok e d' \<and> node_locals d' = node_locals d \<and>
    (\<exists>k. \<not> clientDiffers e w k \<and> node_look e d' = (node_look e d)(wt_name w \<mapsto> k))"
proof -
  let ?p = "wanted_patch (Some (nk_id cur)) (w\<lparr>wt_config := cfg\<rparr>)"
  obtain s where s: "find (cluster_row (wt_name w)) (rev (db_clients d)) = Some s" "s \<in> set (db_clients d)"
    "cluster_row (wt_name w) s" "c_id s = nk_id cur"
    using node_look_Some [OF assms(4)] node_view_fields by metis
  have ids: "ids_ok d" using assms(1) by (simp add: node_ok_def)
  have "find_client (nk_id cur) d = Inr s" using find_client_iff [OF ids] s by blast
  then have one: "save_one se (Some s) ?p d = Inr (cw, d')"
    using assms(5) by (simp add: save_edit_def decoded_patch)
  have "identity_in (wt_name w) cfg" using assms(2,3) compact_identity(1) unfolding wanted_ok_def by blast
  then obtain c where d': "d' = put_client c d" and c: "pushed_as (decode_client ?p s) c"
    using assms(2) save_one_row [OF one] by (auto simp: decoded_patch wanted_ok_def marshal_def)
  have f: "c_id c = c_id s" "c_name c = wt_name w" "c_group c = clusterGroup"
    using c s by (simp_all add: pushed_as_def decoded_patch)
  have "c_id s \<noteq> 0" using ids s(2) by (auto simp: ids_ok_def)
  then have rows: "db_clients d' = map (\<lambda>x. if c_id x = c_id c then c else x) (db_clients d)"
    using s(2) f by (auto simp: d' put_client_def)
  obtain k where k: "node_view e c = Inr k" "\<not> clientDiffers e w k"
    using pushed_view [OF assms(2,3) c, of "c_id c"] by auto
  have same: "x = s" if "x \<in> set (db_clients d)" "c_id x = c_id s" for x
    using ids that s(2) unfolding ids_ok_def by (blast dest: distinct_map_eqD)
  have upd: "map f (filter P (db_clients d')) = map f (filter P (db_clients d))" if "P c = P s" "P s \<Longrightarrow> f c = f s" for P and f :: "client \<Rightarrow> 'x"
  proof -
    have "\<forall>x \<in> set xs. c_id x = c_id s \<longrightarrow> x = s \<Longrightarrow>
      map f (filter P (map (\<lambda>x. if c_id x = c_id c then c else x) xs)) = map f (filter P xs)" for xs
      using that f(1) by (induction xs) auto
    then show ?thesis using same by (auto simp: rows)
  qed
  have "node_ok e d'"
    using assms(1) k(1) ids_ok_put [OF ids, of c] upd [of "\<lambda>c. c_group c = clusterGroup" c_name] s(3) f
    by (auto simp: node_ok_def d' [symmetric] cluster_row_def) (auto simp: rows)
  moreover have "node_locals d' = node_locals d"
    using upd [of "\<lambda>c. c_group c \<noteq> clusterGroup" id] s(3) f by (simp add: node_locals_def cluster_row_def) (simp add: d')
  moreover have "node_look e d' n = ((node_look e d)(wt_name w \<mapsto> k)) n" for n
  proof (cases "n = wt_name w")
    case True
    have "find (cluster_row n) (map (\<lambda>x. if c_id x = c_id c then c else x) (rev (db_clients d))) = Some c"
      using ids s f True by (intro find_replaced) (auto simp: ids_ok_def rev_map [symmetric] cluster_row_def)
    then show ?thesis using True k by (simp add: node_look_def rows rev_map)
  next
    case False
    have "find (cluster_row n) (map (\<lambda>x. if c_id x = c_id c then c else x) (rev (db_clients d))) = find (cluster_row n) (rev (db_clients d))"
      using False f s(3) same by (intro find_replaced_other) (auto simp: cluster_row_def)
    then show ?thesis using False by (simp add: node_look_def rows rev_map)
  qed
  ultimately show ?thesis using k(2) by blast
qed

lemma saved_del:
  assumes "node_ok e d" and "node_look e d n = Some cur" and "save_del (nk_id cur) d = Inr (cw, d')"
  shows "node_ok e d' \<and> node_locals d' = node_locals d \<and> node_look e d' = (node_look e d)(n := None)"
proof -
  obtain s where s: "s \<in> set (db_clients d)" "cluster_row n s" "c_id s = nk_id cur"
    using node_look_Some [OF assms(2)] node_view_fields by metis
  have d': "d' = delete_clients [nk_id cur] d" using assms(3) by (auto simp: save_del_def res_simps)
  have rows: "db_clients d' = filter (\<lambda>c. c_id c \<noteq> nk_id cur) (db_clients d)" by (simp add: d' delete_clients_def)
  have gone: "x = s" if "x \<in> set (db_clients d)" "c_id x = nk_id cur" for x
    using assms(1) that s unfolding node_ok_def ids_ok_def by (metis distinct_map_eqD)
  have only: "x = s" if "x \<in> set (db_clients d)" "cluster_row n x" for x
    using assms(1) that s distinct_map_eqD [of c_name "filter (\<lambda>c. c_group c = clusterGroup) (db_clients d)" x s]
    by (simp add: node_ok_def cluster_row_def)
  have "distinct (map c_name (filter P (filter Q xs)))" if "distinct (map c_name (filter P xs))" for P Q xs
    using that by (induction xs) auto
  then have "node_ok e d'"
    using assms(1) by (auto simp: node_ok_def rows ids_ok_def distinct_map_filter) (auto simp: d' delete_clients_def)
  moreover have "filter (\<lambda>c. c_group c \<noteq> clusterGroup) (db_clients d') = filter (\<lambda>c. c_group c \<noteq> clusterGroup) (db_clients d)"
    using gone s(2) by (auto simp: rows cluster_row_def intro!: filter_cong)
  moreover have "node_look e d' m = ((node_look e d)(n := None)) m" for m
  proof (cases "m = n")
    case True
    then show ?thesis using only s(3) node_look_None [OF \<open>node_ok e d'\<close>, of n] by (auto simp: rows)
  next
    case False
    have skip: "find P (filter Q xs) = find P xs" if "\<forall>x \<in> set xs. P x \<longrightarrow> Q x" for P Q and xs :: "client list"
      using that by (induction xs) auto
    have "find (cluster_row m) (rev (db_clients d')) = find (cluster_row m) (rev (db_clients d))"
      unfolding rows rev_filter using False gone s(2) by (intro skip) (auto simp: cluster_row_def)
    then show ?thesis using False by (simp add: node_look_def)
  qed
  ultimately show ?thesis by (auto simp: node_locals_def d' delete_clients_def)
qed

text \<open>A push either leaves the node alone, with an error, or leaves it as its save does.\<close>

lemma panel_push_cases:
  assumes "panel_push se rep p d = (res, d')"
  shows "(isl res \<and> d' = d) \<or> (\<exists>cw. Save se (fst (push_request p)) (snd (push_request p)) d = Inr (cw, d'))"
  using assms by (auto simp: panel_push_def split: sum.splits prod.splits reply.splits)

lemma pushClient_panel:
  assumes "pushClient e (panel e se rep full) p d = (res, d')"
  shows "(isl res \<and> d' = d) \<or>
    (\<exists>q cw. push_payload e p = Inr q \<and> Save se (fst (push_request q)) (snd (push_request q)) d = Inr (cw, d'))"
  using assms panel_push_cases by (auto simp: pushClient_def panel_def split: sum.splits)

lemma panel_cluster_node: "cluster_node e (panel e se rep full) (node_ok e) wanted_ok (node_look e) node_locals"
proof
  fix d ks
  assume "rm_clients (panel e se rep full) d = Inr ks"
  then show "gget (cluster_map ks) = node_look e d"
    by (auto simp: panel_def gget_cluster_map find_views node_look_def)
next
  fix d w res d'
  assume d: "node_ok e d" "wanted_ok w" "node_look e d (wt_name w) = None"
    and push: "pushClient e (panel e se rep full) (PNew w) d = (res, d')"
  have "isl res \<and> d' = d \<or> (\<exists>cfg cw. compact_raw e (wt_config w) = Inr cfg \<and>
      save_new se (wanted_patch None (w\<lparr>wt_config := cfg\<rparr>)) d = Inr (cw, d'))"
    using pushClient_panel [OF push] by (auto simp: push_payload_def Save_def res_simps)
  then show "node_ok e d' \<and> node_locals d' = node_locals d \<and>
    (isl res \<or> (\<exists>k. \<not> clientDiffers e w k \<and> node_look e d' = (node_look e d)(wt_name w \<mapsto> k)))"
    using saved_new [OF d(1,2) _ d(3)] d(1) by blast
next
  fix d w c res d'
  assume d: "node_ok e d" "wanted_ok w" "node_look e d (wt_name w) = Some c"
    and push: "pushClient e (panel e se rep full) (PEdit (nk_id c) w) d = (res, d')"
  have "isl res \<and> d' = d \<or> (\<exists>cfg cw. compact_raw e (wt_config w) = Inr cfg \<and>
      save_edit se (wanted_patch (Some (nk_id c)) (w\<lparr>wt_config := cfg\<rparr>)) d = Inr (cw, d'))"
    using pushClient_panel [OF push] by (auto simp: push_payload_def Save_def res_simps)
  then show "node_ok e d' \<and> node_locals d' = node_locals d \<and>
    (isl res \<or> (\<exists>k. \<not> clientDiffers e w k \<and> node_look e d' = (node_look e d)(wt_name w \<mapsto> k)))"
    using saved_edit [OF d(1,2) _ d(3)] d(1) by blast
next
  fix d n c res d'
  assume d: "node_ok e d" "node_look e d n = Some c"
    and push: "pushClient e (panel e se rep full) (PDel (nk_id c)) d = (res, d')"
  have "isl res \<and> d' = d \<or> (\<exists>cw. save_del (nk_id c) d = Inr (cw, d'))"
    using pushClient_panel [OF push] by (auto simp: push_payload_def Save_def)
  then show "node_ok e d' \<and> node_locals d' = node_locals d \<and> (isl res \<or> node_look e d' = (node_look e d)(n := None))"
    using saved_del [OF d] d(1) by blast
qed

interpretation panel_node: cluster_node e "panel e se rep full" "node_ok e" wanted_ok "node_look e" node_locals
  for e se rep full
  by (rule panel_cluster_node)

end
