(* ===== verification/NodeSyncInv.thy ===== *)
theory NodeSyncInv
  imports NodePanel
begin

text \<open>
  What the parts of a run keep: folding links and refreshing replicas leave alone everything the wanted clients are
  made from, so a run over a panel that went through leaves nothing for the next one to push.
\<close>

section \<open>Links\<close>

text \<open>The row of a client after the refresh.\<close>

definition linked_row :: "sync_env \<Rightarrow> node_row \<Rightarrow> db \<Rightarrow> client \<Rightarrow> client" where
  "linked_row e node d c =
     (case refreshed_links e node d c of
        None \<Rightarrow> c | Some ls \<Rightarrow> if sv_fails e (YLinks (c_name c)) then c else c\<lparr>c_links := marshal_indent ls\<rparr>)"

lemma linked_row_same [simp]:
  "c_id (linked_row e node d c) = c_id c" "c_name (linked_row e node d c) = c_name c"
  "c_config (linked_row e node d c) = c_config c" "c_inbounds (linked_row e node d c) = c_inbounds c"
  "c_remark (linked_row e node d c) = c_remark c" "c_enable (linked_row e node d c) = c_enable c"
  "c_expiry (linked_row e node d c) = c_expiry c" "c_desc (linked_row e node d c) = c_desc c"
  "c_limit_ip (linked_row e node d c) = c_limit_ip c"
  by (simp_all add: linked_row_def split: option.splits)

definition unlinked :: "sync_env \<Rightarrow> node_row \<Rightarrow> db \<Rightarrow> client \<Rightarrow> bool" where
  "unlinked e node d c \<longleftrightarrow> refreshed_links e node d c = None \<or> sv_fails e (YLinks (c_name c))"

lemma refresh_client_links_step:
  assumes "db_clients (w_db w) = pre @ c # post" and "distinct (map c_id (pre @ c # post))"
  obtains t' w' where "refresh_client_links e node d c (t, w) = (t', w')"
    and "db_clients (w_db w') = pre @ linked_row e node d c # post"
    and "db_inbounds (w_db w') = db_inbounds (w_db w)" and "db_nodes (w_db w') = db_nodes (w_db w)"
    and "if unlinked e node d c then t' = t \<and> w' = w else t'"
proof (cases "unlinked e node d c")
  case True
  then have "refresh_client_links e node d c (t, w) = (t, w)" "linked_row e node d c = c"
    by (auto simp: unlinked_def refresh_client_links_def linked_row_def split: option.splits)
  with True assms show thesis by (intro that) simp_all
next
  case False
  then obtain ls where ls: "refreshed_links e node d c = Some ls" "\<not> sv_fails e (YLinks (c_name c))"
    by (auto simp: unlinked_def)
  have other: "map (\<lambda>r. if c_id r = c_id c then r\<lparr>c_links := marshal_indent ls\<rparr> else r) xs = xs"
    if "c_id c \<notin> c_id ` set xs" for xs using that by (induction xs) auto
  define w' where "w' = w\<lparr>w_db := (w_db w)\<lparr>db_clients := pre @ linked_row e node d c # post, db_changes := db_changes (w_db w) @
    [log_row (sv_now e) ''NodeSync'' ''edit'' (JObj [(''name'', JStr (c_name c)), (''node'', JStr (nd_name node))])]\<rparr>\<rparr>"
  have "refresh_client_links e node d c (t, w) = (True, w')"
    using ls assms by (simp add: refresh_client_links_def Let_def linked_row_def other w'_def)
  then show thesis by (rule that) (use False in \<open>simp_all add: w'_def\<close>)
qed

lemma refresh_links_fold:
  assumes "db_clients (w_db w) = pre @ todo" and "distinct (map c_id (pre @ todo))"
    and "fold (refresh_client_links e node d) todo (t, w) = (t', w')"
  shows "db_clients (w_db w') = pre @ map (linked_row e node d) todo \<and> db_inbounds (w_db w') = db_inbounds (w_db w) \<and>
    db_nodes (w_db w') = db_nodes (w_db w) \<and> (if \<forall>c \<in> set todo. unlinked e node d c then t' = t \<and> w' = w else t')"
  using assms
proof (induction todo arbitrary: pre t w)
  case (Cons c todo)
  obtain t1 w1 where one: "refresh_client_links e node d c (t, w) = (t1, w1)"
    and w1: "db_clients (w_db w1) = (pre @ [linked_row e node d c]) @ todo"
      "db_inbounds (w_db w1) = db_inbounds (w_db w)" "db_nodes (w_db w1) = db_nodes (w_db w)"
    and t1: "if unlinked e node d c then t1 = t \<and> w1 = w else t1"
    using refresh_client_links_step [OF Cons.prems(1,2), of e node d t] by auto
  have "fold (refresh_client_links e node d) todo (t1, w1) = (t', w')" using Cons.prems(3) one by simp
  moreover have "distinct (map c_id ((pre @ [linked_row e node d c]) @ todo))" using Cons.prems(2) by simp
  ultimately have "db_clients (w_db w') = (pre @ [linked_row e node d c]) @ map (linked_row e node d) todo \<and>
    db_inbounds (w_db w') = db_inbounds (w_db w1) \<and> db_nodes (w_db w') = db_nodes (w_db w1) \<and>
    (if \<forall>c \<in> set todo. unlinked e node d c then t' = t1 \<and> w' = w1 else t')"
    using w1(1) by (intro Cons.IH)
  with w1 t1 show ?case by (auto split: if_splits)
qed simp

lemma SetLastUpdate_db [simp]: "w_db (SetLastUpdate dt w) = w_db w"
  by (simp add: SetLastUpdate_def MarkLastUpdate_def)

lemma refreshNodeLinks_rows:
  fixes e :: sync_env and node :: node_row and w :: world
  assumes "distinct (map c_id (db_clients (w_db w)))"
  defines "w' \<equiv> refreshNodeLinks e node w" and "reads \<equiv> \<not> sv_fails e YReplicas \<and> \<not> sv_fails e YClients"
  shows "db_clients (w_db w') = (if reads then map (linked_row e node (w_db w)) (db_clients (w_db w)) else db_clients (w_db w))"
    and "db_inbounds (w_db w') = db_inbounds (w_db w)" and "db_nodes (w_db w') = db_nodes (w_db w)"
    and "\<not> reads \<or> (\<forall>c \<in> set (db_clients (w_db w)). unlinked e node (w_db w) c) \<Longrightarrow> w' = w"
proof -
  obtain t' w1 where fold: "fold (refresh_client_links e node (w_db w)) (db_clients (w_db w)) (False, w) = (t', w1)" by fastforce
  note f = refresh_links_fold [of w "[]", simplified, OF refl assms(1) fold]
  have w': "w' = (if reads then if t' then SetLastUpdate (sv_now e) w1 else w1 else w)"
    by (simp add: w'_def refreshNodeLinks_def reads_def fold)
  show "db_clients (w_db w') = (if reads then map (linked_row e node (w_db w)) (db_clients (w_db w)) else db_clients (w_db w))"
    and "db_inbounds (w_db w') = db_inbounds (w_db w)" and "db_nodes (w_db w') = db_nodes (w_db w)"
    and "\<not> reads \<or> (\<forall>c \<in> set (db_clients (w_db w)). unlinked e node (w_db w) c) \<Longrightarrow> w' = w"
    using f by (auto simp: w' split: if_splits)
qed

text \<open>Links of this node are its own, so a second refresh finds what the first one wrote.\<close>

lemma desired_links_owned: "l \<in> set (desired_links e node d c) \<Longrightarrow> owned_by (nd_name node) l"
  by (auto simp: desired_links_def owned_by_def node_link_def has_prefix_iff gget0_def split: option.splits)

lemma desired_links_cong:
  assumes "db_inbounds d = db_inbounds d'" and "c_inbounds c = c_inbounds c'" and "c_config c = c_config c'" and "c_remark c = c_remark c'"
  shows "desired_links e node d c = desired_links e node d' c'"
proof -
  have "genNodeReplicaLinks e rep (c\<lparr>c_remark := x\<rparr>) = genNodeReplicaLinks e rep (c'\<lparr>c_remark := x\<rparr>)" for rep x
  proof -
    have "c_config (c\<lparr>c_remark := x\<rparr>) = c_config (c'\<lparr>c_remark := x\<rparr>)" "c_remark (c\<lparr>c_remark := x\<rparr>) = c_remark (c'\<lparr>c_remark := x\<rparr>)"
      using assms(3) by simp_all
    then show ?thesis unfolding genNodeReplicaLinks_def by presburger
  qed
  then show ?thesis
    unfolding desired_links_def replicas_of_def assms by presburger
qed

lemma desired_links_foreign [simp]: "filter (\<lambda>l. \<not> owned_by (nd_name node) l) (desired_links e node d c) = []"
  using desired_links_owned by (simp add: filter_empty_conv)

lemma refreshed_links_settled:
  assumes "refreshed_links e node d c = Some ls" and "db_inbounds d' = db_inbounds d"
  shows "refreshed_links e node d' (c\<lparr>c_links := marshal_indent ls\<rparr>) = None"
proof -
  let ?c = "c\<lparr>c_links := marshal_indent ls\<rparr>"
  have des: "desired_links e node d' ?c = desired_links e node d c" by (rule desired_links_cong) (use assms in simp_all)
  define kept where "kept = filter (\<lambda>l. \<not> owned_by (nd_name node) l) (unmarshal_ignore [] (c_links c))"
  have ls: "ls = kept @ desired_links e node d c"
    using assms(1) by (auto simp: refreshed_links_def Let_def kept_def split: if_splits)
  have get: "unmarshal_ignore [] (marshal_indent ls) = ls" by (simp add: unmarshal_ignore_def marshal_indent_def)
  have "filter (\<lambda>l. \<not> owned_by (nd_name node) l) ls = kept"
    by (simp add: ls) (simp add: kept_def)
  then have "filter (\<lambda>l. \<not> owned_by (nd_name node) l) ls @ desired_links e node d' ?c = ls"
    by (metis des ls)
  moreover have "jsonEqual num dec links_json (marshal_indent ls) (marshal_indent ls)" for num dec
    by (simp add: jsonEqual_def marshal_indent_def)
  ultimately show ?thesis by (simp add: refreshed_links_def Let_def get)
qed

lemma refreshed_links_cong:
  "db_inbounds d' = db_inbounds d \<Longrightarrow> refreshed_links e node d' c = refreshed_links e node d c"
  using desired_links_cong [of d' d c c] by (simp add: refreshed_links_def)

lemma linked_row_settled:
  assumes "db_inbounds d' = db_inbounds d"
  shows "unlinked e node d' (linked_row e node d c)"
proof (cases "unlinked e node d c")
  case True
  then have "linked_row e node d c = c" by (auto simp: unlinked_def linked_row_def split: option.splits)
  with True show ?thesis using refreshed_links_cong [OF assms] by (simp add: unlinked_def)
next
  case False
  then show ?thesis using refreshed_links_settled [OF _ assms] by (auto simp: unlinked_def linked_row_def)
qed

lemma refreshNodeLinks_idem:
  assumes "distinct (map c_id (db_clients (w_db w)))"
  shows "refreshNodeLinks e node (refreshNodeLinks e node w) = refreshNodeLinks e node w"
proof -
  let ?w = "refreshNodeLinks e node w" and ?reads = "\<not> sv_fails e YReplicas \<and> \<not> sv_fails e YClients"
  note r = refreshNodeLinks_rows [OF assms, of e node]
  have "distinct (map c_id (db_clients (w_db ?w)))" using assms by (simp add: r(1) comp_def)
  moreover have "\<not> ?reads \<or> (\<forall>c \<in> set (db_clients (w_db ?w)). unlinked e node (w_db ?w) c)"
    using linked_row_settled [OF r(2)] by (auto simp: r(1))
  ultimately show ?thesis by (rule refreshNodeLinks_rows(4))
qed

text \<open>The links that are not the node's stay, in their order.\<close>

lemma linked_row_kept:
  "filter (\<lambda>l. \<not> owned_by (nd_name node) l) (unmarshal_ignore [] (c_links (linked_row e node d c)))
     = filter (\<lambda>l. \<not> owned_by (nd_name node) l) (unmarshal_ignore [] (c_links c))"
proof (cases "unlinked e node d c")
  case True
  then show ?thesis by (auto simp: unlinked_def linked_row_def split: option.splits)
next
  case False
  then obtain ls where ls: "refreshed_links e node d c = Some ls" "\<not> sv_fails e (YLinks (c_name c))" by (auto simp: unlinked_def)
  then have "ls = filter (\<lambda>l. \<not> owned_by (nd_name node) l) (unmarshal_ignore [] (c_links c)) @ desired_links e node d c"
    by (auto simp: refreshed_links_def Let_def split: if_splits)
  then show ?thesis
    using ls by (simp add: linked_row_def unmarshal_ignore_def marshal_indent_def)
qed

section \<open>What the wanted clients are made from\<close>

definition inbound_keys :: "db \<Rightarrow> (nat \<times> string \<times> nat option) list" where
  "inbound_keys d = map (\<lambda>ib. (ib_id ib, ib_tag ib, ib_node_id ib)) (db_inbounds d)"

definition client_keys :: "db \<Rightarrow> (client \<times> nat list raw) list" where
  "client_keys d = map (\<lambda>c. (c\<lparr>c_links := RawNil\<rparr>, c_inbounds c)) (db_clients d)"

lemma inbound_keys_replicas:
  "inbound_keys d = inbound_keys d' \<Longrightarrow>
     map (\<lambda>ib. (ib_id ib, ib_tag ib)) (replicas_of i d) = map (\<lambda>ib. (ib_id ib, ib_tag ib)) (replicas_of i d')"
proof -
  have proj: "map (\<lambda>ib. (ib_id ib, ib_tag ib)) (filter (\<lambda>ib. ib_node_id ib = Some i) xs)
    = map (\<lambda>(a, b, c). (a, b)) (filter (\<lambda>(a, b, c). c = Some i) (map (\<lambda>ib. (ib_id ib, ib_tag ib, ib_node_id ib)) xs))" for xs
    by (induction xs) auto
  show ?thesis if "inbound_keys d = inbound_keys d'"
    unfolding replicas_of_def proj using that by (simp only: inbound_keys_def)
qed

lemma node_local_ids_cong:
  assumes "map (\<lambda>ib. (ib_id ib, ib_tag ib)) rs = map (\<lambda>ib. (ib_id ib, ib_tag ib)) rs'"
  shows "node_local_ids rs m ids = node_local_ids rs' m ids"
proof -
  have tag: "map_option ib_tag (find (\<lambda>ib. ib_id ib = i) xs) = map_of (map (\<lambda>ib. (ib_id ib, ib_tag ib)) xs) i" for i xs
    by (induction xs) auto
  have "node_local_ids xs m ids = concat (map (\<lambda>i. case map_option ib_tag (find (\<lambda>ib. ib_id ib = i) xs) of None \<Rightarrow> []
      | Some t \<Rightarrow> (case gget m t of None \<Rightarrow> [] | Some localId \<Rightarrow> [localId])) ids)" for xs
    unfolding node_local_ids_def by (intro arg_cong [where f = concat] map_cong refl) (simp split: option.splits)
  then show ?thesis by (simp only: tag assms)
qed

text \<open>One entry, from the keys of its row.\<close>

lemma expect_client_keys:
  assumes "c\<lparr>c_links := RawNil\<rparr> = c'\<lparr>c_links := RawNil\<rparr>" and "c_inbounds c = c_inbounds c'"
    and "map (\<lambda>ib. (ib_id ib, ib_tag ib)) rs = map (\<lambda>ib. (ib_id ib, ib_tag ib)) rs'"
  shows "expect_client rs m c = expect_client rs' m c'"
proof -
  have "wanted_of c ids = wanted_of c' ids" "c_name c = c_name c'" for ids
    using assms(1) by (cases c; cases c'; simp add: wanted_of_def)+
  then show ?thesis
    by (intro ext) (simp add: expect_client_def assms(2) node_local_ids_cong [OF assms(3)] Let_def split: sum.splits)
qed

lemma expectedClients_cong:
  assumes "inbound_keys d = inbound_keys d'" and "client_keys d = client_keys d'"
  shows "expectedClients e i m d = expectedClients e i m d'"
proof -
  let ?rs = "replicas_of i d" and ?rs' = "replicas_of i d'"
  note keys = inbound_keys_replicas [OF assms(1), of i]
  have fold: "map (\<lambda>c. (c\<lparr>c_links := RawNil\<rparr>, c_inbounds c)) cs = map (\<lambda>c. (c\<lparr>c_links := RawNil\<rparr>, c_inbounds c)) cs' \<Longrightarrow>
      fold (expect_client ?rs m) cs acc = fold (expect_client ?rs' m) cs' acc" for cs cs' acc
  proof (induction cs arbitrary: cs' acc)
    case (Cons c cs)
    then obtain c' cs2 where cs': "cs' = c' # cs2" by (cases cs') auto
    with Cons.prems have "c\<lparr>c_links := RawNil\<rparr> = c'\<lparr>c_links := RawNil\<rparr>" "c_inbounds c = c_inbounds c'" by simp_all
    then have "expect_client ?rs m c = expect_client ?rs' m c'" by (rule expect_client_keys [OF _ _ keys])
    moreover have "fold (expect_client ?rs m) cs acc' = fold (expect_client ?rs' m) cs2 acc'" for acc'
      by (rule Cons.IH) (use Cons.prems in \<open>simp only: cs' list.map list.inject\<close>)
    ultimately show ?case by (simp add: cs')
  qed simp
  have "?rs = [] \<longleftrightarrow> ?rs' = []" using arg_cong [OF keys, of length] by auto
  moreover have "fold (expect_client ?rs m) (db_clients d) [] = fold (expect_client ?rs' m) (db_clients d') []"
    by (rule fold) (use assms(2) in \<open>simp only: client_keys_def\<close>)
  ultimately show ?thesis unfolding expectedClients_def Let_def by simp
qed

lemma linked_row_keys: "(linked_row e node d c)\<lparr>c_links := RawNil\<rparr> = c\<lparr>c_links := RawNil\<rparr>"
  by (simp add: linked_row_def split: option.splits)

lemma refreshNodeLinks_keys:
  assumes "distinct (map c_id (db_clients (w_db w)))"
  shows "inbound_keys (w_db (refreshNodeLinks e node w)) = inbound_keys (w_db w)"
    and "client_keys (w_db (refreshNodeLinks e node w)) = client_keys (w_db w)"
  using refreshNodeLinks_rows [OF assms, of e node]
  by (simp_all add: inbound_keys_def client_keys_def linked_row_keys comp_def)

lemma refresh_replica_keys:
  assumes "refresh_replica e node byTag raw (t, w) = (t', w')"
  shows "inbound_keys (w_db w') = inbound_keys (w_db w) \<and> db_clients (w_db w') = db_clients (w_db w)"
  using assms by (auto simp: refresh_replica_def Let_def inbound_keys_def split: sum.splits option.splits if_splits)

lemma refreshReplicas_keys:
  assumes "refreshReplicas e rm r node m w = (t, w')"
  shows "inbound_keys (w_db w') = inbound_keys (w_db w) \<and> db_clients (w_db w') = db_clients (w_db w)"
proof -
  have fold: "inbound_keys (w_db w2) = inbound_keys (w_db w1) \<and> db_clients (w_db w2) = db_clients (w_db w1)"
    if "fold (refresh_replica e node byTag) raws (t1, w1) = (t2, w2)" for byTag raws t1 w1 t2 w2
    using that
  proof (induction raws arbitrary: t1 w1)
    case (Cons raw raws)
    obtain t3 w3 where "refresh_replica e node byTag raw (t1, w1) = (t3, w3)" by fastforce
    with Cons show ?case using refresh_replica_keys by fastforce
  qed simp
  show ?thesis
    using assms fold by (auto simp: refreshReplicas_def Let_def split: if_splits sum.splits prod.splits)
qed

section \<open>A whole run\<close>

text \<open>The master's tables, as far as the wanted clients go.\<close>

definition same_source :: "sync_state \<Rightarrow> sync_state \<Rightarrow> bool" where
  "same_source s s' \<longleftrightarrow> inbound_keys (w_db (sy_world s')) = inbound_keys (w_db (sy_world s)) \<and>
     client_keys (w_db (sy_world s')) = client_keys (w_db (sy_world s))"

definition master_ok :: "sync_state \<Rightarrow> bool" where
  "master_ok s \<longleftrightarrow> distinct (map c_id (db_clients (w_db (sy_world s)))) \<and>
     (\<forall>c \<in> set (db_clients (w_db (sy_world s))). TrimSpace (c_name c) = c_name c \<and> identity_in (c_name c) (c_config c))"

lemma client_keys_ids: "client_keys d' = client_keys d \<Longrightarrow> map c_id (db_clients d') = map c_id (db_clients d)"
proof -
  have "map c_id (db_clients d) = map (\<lambda>p. c_id (fst p)) (client_keys d)" for d by (simp add: client_keys_def)
  then show "client_keys d' = client_keys d \<Longrightarrow> ?thesis" by simp
qed

lemma client_keys_ok:
  assumes "client_keys d' = client_keys d" and "c' \<in> set (db_clients d')"
  obtains c where "c \<in> set (db_clients d)" and "c\<lparr>c_links := RawNil\<rparr> = c'\<lparr>c_links := RawNil\<rparr>"
proof -
  have "(c'\<lparr>c_links := RawNil\<rparr>, c_inbounds c') \<in> set (client_keys d')"
    using assms(2) by (simp add: client_keys_def)
  then have "(c'\<lparr>c_links := RawNil\<rparr>, c_inbounds c') \<in> set (client_keys d)" by (simp only: assms(1))
  then show thesis using that by (auto simp: client_keys_def)
qed

lemma master_ok_same:
  assumes "same_source s s'" and "master_ok s"
  shows "master_ok s'"
proof -
  have keys: "client_keys (w_db (sy_world s')) = client_keys (w_db (sy_world s))" using assms(1) by (simp add: same_source_def)
  have "TrimSpace (c_name c') = c_name c' \<and> identity_in (c_name c') (c_config c')"
    if mem: "c' \<in> set (db_clients (w_db (sy_world s')))" for c'
  proof -
    obtain c where c: "c \<in> set (db_clients (w_db (sy_world s)))" "c\<lparr>c_links := RawNil\<rparr> = c'\<lparr>c_links := RawNil\<rparr>"
      using client_keys_ok [OF keys mem] by blast
    then have "c_name c' = c_name c" "c_config c' = c_config c" by (metis client.ext_inject client.surjective client.update_convs(6))+
    with c(1) assms(2) show ?thesis by (simp add: master_ok_def)
  qed
  with assms(2) client_keys_ids [OF keys] show ?thesis by (simp add: master_ok_def)
qed

lemma expect_client_entry:
  assumes "(n, w) \<in> set (expect_client rs m c acc)"
  shows "(n, w) \<in> set acc \<or> (\<exists>ids. n = c_name c \<and> w = wanted_of c ids)"
  using assms by (auto simp: expect_client_def Let_def split: sum.splits if_splits dest: gput_in_set)

lemma expectedClients_entry:
  assumes "expectedClients e i m d = Inr expected"
  shows "gmap_ok expected" and "(n, w) \<in> set expected \<Longrightarrow> \<exists>c \<in> set (db_clients d). \<exists>ids. n = c_name c \<and> w = wanted_of c ids"
proof -
  let ?f = "fold (expect_client (replicas_of i d) m)"
  have ok: "gmap_ok acc \<Longrightarrow> gmap_ok (?f cs acc)" for cs acc
    by (induction cs arbitrary: acc) (auto simp: expect_client_def Let_def distinct_update split: sum.splits)
  have entry: "(n, w) \<in> set (?f cs acc) \<Longrightarrow> (n, w) \<in> set acc \<or> (\<exists>c \<in> set cs. \<exists>ids. n = c_name c \<and> w = wanted_of c ids)" for cs acc
  proof (induction cs arbitrary: acc)
    case (Cons c cs)
    then have "(n, w) \<in> set (expect_client (replicas_of i d) m c acc) \<or> (\<exists>c \<in> set cs. \<exists>ids. n = c_name c \<and> w = wanted_of c ids)"
      by simp
    then show ?case using expect_client_entry [of n w _ m c acc] by auto
  qed simp
  show "gmap_ok expected"
    using assms ok [of "[]"] by (auto simp: expectedClients_def Let_def split: if_splits)
  show "(n, w) \<in> set expected \<Longrightarrow> \<exists>c \<in> set (db_clients d). \<exists>ids. n = c_name c \<and> w = wanted_of c ids"
    using assms entry [of _ "[]"] by (auto simp: expectedClients_def Let_def split: if_splits)
qed

lemma expected_wanted_ok:
  assumes "expectedClients e i m (w_db (sy_world s)) = Inr expected" and "master_ok s"
  shows "\<forall>(n, w) \<in> set expected. wt_name w = n \<and> wanted_ok w"
  using expectedClients_entry(2) [OF assms(1)] assms(2) by (fastforce simp: master_ok_def wanted_ok_def wanted_of_def)

lemma same_source_sym: "same_source s s' \<Longrightarrow> same_source s' s"
  by (simp add: same_source_def)

lemma same_source_trans: "same_source s s' \<Longrightarrow> same_source s' s'' \<Longrightarrow> same_source s s''"
  by (simp add: same_source_def)

lemma expectedClients_same:
  "same_source s s' \<Longrightarrow> expectedClients e i m (w_db (sy_world s')) = expectedClients e i m (w_db (sy_world s))"
  by (rule expectedClients_cong) (simp_all add: same_source_def)

text \<open>What the body of a run has computed by the time it pushes, and what it leaves.\<close>

lemma sync_body_cases:
  assumes "master_ok s" and "sync_body e rm i s r = (res, s1, r1)"
  obtains (early) err where "res = Inl err" and "r1 = r" and "same_source s s1" and "sy_nodes s1 = sy_nodes s"
      and "\<nexists>node m expected actual. getNodeById i s = Inr node \<and> nd_enable node \<and> nodeInboundTagMap rm r = Inr m \<and>
        expectedClients e i m (w_db (sy_world s)) = Inr expected \<and> actualClusterClients rm r = Inr actual"
  | (pushed) node m expected actual s2 res' where "getNodeById i s = Inr node" and "nd_enable node" and "nodeInboundTagMap rm r = Inr m"
      and "same_source s s2" and "expectedClients e i m (w_db (sy_world s2)) = Inr expected" and "actualClusterClients rm r = Inr actual"
      and "push_all e rm (reconcile_pushes e expected actual) r = (res', r1)" and "isl res = isl res'"
      and "same_source s s1" and "sy_nodes s1 = sy_nodes s"
proof (cases "\<exists>node m. getNodeById i s = Inr node \<and> nd_enable node \<and> nodeInboundTagMap rm r = Inr m")
  case False
  then have "isl res" "r1 = r" "s1 = s"
    using assms(2) by (auto simp: sync_body_def split: sum.splits if_splits)
  with False show thesis by (intro early [of "projl res"]) (auto simp: same_source_def)
next
  case True
  then obtain node m where node: "getNodeById i s = Inr node" "nd_enable node" "nodeInboundTagMap rm r = Inr m" by blast
  obtain t w1 where rep: "refreshReplicas e rm r node m (sy_world s) = (t, w1)" by fastforce
  define w2 where "w2 = (if t then refreshNodeLinks e node w1 else w1)"
  let ?s2 = "s\<lparr>sy_world := w2\<rparr>" and ?s3 = "s\<lparr>sy_world := w2, sy_world := refreshNodeLinks e node w2\<rparr>"
  have dist: "distinct (map c_id (db_clients (w_db (sy_world s))))" using assms(1) by (simp add: master_ok_def)
  have w1: "inbound_keys (w_db w1) = inbound_keys (w_db (sy_world s))" "db_clients (w_db w1) = db_clients (w_db (sy_world s))"
    using refreshReplicas_keys [OF rep] by simp_all
  have s2: "same_source s ?s2"
    using w1 dist refreshNodeLinks_keys [of w1 e node] by (simp add: same_source_def w2_def client_keys_def)
  then have "distinct (map c_id (db_clients (w_db w2)))"
    using client_keys_ids [of "w_db w2"] dist by (simp add: same_source_def)
  then have s3: "same_source s ?s3" using s2 refreshNodeLinks_keys [of w2 e node] by (simp add: same_source_def)
  have body: "sync_body e rm i s r = (case expectedClients e i m (w_db w2) of
      Inl err \<Rightarrow> (Inl err, ?s2, r)
    | Inr expected \<Rightarrow> (case actualClusterClients rm r of
        Inl err \<Rightarrow> (Inl err, ?s2, r)
      | Inr actual \<Rightarrow> (case push_all e rm (reconcile_pushes e expected actual) r of
          (Inl err, r1) \<Rightarrow> (Inl err, ?s2, r1) | (Inr _, r1) \<Rightarrow> (Inr (), ?s3, r1))))"
    unfolding sync_body_def node sum.case rep w2_def Let_def by (simp add: node(2))
  show thesis
  proof (cases "\<exists>expected actual. expectedClients e i m (w_db w2) = Inr expected \<and> actualClusterClients rm r = Inr actual")
    case False
    then have "isl res" "r1 = r" "s1 = ?s2" using assms(2) unfolding body by (auto split: sum.splits)
    moreover have "expectedClients e i m (w_db (sy_world s)) = expectedClients e i m (w_db w2)"
      using expectedClients_same [OF s2] by simp
    ultimately show thesis using False node s2 by (intro early [of "projl res"]) auto
  next
    case True
    then obtain expected actual where ea: "expectedClients e i m (w_db w2) = Inr expected" "actualClusterClients rm r = Inr actual" by blast
    obtain res' r2 where push: "push_all e rm (reconcile_pushes e expected actual) r = (res', r2)" by fastforce
    have "r1 = r2" "isl res = isl res'" "s1 = ?s2 \<or> s1 = ?s3"
      using assms(2) unfolding body ea sum.case push by (auto split: sum.splits)
    with push ea s2 s3 show thesis by (intro pushed [OF node s2]) auto
  qed
qed

lemma sync_finish_result:
  assumes "sync_finish e i b s = (res, s')"
  shows "same_source s s'" and "isl res \<longleftrightarrow> sv_fails e YNode"
    and "map (\<lambda>n. (nd_id n, nd_enable n, nd_name n)) (sy_nodes s') = map (\<lambda>n. (nd_id n, nd_enable n, nd_name n)) (sy_nodes s)"
  using assms by (auto simp: sync_finish_def set_node_def Let_def same_source_def split: if_splits)

lemma getNodeById_same:
  assumes "map (\<lambda>n. (nd_id n, nd_enable n, nd_name n)) (sy_nodes s') = map (\<lambda>n. (nd_id n, nd_enable n, nd_name n)) (sy_nodes s)"
    and "getNodeById i s = Inr node"
  obtains node' where "getNodeById i s' = Inr node'" and "nd_enable node' = nd_enable node"
proof -
  have key: "map_option (\<lambda>n. nd_enable n) (find (\<lambda>n. nd_id n = i) ns) = map_of (map (\<lambda>(a, b, c). (a, b)) (map (\<lambda>n. (nd_id n, nd_enable n, nd_name n)) ns)) i" for ns
    by (induction ns) auto
  have "map_option (\<lambda>n. nd_enable n) (find (\<lambda>n. nd_id n = i) (sy_nodes s')) = map_option (\<lambda>n. nd_enable n) (find (\<lambda>n. nd_id n = i) (sy_nodes s))"
    unfolding key assms(1) ..
  then show thesis
    using assms(2) that by (auto simp: getNodeById_def split: option.splits)
qed

text \<open>Over a panel, whatever the outcome, nothing but its cluster clients is touched.\<close>

lemma panel_inbounds: "nodeInboundTagMap (panel e se rep full) d = Inr (tag_map (map (\<lambda>ib. (ib_id ib, ib_tag ib)) (db_inbounds d)))"
  by (simp add: nodeInboundTagMap_def panel_def)

lemma sync_body_locals:
  assumes "master_ok s" and "node_ok e d" and "sync_body e (panel e se rep full) i s d = (res, s1, d1)"
  shows "node_ok e d1" and "node_locals d1 = node_locals d"
proof -
  have "node_ok e d1 \<and> node_locals d1 = node_locals d"
    using assms(1,3)
  proof (cases rule: sync_body_cases)
    case (pushed node m expected actual s2 res')
    have "master_ok s2" using master_ok_same pushed(4) assms(1) .
    then show ?thesis
      using panel_node.keeps_locals [OF assms(2) expected_wanted_ok [OF pushed(5)] expectedClients_entry(1) [OF pushed(5)] pushed(6,7)]
      by simp
  qed (use assms(2) in simp)
  then show "node_ok e d1" "node_locals d1 = node_locals d" by simp_all
qed

lemma runReconcile_body:
  assumes "runReconcile e rm i gen s r = (res, s1, r1)"
  obtains res' s' where "sync_body e rm i s r = (res', s', r1)" and "isl res' \<Longrightarrow> isl res \<and> s1 = s'"
    and "\<not> isl res' \<Longrightarrow> sync_finish e i (dirtyUnchangedSince gen s') s' = (res, s1)"
  using assms by (auto simp: runReconcile_def split: prod.splits sum.splits)

text \<open>On success the node has exactly the wanted clients, and the next run finds nothing to push.\<close>

lemma sync_body_agrees:
  assumes "master_ok s" and "node_ok e d" and "sync_body e (panel e se rep full) i s d = (Inr u, s1, d1)"
  obtains m expected actual where "nodeInboundTagMap (panel e se rep full) d = Inr m"
    and "expectedClients e i m (w_db (sy_world s)) = Inr expected"
    and "\<And>n. gget expected n = None \<longleftrightarrow> node_look e d1 n = None"
    and "actualClusterClients (panel e se rep full) d1 = Inr actual" and "reconcile_pushes e expected actual = []"
  using assms(1,3)
proof (cases rule: sync_body_cases)
  case (pushed node m expected actual s2 res')
  have ok2: "master_ok s2" using master_ok_same pushed(4) assms(1) .
  have succ: "push_all e (panel e se rep full) (reconcile_pushes e expected actual) d = (Inr (), d1)"
    using pushed(7,8) by (cases res') auto
  have d1: "node_ok e d1" using sync_body_locals(1) [OF assms] .
  have "map_res (node_view e) (db_clients d1) = Inr (map (\<lambda>c. projr (node_view e c)) (db_clients d1))"
    using d1 by (intro map_res_ok) (simp add: node_ok_def isl_def projr_def split: sum.splits)
  then obtain actual' where act: "actualClusterClients (panel e se rep full) d1 = Inr actual'"
    by (simp add: actualClusterClients_def panel_def)
  note conv = panel_node.converges [OF assms(2) expected_wanted_ok [OF pushed(5) ok2] expectedClients_entry(1) [OF pushed(5)] pushed(6) succ act]
  have "expectedClients e i m (w_db (sy_world s)) = Inr expected"
    using pushed(5) expectedClients_same [OF pushed(4)] by simp
  with pushed(3) show thesis using conv act by (intro that) auto
qed simp

lemma next_run_is_quiet:
  assumes "master_ok s" and "node_ok e d" and "runReconcile e (panel e se rep full) i gen s d = (Inr u, s1, d1)"
  shows "\<exists>s2. runReconcile e (panel e se rep' full) i gen' s1 d1 = (Inr (), s2, d1)"
proof -
  let ?p = "panel e se rep full" and ?p' = "panel e se rep' full"
  obtain res' s' where body: "sync_body e ?p i s d = (res', s', d1)" and res': "\<not> isl res'"
    and fin: "sync_finish e i (dirtyUnchangedSince gen s') s' = (Inr u, s1)"
    using runReconcile_body [OF assms(3)] by (metis sum.disc(2))
  then have bodyR: "sync_body e ?p i s d = (Inr (), s', d1)" by (cases res') auto
  note d1 = sync_body_locals [OF assms(1,2) bodyR]
  obtain node where node: "getNodeById i s = Inr node" "nd_enable node" and s': "same_source s s'" "sy_nodes s' = sy_nodes s"
    using assms(1) bodyR by (cases rule: sync_body_cases) auto
  obtain m expected actual where m: "nodeInboundTagMap ?p d = Inr m" and ex: "expectedClients e i m (w_db (sy_world s)) = Inr expected"
    and act: "actualClusterClients ?p d1 = Inr actual" and quiet: "reconcile_pushes e expected actual = []"
    using sync_body_agrees [OF assms(1,2) bodyR] by metis
  note f = sync_finish_result [OF fin]
  have src: "same_source s s1" using same_source_trans [OF s'(1) f(1)] .
  have ok1: "master_ok s1" using master_ok_same [OF src assms(1)] .
  obtain node' where node': "getNodeById i s1 = Inr node'" "nd_enable node'"
    using getNodeById_same [of s1 s i node] f(3) s'(2) node by metis
  have m1: "nodeInboundTagMap ?p' d1 = Inr m" using m d1(2) by (simp add: panel_inbounds node_locals_def)
  have act1: "actualClusterClients ?p' d1 = Inr actual" using act by (simp add: actualClusterClients_def panel_def)
  obtain res2 s2 d2 where two: "sync_body e ?p' i s1 d1 = (res2, s2, d2)" by (cases "sync_body e ?p' i s1 d1") auto
  from ok1 two have "d2 = d1 \<and> \<not> isl res2"
  proof (cases rule: sync_body_cases)
    case (early err)
    then show ?thesis using node' m1 act1 ex expectedClients_same [OF src] by auto
  next
    case (pushed node2 m2 expected2 actual2 s3 res3)
    then have "m2 = m" "actual2 = actual" "expected2 = expected"
      using m1 act1 ex expectedClients_same [OF src] expectedClients_same [OF pushed(4)] by auto
    with pushed(7,8) quiet show ?thesis by auto
  qed
  moreover have "\<not> sv_fails e YNode" using f(2) by simp
  ultimately show ?thesis
    using two by (auto simp: runReconcile_def sync_finish_def Let_def split: sum.splits)
qed

end
