(* ===== verification/NodeDirty.thy ===== *)
theory NodeDirty
  imports NodeReconcile
begin

text \<open>
  The dirty flag of a node under concurrency (\<^verbatim>\<open>service/nodeSync.go\<close>): edits commit, then bump the generation, then
  write the flag, while a run claims, reads, pushes, checks the generation and clears the flag. Every one of these is
  a step of its own, as the code holds no lock across two of them.
\<close>

datatype phase = Idle | Claimed nat | Synced nat nat | Checked bool nat

text \<open>
  \<open>ds_version\<close> counts the committed edits and \<open>ds_synced\<close> those the last finished run had read; \<open>ds_editing\<close> editors are
  between the commit and the bump, \<open>ds_marking\<close> between the bump and the write of the flag. \<open>ds_missed\<close> records that
  a bump fell between the check and the end of a run, or that the write of a flag failed.
\<close>

record dirty_sys =
  ds_sync :: sync_state
  ds_version :: nat
  ds_synced :: nat
  ds_editing :: nat
  ds_marking :: nat
  ds_missed :: bool
  ds_phase :: phase

definition after_check :: "phase \<Rightarrow> bool" where
  "after_check p = (case p of Checked b _ \<Rightarrow> b | _ \<Rightarrow> False)"

inductive dirty_step :: "nat \<Rightarrow> dirty_sys \<Rightarrow> dirty_sys \<Rightarrow> bool" for i where
  edit: "dirty_step i s (s\<lparr>ds_version := Suc (ds_version s), ds_editing := Suc (ds_editing s)\<rparr>)"
| bump: "ds_editing s = Suc n \<Longrightarrow>
    dirty_step i s (s\<lparr>ds_editing := n, ds_marking := Suc (ds_marking s), ds_sync := bumpDirtyGen (ds_sync s),
      ds_missed := ds_missed s \<or> after_check (ds_phase s)\<rparr>)"
| mark: "ds_marking s = Suc n \<Longrightarrow> dirty_step i s (s\<lparr>ds_marking := n, ds_sync := mark_rows (ds_sync s)\<rparr>)"
| mark_fails: "ds_marking s = Suc n \<Longrightarrow> dirty_step i s (s\<lparr>ds_marking := n, ds_missed := True\<rparr>)"
| claim: "claimReconcile i force t (ds_sync s) = (Some gen, s') \<Longrightarrow> dirty_step i s (s\<lparr>ds_sync := s', ds_phase := Claimed gen\<rparr>)"
| sync: "ds_phase s = Claimed gen \<Longrightarrow> dirty_step i s (s\<lparr>ds_phase := Synced gen (ds_version s)\<rparr>)"
| give_up: "ds_phase s = Claimed gen \<Longrightarrow> dirty_step i s (s\<lparr>ds_phase := Idle, ds_sync := releaseReconcile i t (ds_sync s)\<rparr>)"
| check: "ds_phase s = Synced gen v \<Longrightarrow>
    dirty_step i s (s\<lparr>ds_phase := Checked (dirtyUnchangedSince gen (ds_sync s)) v\<rparr>)"
| finish: "ds_phase s = Checked b v \<Longrightarrow>
    dirty_step i s (s\<lparr>ds_phase := Idle, ds_synced := v, ds_sync := releaseReconcile i t (snd (sync_finish e i b (ds_sync s)))\<rparr>)"

inductive dirty_reach :: "nat \<Rightarrow> dirty_sys \<Rightarrow> dirty_sys \<Rightarrow> bool" for i s0 where
  start: "dirty_reach i s0 s0"
| step: "dirty_reach i s0 s \<Longrightarrow> dirty_step i s s' \<Longrightarrow> dirty_reach i s0 s'"

definition is_dirty :: "nat \<Rightarrow> sync_state \<Rightarrow> bool" where
  "is_dirty i s \<longleftrightarrow> (\<exists>n \<in> set (sy_nodes s). nd_id n = i \<and> nd_dirty n)"

definition enabled_node :: "nat \<Rightarrow> sync_state \<Rightarrow> bool" where
  "enabled_node i s \<longleftrightarrow> (\<exists>n \<in> set (sy_nodes s). nd_id n = i) \<and> (\<forall>n \<in> set (sy_nodes s). nd_id n = i \<longrightarrow> nd_enable n)"

text \<open>At rest, with everything synced.\<close>

definition at_rest :: "nat \<Rightarrow> dirty_sys \<Rightarrow> bool" where
  "at_rest i s \<longleftrightarrow> enabled_node i (ds_sync s) \<and> gget0 False (sy_busy (ds_sync s)) i = False \<and> ds_phase s = Idle \<and>
     ds_synced s = ds_version s \<and> ds_editing s = 0 \<and> ds_marking s = 0 \<and> \<not> ds_missed s"

definition run_inv :: "nat \<Rightarrow> dirty_sys \<Rightarrow> bool" where
  "run_inv i s =
     (case ds_phase s of
        Idle \<Rightarrow> True
      | Claimed gen \<Rightarrow> gen \<le> sy_gen (ds_sync s)
      | Synced gen v \<Rightarrow> gen \<le> sy_gen (ds_sync s) \<and> ds_synced s \<le> v \<and> v \<le> ds_version s \<and>
          (v < ds_version s \<longrightarrow> 0 < ds_editing s \<or> gen < sy_gen (ds_sync s))
      | Checked b v \<Rightarrow> ds_synced s \<le> v \<and> v \<le> ds_version s \<and>
          (b \<and> v < ds_version s \<longrightarrow> 0 < ds_editing s \<or> ds_missed s))"

definition dirty_inv :: "nat \<Rightarrow> dirty_sys \<Rightarrow> bool" where
  "dirty_inv i s \<longleftrightarrow> enabled_node i (ds_sync s) \<and>
     (ds_phase s \<noteq> Idle \<longrightarrow> gget0 False (sy_busy (ds_sync s)) i) \<and>
     ds_synced s \<le> ds_version s \<and>
     (ds_synced s < ds_version s \<longrightarrow> is_dirty i (ds_sync s) \<or> 0 < ds_editing s \<or> 0 < ds_marking s \<or> ds_missed s) \<and>
     run_inv i s"

lemma nodes_same [simp]:
  "sy_nodes (bumpDirtyGen s) = sy_nodes s" "sy_nodes (releaseReconcile i t s) = sy_nodes s"
  "sy_busy (bumpDirtyGen s) = sy_busy s" "sy_busy (mark_rows s) = sy_busy s"
  "sy_gen (mark_rows s) = sy_gen s" "sy_gen (bumpDirtyGen s) = Suc (sy_gen s)" "sy_gen (releaseReconcile i t s) = sy_gen s"
  by (simp_all add: bumpDirtyGen_def releaseReconcile_def mark_rows_def)

lemma is_dirty_same [simp]:
  "is_dirty i (bumpDirtyGen s) = is_dirty i s" "is_dirty i (releaseReconcile i t s) = is_dirty i s"
  "enabled_node i (bumpDirtyGen s) = enabled_node i s" "enabled_node i (releaseReconcile i t s) = enabled_node i s"
  by (simp_all add: is_dirty_def enabled_node_def)

lemma mark_rows_dirty: "enabled_node i s \<Longrightarrow> is_dirty i (mark_rows s) \<and> enabled_node i (mark_rows s)"
proof -
  define g where "g = (\<lambda>n :: node_row. if nd_enable n \<and> \<not> nd_dirty n then n\<lparr>nd_dirty := True\<rparr> else n)"
  have g: "nd_id (g n) = nd_id n" "nd_enable (g n) = nd_enable n" "nd_enable n \<Longrightarrow> nd_dirty (g n)" for n by (simp_all add: g_def)
  have "sy_nodes (mark_rows s) = map g (sy_nodes s)" by (simp add: mark_rows_def g_def)
  then show "enabled_node i s \<Longrightarrow> ?thesis" using g by (auto simp: is_dirty_def enabled_node_def)
qed

lemma claim_result:
  assumes "claimReconcile i force t s = (Some gen, s')"
  shows "\<not> gget0 False (sy_busy s) i" and "gen = sy_gen s" and "s' = s\<lparr>sy_busy := gput i True (sy_busy s)\<rparr>"
  using assms by (auto simp: claimReconcile_def split: if_splits)

lemma finish_nodes:
  obtains g where "sy_nodes (snd (sync_finish e i b s)) = map g (sy_nodes s)"
    and "\<And>n. nd_id (g n) = nd_id n" and "\<And>n. nd_enable (g n) = nd_enable n" and "\<And>n. \<not> b \<Longrightarrow> nd_dirty (g n) = nd_dirty n"
proof (cases "sv_fails e YNode")
  case True
  then show thesis by (intro that [of id]) (simp_all add: sync_finish_def)
next
  case False
  define g where "g = (\<lambda>n :: node_row. if nd_id n = i then
    if b \<and> (\<exists>n \<in> set (sy_nodes s). nd_id n = i \<and> nd_dirty n) then if nd_dirty n then n\<lparr>nd_dirty := False, nd_last_sync := sv_now e\<rparr> else n
    else n\<lparr>nd_last_sync := sv_now e\<rparr> else n)"
  have "sy_nodes (snd (sync_finish e i b s)) = map g (sy_nodes s)"
    using False by (auto simp: sync_finish_def set_node_def Let_def g_def)
  then show thesis by (rule that) (simp_all add: g_def)
qed

lemma finish_result:
  shows "enabled_node i s \<Longrightarrow> enabled_node i (snd (sync_finish e i b s))"
    and "\<not> b \<Longrightarrow> is_dirty i (snd (sync_finish e i b s)) = is_dirty i s"
    and "sy_gen (snd (sync_finish e i b s)) = sy_gen s" and "sy_busy (snd (sync_finish e i b s)) = sy_busy s"
proof -
  obtain g where g: "sy_nodes (snd (sync_finish e i b s)) = map g (sy_nodes s)" "\<And>n. nd_id (g n) = nd_id n"
    "\<And>n. nd_enable (g n) = nd_enable n" "\<And>n. \<not> b \<Longrightarrow> nd_dirty (g n) = nd_dirty n"
    using finish_nodes [of e i b s] by blast
  show "enabled_node i s \<Longrightarrow> enabled_node i (snd (sync_finish e i b s))" by (auto simp: enabled_node_def g)
  show "\<not> b \<Longrightarrow> is_dirty i (snd (sync_finish e i b s)) = is_dirty i s" using g by (auto simp: is_dirty_def simp del: g(1))
  show "sy_gen (snd (sync_finish e i b s)) = sy_gen s" "sy_busy (snd (sync_finish e i b s)) = sy_busy s"
    by (simp_all add: sync_finish_def set_node_def Let_def)
qed

inductive_cases dirty_stepE: "dirty_step i s s'"

lemma dirty_step_inv:
  assumes "dirty_step i s s'" and "dirty_inv i s"
  shows "dirty_inv i s'"
  using assms
proof (cases rule: dirty_step.cases)
  case edit
  with assms(2) show ?thesis by (auto simp: dirty_inv_def run_inv_def split: phase.splits)
next
  case (bump n)
  with assms(2) show ?thesis by (auto simp: dirty_inv_def run_inv_def after_check_def split: phase.splits)
next
  case (mark n)
  with assms(2) mark_rows_dirty show ?thesis by (auto simp: dirty_inv_def run_inv_def split: phase.splits)
next
  case (mark_fails n)
  with assms(2) show ?thesis by (auto simp: dirty_inv_def run_inv_def split: phase.splits)
next
  case (claim force t gen s1)
  with assms(2) claim_result [OF claim(2)] show ?thesis
    by (auto simp: dirty_inv_def run_inv_def enabled_node_def is_dirty_def gget0_def)
next
  case (sync gen)
  with assms(2) show ?thesis by (auto simp: dirty_inv_def run_inv_def)
next
  case (give_up gen t)
  with assms(2) show ?thesis by (auto simp: dirty_inv_def run_inv_def)
next
  case (check gen v)
  with assms(2) show ?thesis by (auto simp: dirty_inv_def run_inv_def dirtyUnchangedSince_def)
next
  case (finish b v t e)
  with assms(2) finish_result [where i = i and s = "ds_sync s" and e = e and b = b] show ?thesis
    by (cases b) (auto simp: dirty_inv_def run_inv_def)
qed

lemma dirty_reach_inv:
  assumes "dirty_reach i s0 s" and "at_rest i s0"
  shows "dirty_inv i s"
  using assms(1)
proof (induction rule: dirty_reach.induct)
  case start
  then show ?case using assms(2) by (simp add: at_rest_def dirty_inv_def run_inv_def)
qed (rule dirty_step_inv)

text \<open>A run that ends with the generation unchanged leaves the flag down.\<close>

lemma not_dirty_map:
  assumes "sy_nodes s' = map g (sy_nodes s)" and "\<And>n. nd_id (g n) = nd_id n" and "\<And>n. n \<in> set (sy_nodes s) \<Longrightarrow> nd_id n = i \<Longrightarrow> \<not> nd_dirty (g n)"
  shows "\<not> is_dirty i s'"
  using assms by (auto simp: is_dirty_def simp del: assms(1))

lemma finish_clears:
  assumes "\<not> sv_fails e YNode"
  shows "\<not> is_dirty i (snd (sync_finish e i True s))"
proof (cases "\<exists>n \<in> set (sy_nodes s). nd_id n = i \<and> nd_dirty n")
  case True
  let ?g = "\<lambda>n :: node_row. if nd_id n = i then if nd_dirty n then n\<lparr>nd_dirty := False, nd_last_sync := sv_now e\<rparr> else n else n"
  have "sy_nodes (snd (sync_finish e i True s)) = map ?g (sy_nodes s)"
    unfolding sync_finish_def Let_def if_not_P [OF assms] if_P [OF True] by (simp add: set_node_def)
  then show ?thesis by (rule not_dirty_map) simp_all
next
  case False
  let ?g = "\<lambda>n :: node_row. if nd_id n = i then n\<lparr>nd_last_sync := sv_now e\<rparr> else n"
  have "sy_nodes (snd (sync_finish e i True s)) = map ?g (sy_nodes s)"
    unfolding sync_finish_def Let_def if_not_P [OF assms] if_not_P [OF False] by (simp add: set_node_def)
  then show ?thesis by (rule not_dirty_map) (use False in auto)
qed

text \<open>The mark that is lost: it falls between the check and the write that clears the flag.\<close>

lemma mark_lost:
  fixes e :: sync_env
  assumes "at_rest i s0" and "\<not> sv_fails e YNode"
  shows "\<exists>s. dirty_reach i s0 s \<and> ds_phase s = Idle \<and> ds_editing s = 0 \<and> ds_marking s = 0 \<and>
    ds_synced s < ds_version s \<and> \<not> is_dirty i (ds_sync s)"
proof -
  let ?y = "ds_sync s0" and ?v = "ds_version s0" and ?gen = "sy_gen (ds_sync s0)"
  let ?y1 = "?y\<lparr>sy_busy := gput i True (sy_busy ?y)\<rparr>"
  let ?y2 = "mark_rows (bumpDirtyGen ?y1)"
  let ?y3 = "releaseReconcile i 0 (snd (sync_finish e i True ?y2))"
  let ?s1 = "s0\<lparr>ds_sync := ?y1, ds_phase := Claimed ?gen\<rparr>"
  let ?s2 = "?s1\<lparr>ds_phase := Synced ?gen ?v\<rparr>"
  let ?s3 = "?s2\<lparr>ds_phase := Checked True ?v\<rparr>"
  let ?s4 = "?s3\<lparr>ds_version := Suc ?v, ds_editing := Suc 0\<rparr>"
  let ?s5 = "?s4\<lparr>ds_editing := 0, ds_marking := Suc 0, ds_sync := bumpDirtyGen ?y1, ds_missed := True\<rparr>"
  let ?s6 = "?s5\<lparr>ds_marking := 0, ds_sync := ?y2\<rparr>"
  let ?s7 = "?s6\<lparr>ds_phase := Idle, ds_synced := ?v, ds_sync := ?y3\<rparr>"
  have "claimReconcile i True 0 ?y = (Some ?gen, ?y1)" using assms(1) by (simp add: claimReconcile_def at_rest_def)
  then have "dirty_reach i s0 ?s1" by (rule dirty_reach.step [OF dirty_reach.start dirty_step.claim])
  moreover have "dirty_step i ?s1 ?s2" using dirty_step.sync [of ?s1 ?gen i] by simp
  moreover have "dirty_step i ?s2 ?s3" using dirty_step.check [of ?s2 ?gen ?v i] by (simp add: dirtyUnchangedSince_def)
  moreover have "dirty_step i ?s3 ?s4" using dirty_step.edit [of i ?s3] assms(1) by (simp add: at_rest_def)
  moreover have "dirty_step i ?s4 ?s5" using dirty_step.bump [of ?s4 0 i] assms(1) by (simp add: at_rest_def after_check_def)
  moreover have "dirty_step i ?s5 ?s6" using dirty_step.mark [of ?s5 0 i] by simp
  moreover have "dirty_step i ?s6 ?s7" using dirty_step.finish [of ?s6 True ?v i 0 e] by simp
  ultimately have "dirty_reach i s0 ?s7" by (meson dirty_reach.step)
  moreover have "\<not> is_dirty i ?y3" using finish_clears [OF assms(2)] by simp
  ultimately show ?thesis by (intro exI [of _ ?s7]) simp
qed

end
