(* ===== verification/NodeTraffic.thy ===== *)
theory NodeTraffic
  imports NodeReconcile
begin

text \<open>
  Collecting the nodes' traffic (\<^verbatim>\<open>collectNodeTraffic\<close>): what a client's counters gain, and that baselines make sure
  nothing is counted twice.
\<close>

definition gain_row :: "(string \<rightharpoonup> int \<times> int) \<Rightarrow> client \<Rightarrow> client" where
  "gain_row g c = (case g (c_name c) of None \<Rightarrow> c | Some (du, dd) \<Rightarrow> c\<lparr>c_up := c_up c + du, c_down := c_down c + dd\<rparr>)"

lemma add_traffic_row: "add_traffic (n, g) c = gain_row [n \<mapsto> g] c"
  by (cases g) (auto simp: add_traffic_def gain_row_def)

lemma gain_rows:
  assumes "distinct (map fst ds)" and "fold_res (\<lambda>x cs. if f x then Inl EDb else Inr (map (add_traffic x) cs)) ds cs = Inr cs'"
  shows "cs' = map (gain_row (map_of ds)) cs"
  using assms
proof (induction ds arbitrary: cs)
  case Nil
  then show ?case by (simp add: gain_row_def map_idI)
next
  case (Cons x ds)
  obtain n g where x: "x = (n, g)" by (cases x)
  have "gain_row (map_of ds) (gain_row [n \<mapsto> g] c) = gain_row (map_of (x # ds)) c" for c
    using Cons.prems(1) x by (cases g) (auto simp: gain_row_def map_of_eq_None_iff [symmetric] split: option.splits)
  moreover have "cs' = map (gain_row (map_of ds)) (map (gain_row [n \<mapsto> g]) cs)"
    using Cons.IH [of "map (gain_row [n \<mapsto> g]) cs"] Cons.prems x
    by (simp add: add_traffic_row [abs_def] split: if_splits)
  ultimately show ?case by (simp only: map_map comp_def)
qed

text \<open>The gain of one client.\<close>

definition node_gain :: "(string, traffic_baseline) gomap \<Rightarrow> string list \<Rightarrow> (string, node_client) gomap \<Rightarrow> string \<Rightarrow> int \<times> int" where
  "node_gain base names current n =
     (case gget current n of
        None \<Rightarrow> (0, 0)
      | Some k \<Rightarrow> if n \<notin> set names then (0, 0) else
          let b = gget0 \<lparr>tb_up = 0, tb_down = 0\<rparr> base n in (counter_delta (tb_up b) (nk_up k), counter_delta (tb_down b) (nk_down k)))"

lemma counter_delta_nonneg: "0 \<le> cur \<Longrightarrow> 0 \<le> counter_delta base cur"
  by (simp add: counter_delta_def Let_def)

lemma traffic_deltas_names:
  assumes "gmap_ok current"
  shows "distinct (map fst (traffic_deltas base names current))"
    and "fst ` set (traffic_deltas base names current) \<subseteq> fst ` set current"
proof -
  show sub: "fst ` set (traffic_deltas base names current) \<subseteq> fst ` set current" for current
    by (auto simp: traffic_deltas_def Let_def split: if_splits) force+
  show "distinct (map fst (traffic_deltas base names current))"
    using assms
  proof (induction current)
    case (Cons x xs)
    then have "fst x \<notin> fst ` set (traffic_deltas base names xs)" using sub [of xs] by auto
    with Cons show ?case by (cases x) (auto simp: traffic_deltas_def Let_def)
  qed (simp add: traffic_deltas_def)
qed

lemma traffic_deltas_gain:
  assumes "gmap_ok current" and "\<forall>(n, k) \<in> set current. 0 \<le> nk_up k \<and> 0 \<le> nk_down k"
  shows "(case map_of (traffic_deltas base names current) n of None \<Rightarrow> (0, 0) | Some g \<Rightarrow> g) = node_gain base names current n"
  using assms
proof (induction current)
  case (Cons x xs)
  obtain m k where x: "x = (m, k)" by (cases x)
  have "m \<notin> fst ` set (traffic_deltas base names xs)" using Cons.prems(1) traffic_deltas_names(2) [of xs base names] x by auto
  then have none: "map_of (traffic_deltas base names xs) m = None" by (simp add: map_of_eq_None_iff)
  have ge: "0 \<le> counter_delta b (nk_up k)" "0 \<le> counter_delta b (nk_down k)" for b
    using Cons.prems(2) x counter_delta_nonneg by auto
  let ?b = "gget0 \<lparr>tb_up = 0, tb_down = 0\<rparr> base m"
  have step: "traffic_deltas base names (x # xs) = (if m \<in> set names \<and> (0 < counter_delta (tb_up ?b) (nk_up k) \<or> 0 < counter_delta (tb_down ?b) (nk_down k))
      then (m, counter_delta (tb_up ?b) (nk_up k), counter_delta (tb_down ?b) (nk_down k)) # traffic_deltas base names xs else traffic_deltas base names xs)"
    by (simp add: x traffic_deltas_def Let_def)
  show ?case
  proof (cases "n = m")
    case True
    have "counter_delta (tb_up ?b) (nk_up k) = 0" "counter_delta (tb_down ?b) (nk_down k) = 0"
      if "\<not> (0 < counter_delta (tb_up ?b) (nk_up k) \<or> 0 < counter_delta (tb_down ?b) (nk_down k))"
      using that ge [of "tb_up ?b"] ge [of "tb_down ?b"] by linarith+
    with True none show ?thesis unfolding step by (auto simp: node_gain_def x Let_def)
  next
    case False
    then have "node_gain base names (x # xs) n = node_gain base names xs n" by (simp add: node_gain_def x)
    moreover have "map_of (traffic_deltas base names (x # xs)) n = map_of (traffic_deltas base names xs) n"
      using False unfolding step by simp
    ultimately show ?thesis using Cons x by simp
  qed
qed (simp add: traffic_deltas_def node_gain_def)

definition counted :: "int \<times> int \<Rightarrow> client \<Rightarrow> client" where
  "counted g c = c\<lparr>c_up := c_up c + fst g, c_down := c_down c + snd g\<rparr>"

lemma gain_row_counted: "gain_row m c = counted (case m (c_name c) of None \<Rightarrow> (0, 0) | Some g \<Rightarrow> g) c"
  by (auto simp: gain_row_def counted_def split: option.splits)

lemma collect_rows:
  assumes "collectNodeTraffic e rm node s r = (Inr u, s1)" and "actualClusterClients rm r = Inr current"
    and "gmap_ok current" and "\<forall>(n, k) \<in> set current. 0 \<le> nk_up k \<and> 0 \<le> nk_down k"
  defines "names \<equiv> if sv_fails e YClients then [] else map c_name (db_clients (w_db (sy_world s)))"
  shows "db_clients (w_db (sy_world s1))
      = map (\<lambda>c. counted (node_gain (node_baselines node) names current (c_name c)) c) (db_clients (w_db (sy_world s)))"
    and "\<forall>n \<in> set (sy_nodes s1). nd_id n = nd_id node \<longrightarrow> node_baselines n = new_baselines current"
proof -
  let ?ds = "traffic_deltas (node_baselines node) names current"
  obtain cs where cs: "fold_res (\<lambda>x cs. if sv_fails e (YTraffic (fst x)) then Inl EDb else Inr (map (add_traffic x) cs)) ?ds
      (db_clients (w_db (sy_world s))) = Inr cs"
    and s1: "s1 = set_node (nd_id node) (\<lambda>n. n\<lparr>nd_baselines := marshal (new_baselines current)\<rparr>)
      (s\<lparr>sy_world := (sy_world s)\<lparr>w_db := (w_db (sy_world s))\<lparr>db_clients := cs\<rparr>\<rparr>\<rparr>)"
    using assms(1,2) unfolding collectNodeTraffic_def traffic_tx_def names_def [symmetric]
    by (auto simp: res_simps Let_def split: sum.splits if_splits)
  have "cs = map (gain_row (map_of ?ds)) (db_clients (w_db (sy_world s)))"
    using gain_rows [OF traffic_deltas_names(1) [OF assms(3)] cs] .
  then show "db_clients (w_db (sy_world s1))
      = map (\<lambda>c. counted (node_gain (node_baselines node) names current (c_name c)) c) (db_clients (w_db (sy_world s)))"
    by (simp add: s1 set_node_def gain_row_counted traffic_deltas_gain [OF assms(3,4)])
  show "\<forall>n \<in> set (sy_nodes s1). nd_id n = nd_id node \<longrightarrow> node_baselines n = new_baselines current"
    by (auto simp: s1 set_node_def node_baselines_def marshal_def unmarshal_ignore_def split: if_splits)
qed

text \<open>A counter that only grew gains what it moved by; collecting again gains nothing.\<close>

lemma counter_delta_grown: "0 \<le> base \<Longrightarrow> base \<le> cur \<Longrightarrow> cur < 2 ^ 63 \<Longrightarrow> counter_delta base cur = cur - base"
  by (simp add: counter_delta_def Let_def i64_id in_i64_def)

lemma gget_new_baselines: "gget (new_baselines current) n = map_option (\<lambda>k. \<lparr>tb_up = nk_up k, tb_down = nk_down k\<rparr>) (gget current n)"
  by (induction current) (auto simp: new_baselines_def)

lemma node_gain_settled: "node_gain (new_baselines current) names current n = (0, 0)"
  by (auto simp: node_gain_def gget_new_baselines gget0_def counter_delta_def i64_def Let_def split: option.splits)

end
