(* ===== verification/NodeProps.thy ===== *)
theory NodeProps
  imports NodeSyncInv NodeDirty NodeTraffic
begin

text \<open>
  The theorems about the synchronisation with the nodes.
\<close>

section \<open>Adoption\<close>

definition tags_unique :: "db \<Rightarrow> bool" where
  "tags_unique d \<longleftrightarrow> distinct (map ib_tag (db_inbounds d))"

definition adopted_over :: "nat \<Rightarrow> db \<Rightarrow> nat \<Rightarrow> db \<Rightarrow> bool" where
  "adopted_over i d n d' \<longleftrightarrow> tags_unique d' \<and> db_clients d' = db_clients d \<and> (\<exists>new. db_inbounds d' = db_inbounds d @ new \<and> length new = n \<and>
     (\<forall>ib \<in> set new. ib_node_id ib = Some i))"

lemma adopt_one_over:
  assumes "adopted_over i d n d'" and "adopt_one e i tags raw (n, d') = Inr (n2, d2)"
  shows "adopted_over i d n2 d2"
proof -
  obtain tag where "meta_tag raw = Inr tag" using assms(2) by (auto simp: adopt_one_def res_simps)
  show ?thesis
  proof (cases "tag \<in> set tags")
    case False
    with \<open>meta_tag raw = Inr tag\<close> assms show ?thesis by (simp add: adopt_one_def)
  next
    case True
    then obtain rep where rep: "buildReplicaInbound (sv_num e) raw i = Inr rep" "\<forall>ib \<in> set (db_inbounds d'). ib_tag ib \<noteq> ib_tag rep"
      "n2 = Suc n" "d2 = d'\<lparr>db_inbounds := db_inbounds d' @ [rep\<lparr>ib_id := sv_new_id e d'\<rparr>]\<rparr>"
      using assms(2) \<open>meta_tag raw = Inr tag\<close> by (auto simp: adopt_one_def res_simps split: if_splits)
    moreover have "ib_node_id rep = Some i" using rep(1) by (auto simp: buildReplicaInbound_def split: json.splits)
    ultimately show ?thesis using assms(1) by (auto simp: adopted_over_def tags_unique_def)
  qed
qed

lemma adopt_tx_over:
  assumes "tags_unique d" and "adopt_tx e i tags actor raws d = Inr d'"
  shows "\<exists>n > 0. adopted_over i d n d'"
proof -
  obtain n d1 where f: "fold_res (adopt_one e i tags) raws (0, d) = Inr (n, d1)" and n: "0 < n"
    and d': "d' = d1\<lparr>db_changes := db_changes d1 @ [adopt_log e i tags actor]\<rparr>"
    using assms(2) by (auto simp: adopt_tx_def res_simps split: if_splits)
  have "adopted_over i d 0 d" using assms(1) by (simp add: adopted_over_def)
  with f have "case (n, d1) of (n, d1) \<Rightarrow> adopted_over i d n d1"
    by (rule fold_res_invariant [where P = "\<lambda>(n, d1). adopted_over i d n d1", OF _ case_prodI]) (auto intro: adopt_one_over)
  with n d' show ?thesis by (auto simp: adopted_over_def tags_unique_def)
qed

lemma adopt_Inr:
  assumes "AdoptInbounds e rm i tags actor s r = (Inr u, s1)" and "tags \<noteq> []"
  shows "\<exists>raws d1. adopt_tx e i tags actor raws (w_db (sy_world s)) = Inr d1 \<and>
    s1 = (let s2 = set_node i (\<lambda>n. n\<lparr>nd_dirty := True\<rparr>) (bumpDirtyGen s) in
      s2\<lparr>sy_world := SetLastUpdate (sv_now e) ((sy_world s2)\<lparr>w_db := d1\<rparr>)\<rparr>)"
  using assms unfolding AdoptInbounds_def Let_def by (simp split: sum.splits if_splits) metis

section \<open>An example cluster\<close>

definition example_sync_env :: sync_env where
  "example_sync_env =
     \<lparr>sv_now = 100, sv_num = id, sv_dec = \<lambda>_. None, sv_prefix = False, sv_linkgen = \<lambda>_ ib host _. [ib_tag ib @ host],
      sv_respell = Other, sv_new_id = \<lambda>d. Suc (length (db_inbounds d)), sv_fails = \<lambda>_. False\<rparr>"

definition example_save_env :: save_env where
  "example_save_env =
     \<lparr>e_now = 100, e_loc = utc, e_host = ''h'', e_prefix = False, e_linkgen = \<lambda>_ ib _ _. [ib_tag ib]\<rparr>"

definition example_replica :: inbound where
  "example_replica =
     \<lparr>ib_id = 7, ib_type = ''vless'', ib_tag = ''in'', ib_node_id = Some 1,
      ib_body = JObj [(''options'', JObj []), (''out_json'', JObj [(''server'', JStr ''n'')])]\<rparr>"

definition example_master :: sync_state where
  "example_master =
     \<lparr>sy_world = \<lparr>w_db = \<lparr>db_clients = [zero_client\<lparr>c_id := 1, c_enable := True, c_name := ''a'', c_config := RawVal Compact [],
          c_inbounds := RawVal Compact [7], c_links := RawVal Compact []\<rparr>], db_inbounds = [example_replica], db_nodes = [''n1''],
        db_changes = [], db_next_id = 2\<rparr>, w_last_update = 0, w_seq = 0, w_hub = 0, w_events = [],
        w_global = \<lparr>gr_next = 0, gr_armed = []\<rparr>\<rparr>,
      sy_nodes = [\<lparr>nd_id = 1, nd_enable = True, nd_name = ''n1'', nd_base_url = ''https://n1'', nd_web_path = ''/app/'', nd_token = ''t'',
        nd_insecure = False, nd_cert_pin = [], nd_desc = [], nd_last_seen = 0, nd_dirty = True, nd_last_sync = 0, nd_baselines = RawNil\<rparr>],
      sy_gen = 0, sy_busy = [], sy_last = []\<rparr>"

definition example_node :: db where
  "example_node =
     \<lparr>db_clients = [zero_client\<lparr>c_id := 4, c_name := ''own''\<rparr>, zero_client\<lparr>c_id := 5, c_name := ''old'', c_group := clusterGroup,
        c_inbounds := RawVal Compact [3]\<rparr>],
      db_inbounds = [\<lparr>ib_id = 3, ib_type = ''vless'', ib_tag = ''in'', ib_node_id = None, ib_body = JNull\<rparr>], db_nodes = [],
      db_changes = [], db_next_id = 6\<rparr>"

definition example_panel :: "db remote" where
  "example_panel = panel example_sync_env example_save_env (\<lambda>_ _. Answered) (\<lambda>_ _. Inr [])"


lemma example_ok: "master_ok example_master" "node_ok example_sync_env example_node"
  by code_simp+


section \<open>Properties\<close>



text \<open>
  C18. A run never touches what is not the cluster's: whatever its outcome (skipped, refused half way, an answer lost on
  the way), the node's own clients, its inbounds and its own nodes are as before.
\<close>

theorem reconcile_touches_only_cluster:
  assumes "master_ok s" and "node_ok e d" and "Reconcile e t t' (panel e se rep full) i s d = (res, s1, d1)"
  shows "filter (\<lambda>c. c_group c \<noteq> clusterGroup) (db_clients d1) = filter (\<lambda>c. c_group c \<noteq> clusterGroup) (db_clients d) \<and>
    db_inbounds d1 = db_inbounds d \<and> db_nodes d1 = db_nodes d \<and> node_ok e d1"
proof (cases "fst (claimReconcile i False t s)")
  case None
  then have "d1 = d" using assms(3) by (auto simp: Reconcile_def split: prod.splits option.splits)
  with assms(2) show ?thesis by simp
next
  case (Some gen)
  then obtain s2 where claim: "claimReconcile i False t s = (Some gen, s2)" by (metis prod.collapse)
  then obtain s3 where run: "runReconcile e (panel e se rep full) i gen s2 d = (res, s3, d1)"
    using assms(3) by (auto simp: Reconcile_def split: prod.splits)
  have "master_ok s2" using claim_result(3) [OF claim] assms(1) by (simp add: master_ok_def)
  with run sync_body_locals [OF _ assms(2)] have "node_ok e d1 \<and> node_locals d1 = node_locals d"
    using runReconcile_body [OF run] by metis
  then show ?thesis by (simp add: node_locals_def)
qed

theorem reconcile_touches_only_cluster_witness:
  "filter (\<lambda>c. c_group c \<noteq> clusterGroup) (db_clients (snd (snd (Reconcile example_sync_env 0 1 example_panel 1 example_master example_node))))
     = [zero_client\<lparr>c_id := 4, c_name := ''own''\<rparr>] \<and>
   fst (Reconcile example_sync_env 0 1 example_panel 1 example_master example_node) = Inr ()"
proof
  let ?r = "Reconcile example_sync_env 0 1 (panel example_sync_env example_save_env (\<lambda>_ _. Answered) (\<lambda>_ _. Inr [])) 1 example_master example_node"
  have "filter (\<lambda>c. c_group c \<noteq> clusterGroup) (db_clients (snd (snd ?r))) = filter (\<lambda>c. c_group c \<noteq> clusterGroup) (db_clients example_node)"
    using reconcile_touches_only_cluster [OF example_ok, of 0 1 example_save_env "\<lambda>_ _. Answered" "\<lambda>_ _. Inr []" 1 "fst ?r" "fst (snd ?r)" "snd (snd ?r)"] by simp
  moreover have "filter (\<lambda>c. c_group c \<noteq> clusterGroup) (db_clients example_node) = [zero_client\<lparr>c_id := 4, c_name := ''own''\<rparr>]"
    by code_simp
  ultimately show "filter (\<lambda>c. c_group c \<noteq> clusterGroup) (db_clients (snd (snd (Reconcile example_sync_env 0 1 example_panel 1 example_master example_node))))
     = [zero_client\<lparr>c_id := 4, c_name := ''own''\<rparr>]" by (simp add: example_panel_def)
  show "fst (Reconcile example_sync_env 0 1 example_panel 1 example_master example_node) = Inr ()" by code_simp
qed








text \<open>
  C22. Adopting is all or nothing and keeps tags unique: on success at least one replica of the node is appended to the
  inbounds, nothing else of the tables of clients and inbounds moves, the generation is bumped and the node is marked; on
  an error the tables are as before.
\<close>

theorem adopt_all_or_nothing:
  assumes "AdoptInbounds e rm i tags actor s r = (res, s1)" and "tags_unique (w_db (sy_world s))" and "tags \<noteq> []"
  shows "tags_unique (w_db (sy_world s1)) \<and> db_clients (w_db (sy_world s1)) = db_clients (w_db (sy_world s)) \<and>
    (case res of
       Inl _ \<Rightarrow> sy_world s1 = sy_world s \<and> sy_nodes s1 = sy_nodes s
     | Inr _ \<Rightarrow> sy_gen s1 = Suc (sy_gen s) \<and> (\<forall>n \<in> set (sy_nodes s1). nd_id n = i \<longrightarrow> nd_dirty n) \<and>
         (\<exists>new. new \<noteq> [] \<and> db_inbounds (w_db (sy_world s1)) = db_inbounds (w_db (sy_world s)) @ new \<and>
           (\<forall>ib \<in> set new. ib_node_id ib = Some i)))"
proof (cases res)
  case (Inl err)
  then have "sy_world s1 = sy_world s \<and> sy_nodes s1 = sy_nodes s"
    using assms(1,3) by (auto simp: AdoptInbounds_def Let_def bumpDirtyGen_def split: sum.splits if_splits)
  with Inl assms(2) show ?thesis by simp
next
  case (Inr u)
  with assms(1) have "AdoptInbounds e rm i tags actor s r = (Inr u, s1)" by simp
  then obtain raws d1 where d1: "adopt_tx e i tags actor raws (w_db (sy_world s)) = Inr d1"
    and s1: "s1 = (let s2 = set_node i (\<lambda>n. n\<lparr>nd_dirty := True\<rparr>) (bumpDirtyGen s) in
      s2\<lparr>sy_world := SetLastUpdate (sv_now e) ((sy_world s2)\<lparr>w_db := d1\<rparr>)\<rparr>)"
    using adopt_Inr [OF _ assms(3)] assms(1) by metis
  obtain n where "0 < n" "adopted_over i (w_db (sy_world s)) n d1" using adopt_tx_over [OF assms(2) d1] by blast
  then obtain new where "new \<noteq> []" "db_inbounds d1 = db_inbounds (w_db (sy_world s)) @ new" "\<forall>ib \<in> set new. ib_node_id ib = Some i"
    "tags_unique d1" "db_clients d1 = db_clients (w_db (sy_world s))"
    by (auto simp: adopted_over_def)
  moreover have "w_db (sy_world s1) = d1" "sy_gen s1 = Suc (sy_gen s)" by (simp_all add: s1 Let_def set_node_def bumpDirtyGen_def)
  moreover have "\<forall>n \<in> set (sy_nodes s1). nd_id n = i \<longrightarrow> nd_dirty n"
    by (simp add: s1 Let_def set_node_def ball_Un)
  ultimately show ?thesis using Inr by auto
qed

definition example_offer :: "db remote" where
  "example_offer = example_panel\<lparr>rm_inbounds := \<lambda>_. Inr [(9, ''new'')], rm_full := \<lambda>_ _. Inr [JObj [(''tag'', JStr ''new''), (''type'', JStr ''vless'')]]\<rparr>"

theorem adopt_all_or_nothing_witness:
  "let s1 = snd (AdoptInbounds example_sync_env example_offer 1 [''new''] ''op'' example_master example_node) in
   map ib_tag (db_inbounds (w_db (sy_world s1))) = [''in'', ''new''] \<and> tags_unique (w_db (sy_world s1))"
proof -
  let ?run = "AdoptInbounds example_sync_env example_offer 1 [''new''] ''op'' example_master example_node"
  have "map ib_tag (db_inbounds (w_db (sy_world (snd ?run)))) = [''in'', ''new'']" by code_simp
  moreover have "tags_unique (w_db (sy_world example_master))" by code_simp
  then have "tags_unique (w_db (sy_world (snd ?run)))"
    using adopt_all_or_nothing [of example_sync_env example_offer 1 "[''new'']" "''op''" example_master example_node "fst ?run" "snd ?run"] by simp
  ultimately show ?thesis by (simp add: Let_def)
qed

end
