(* ===== verification/NodeService.thy ===== *)
theory NodeService
  imports NodeReconcile
begin

text \<open>
  The nodes themselves (\<^verbatim>\<open>service/node.go\<close>): reaching a node's panel, probing it, turning probes into a snapshot and
  into notifications, and the table of nodes with the links that carry their names.
\<close>

section \<open>Addresses, pins and clients\<close>

definition int_str :: "int \<Rightarrow> string" where
  "int_str i = (if i < 0 then ''-'' @ nat_str (nat (- i)) else nat_str (nat i))"

definition TrimRight :: "string \<Rightarrow> char \<Rightarrow> string" where
  "TrimRight s c = rev (dropWhile (\<lambda>x. x = c) (rev s))"

definition HasSuffix :: "string \<Rightarrow> string \<Rightarrow> bool" where
  "HasSuffix s t \<longleftrightarrow> has_prefix (rev s) (rev t)"

definition normalizeWebPath :: "string \<Rightarrow> string" where
  "normalizeWebPath p0 =
     (let p1 = TrimSpace p0;
          p2 = (if p1 = [] then ''/app/'' else p1);
          p3 = (if \<not> has_prefix p2 ''/'' then ''/'' @ p2 else p2)
      in if \<not> HasSuffix p3 ''/'' then p3 @ ''/'' else p3)"

definition normalizeCertPin :: "(string \<Rightarrow> string) \<Rightarrow> string \<Rightarrow> string" where
  "normalizeCertPin lower pin = filter (\<lambda>c. c \<noteq> CHR '':'' \<and> c \<noteq> CHR '' '') (ToLower lower (TrimSpace pin))"

definition httpStatusError :: "nat \<Rightarrow> err" where
  "httpStatusError status =
     (if status = 403 then EMsg ''HTTP 403 from node panel''
      else EMsg (''HTTP '' @ nat_str status @ '' from node panel''))"

definition nodeApiURL :: "node_row \<Rightarrow> string \<Rightarrow> string" where
  "nodeApiURL n act = TrimRight (nd_base_url n) (CHR ''/'') @ normalizeWebPath (nd_web_path n) @ ''apiv2/'' @ act"

text \<open>\<open>sha\<close> is the hexadecimal SHA-256 of a certificate.\<close>

definition pinVerifier :: "(string \<Rightarrow> string) \<Rightarrow> string \<Rightarrow> string list \<Rightarrow> unit res" where
  "pinVerifier sha pin certs =
     (case certs of
        [] \<Rightarrow> Inl (EMsg ''no peer certificate received'')
      | c # _ \<Rightarrow> if sha c \<noteq> pin then Inl (EMsg ''certificate pin mismatch'') else Inr ())"

text \<open>The TLS settings of a client's own transport; \<open>None\<close> is the shared default transport.\<close>

record tls_transport =
  tt_skip_verify :: bool
  tt_pin :: "string option"
  tt_idle_timeout :: nat

record http_client =
  hc_timeout :: nat
  hc_transport :: "tls_transport option"

definition nodeProbeTimeout :: nat where "nodeProbeTimeout = 4"
definition nodeIdleConnTimeout :: nat where "nodeIdleConnTimeout = 90"
definition nodePushTimeout :: nat where "nodePushTimeout = 15"

definition buildNodeHTTPClient :: "(string \<Rightarrow> string) \<Rightarrow> node_row \<Rightarrow> http_client" where
  "buildNodeHTTPClient lower n =
     (if has_prefix (ToLower lower (nd_base_url n)) ''https://'' then
        let pin = normalizeCertPin lower (nd_cert_pin n)
        in \<lparr>hc_timeout = nodeProbeTimeout,
            hc_transport = Some (if pin \<noteq> [] then \<lparr>tt_skip_verify = True, tt_pin = Some pin, tt_idle_timeout = nodeIdleConnTimeout\<rparr>
              else \<lparr>tt_skip_verify = nd_insecure n, tt_pin = None, tt_idle_timeout = nodeIdleConnTimeout\<rparr>)\<rparr>
      else \<lparr>hc_timeout = nodeProbeTimeout, hc_transport = None\<rparr>)"

definition nodePushClient :: "(string \<Rightarrow> string) \<Rightarrow> node_row \<Rightarrow> http_client" where
  "nodePushClient lower n = (buildNodeHTTPClient lower n)\<lparr>hc_timeout := nodePushTimeout\<rparr>"

text \<open>Whether closing the idle connections is done: never on the shared transport.\<close>

definition closeIdle :: "http_client option \<Rightarrow> bool" where
  "closeIdle c = (case c of None \<Rightarrow> False | Some c \<Rightarrow> hc_transport c \<noteq> None)"

type_synonym client_cache = "(nat, http_client) gomap"

definition nodeHTTPClient :: "(string \<Rightarrow> string) \<Rightarrow> node_row \<Rightarrow> client_cache \<Rightarrow> http_client \<times> client_cache" where
  "nodeHTTPClient lower n m =
     (case gget m (nd_id n) of
        Some c \<Rightarrow> (c, m)
      | None \<Rightarrow> (let c = buildNodeHTTPClient lower n in (c, gput (nd_id n) c m)))"

definition invalidateNodeClient :: "nat \<Rightarrow> client_cache \<Rightarrow> client_cache" where
  "invalidateNodeClient i m = (if gget m i \<noteq> None then gdel i m else m)"

text \<open>
  A request to a node: \<open>send\<close> gets the method, the URL, the token and the form, and answers with an error, or with a status
  and the decoded envelope (\<open>None\<close> when the body is none).
\<close>

record envelope =
  en_success :: bool
  en_msg :: string
  en_obj :: json

type_synonym sender = "string \<Rightarrow> string \<Rightarrow> string \<Rightarrow> string \<Rightarrow> (nat \<times> envelope option) res"

definition nodeGet :: "sender \<Rightarrow> node_row \<Rightarrow> string \<Rightarrow> string \<Rightarrow> json res" where
  "nodeGet send n act q =
     rbind (send ''GET'' (nodeApiURL n act @ (if q \<noteq> [] then ''?'' @ q else [])) (nd_token n) []) (\<lambda>(status, body).
       if status \<noteq> 200 then Inl (httpStatusError status)
       else case body of
         None \<Rightarrow> Inl (EMsg ''unexpected response: not a panel apiv2 endpoint?'')
       | Some m \<Rightarrow>
           if \<not> en_success m then Inl (EMsg (''node refused: '' @ (if en_msg m = [] then ''check the API token'' else en_msg m)))
           else Inr (en_obj m))"

definition nodePost :: "sender \<Rightarrow> node_row \<Rightarrow> string \<Rightarrow> string \<Rightarrow> json res" where
  "nodePost send n act form =
     rbind (send ''POST'' (nodeApiURL n act) (nd_token n) form) (\<lambda>(status, body).
       if status \<noteq> 200 then Inl (httpStatusError status)
       else case body of
         None \<Rightarrow> Inl (EMsg ''unexpected response from node'')
       | Some m \<Rightarrow>
           if \<not> en_success m then Inl (EMsg (if en_msg m = [] then ''node rejected the request'' else en_msg m))
           else Inr (en_obj m))"

section \<open>Probing\<close>

record probe_status =
  ps_state :: string
  ps_latency :: int
  ps_cpu :: string
  ps_mem :: "int \<times> int"
  ps_app_version :: string
  ps_core_version :: string
  ps_error :: string
  ps_checked_at :: int
  ps_last_online :: int
  ps_online_users :: "string list"
  ps_online_checked_at :: int

record status_payload =
  sp_cpu :: string
  sp_mem :: "int \<times> int"
  sp_app_version :: string
  sp_running :: bool
  sp_core_version :: string

text \<open>\<open>dec\<close> and \<open>dec_users\<close> decode the two answers; \<open>errstr\<close> is \<^verbatim>\<open>err.Error()\<close>.\<close>

record probe_env =
  pe_send :: sender
  pe_dec :: "json \<Rightarrow> status_payload option"
  pe_dec_users :: "json \<Rightarrow> string list option"
  pe_errstr :: "err \<Rightarrow> string"
  pe_start :: int
  pe_latency :: int
  pe_users_at :: int

definition blank_status :: "int \<Rightarrow> int \<Rightarrow> probe_status" where
  "blank_status checked latency =
     \<lparr>ps_state = [], ps_latency = latency, ps_cpu = ''0'', ps_mem = (0, 0), ps_app_version = [], ps_core_version = [], ps_error = [],
      ps_checked_at = checked, ps_last_online = 0, ps_online_users = [], ps_online_checked_at = 0\<rparr>"

definition probe :: "probe_env \<Rightarrow> node_row \<Rightarrow> probe_status" where
  "probe e n =
     (let st = blank_status (pe_start e) (pe_latency e)
      in case nodeGet (pe_send e) n ''status'' ''r=cpu%2Cmem%2Csys%2Csbd'' of
           Inl err \<Rightarrow> st\<lparr>ps_state := ''offline'', ps_error := pe_errstr e err\<rparr>
         | Inr obj \<Rightarrow>
             (case pe_dec e obj of
                None \<Rightarrow> st\<lparr>ps_state := ''offline'', ps_error := ''unexpected status payload''\<rparr>
              | Some p \<Rightarrow>
                  let st1 = st\<lparr>ps_cpu := sp_cpu p, ps_mem := sp_mem p, ps_app_version := sp_app_version p, ps_core_version := sp_core_version p\<rparr>
                  in if \<not> sp_running p then st1\<lparr>ps_state := ''core-stopped''\<rparr>
                     else
                       let st2 = st1\<lparr>ps_state := ''online''\<rparr>
                       in case nodeGet (pe_send e) n ''onlines'' [] of
                            Inl _ \<Rightarrow> st2
                          | Inr o2 \<Rightarrow>
                              (case pe_dec_users e o2 of
                                 None \<Rightarrow> st2
                               | Some us \<Rightarrow> st2\<lparr>ps_online_users := us, ps_online_checked_at := pe_users_at e\<rparr>)))"

section \<open>The snapshot and the notifications\<close>

record node_watch =
  nw_statuses :: "(nat, probe_status) gomap"
  nw_streak :: "(nat, nat) gomap"

definition is_online :: "probe_status \<Rightarrow> bool" where
  "is_online st \<longleftrightarrow> ps_state st = ''online''"

definition stamp_last_online :: "(nat, probe_status) gomap \<Rightarrow> nat \<Rightarrow> probe_status \<Rightarrow> probe_status" where
  "stamp_last_online old i st =
     (if is_online st then st\<lparr>ps_last_online := ps_checked_at st\<rparr>
      else case gget old i of Some prev \<Rightarrow> st\<lparr>ps_last_online := ps_last_online prev\<rparr> | None \<Rightarrow> st)"

text \<open>The nodes that just went away and when they were last there.\<close>

definition went_away :: "(nat, probe_status) gomap \<Rightarrow> (nat, probe_status) gomap \<Rightarrow> (nat \<times> int) list" where
  "went_away old new =
     concat (map (\<lambda>(i, st). case gget old i of
         Some prev \<Rightarrow> if is_online prev \<and> \<not> is_online st \<and> ps_last_online prev > 0 then [(i, ps_last_online prev)] else []
       | None \<Rightarrow> []) new)"

definition node_event :: "kind \<Rightarrow> string \<Rightarrow> event_data \<Rightarrow> event" where
  "node_event k name dat = \<lparr>ev_kind = k, ev_subject = name, ev_data = dat, ev_text = [], ev_at = None\<rparr>"

text \<open>One status of the pass.\<close>

definition notify_status ::
  "nat \<Rightarrow> bool \<Rightarrow> (nat \<Rightarrow> string) \<Rightarrow> nat \<times> probe_status \<Rightarrow> event list \<times> (nat, nat) gomap \<Rightarrow> event list \<times> (nat, nat) gomap" where
  "notify_status flap wants name = (\<lambda>(i, st) (evs, streak).
     if is_online st then
       (if wants then evs @ [node_event NodeUp (name i) (NodeData (ps_latency st) [])] else evs, gdel i streak)
     else
       let streak1 = gput i (Suc (gget0 0 streak i)) streak
       in if gget0 0 streak1 i < flap \<or> \<not> wants then (evs, streak1)
          else (evs @ [node_event NodeDown (name i) (NodeData 0 (ps_error st))], streak1))"

definition node_label :: "node_row list \<Rightarrow> nat \<Rightarrow> string" where
  "node_label nodes i =
     (let name = (case find (\<lambda>n. nd_id n = i) (rev nodes) of Some n \<Rightarrow> nd_name n | None \<Rightarrow> [])
      in if name = [] then ''#'' @ nat_str i else name)"

definition notifyStatuses ::
  "int \<Rightarrow> bool \<Rightarrow> node_row list \<Rightarrow> (nat, probe_status) gomap \<Rightarrow> (nat, nat) gomap \<Rightarrow> event list \<times> (nat, nat) gomap" where
  "notifyStatuses nodeFlap wants nodes statuses streak =
     (if statuses = [] then ([], streak)
      else
        let flap = (if nodeFlap < 1 then 1 else nat nodeFlap);
            live = filter (\<lambda>(i, _). gget statuses i \<noteq> None) streak
        in fold (notify_status flap wants (node_label nodes)) statuses ([], live))"

text \<open>
  A pass: \<open>probes\<close> are the statuses of the enabled nodes in the order the goroutines delivered them. The events of the
  pass are returned; \<open>fails\<close> says which writes of \<^verbatim>\<open>last_seen\<close> fail.
\<close>

definition RefreshAll ::
  "bool \<Rightarrow> (nat \<Rightarrow> bool) \<Rightarrow> int \<Rightarrow> bool \<Rightarrow> (node_row \<Rightarrow> probe_status) \<Rightarrow> sync_state \<Rightarrow> node_watch \<Rightarrow> event list \<times> sync_state \<times> node_watch" where
  "RefreshAll fail fails nodeFlap wants prb s nw =
     (if fail then ([], s, nw)
      else
        let nodes = filter nd_enable (sy_nodes s);
            new = map (\<lambda>n. (nd_id n, stamp_last_online (nw_statuses nw) (nd_id n) (prb n))) nodes;
            s1 = fold (\<lambda>(i, t) s. if fails i then s else set_node i (\<lambda>n. n\<lparr>nd_last_seen := t\<rparr>) s) (went_away (nw_statuses nw) new) s;
            (evs, streak) = notifyStatuses nodeFlap wants nodes new (nw_streak nw)
        in (evs, s1, \<lparr>nw_statuses = new, nw_streak = streak\<rparr>))"

section \<open>The submitted node\<close>

text \<open>
  How \<^verbatim>\<open>encoding/json\<close> compares the keys of an object with a struct's: ignoring case, where two characters outside ASCII
  fold to letters.
\<close>

fun fold_key :: "string \<Rightarrow> string" where
  "fold_key [] = []"
| "fold_key (c # s) =
     (if has_prefix (c # s) [CHR 0xC5, CHR 0xBF] then CHR ''s'' # fold_key (drop 1 s)
      else if has_prefix (c # s) [CHR 0xE2, CHR 0x84, CHR 0xAA] then CHR ''k'' # fold_key (drop 2 s)
      else ascii_lower c # fold_key s)"

definition field_values :: "string \<Rightarrow> (string \<times> json) list \<Rightarrow> json list" where
  "field_values name kvs = filter (\<lambda>v. v \<noteq> JNull) (map snd (filter (\<lambda>(k, _). fold_key k = fold_key name) kvs))"

text \<open>A field: the last value counts, and one of another type fails the decoding.\<close>

definition decode_field :: "(json \<Rightarrow> 'a option) \<Rightarrow> 'a \<Rightarrow> string \<Rightarrow> (string \<times> json) list \<Rightarrow> 'a res" where
  "decode_field conv zero name kvs =
     (let vs = map conv (field_values name kvs)
      in if None \<in> set vs then Inl EDecode else Inr (case rev vs of Some x # _ \<Rightarrow> x | _ \<Rightarrow> zero))"

definition as_str :: "json \<Rightarrow> string option" where
  "as_str j = (case j of JStr s \<Rightarrow> Some s | _ \<Rightarrow> None)"

definition as_bool :: "json \<Rightarrow> bool option" where
  "as_bool j = (case j of JBool b \<Rightarrow> Some b | _ \<Rightarrow> None)"

text \<open>\<open>num\<close> reads a literal as an integer, none if it is not one of the type.\<close>

definition as_int :: "(string \<Rightarrow> int option) \<Rightarrow> json \<Rightarrow> int option" where
  "as_int num j = (case j of JNum t \<Rightarrow> num t | _ \<Rightarrow> None)"

definition as_uint :: "(string \<Rightarrow> int option) \<Rightarrow> json \<Rightarrow> nat option" where
  "as_uint num j = (case as_int num j of Some i \<Rightarrow> if i < 0 then None else Some (nat i) | None \<Rightarrow> None)"

definition zero_node :: node_row where
  "zero_node =
     \<lparr>nd_id = 0, nd_enable = False, nd_name = [], nd_base_url = [], nd_web_path = [], nd_token = [], nd_insecure = False, nd_cert_pin = [],
      nd_desc = [], nd_last_seen = 0, nd_dirty = False, nd_last_sync = 0, nd_baselines = RawNil\<rparr>"

text \<open>The baselines are not part of the JSON.\<close>

definition decode_node :: "(string \<Rightarrow> int option) \<Rightarrow> json \<Rightarrow> node_row res" where
  "decode_node num j =
     (case j of
        JObj kvs \<Rightarrow>
          rbind (decode_field (as_uint num) 0 ''id'' kvs) (\<lambda>i.
          rbind (decode_field as_bool False ''enable'' kvs) (\<lambda>en.
          rbind (decode_field as_str [] ''name'' kvs) (\<lambda>name.
          rbind (decode_field as_str [] ''baseUrl'' kvs) (\<lambda>url.
          rbind (decode_field as_str [] ''webPath'' kvs) (\<lambda>path.
          rbind (decode_field as_str [] ''token'' kvs) (\<lambda>token.
          rbind (decode_field as_bool False ''insecure'' kvs) (\<lambda>insecure.
          rbind (decode_field as_str [] ''certPin'' kvs) (\<lambda>pin.
          rbind (decode_field as_str [] ''desc'' kvs) (\<lambda>desc.
          rbind (decode_field (as_int num) 0 ''lastSeen'' kvs) (\<lambda>seen.
          rbind (decode_field as_bool False ''dirty'' kvs) (\<lambda>dirty.
          rbind (decode_field (as_int num) 0 ''lastSync'' kvs) (\<lambda>sync.
          Inr \<lparr>nd_id = i, nd_enable = en, nd_name = name, nd_base_url = url, nd_web_path = path, nd_token = token, nd_insecure = insecure,
               nd_cert_pin = pin, nd_desc = desc, nd_last_seen = seen, nd_dirty = dirty, nd_last_sync = sync, nd_baselines = RawNil\<rparr>))))))))))))
      | JNull \<Rightarrow> Inr zero_node
      | _ \<Rightarrow> Inl EDecode)"

text \<open>What the panel shows of a node: everything but the token, of which only whether there is one.\<close>

definition node_shown :: "node_row \<Rightarrow> json" where
  "node_shown n =
     JObj [(''id'', JNum (nat_str (nd_id n))), (''enable'', JBool (nd_enable n)), (''name'', JStr (nd_name n)), (''baseUrl'', JStr (nd_base_url n)),
       (''webPath'', JStr (nd_web_path n)), (''insecure'', JBool (nd_insecure n)), (''certPin'', JStr (nd_cert_pin n)), (''desc'', JStr (nd_desc n)),
       (''lastSeen'', JNum (int_str (nd_last_seen n))), (''tokenSet'', JBool (nd_token n \<noteq> [])), (''dirty'', JBool (nd_dirty n)),
       (''lastSync'', JNum (int_str (nd_last_sync n)))]"

definition GetAll_nodes :: "bool \<Rightarrow> sync_state \<Rightarrow> json list res" where
  "GetAll_nodes fail s = (if fail then Inl EDb else Inr (map node_shown (sy_nodes s)))"

text \<open>The payload as it goes into the change log: decoded into a map, so the last of equal keys counts.\<close>

definition redactNodeToken :: "(string \<Rightarrow> string) \<Rightarrow> json \<Rightarrow> json" where
  "redactNodeToken num j =
     (case j of
        JObj kvs \<Rightarrow>
          (case obj_get j ''token'' of
             Some (JStr t) \<Rightarrow> if t \<noteq> [] then json_canon num (JObj (kvs @ [(''token'', JStr ''***'')])) else j
           | _ \<Rightarrow> j)
      | _ \<Rightarrow> j)"

section \<open>Saving nodes\<close>

text \<open>
  What a save reads besides: the lower-casing of other alphabets, the number reader, the id the table assigns and the
  statements that fail.
\<close>

datatype node_stmt = NFind | NSave | NCount | NDelete | NClients | NLinks nat

record node_env =
  ne_lower :: "string \<Rightarrow> string"
  ne_num :: "string \<Rightarrow> int option"
  ne_new_id :: "node_row list \<Rightarrow> nat"
  ne_fails :: "node_stmt \<Rightarrow> bool"

text \<open>
  \<^verbatim>\<open>tx.Save\<close> on a node. An update writes every column. A row that is created instead gets the column's default where the
  field has its zero value, and \<^verbatim>\<open>enable\<close> has the default true. Names are unique.
\<close>

definition put_node :: "node_env \<Rightarrow> node_row \<Rightarrow> sync_state \<Rightarrow> sync_state res" where
  "put_node e n s =
     (if ne_fails e NSave \<or> (\<exists>r \<in> set (sy_nodes s). nd_name r = nd_name n \<and> (nd_id n = 0 \<or> nd_id r \<noteq> nd_id n)) then Inl EDb
      else if nd_id n \<noteq> 0 \<and> nd_id n \<in> nd_id ` set (sy_nodes s) then
        Inr (s\<lparr>sy_nodes := map (\<lambda>r. if nd_id r = nd_id n then n else r) (sy_nodes s)\<rparr>)
      else
        Inr (s\<lparr>sy_nodes := sy_nodes s @ [n\<lparr>nd_enable := True, nd_id := (if nd_id n = 0 then ne_new_id e (sy_nodes s) else nd_id n)\<rparr>]\<rparr>))"

definition rename_link :: "string \<Rightarrow> string \<Rightarrow> link \<Rightarrow> link" where
  "rename_link old new l =
     (if has_prefix (link_remark l) (nodeLinkPrefix old)
      then gput ''remark'' (nodeLinkPrefix new @ drop (length (nodeLinkPrefix old)) (link_remark l)) l else l)"

definition rename_row :: "string \<Rightarrow> string \<Rightarrow> client \<Rightarrow> client option" where
  "rename_row old new c =
     (case unmarshal [] (c_links c) of
        Inl _ \<Rightarrow> None
      | Inr ls \<Rightarrow>
          if \<exists>l \<in> set ls. has_prefix (link_remark l) (nodeLinkPrefix old)
          then Some (c\<lparr>c_links := marshal_indent (map (rename_link old new) ls)\<rparr>) else None)"

definition renameNodeLinkPrefix :: "node_env \<Rightarrow> string \<Rightarrow> string \<Rightarrow> client list \<Rightarrow> client list res" where
  "renameNodeLinkPrefix e old new cs =
     (if ne_fails e NClients then Inl EDb
      else map_res (\<lambda>c. case rename_row old new c of
          None \<Rightarrow> Inr c | Some c' \<Rightarrow> if ne_fails e (NLinks (c_id c)) then Inl EDb else Inr c') cs)"

definition set_clients :: "client list \<Rightarrow> sync_state \<Rightarrow> sync_state" where
  "set_clients cs s = s\<lparr>sy_world := (sy_world s)\<lparr>w_db := (w_db (sy_world s))\<lparr>db_clients := cs\<rparr>\<rparr>\<rparr>"

text \<open>The row an edit refers to; a row that is not there reads as zero values.\<close>

definition stored_node :: "nat \<Rightarrow> sync_state \<Rightarrow> node_row" where
  "stored_node i s = (case find (\<lambda>n. nd_id n = i) (sy_nodes s) of Some n \<Rightarrow> n | None \<Rightarrow> zero_node)"

definition normalize_node :: "node_env \<Rightarrow> node_row \<Rightarrow> node_row res" where
  "normalize_node e n =
     (let name = TrimSpace (nd_name n);
          url = TrimSpace (TrimRight (nd_base_url n) (CHR ''/''))
      in guard_err (name = []) (EMsg ''node name is required'')
         (guard_err (\<not> has_prefix url ''http://'' \<and> \<not> has_prefix url ''https://'') (EMsg ''node baseUrl must start with http:// or https://'')
         (Inr (n\<lparr>nd_name := name, nd_base_url := url, nd_web_path := normalizeWebPath (nd_web_path n),
                 nd_cert_pin := normalizeCertPin (ne_lower e) (nd_cert_pin n)\<rparr>))))"

text \<open>What an edit takes from the stored row: the token when none is submitted, and when the node was last seen.\<close>

definition keep_stored :: "node_env \<Rightarrow> bool \<Rightarrow> node_row \<Rightarrow> sync_state \<Rightarrow> (string \<times> node_row) res" where
  "keep_stored e edit n s =
     (if \<not> edit then Inr ([], n)
      else guard_err (nd_id n = 0) (EMsg ''node id is required'')
        (if ne_fails e NFind then Inl EDb
         else let old = stored_node (nd_id n) s
           in Inr (nd_name old, n\<lparr>nd_token := (if nd_token n = [] then nd_token old else nd_token n), nd_last_seen := nd_last_seen old\<rparr>)))"

definition node_put :: "node_env \<Rightarrow> bool \<Rightarrow> json \<Rightarrow> sync_state \<Rightarrow> sync_state res" where
  "node_put e edit j s =
     rbind (decode_node (ne_num e) j) (\<lambda>n0.
     rbind (normalize_node e n0) (\<lambda>n1.
     rbind (keep_stored e edit n1 s) (\<lambda>(oldName, n).
     guard_err (nd_token n = []) (EMsg ''node API token is required'')
     (guard_err ((\<not> edit \<or> oldName \<noteq> nd_name n) \<and> (CHR ''['' \<in> set (nd_name n) \<or> CHR '']'' \<in> set (nd_name n)))
        (EMsg ''node name cannot contain [ or ]'')
     (rbind (put_node e n s) (\<lambda>s1.
      if oldName \<noteq> [] \<and> oldName \<noteq> nd_name n
      then rbind (renameNodeLinkPrefix e oldName (nd_name n) (db_clients (w_db (sy_world s1)))) (\<lambda>cs. Inr (set_clients cs s1))
      else Inr s1))))))"

definition node_del :: "node_env \<Rightarrow> nat \<Rightarrow> sync_state \<Rightarrow> sync_state res" where
  "node_del e i s =
     (if ne_fails e NCount then Inl EDb
      else guard_err (replicas_of i (w_db (sy_world s)) \<noteq> []) (EMsg ''node still has adopted inbounds'')
        (if ne_fails e NDelete then Inl EDb
         else Inr (s\<lparr>sy_nodes := filter (\<lambda>n. nd_id n \<noteq> i) (sy_nodes s)\<rparr>)))"

text \<open>The switch; on success the cached client is dropped, and a deleted node's status too.\<close>

definition SaveNode :: "node_env \<Rightarrow> string \<Rightarrow> json \<Rightarrow> sync_state \<Rightarrow> sync_state res" where
  "SaveNode e act j s =
     (if act = ''new'' \<or> act = ''edit'' then node_put e (act = ''edit'') j s
      else if act = ''del'' then (case as_uint (ne_num e) j of
          Some i \<Rightarrow> node_del e i s | None \<Rightarrow> if j = JNull then node_del e 0 s else Inl EDecode)
      else Inl (EMsg ''unknown action''))"

text \<open>\<^verbatim>\<open>TestNode\<close>: a probe of the form, with the stored token when the form has none.\<close>

definition TestNode :: "node_env \<Rightarrow> (node_row \<Rightarrow> probe_status) \<Rightarrow> json \<Rightarrow> sync_state \<Rightarrow> probe_status res" where
  "TestNode e prb j s =
     rbind (decode_node (ne_num e) j) (\<lambda>n0.
     let url = TrimSpace (TrimRight (nd_base_url n0) (CHR ''/'')); n1 = n0\<lparr>nd_base_url := url\<rparr>
     in guard_err (\<not> has_prefix url ''http://'' \<and> \<not> has_prefix url ''https://'') (EMsg ''baseUrl must start with http:// or https://'')
        (if nd_token n1 = [] \<and> nd_id n1 > 0 then
           if ne_fails e NFind then Inl EDb else Inr (prb (n1\<lparr>nd_token := nd_token (stored_node (nd_id n1) s)\<rparr>))
         else Inr (prb n1)))"

end
