(* ===== verification/NodeServiceInv.thy ===== *)
theory NodeServiceInv
  imports NodeService NodeTraffic
begin

text \<open>
  What the node service keeps: how streaks count, which links a rename moves, what an edit takes from the stored row, and
  what of a submitted token reaches the change log.
\<close>

section \<open>Streaks\<close>

definition status_events :: "nat \<Rightarrow> bool \<Rightarrow> (nat \<Rightarrow> string) \<Rightarrow> (nat \<Rightarrow> nat) \<Rightarrow> nat \<times> probe_status \<Rightarrow> event list" where
  "status_events flap wants name before = (\<lambda>(i, st).
     if \<not> wants then []
     else if is_online st then [node_event NodeUp (name i) (NodeData (ps_latency st) [])]
     else if flap \<le> Suc (before i) then [node_event NodeDown (name i) (NodeData 0 (ps_error st))] else [])"

definition streak_next :: "(nat, probe_status) gomap \<Rightarrow> (nat \<Rightarrow> nat) \<Rightarrow> nat \<Rightarrow> nat" where
  "streak_next statuses before i = (case gget statuses i of None \<Rightarrow> before i | Some st \<Rightarrow> if is_online st then 0 else Suc (before i))"

lemma notify_fold:
  assumes "gmap_ok statuses"
  shows "\<exists>streak'. fold (notify_status flap wants name) statuses (evs, streak)
      = (evs @ concat (map (status_events flap wants name (gget0 0 streak)) statuses), streak') \<and>
    gget0 0 streak' = streak_next statuses (gget0 0 streak)"
  using assms
proof (induction statuses arbitrary: evs streak)
  case Nil
  then show ?case by (auto simp: streak_next_def)
next
  case (Cons x xs)
  obtain i st where x: "x = (i, st)" by (cases x)
  obtain evs1 streak1 where one: "notify_status flap wants name (i, st) (evs, streak) = (evs1, streak1)" by fastforce
  have evs1: "evs1 = evs @ status_events flap wants name (gget0 0 streak) (i, st)"
    and s1: "gget0 0 streak1 j = (if j = i then if is_online st then 0 else Suc (gget0 0 streak i) else gget0 0 streak j)" for j
    using one by (auto simp: notify_status_def status_events_def gget0_def Let_def split: if_splits)
  have fresh: "i \<notin> fst ` set xs" using Cons.prems x by simp
  have rest: "map (status_events flap wants name (gget0 0 streak1)) xs = map (status_events flap wants name (gget0 0 streak)) xs"
  proof (rule map_cong [OF refl])
    fix y
    assume "y \<in> set xs"
    then have "fst y \<noteq> i" using fresh by auto
    then show "status_events flap wants name (gget0 0 streak1) y = status_events flap wants name (gget0 0 streak) y"
      by (cases y) (simp add: status_events_def s1)
  qed
  obtain streak2 where two: "fold (notify_status flap wants name) xs (evs1, streak1)
      = (evs1 @ concat (map (status_events flap wants name (gget0 0 streak1)) xs), streak2)"
    "gget0 0 streak2 = streak_next xs (gget0 0 streak1)"
    using Cons.IH [of evs1 streak1] Cons.prems by auto
  have "gget xs i = None" using fresh by (simp add: map_of_eq_None_iff)
  then have "streak_next xs (gget0 0 streak1) = streak_next (x # xs) (gget0 0 streak)"
    by (intro ext) (auto simp: streak_next_def x s1 split: option.splits)
  with two one rest evs1 show ?case by (auto simp: x)
qed

text \<open>The passes of one set of nodes.\<close>

definition streak_after :: "int \<Rightarrow> bool \<Rightarrow> node_row list \<Rightarrow> (nat, probe_status) gomap list \<Rightarrow> (nat, nat) gomap" where
  "streak_after nodeFlap wants nodes passes = fold (\<lambda>p streak. snd (notifyStatuses nodeFlap wants nodes p streak)) passes []"

definition failing_tail :: "(nat, probe_status) gomap list \<Rightarrow> nat \<Rightarrow> nat" where
  "failing_tail passes i = length (takeWhile (\<lambda>p. \<not> is_online (the (gget p i))) (rev passes))"

definition pass_of :: "nat set \<Rightarrow> (nat, probe_status) gomap \<Rightarrow> bool" where
  "pass_of ids p \<longleftrightarrow> gmap_ok p \<and> fst ` set p = ids"

lemma pass_of_get: "pass_of ids p \<Longrightarrow> i \<in> ids \<longleftrightarrow> gget p i \<noteq> None"
  by (auto simp: pass_of_def map_of_eq_None_iff)

lemma notifyStatuses_pass:
  assumes "pass_of ids p" and "p \<noteq> []" and "fst ` set streak \<subseteq> ids"
  shows "fst (notifyStatuses F wants nodes p streak)
      = concat (map (status_events (if F < 1 then 1 else nat F) wants (node_label nodes) (gget0 0 streak)) p)"
    and "gget0 0 (snd (notifyStatuses F wants nodes p streak)) = streak_next p (gget0 0 streak)"
proof -
  have "filter (\<lambda>(i, _). gget p i \<noteq> None) streak = streak"
    using assms(1,3) pass_of_get [OF assms(1)] by (intro filter_True) force
  moreover have "gmap_ok p" using assms(1) by (simp add: pass_of_def)
  ultimately show "fst (notifyStatuses F wants nodes p streak)
      = concat (map (status_events (if F < 1 then 1 else nat F) wants (node_label nodes) (gget0 0 streak)) p)"
    and "gget0 0 (snd (notifyStatuses F wants nodes p streak)) = streak_next p (gget0 0 streak)"
    using assms(2) notify_fold [of p "if F < 1 then 1 else nat F" wants "node_label nodes" "[]" streak]
    by (auto simp: notifyStatuses_def Let_def)
qed

lemma notifyStatuses_keys:
  assumes "pass_of ids p" and "p \<noteq> []"
  shows "fst ` set (snd (notifyStatuses F wants nodes p streak)) \<subseteq> ids"
proof -
  have "fst ` set (snd (fold (notify_status flap wants name) xs (evs, m))) \<subseteq> ids"
    if "fst ` set xs \<subseteq> ids" "fst ` set m \<subseteq> ids" for flap name xs evs m
    using that
  proof (induction xs arbitrary: evs m)
    case (Cons x xs)
    obtain i st where x: "x = (i, st)" by (cases x)
    obtain evs1 m1 where one: "notify_status flap wants name (i, st) (evs, m) = (evs1, m1)" by fastforce
    have "fst ` set (gdel i m) \<subseteq> fst ` set m" by (auto simp: AList.delete_eq)
    moreover have "m1 = gdel i m \<or> m1 = gput i (Suc (gget0 0 m i)) m"
      using one by (auto simp: notify_status_def Let_def split: if_splits)
    ultimately have "fst ` set m1 \<subseteq> ids" using Cons.prems x by (elim disjE) simp_all
    with Cons one x show ?case by simp
  qed simp
  moreover have "fst ` set (filter (\<lambda>(i, _). gget p i \<noteq> None) streak) \<subseteq> ids"
    using pass_of_get [OF assms(1)] by force
  ultimately show ?thesis
    using assms by (simp add: notifyStatuses_def Let_def pass_of_def)
qed

lemma streak_after_counts:
  assumes "\<forall>p \<in> set passes. pass_of ids p" and "ids \<noteq> {}"
  shows "fst ` set (streak_after F wants nodes passes) \<subseteq> ids" and "i \<in> ids \<Longrightarrow> gget0 0 (streak_after F wants nodes passes) i = failing_tail passes i"
proof -
  have "fst ` set (streak_after F wants nodes passes) \<subseteq> ids \<and>
    (\<forall>i \<in> ids. gget0 0 (streak_after F wants nodes passes) i = failing_tail passes i)"
    using assms(1)
  proof (induction passes rule: rev_induct)
    case (snoc p passes)
    let ?m = "streak_after F wants nodes passes"
    have step: "streak_after F wants nodes (passes @ [p]) = snd (notifyStatuses F wants nodes p ?m)" by (simp add: streak_after_def)
    have p: "pass_of ids p" "p \<noteq> []" using snoc.prems assms(2) by (auto simp: pass_of_def)
    have IH: "fst ` set ?m \<subseteq> ids" "\<forall>i \<in> ids. gget0 0 ?m i = failing_tail passes i" using snoc by simp_all
    have "gget0 0 (snd (notifyStatuses F wants nodes p ?m)) i = failing_tail (passes @ [p]) i" if "i \<in> ids" for i
      using that IH(2) pass_of_get [OF p(1), of i] unfolding notifyStatuses_pass(2) [OF p IH(1)]
      by (auto simp: streak_next_def failing_tail_def)
    then show ?case using notifyStatuses_keys [OF p] by (simp add: step)
  qed (simp add: streak_after_def failing_tail_def gget0_def)
  then show "fst ` set (streak_after F wants nodes passes) \<subseteq> ids" "i \<in> ids \<Longrightarrow> gget0 0 (streak_after F wants nodes passes) i = failing_tail passes i"
    by simp_all
qed

section \<open>Renaming\<close>

lemma nodeLinkPrefix_unique:
  assumes "has_prefix r (nodeLinkPrefix a)" and "has_prefix r (nodeLinkPrefix b)" and "CHR '']'' \<notin> set a" and "CHR '']'' \<notin> set b"
  shows "a = b"
proof -
  obtain u v where "r = nodeLinkPrefix a @ u" "r = nodeLinkPrefix b @ v" using assms(1,2) unfolding has_prefix_iff by blast
  then have "a @ CHR '']'' # '' '' @ u = b @ CHR '']'' # '' '' @ v" by (simp add: nodeLinkPrefix_def)
  then have "takeWhile (\<lambda>c. c \<noteq> CHR '']'') (a @ CHR '']'' # '' '' @ u) = takeWhile (\<lambda>c. c \<noteq> CHR '']'') (b @ CHR '']'' # '' '' @ v)" by simp
  moreover have "\<forall>c \<in> set a. c \<noteq> CHR '']''" "\<forall>c \<in> set b. c \<noteq> CHR '']''" using assms(3,4) by auto
  ultimately show ?thesis by (simp add: takeWhile_append2)
qed

definition links_of :: "client \<Rightarrow> link list" where
  "links_of c = (case unmarshal [] (c_links c) of Inl _ \<Rightarrow> [] | Inr ls \<Rightarrow> ls)"

definition named_link :: "string \<Rightarrow> link \<Rightarrow> bool" where
  "named_link name l \<longleftrightarrow> has_prefix (link_remark l) (nodeLinkPrefix name)"

lemma rename_link_named:
  assumes "CHR '']'' \<notin> set a" and "CHR '']'' \<notin> set b" and "CHR '']'' \<notin> set x"
  shows "named_link x (rename_link a b l) \<longleftrightarrow> (if named_link a l then x = b else named_link x l)"
proof (cases "named_link a l")
  case True
  then have "link_remark (rename_link a b l) = nodeLinkPrefix b @ drop (length (nodeLinkPrefix a)) (link_remark l)"
    by (simp add: rename_link_def named_link_def gget0_def)
  then have "named_link b (rename_link a b l)" by (auto simp: named_link_def has_prefix_iff)
  with True show ?thesis using nodeLinkPrefix_unique [of "link_remark (rename_link a b l)" x b] assms by (auto simp: named_link_def)
qed (simp add: rename_link_def named_link_def)

lemma rename_row_links:
  "links_of (case rename_row a b c of None \<Rightarrow> c | Some c' \<Rightarrow> c') = map (rename_link a b) (links_of c)"
proof (cases "unmarshal [] (c_links c)")
  case (Inr ls)
  have "map (rename_link a b) ls = ls" if "\<not> (\<exists>l \<in> set ls. has_prefix (link_remark l) (nodeLinkPrefix a))"
    using that by (intro map_idI) (auto simp: rename_link_def)
  with Inr show ?thesis by (auto simp: rename_row_def links_of_def)
qed (simp add: rename_row_def links_of_def)

lemma rename_row_else: "(case rename_row a b c of None \<Rightarrow> c | Some c' \<Rightarrow> c')\<lparr>c_links := RawNil\<rparr> = c\<lparr>c_links := RawNil\<rparr>"
  by (auto simp: rename_row_def split: sum.splits)

lemma renameNodeLinkPrefix_rows:
  assumes "renameNodeLinkPrefix e a b cs = Inr cs'"
  shows "cs' = map (\<lambda>c. case rename_row a b c of None \<Rightarrow> c | Some c' \<Rightarrow> c') cs"
proof -
  have "map_res (\<lambda>c. case rename_row a b c of None \<Rightarrow> Inr c | Some c' \<Rightarrow> if ne_fails e (NLinks (c_id c)) then Inl EDb else Inr c') cs = Inr cs'"
    using assms by (simp add: renameNodeLinkPrefix_def split: if_splits)
  then have "map id cs' = map (\<lambda>c. case rename_row a b c of None \<Rightarrow> c | Some c' \<Rightarrow> c') cs"
    by (rule map_res_proj) (auto split: option.splits if_splits)
  then show ?thesis by simp
qed

section \<open>What an edit writes\<close>

lemma put_node_cases:
  assumes "put_node e n s = Inr s'"
  obtains (update) "nd_id n \<noteq> 0" and "nd_id n \<in> nd_id ` set (sy_nodes s)"
      and "s' = s\<lparr>sy_nodes := map (\<lambda>r. if nd_id r = nd_id n then n else r) (sy_nodes s)\<rparr>"
  | (create) "nd_id n = 0 \<or> nd_id n \<notin> nd_id ` set (sy_nodes s)"
      and "s' = s\<lparr>sy_nodes := sy_nodes s @ [n\<lparr>nd_enable := True, nd_id := (if nd_id n = 0 then ne_new_id e (sy_nodes s) else nd_id n)\<rparr>]\<rparr>"
  using assms unfolding put_node_def by (simp del: image_iff split: if_split_asm)

lemma put_node_row:
  assumes "put_node e n s = Inr s'" and "r \<in> set (sy_nodes s')" and "nd_id r = nd_id n" and "nd_id n \<noteq> 0"
  shows "r = n \<or> r = n\<lparr>nd_enable := True\<rparr>"
  using assms(1)
proof (cases rule: put_node_cases)
  case update
  have "sy_nodes s' = map (\<lambda>r. if nd_id r = nd_id n then n else r) (sy_nodes s)" by (simp add: update(3))
  then have "r \<in> (\<lambda>r. if nd_id r = nd_id n then n else r) ` set (sy_nodes s)"
    using assms(2) by (simp only: set_map)
  then obtain q where "r = (if nd_id q = nd_id n then n else q)" by blast
  with assms(3) show ?thesis by (simp split: if_splits)
next
  case create
  have "r \<notin> set (sy_nodes s)" using create(1) assms(3,4) by (metis imageI)
  with assms(2) show ?thesis unfolding create(2) using assms(4) by simp
qed

lemma put_node_world: "put_node e n s = Inr s' \<Longrightarrow> sy_world s' = sy_world s"
  by (erule put_node_cases) simp_all

lemma node_put_Inr:
  assumes "node_put e edit j s = Inr s'"
  obtains n0 n1 oldName n s1 where "decode_node (ne_num e) j = Inr n0" and "normalize_node e n0 = Inr n1"
    and "keep_stored e edit n1 s = Inr (oldName, n)" and "nd_token n \<noteq> []"
    and "edit \<and> oldName = nd_name n \<or> CHR ''['' \<notin> set (nd_name n) \<and> CHR '']'' \<notin> set (nd_name n)"
    and "put_node e n s = Inr s1" and "sy_nodes s' = sy_nodes s1"
    and "if oldName \<noteq> [] \<and> oldName \<noteq> nd_name n
         then renameNodeLinkPrefix e oldName (nd_name n) (db_clients (w_db (sy_world s))) = Inr (db_clients (w_db (sy_world s')))
         else db_clients (w_db (sy_world s')) = db_clients (w_db (sy_world s))"
proof -
  from assms obtain n0 n1 oldName n s1 where f: "decode_node (ne_num e) j = Inr n0" "normalize_node e n0 = Inr n1"
    "keep_stored e edit n1 s = Inr (oldName, n)" "nd_token n \<noteq> []" "put_node e n s = Inr s1"
    and br: "\<not> ((\<not> edit \<or> oldName \<noteq> nd_name n) \<and> (CHR ''['' \<in> set (nd_name n) \<or> CHR '']'' \<in> set (nd_name n)))"
    and fin: "(if oldName \<noteq> [] \<and> oldName \<noteq> nd_name n
      then rbind (renameNodeLinkPrefix e oldName (nd_name n) (db_clients (w_db (sy_world s1)))) (\<lambda>cs. Inr (set_clients cs s1))
      else Inr s1) = Inr s'"
    unfolding node_put_def by (simp only: res_simps case_prod_unfold) (metis prod.collapse)
  have "sy_nodes s' = sy_nodes s1" using fin by (auto simp: set_clients_def res_simps split: if_splits)
  moreover have "if oldName \<noteq> [] \<and> oldName \<noteq> nd_name n
      then renameNodeLinkPrefix e oldName (nd_name n) (db_clients (w_db (sy_world s))) = Inr (db_clients (w_db (sy_world s')))
      else db_clients (w_db (sy_world s')) = db_clients (w_db (sy_world s))"
    using fin put_node_world [OF f(5)] by (auto simp: set_clients_def res_simps split: if_splits)
  ultimately show thesis using br f by (intro that) auto
qed

lemma normalize_node_Inr:
  assumes "normalize_node e n0 = Inr n1"
  shows "nd_id n1 = nd_id n0" "nd_token n1 = nd_token n0" "nd_dirty n1 = nd_dirty n0" "nd_last_sync n1 = nd_last_sync n0"
    "nd_baselines n1 = nd_baselines n0" "nd_name n1 = TrimSpace (nd_name n0)"
  using assms by (auto simp: normalize_node_def Let_def res_simps)

lemma decode_node_baselines: "decode_node num j = Inr n \<Longrightarrow> nd_baselines n = RawNil"
  by (auto simp: decode_node_def res_simps zero_node_def split: json.splits)

text \<open>The row after an edit.\<close>

lemma node_edit_row:
  assumes "SaveNode e ''edit'' j s = Inr s'" and "decode_node (ne_num e) j = Inr n0"
    and "r \<in> set (sy_nodes s')" and "nd_id r = nd_id n0"
  shows "nd_token r = (if nd_token n0 = [] then nd_token (stored_node (nd_id n0) s) else nd_token n0)" (is ?token)
    and "nd_last_seen r = nd_last_seen (stored_node (nd_id n0) s)" (is ?seen)
    and "nd_dirty r = nd_dirty n0" (is ?dirty) and "nd_last_sync r = nd_last_sync n0" (is ?sync)
    and "nd_baselines r = RawNil" (is ?base) and "nd_token r \<noteq> []" (is ?some)
proof -
  have put: "node_put e True j s = Inr s'" using assms(1) by (simp add: SaveNode_def)
  obtain n1 oldName n s1 where n1: "normalize_node e n0 = Inr n1" and n: "keep_stored e True n1 s = Inr (oldName, n)" "nd_token n \<noteq> []"
    and s1: "put_node e n s = Inr s1" "sy_nodes s' = sy_nodes s1"
    using node_put_Inr [OF put] assms(2) by (metis sum.inject(2))
  have nid: "nd_id n = nd_id n0" "nd_id n0 \<noteq> 0" and f: "nd_token n = (if nd_token n0 = [] then nd_token (stored_node (nd_id n0) s) else nd_token n0)"
    "nd_last_seen n = nd_last_seen (stored_node (nd_id n0) s)" "nd_dirty n = nd_dirty n0" "nd_last_sync n = nd_last_sync n0" "nd_baselines n = RawNil"
    using n(1) normalize_node_Inr [OF n1] decode_node_baselines [OF assms(2)]
    by (auto simp: keep_stored_def res_simps Let_def split: if_splits)
  have "r = n \<or> r = n\<lparr>nd_enable := True\<rparr>" using put_node_row [OF s1(1)] assms(3,4) s1(2) nid by auto
  then show ?token ?seen ?dirty ?sync ?base ?some using f n(2) by auto
qed

text \<open>Without a baseline, a counter gains all of it.\<close>

lemma counter_delta_zero: "0 \<le> cur \<Longrightarrow> cur < 2 ^ 63 \<Longrightarrow> counter_delta 0 cur = cur"
  using counter_delta_grown [of 0 cur] by simp

section \<open>Redaction\<close>

lemma gget_sorted:
  assumes "gmap_ok m"
  shows "gget (rev (sort_by lt m)) k = gget m k"
proof -
  have "gmap_ok (sort_by lt m)" using assms by simp
  then have "gmap_ok (rev (sort_by lt m))" by (simp add: rev_map [symmetric])
  then have "gget (rev (sort_by lt m)) k = Some v \<longleftrightarrow> gget m k = Some v" for v
    using gget_in_set [of _ k v] assms by (metis set_rev set_sort_by)
  then show ?thesis by (metis not_Some_eq)
qed

lemma obj_get_canon: "obj_get (json_canon num (JObj kvs)) k = map_option (json_canon num) (obj_get (JObj kvs) k)"
proof -
  let ?m = "fold (\<lambda>(k, v). gput k v) (map (\<lambda>(k, v). (k, json_canon num v)) kvs) []"
  have fold: "gmap_ok acc \<Longrightarrow> gmap_ok (fold (\<lambda>(k, v). gput k v) xs acc) \<and>
      gget (fold (\<lambda>(k, v). gput k v) xs acc) k = (case gget (rev xs) k of None \<Rightarrow> gget acc k | Some v \<Rightarrow> Some v)" for xs :: "(string \<times> json) list" and acc
    by (induction xs arbitrary: acc) (auto simp: distinct_update map_add_def split: option.splits)
  have "obj_get (json_canon num (JObj kvs)) k = gget ?m k"
    using fold [of "[]"] by (simp add: obj_get_def gget_sorted)
  also have "\<dots> = gget (rev (map (\<lambda>(k, v). (k, json_canon num v)) kvs)) k"
    using fold [of "[]" "map (\<lambda>(k, v). (k, json_canon num v)) kvs"] by (simp split: option.splits)
  also have "\<dots> = map_option (json_canon num) (gget (rev kvs) k)"
    by (simp only: rev_map map_of_map comp_apply)
  finally show ?thesis by (simp add: obj_get_def)
qed

end
