(* ===== verification/NodeSvcProps.thy ===== *)
theory NodeSvcProps
  imports NodeServiceInv
begin

text \<open>
  The theorems about the table of nodes and their probes.
\<close>

definition example_node_env :: node_env where
  "example_node_env = \<lparr>ne_lower = id, ne_num = \<lambda>t. Some (if t = ''1'' then 1 else 0), ne_new_id = \<lambda>ns. Suc (length ns), ne_fails = \<lambda>_. False\<rparr>"

definition example_row :: "nat \<Rightarrow> string \<Rightarrow> node_row" where
  "example_row i name =
     zero_node\<lparr>nd_id := i, nd_enable := True, nd_name := name, nd_base_url := ''https://n'', nd_web_path := ''/app/'', nd_token := ''t'',
       nd_last_seen := 9, nd_baselines := RawVal Compact [(''a'', \<lparr>tb_up = 40, tb_down = 5\<rparr>)]\<rparr>"

definition example_table :: sync_state where
  "example_table =
     \<lparr>sy_world = \<lparr>w_db = \<lparr>db_clients = [], db_inbounds = [], db_nodes = [], db_changes = [], db_next_id = 1\<rparr>, w_last_update = 0, w_seq = 0,
        w_hub = 0, w_events = [], w_global = \<lparr>gr_next = 0, gr_armed = []\<rparr>\<rparr>,
      sy_nodes = [example_row 1 ''n1''], sy_gen = 0, sy_busy = [], sy_last = []\<rparr>"

definition example_form :: json where
  "example_form = JObj [(''id'', JNum ''1''), (''enable'', JBool True), (''name'', JStr ''n1''), (''baseUrl'', JStr ''https://n''), (''desc'', JStr ''moved'')]"

text \<open>
  C23. An edit of a node forgets its baselines. An edit that goes through keeps the stored token when none is submitted and
  the time the node was last seen, and takes the dirty flag and the time of the last sync from the form. The baselines
  are not in the form and are wiped, so the next collection adds everything the node ever counted a second time.
\<close>

theorem node_edit_recounts:
  assumes "SaveNode e ''edit'' j s = Inr s'" and "decode_node (ne_num e) j = Inr n0"
    and "r \<in> set (sy_nodes s')" and "nd_id r = nd_id n0"
  shows "nd_token r = (if nd_token n0 = [] then nd_token (stored_node (nd_id n0) s) else nd_token n0) \<and>
    nd_last_seen r = nd_last_seen (stored_node (nd_id n0) s) \<and> nd_dirty r = nd_dirty n0 \<and> nd_last_sync r = nd_last_sync n0 \<and>
    (\<forall>current names m k. gget current m = Some k \<and> m \<in> set names \<and> 0 \<le> nk_up k \<and> nk_up k < 2 ^ 63 \<and> 0 \<le> nk_down k \<and> nk_down k < 2 ^ 63 \<longrightarrow>
      node_gain (node_baselines r) names current m = (nk_up k, nk_down k))"
proof -
  note row = node_edit_row [OF assms]
  have "node_baselines r = []" using row(5) by (simp add: node_baselines_def unmarshal_ignore_def)
  then have "node_gain (node_baselines r) names current m = (nk_up k, nk_down k)"
    if "gget current m = Some k \<and> m \<in> set names \<and> 0 \<le> nk_up k \<and> nk_up k < 2 ^ 63 \<and> 0 \<le> nk_down k \<and> nk_down k < 2 ^ 63" for current names m k
    using that by (simp add: node_gain_def gget0_def counter_delta_zero)
  with row show ?thesis by blast
qed

theorem node_edit_recounts_witness:
  "\<exists>s' r. SaveNode example_node_env ''edit'' example_form example_table = Inr s' \<and> r \<in> set (sy_nodes s') \<and> nd_token r = ''t'' \<and>
     gget (node_baselines (example_row 1 ''n1'')) ''a'' = Some \<lparr>tb_up = 40, tb_down = 5\<rparr> \<and>
     node_gain (node_baselines r) [''a''] [(''a'', \<lparr>nk_id = 1, nk_name = ''a'', nk_enable = True, nk_config = RawNil, nk_inbounds = RawNil, nk_expiry = 0,
       nk_group = [], nk_up = 50, nk_down = 7, nk_limit_ip = None\<rparr>)] ''a'' = (50, 7)"
proof -
  let ?k = "\<lparr>nk_id = 1, nk_name = ''a'', nk_enable = True, nk_config = RawNil, nk_inbounds = RawNil, nk_expiry = 0,
       nk_group = [], nk_up = 50, nk_down = 7, nk_limit_ip = None\<rparr>"
  let ?run = "SaveNode example_node_env ''edit'' example_form example_table"
  obtain s' where s': "?run = Inr s'"
  proof -
    have "\<not> isl ?run" by code_simp
    then show thesis using that by (cases ?run) auto
  qed
  obtain n0 where n0: "decode_node (ne_num example_node_env) example_form = Inr n0" "nd_id n0 = 1" "nd_token n0 = []"
  proof -
    have "case decode_node (ne_num example_node_env) example_form of Inl _ \<Rightarrow> False | Inr n \<Rightarrow> nd_id n = 1 \<and> nd_token n = []" by code_simp
    then show thesis using that by (auto split: sum.splits)
  qed
  have "case ?run of Inl _ \<Rightarrow> False | Inr s' \<Rightarrow> map nd_id (sy_nodes s') = [1]" by code_simp
  then obtain r where r: "r \<in> set (sy_nodes s')" "nd_id r = nd_id n0" using s' n0(2) by auto
  have "nd_token (stored_node 1 example_table) = ''t''" by code_simp
  then have "nd_token r = ''t''" using node_edit_recounts [OF s' n0(1) r] n0 by simp
  moreover have "node_gain (node_baselines r) [''a''] [(''a'', ?k)] ''a'' = (nk_up ?k, nk_down ?k)"
    using node_edit_recounts [OF s' n0(1) r, THEN conjunct2, THEN conjunct2, THEN conjunct2, THEN conjunct2, rule_format,
      where current = "[(''a'', ?k)]" and m = "''a''" and k = ?k and names = "[''a'']"] by simp
  then have "node_gain (node_baselines r) [''a''] [(''a'', ?k)] ''a'' = (50, 7)" by simp
  moreover have "gget (node_baselines (example_row 1 ''n1'')) ''a'' = Some \<lparr>tb_up = 40, tb_down = 5\<rparr>" by code_simp
  ultimately show ?thesis using s' r(1) by blast
qed

text \<open>
  A rename moves the links of one node and no others: no link is lost, the order stays, the links under the old name
  are afterwards under the new one, those of every other node stay as they are, and no other column moves.
\<close>

lemma rename_moves_one_node:
  assumes "renameNodeLinkPrefix e a b cs = Inr cs'" and "CHR '']'' \<notin> set a" and "CHR '']'' \<notin> set b" and "CHR '']'' \<notin> set x"
    and "x \<noteq> b"
  shows "map (\<lambda>c. map (named_link b) (links_of c)) cs' = map (\<lambda>c. map (\<lambda>l. named_link a l \<or> named_link b l) (links_of c)) cs \<and>
    (if x = a then \<forall>c \<in> set cs'. \<forall>l \<in> set (links_of c). \<not> named_link a l
     else map (\<lambda>c. filter (named_link x) (links_of c)) cs' = map (\<lambda>c. filter (named_link x) (links_of c)) cs) \<and>
    map (\<lambda>c. c\<lparr>c_links := RawNil\<rparr>) cs' = map (\<lambda>c. c\<lparr>c_links := RawNil\<rparr>) cs"
proof -
  note rows = renameNodeLinkPrefix_rows [OF assms(1)]
  have b: "named_link b (rename_link a b l) \<longleftrightarrow> named_link a l \<or> named_link b l" for l
    using rename_link_named [OF assms(2,3,3), of l] by auto
  have xl: "named_link x (rename_link a b l) \<longleftrightarrow> \<not> named_link a l \<and> named_link x l" for l
    using rename_link_named [OF assms(2,3,4), of l] assms(5) by auto
  have keep: "rename_link a b l = l" if "\<not> named_link a l" for l
    using that by (simp add: rename_link_def named_link_def)
  have "filter (named_link x) (map (rename_link a b) ls) = filter (named_link x) ls" if "x \<noteq> a" for ls
  proof -
    have "\<not> (named_link x l \<and> named_link a l)" for l
      using that nodeLinkPrefix_unique [of "link_remark l" x a] assms(2,4) by (auto simp: named_link_def)
    then show ?thesis using xl keep by (induction ls) auto
  qed
  then show ?thesis
    using b xl by (auto simp: rows rename_row_links rename_row_else)
qed

definition example_linked :: client where
  "example_linked = zero_client\<lparr>c_links := marshal_indent [[(''remark'', ''[n1] in'')], [(''remark'', ''[n2] in'')], [(''remark'', ''mine'')]]\<rparr>"

text \<open>
  C24. Alerts are debounced by the number of failed probes in a row. Over passes of one set of nodes, a pass announces a node as
  up when it is online, and as down exactly when it has not been online in at least as many passes in a row,
  this one included, as the setting asks for (one, when the setting is below one).
\<close>

theorem node_alerts_debounced:
  assumes "\<forall>q \<in> set (passes @ [p]). pass_of ids q" and "ids \<noteq> {}"
  shows "fst (notifyStatuses F True nodes p (streak_after F True nodes passes)) =
    concat (map (\<lambda>(i, st).
      if is_online st then [node_event NodeUp (node_label nodes i) (NodeData (ps_latency st) [])]
      else if max 1 F \<le> int (failing_tail (passes @ [p]) i) then [node_event NodeDown (node_label nodes i) (NodeData 0 (ps_error st))] else []) p)"
proof -
  have p: "pass_of ids p" "p \<noteq> []" using assms by (auto simp: pass_of_def)
  have st: "\<forall>q \<in> set passes. pass_of ids q" using assms(1) by simp
  let ?m = "streak_after F True nodes passes" and ?flap = "if F < 1 then 1 else nat F"
  have "status_events ?flap True (node_label nodes) (gget0 0 ?m) y = (\<lambda>(i, st).
      if is_online st then [node_event NodeUp (node_label nodes i) (NodeData (ps_latency st) [])]
      else if max 1 F \<le> int (failing_tail (passes @ [p]) i) then [node_event NodeDown (node_label nodes i) (NodeData 0 (ps_error st))] else []) y"
    if "y \<in> set p" for y
  proof (cases y)
    case (Pair i st)
    then have "i \<in> ids" using that p(1) by (force simp: pass_of_def)
    moreover have "gget p i = Some st" using that Pair p(1) gget_in_set by (auto simp: pass_of_def)
    ultimately show ?thesis
      using streak_after_counts(2) [OF st assms(2), of i] Pair by (auto simp: status_events_def failing_tail_def)
  qed
  then show ?thesis
    unfolding notifyStatuses_pass(1) [OF p streak_after_counts(1) [OF st assms(2)]]
    by (intro arg_cong [where f = concat] map_cong refl) simp
qed

definition example_probe :: "string \<Rightarrow> probe_status" where
  "example_probe state = (blank_status 0 0)\<lparr>ps_state := state\<rparr>"

theorem node_alerts_debounced_witness:
  "fst (notifyStatuses 2 True [example_row 1 ''n1''] [(1, example_probe ''offline'')]
      (streak_after 2 True [example_row 1 ''n1''] [[(1, example_probe ''online'')], [(1, example_probe ''offline'')]])) =
     [node_event NodeDown ''n1'' (NodeData 0 [])] \<and>
   fst (notifyStatuses 2 True [example_row 1 ''n1''] [(1, example_probe ''offline'')]
      (streak_after 2 True [example_row 1 ''n1''] [[(1, example_probe ''offline'')], [(1, example_probe ''online'')]])) = []"
proof -
  have off: "\<not> is_online (example_probe ''offline'')" and on: "is_online (example_probe ''online'')"
    by (simp_all add: is_online_def example_probe_def)
  have label: "node_label [example_row 1 ''n1''] 1 = ''n1''" and err: "ps_error (example_probe ''offline'') = []"
    by (simp_all add: node_label_def example_row_def example_probe_def blank_status_def)
  note alert = node_alerts_debounced [of _ "[(1, example_probe ''offline'')]" "{1}" 2 "[example_row 1 ''n1'']"]
  show ?thesis
    using alert [of "[[(1, example_probe ''online'')], [(1, example_probe ''offline'')]]"]
      alert [of "[[(1, example_probe ''offline'')], [(1, example_probe ''online'')]]"] off on label err
    by (simp add: pass_of_def failing_tail_def)
qed

text \<open>What TLS does with these settings: the chain is verified unless that is switched off, and then the callback is asked.\<close>

definition tls_accepts :: "(string \<Rightarrow> string) \<Rightarrow> tls_transport \<Rightarrow> bool \<Rightarrow> string list \<Rightarrow> bool" where
  "tls_accepts sha t chain certs \<longleftrightarrow> (tt_skip_verify t \<or> chain) \<and> (case tt_pin t of None \<Rightarrow> True | Some pin \<Rightarrow> pinVerifier sha pin certs = Inr ())"

text \<open>
  A connection to an https node is trusted for a reason. When TLS accepts the server's certificates: with a pin, the leaf
  has the pinned hash (and nothing else is asked); with no pin and no permission to skip, the chain was verified. The
  client that is used after a save is built from the row as saved.
\<close>

lemma node_tls_trust:
  assumes "has_prefix (ToLower lower (nd_base_url n)) ''https://''"
  shows "\<exists>t. hc_transport (buildNodeHTTPClient lower n) = Some t \<and>
    (\<forall>sha chain certs. tls_accepts sha t chain certs \<longleftrightarrow>
      (if normalizeCertPin lower (nd_cert_pin n) \<noteq> [] then certs \<noteq> [] \<and> sha (hd certs) = normalizeCertPin lower (nd_cert_pin n)
       else nd_insecure n \<or> chain)) \<and>
    fst (nodeHTTPClient lower n (invalidateNodeClient (nd_id n) cache)) = buildNodeHTTPClient lower n"
  using assms
  by (auto simp: buildNodeHTTPClient_def tls_accepts_def pinVerifier_def nodeHTTPClient_def invalidateNodeClient_def Let_def
      split: list.splits if_splits)

text \<open>
  C25. A token does not come back out. What the panel lists of the nodes does not depend on the tokens beyond their being set,
  and after redaction the change log's payload holds no token under the key the code looks for but the mask. Under the
  same key in another case the decoder still takes the token, and redaction leaves it in place.
\<close>

theorem node_token_stays:
  assumes "t' \<noteq> []"
  shows "GetAll_nodes fail (s\<lparr>sy_nodes := map (\<lambda>n. if nd_token n = [] then n else n\<lparr>nd_token := t'\<rparr>) (sy_nodes s)\<rparr>) = GetAll_nodes fail s \<and>
    (\<forall>num j t. obj_get (redactNodeToken num j) ''token'' = Some (JStr t) \<longrightarrow> t = [] \<or> t = ''***'') \<and>
    (\<exists>kvs. decode_field as_str [] ''token'' kvs = Inr t' \<and> (\<forall>num. redactNodeToken num (JObj kvs) = JObj kvs))"
proof (intro conjI)
  show "GetAll_nodes fail (s\<lparr>sy_nodes := map (\<lambda>n. if nd_token n = [] then n else n\<lparr>nd_token := t'\<rparr>) (sy_nodes s)\<rparr>) = GetAll_nodes fail s"
    using assms by (simp add: GetAll_nodes_def node_shown_def)
  show "\<forall>num j t. obj_get (redactNodeToken num j) ''token'' = Some (JStr t) \<longrightarrow> t = [] \<or> t = ''***''"
  proof (intro allI impI)
    fix num j t
    assume red: "obj_get (redactNodeToken num j) ''token'' = Some (JStr t)"
    show "t = [] \<or> t = ''***''"
    proof (cases "\<exists>kvs u. j = JObj kvs \<and> obj_get j ''token'' = Some (JStr u) \<and> u \<noteq> []")
      case True
      then obtain kvs where "redactNodeToken num j = json_canon num (JObj (kvs @ [(''token'', JStr ''***'')]))"
        by (auto simp: redactNodeToken_def)
      with red have "map_option (json_canon num) (obj_get (JObj (kvs @ [(''token'', JStr ''***'')])) ''token'') = Some (JStr t)"
        by (simp only: obj_get_canon)
      then show ?thesis by (simp add: obj_get_def)
    next
      case False
      then have "redactNodeToken num j = j" by (auto simp: redactNodeToken_def split: json.splits option.splits)
      moreover have "\<exists>kvs. j = JObj kvs" using red calculation by (cases j) (auto simp: obj_get_def)
      ultimately show ?thesis using False red by auto
    qed
  qed
  have "fold_key ''Token'' = fold_key ''token''" by code_simp
  then have "decode_field as_str [] ''token'' [(''Token'', JStr t')] = Inr t' \<and> (\<forall>num. redactNodeToken num (JObj [(''Token'', JStr t')]) = JObj [(''Token'', JStr t')])"
    by (simp add: decode_field_def field_values_def as_str_def redactNodeToken_def obj_get_def)
  then show "\<exists>kvs. decode_field as_str [] ''token'' kvs = Inr t' \<and> (\<forall>num. redactNodeToken num (JObj kvs) = JObj kvs)" by blast
qed

theorem node_token_stays_witness:
  "GetAll_nodes False (example_table\<lparr>sy_nodes := map (\<lambda>n. if nd_token n = [] then n else n\<lparr>nd_token := ''other''\<rparr>) (sy_nodes example_table)\<rparr>)
     = GetAll_nodes False example_table"
  using node_token_stays [of "''other''" False example_table] by simp

end
