(* ===== verification/Encoding.thy ===== *)
theory Encoding
  imports Prelude
begin

text \<open>
  The text encodings of bytes the sources use from Go's library: base32 without padding (the shared secrets of the
  second factor) and the four forms of base64 (share links). Both cut the bits of the bytes, most significant
  first, into groups of \<open>w\<close>, fill the last group with zeros, and write one symbol per group; they differ in the alphabet,
  the width and in what a decoder makes of the end of its input. The locale holds what they share.
\<close>

section \<open>Bits\<close>

definition num_bits :: "nat \<Rightarrow> nat \<Rightarrow> bool list" where
  "num_bits w n = rev (map (bit n) [0..<w])"

definition bits_num :: "bool list \<Rightarrow> nat" where
  "bits_num bs = horner_sum of_bool 2 (rev bs)"

lemma length_num_bits [simp]: "length (num_bits w n) = w"
  by (simp add: num_bits_def)

lemma bits_num_num_bits: "n < 2 ^ w \<Longrightarrow> bits_num (num_bits w n) = n"
  by (simp add: bits_num_def num_bits_def horner_sum_bit_eq_take_bit take_bit_nat_eq_self)

lemma num_bits_bits_num: "length bs = w \<Longrightarrow> num_bits w (bits_num bs) = bs"
  by (rule nth_equalityI)
     (auto simp: num_bits_def bits_num_def rev_nth bit_horner_sum_bit_iff)

lemma bits_num_less: "bits_num bs < 2 ^ length bs"
  unfolding bits_num_def using horner_sum_of_bool_2_less [of "rev bs"] by simp

section \<open>Groups\<close>

function chunks :: "nat \<Rightarrow> 'a list \<Rightarrow> 'a list list" where
  "chunks w xs = (if xs = [] \<or> w = 0 then [] else take w xs # chunks w (drop w xs))"
  by pat_completeness auto

termination by (relation "measure (\<lambda>(w, xs). length xs)") auto

declare chunks.simps [simp del]

lemma chunks_Nil [simp]: "chunks w [] = []"
  by (simp add: chunks.simps)

lemma chunks_Cons: "0 < w \<Longrightarrow> xs \<noteq> [] \<Longrightarrow> chunks w xs = take w xs # chunks w (drop w xs)"
  by (subst chunks.simps) simp

definition fill :: "nat \<Rightarrow> bool list \<Rightarrow> bool list" where
  "fill w bs = bs @ replicate (w - length bs) False"

definition string_bits :: "string \<Rightarrow> bool list" where
  "string_bits s = concat (map (\<lambda>c. num_bits 8 (of_char c)) s)"

text \<open>The bytes a sequence of bits holds; bits that do not make a whole byte are dropped.\<close>

function bits_string :: "bool list \<Rightarrow> string" where
  "bits_string bs = (if length bs < 8 then [] else char_of (bits_num (take 8 bs)) # bits_string (drop 8 bs))"
  by pat_completeness auto

termination by (relation "measure length") auto

declare bits_string.simps [simp del]

lemma length_string_bits [simp]: "length (string_bits s) = 8 * length s"
  by (induction s) (simp_all add: string_bits_def)

lemma string_bits_Cons: "string_bits (c # s) = num_bits 8 (of_char c) @ string_bits s"
  by (simp add: string_bits_def)

text \<open>Reading back what was written, whatever is filled in behind it.\<close>

lemma bits_string_string_bits: "length r < 8 \<Longrightarrow> bits_string (string_bits s @ r) = s"
proof (induction s)
  case Nil
  then show ?case by (simp add: bits_string.simps string_bits_def)
next
  case (Cons c s)
  have "(of_char c :: nat) < 2 ^ 8" by simp
  then show ?case
    using Cons by (subst bits_string.simps) (simp add: string_bits_Cons bits_num_num_bits)
qed

lemma length_fill: "length bs \<le> w \<Longrightarrow> length (fill w bs) = w"
  by (simp add: fill_def)

text \<open>The groups put together again: the bits and less than a group of zeros.\<close>

lemma concat_fill_chunks:
  assumes "0 < w"
  shows "\<exists>r. length r < w \<and> concat (map (fill w) (chunks w bs)) = bs @ r"
proof (induction "length bs" arbitrary: bs rule: less_induct)
  case less
  show ?case
  proof (cases "bs = []")
    case False
    then have c: "chunks w bs = take w bs # chunks w (drop w bs)"
      using assms by (simp add: chunks_Cons)
    show ?thesis
    proof (cases "length bs \<le> w")
      case True
      with False c show ?thesis
        using assms by (intro exI [of _ "replicate (w - length bs) False"]) (simp add: fill_def)
    next
      case f: False
      then obtain r where "length r < w" "concat (map (fill w) (chunks w (drop w bs))) = drop w bs @ r"
        using less [of "drop w bs"] assms False by auto
      with c f show ?thesis by (intro exI [of _ r]) (simp add: fill_def)
    qed
  qed (use assms in auto)
qed

lemma length_chunks: "0 < w \<Longrightarrow> length (chunks w bs) = (length bs + w - 1) div w"
proof (induction "length bs" arbitrary: bs rule: less_induct)
  case less
  show ?case
  proof (cases "bs = []")
    case False
    with less.prems have c: "chunks w bs = take w bs # chunks w (drop w bs)" by (simp add: chunks_Cons)
    show ?thesis
    proof (cases "length bs \<le> w")
      case True
      then have "(length bs + w - 1) div w = 1"
        using False less.prems by (intro div_nat_eqI) (cases bs; simp)+
      with True c show ?thesis by simp
    next
      case f: False
      then have "length bs + w - 1 = (length (drop w bs) + w - 1) + w" by simp
      then have "(length bs + w - 1) div w = Suc ((length (drop w bs) + w - 1) div w)"
        using less.prems by (metis div_add_self2 Suc_eq_plus1 less_numeral_extra(3))
      then show ?thesis using less c f False by simp
    qed
  qed (use less.prems in auto)
qed

lemma chunk_length: "0 < w \<Longrightarrow> g \<in> set (chunks w bs) \<Longrightarrow> length g \<le> w"
proof (induction "length bs" arbitrary: bs rule: less_induct)
  case less
  then have ne: "bs \<noteq> []" by auto
  with less.prems have "g = take w bs \<or> g \<in> set (chunks w (drop w bs))" by (simp add: chunks_Cons)
  with less.hyps [of "drop w bs"] less.prems(1) ne show ?case by auto
qed

section \<open>Alphabets\<close>

definition encode_bits :: "nat \<Rightarrow> (nat \<Rightarrow> char) \<Rightarrow> string \<Rightarrow> string" where
  "encode_bits w symb s = map (\<lambda>g. symb (bits_num (fill w g))) (chunks w (string_bits s))"

text \<open>The bytes a text of symbols stands for; none if a character is not in the alphabet.\<close>

fun decode_bits :: "nat \<Rightarrow> (char \<Rightarrow> nat option) \<Rightarrow> string \<Rightarrow> bool list option" where
  "decode_bits w val [] = Some []"
| "decode_bits w val (c # s) =
     (case val c of None \<Rightarrow> None | Some v \<Rightarrow> map_option ((@) (num_bits w v)) (decode_bits w val s))"

lemma decode_bits_Some_set: "decode_bits w val s = Some bs \<Longrightarrow> c \<in> set s \<Longrightarrow> val c \<noteq> None"
  by (induction s arbitrary: bs) (auto split: option.splits)

lemma decode_bits_agree:
  "(\<And>c u v. c \<in> set s \<Longrightarrow> val1 c = Some u \<Longrightarrow> val2 c = Some v \<Longrightarrow> u = v) \<Longrightarrow>
   decode_bits w val1 s = Some a \<Longrightarrow> decode_bits w val2 s = Some b \<Longrightarrow> a = b"
proof (induction s arbitrary: a b)
  case (Cons c s)
  from Cons.prems(2,3) obtain u v x y where
    uv: "val1 c = Some u" "val2 c = Some v" and xy: "decode_bits w val1 s = Some x" "decode_bits w val2 s = Some y"
    and ab: "a = num_bits w u @ x" "b = num_bits w v @ y"
    by (auto split: option.splits)
  have "u = v" using Cons.prems(1) [of c] uv by simp
  moreover have "x = y" using Cons.prems(1) xy by (intro Cons.IH) auto
  ultimately show ?case using ab by simp
qed simp

locale alphabet =
  fixes w :: nat and symb :: "nat \<Rightarrow> char" and val :: "char \<Rightarrow> nat option"
  assumes width: "0 < w" "w \<le> 8"
    and val_sym: "v < 2 ^ w \<Longrightarrow> val (symb v) = Some v"
begin

lemma decode_bits_encode:
  "decode_bits w val (map (\<lambda>g. symb (bits_num (fill w g))) gs) = Some (concat (map (fill w) gs))"
  if "\<And>g. g \<in> set gs \<Longrightarrow> length g \<le> w"
  using that
proof (induction gs)
  case (Cons g gs)
  then have "length (fill w g) = w" by (simp add: length_fill)
  then have "bits_num (fill w g) < 2 ^ w" using bits_num_less [of "fill w g"] by simp
  with Cons \<open>length (fill w g) = w\<close> show ?case by (simp add: val_sym num_bits_bits_num)
qed simp

text \<open>Decoding what was encoded gives the bytes back.\<close>

lemma decode_encode:
  "map_option bits_string (decode_bits w val (encode_bits w symb s)) = Some s"
proof -
  obtain r where "length r < w" "concat (map (fill w) (chunks w (string_bits s))) = string_bits s @ r"
    using concat_fill_chunks width by blast
  then show ?thesis
    unfolding encode_bits_def
    by (subst decode_bits_encode [OF chunk_length [OF width(1)]])
       (use width in \<open>auto simp: bits_string_string_bits\<close>)
qed

lemma encode_length: "length (encode_bits w symb s) = (8 * length s + w - 1) div w"
  by (simp add: encode_bits_def length_chunks width)

text \<open>Every symbol of an encoding is one of the alphabet.\<close>

lemma encode_alphabet: "c \<in> set (encode_bits w symb s) \<Longrightarrow> \<exists>v < 2 ^ w. c = symb v"
proof -
  assume "c \<in> set (encode_bits w symb s)"
  then obtain g where "g \<in> set (chunks w (string_bits s))" and c: "c = symb (bits_num (fill w g))"
    by (auto simp: encode_bits_def)
  then have "length (fill w g) = w" using chunk_length [OF width(1)] by (intro length_fill) blast
  then show ?thesis using bits_num_less [of "fill w g"] c by auto
qed

end

section \<open>Base32 without padding\<close>

definition sym32 :: "nat \<Rightarrow> char" where
  "sym32 v = (if v < 26 then char_of (65 + v) else char_of (24 + v))"

definition val32 :: "char \<Rightarrow> nat option" where
  "val32 c =
     (let n = of_char c :: nat
      in if 65 \<le> n \<and> n \<le> 90 then Some (n - 65) else if 50 \<le> n \<and> n \<le> 55 then Some (n - 24) else None)"

interpretation b32: alphabet 5 sym32 val32
  by unfold_locales (auto simp: sym32_def val32_def)

definition strip_newlines :: "string \<Rightarrow> string" where
  "strip_newlines s = filter (\<lambda>c. c \<noteq> CHR 0x0A \<and> c \<noteq> CHR 0x0D) s"

definition base32_encode :: "string \<Rightarrow> string" where
  "base32_encode s = encode_bits 5 sym32 s"

text \<open>
  \<^verbatim>\<open>base32.StdEncoding.WithPadding(NoPadding).DecodeString\<close>: newlines are skipped, and a last group of eight of which 1, 3
  or 6 symbols are there yields no byte and no error.
\<close>

definition base32_decode :: "string \<Rightarrow> string option" where
  "base32_decode s =
     (let t = strip_newlines s; r = length t mod 8
      in map_option (\<lambda>bs. bits_string (if r \<in> {1, 3, 6} then take (5 * (length t - r)) bs else bs))
           (decode_bits 5 val32 t))"

lemma sym32_range: "v < 32 \<Longrightarrow> of_char (sym32 v) \<in> {50..55::nat} \<union> {65..90}"
  by (auto simp: sym32_def)

lemma base32_encode_chars: "c \<in> set (base32_encode s) \<Longrightarrow> of_char c \<in> {50..55::nat} \<union> {65..90}"
  using b32.encode_alphabet [of c s] sym32_range unfolding base32_encode_def by fastforce

lemma strip_newlines_id: "(\<And>c. c \<in> set s \<Longrightarrow> 32 \<le> (of_char c :: nat)) \<Longrightarrow> strip_newlines s = s"
  unfolding strip_newlines_def
  by (rule filter_True) force

lemma base32_length_mod: "(8 * n + 4) div 5 mod 8 \<notin> {1, 3, 6 :: nat}"
proof -
  define q r where "q = n div 5" and "r = n mod 5"
  have n: "n = 5 * q + r" and r: "r < 5" by (simp_all add: q_def r_def)
  have "(8 * n + 4) div 5 = 8 * q + (8 * r + 4) div 5"
    unfolding n by (simp add: algebra_simps)
  moreover from r have "r = 0 \<or> r = 1 \<or> r = 2 \<or> r = 3 \<or> r = 4" by auto
  ultimately show ?thesis by auto
qed

lemma base32_round_trip: "base32_decode (base32_encode s) = Some s"
proof -
  have "strip_newlines (base32_encode s) = base32_encode s"
    by (rule strip_newlines_id) (use base32_encode_chars in fastforce)
  moreover have "length (base32_encode s) mod 8 \<notin> {1, 3, 6}"
    using base32_length_mod [of "length s"] by (simp add: base32_encode_def b32.encode_length add.commute)
  ultimately show ?thesis
    using b32.decode_encode [of s] by (auto simp: base32_decode_def base32_encode_def Let_def)
qed

section \<open>Base64\<close>

definition sym64 :: "bool \<Rightarrow> nat \<Rightarrow> char" where
  "sym64 url v =
     (if v < 26 then char_of (65 + v) else if v < 52 then char_of (71 + v) else if v < 62 then char_of (v - 4)
      else if v = 62 then (if url then CHR ''-'' else CHR ''+'') else (if url then CHR ''_'' else CHR ''/''))"

definition val64 :: "bool \<Rightarrow> char \<Rightarrow> nat option" where
  "val64 url c =
     (let n = of_char c :: nat
      in if 65 \<le> n \<and> n \<le> 90 then Some (n - 65) else if 97 \<le> n \<and> n \<le> 122 then Some (n - 71)
         else if 48 \<le> n \<and> n \<le> 57 then Some (n + 4)
         else if c = (if url then CHR ''-'' else CHR ''+'') then Some 62
         else if c = (if url then CHR ''_'' else CHR ''/'') then Some 63 else None)"

lemma val64_sym64: "v < 64 \<Longrightarrow> val64 url (sym64 url v) = Some v"
  by (cases url) (auto simp: sym64_def val64_def Let_def)

interpretation b64: alphabet 6 "sym64 url" "val64 url" for url
  by unfold_locales (simp_all add: val64_sym64)

definition pad64 :: "nat \<Rightarrow> string" where
  "pad64 n = (if n mod 4 = 2 then ''=='' else if n mod 4 = 3 then ''='' else [])"

definition base64_encode :: "bool \<Rightarrow> bool \<Rightarrow> string \<Rightarrow> string" where
  "base64_encode url padded s =
     (let t = encode_bits 6 (sym64 url) s in t @ (if padded then pad64 (length t) else []))"

text \<open>
  \<^verbatim>\<open>DecodeString\<close> of the four encodings: newlines are skipped; what stands before the first \<open>=\<close> has to be of the
  alphabet and must not leave a single symbol in the last group; the padded forms want the padding, the raw forms want none.
\<close>

definition base64_decode :: "bool \<Rightarrow> bool \<Rightarrow> string \<Rightarrow> string option" where
  "base64_decode url padded s =
     (let t = strip_newlines s; d = takeWhile (\<lambda>c. c \<noteq> CHR ''='') t; p = dropWhile (\<lambda>c. c \<noteq> CHR ''='') t
      in if length d mod 4 = 1 \<or> p \<noteq> (if padded then pad64 (length d) else []) then None
         else map_option bits_string (decode_bits 6 (val64 url) d))"

lemma val64_not_eq: "v < 64 \<Longrightarrow> sym64 url v \<noteq> CHR ''='' \<and> 32 \<le> (of_char (sym64 url v) :: nat)"
proof -
  assume v: "v < 64"
  have "val64 url (CHR ''='') = None" by (cases url) (simp_all add: val64_def)
  then have "sym64 url v \<noteq> CHR ''=''" using val64_sym64 [OF v, of url] by auto
  then show ?thesis using v by (auto simp: sym64_def)
qed

lemma base64_length_mod: "(8 * n + 5) div 6 mod 4 \<noteq> (1 :: nat)"
proof -
  define q r where "q = n div 3" and "r = n mod 3"
  have n: "n = 3 * q + r" and r: "r < 3" by (simp_all add: q_def r_def)
  have "(8 * n + 5) div 6 = 4 * q + (8 * r + 5) div 6"
    unfolding n by (simp add: algebra_simps)
  moreover from r have "r = 0 \<or> r = 1 \<or> r = 2" by auto
  ultimately show ?thesis by auto
qed

lemma encode64_chars: "c \<in> set (encode_bits 6 (sym64 url) s) \<Longrightarrow> c \<noteq> CHR ''='' \<and> 32 \<le> (of_char c :: nat)"
  using b64.encode_alphabet [of c url s] val64_not_eq [of _ url] by auto

lemma base64_round_trip: "base64_decode url padded (base64_encode url padded s) = Some s"
proof -
  define t where "t = encode_bits 6 (sym64 url) s"
  define p where "p = (if padded then pad64 (length t) else [])"
  have c: "c \<noteq> CHR ''=''" "32 \<le> (of_char c :: nat)" if "c \<in> set t" for c
    using encode64_chars [of c url s] that by (simp_all add: t_def)
  have p: "set p \<subseteq> {CHR ''=''}" by (auto simp: p_def pad64_def)
  have "32 \<le> (of_char c :: nat)" if "c \<in> set (t @ p)" for c
    using c [of c] p that by auto
  then have n: "strip_newlines (t @ p) = t @ p" by (rule strip_newlines_id)
  have "takeWhile (\<lambda>c. c \<noteq> CHR ''='') p = []" "dropWhile (\<lambda>c. c \<noteq> CHR ''='') p = p"
    using p by (cases p; auto)+
  then have d: "takeWhile (\<lambda>c. c \<noteq> CHR ''='') (t @ p) = t" "dropWhile (\<lambda>c. c \<noteq> CHR ''='') (t @ p) = p"
    using c(1) by (simp_all add: takeWhile_append2 dropWhile_append2)
  have "length t mod 4 \<noteq> 1"
    using base64_length_mod [of "length s"] by (simp add: t_def b64.encode_length add.commute)
  moreover have e: "base64_encode url padded s = t @ p" by (simp add: base64_encode_def t_def p_def Let_def)
  moreover have "map_option bits_string (decode_bits 6 (val64 url) t) = Some s"
    using b64.decode_encode [of url s] by (simp add: t_def)
  moreover have "p = (if padded then pad64 (length t) else [])" by (simp add: p_def)
  ultimately show ?thesis unfolding e base64_decode_def Let_def n d by simp
qed

text \<open>Two forms that both accept a text read the same bytes from it.\<close>

lemma base64_forms_agree:
  assumes "base64_decode u p s = Some a" and "base64_decode u' p' s = Some b"
  shows "a = b"
proof -
  define d where "d = takeWhile (\<lambda>c. c \<noteq> CHR ''='') (strip_newlines s)"
  obtain x y where x: "decode_bits 6 (val64 u) d = Some x" "a = bits_string x"
    and y: "decode_bits 6 (val64 u') d = Some y" "b = bits_string y"
    using assms by (auto simp: base64_decode_def d_def Let_def split: if_splits)
  have "m = n" if "val64 u c = Some m" "val64 u' c = Some n" for c m n
    using that by (auto simp: val64_def Let_def split: if_splits)
  then have "x = y" by (intro decode_bits_agree [OF _ x(1) y(1)]) blast
  with x y show ?thesis by simp
qed

end
