(* ===== verification/UrlText.thy ===== *)
theory UrlText
  imports NetAddr
begin

text \<open>
  Percent-encoding as Go's \<^verbatim>\<open>net/url\<close> has it: which bytes a component escapes, the escape and its inverse, the
  encoded form of a query (\<^verbatim>\<open>url.Values.Encode\<close>) and decimal numbers with leading zeros. The sources build and read the links
  of inbounds and the enrolment link of the second factor with them.
\<close>

named_theorems url_simps \<open>escaping and unescaping\<close>

datatype url_mode = PathSegment | Path | UserPassword | QueryComponent | Fragment | HostMode | ZoneMode

definition is_alnum :: "char \<Rightarrow> bool" where
  "is_alnum c = (let n = of_char c :: nat in 48 \<le> n \<and> n \<le> 57 \<or> 65 \<le> n \<and> n \<le> 90 \<or> 97 \<le> n \<and> n \<le> 122)"

definition shouldEscape :: "url_mode \<Rightarrow> char \<Rightarrow> bool" where
  "shouldEscape m c =
     (if is_alnum c then False
      else if (m = HostMode \<or> m = ZoneMode) \<and> c \<in> set (CHR 0x22 # CHR 0x27 # ''!$&()*+,;=:[]<>'') then False
      else if c \<in> set ''-_.~'' then False
      else if c \<in> set ''$&+,/:;=?@'' then
        (case m of
           Path \<Rightarrow> c = CHR ''?''
         | PathSegment \<Rightarrow> c \<in> set ''/;,?''
         | UserPassword \<Rightarrow> c \<in> set ''@/?:''
         | Fragment \<Rightarrow> False
         | _ \<Rightarrow> True)
      else if m = Fragment \<and> c \<in> set ''!()*'' then False else True)"

definition upper_hex :: "nat \<Rightarrow> char" where
  "upper_hex n = (if n < 10 then char_of (48 + n) else char_of (55 + n))"

definition pct :: "char \<Rightarrow> string" where
  "pct c = [CHR ''%'', upper_hex (of_char c div 16), upper_hex (of_char c mod 16)]"

definition escape_char :: "url_mode \<Rightarrow> char \<Rightarrow> string" where
  "escape_char m c = (if m = QueryComponent \<and> c = CHR '' '' then ''+'' else if shouldEscape m c then pct c else [c])"

definition escape :: "url_mode \<Rightarrow> string \<Rightarrow> string" where
  "escape m s = concat (map (escape_char m) s)"

definition unhex :: "char \<Rightarrow> nat option" where
  "unhex c =
     (let n = of_char c :: nat
      in if 48 \<le> n \<and> n \<le> 57 then Some (n - 48) else if 97 \<le> n \<and> n \<le> 102 then Some (n - 87)
         else if 65 \<le> n \<and> n \<le> 70 then Some (n - 55) else None)"

text \<open>
  What a host may hold: an escape of an ASCII character other than \<open>%\<close> is refused (in a zone, one that did not need to be
  escaped is allowed too), and so is a plain character that should have been escaped.
\<close>

definition bad_escape :: "url_mode \<Rightarrow> nat \<Rightarrow> nat \<Rightarrow> bool" where
  "bad_escape m a b \<longleftrightarrow>
     m = HostMode \<and> a < 8 \<and> (a, b) \<noteq> (2, 5) \<or>
     m = ZoneMode \<and> (a, b) \<noteq> (2, 5) \<and> 16 * a + b \<noteq> 32 \<and> shouldEscape HostMode (char_of (16 * a + b))"

definition bad_plain :: "url_mode \<Rightarrow> char \<Rightarrow> bool" where
  "bad_plain m c \<longleftrightarrow> (m = HostMode \<or> m = ZoneMode) \<and> (of_char c :: nat) < 128 \<and> shouldEscape m c"

fun unescape :: "url_mode \<Rightarrow> string \<Rightarrow> string option" where
  "unescape m [] = Some []"
| "unescape m (c # s) =
     (if c = CHR ''%'' then
        (case s of
           h # l # t \<Rightarrow>
             (case (unhex h, unhex l) of
                (Some a, Some b) \<Rightarrow>
                  if bad_escape m a b then None else map_option ((#) (char_of (16 * a + b))) (unescape m t)
              | _ \<Rightarrow> None)
         | _ \<Rightarrow> None)
      else if m = QueryComponent \<and> c = CHR ''+'' then map_option ((#) (CHR '' '')) (unescape m s)
      else if bad_plain m c then None
      else map_option ((#) c) (unescape m s))"

text \<open>The components other than the host, where every escape is read back.\<close>

abbreviation free_mode :: "url_mode \<Rightarrow> bool" where
  "free_mode m \<equiv> m \<noteq> HostMode \<and> m \<noteq> ZoneMode"

abbreviation PathEscape :: "string \<Rightarrow> string" where "PathEscape \<equiv> escape PathSegment"
abbreviation QueryEscape :: "string \<Rightarrow> string" where "QueryEscape \<equiv> escape QueryComponent"

lemma escape_Nil [url_simps, simp]: "escape m [] = []"
  by (simp add: escape_def)

lemma escape_Cons [url_simps]: "escape m (c # s) = escape_char m c @ escape m s"
  by (simp add: escape_def)

lemma unhex_upper_hex: "n < 16 \<Longrightarrow> unhex (upper_hex n) = Some n"
  by (auto simp: unhex_def upper_hex_def Let_def)

lemma unescape_pct: "free_mode m \<Longrightarrow> unescape m (pct c @ s) = map_option ((#) c) (unescape m s)"
proof -
  assume m: "free_mode m"
  have "(of_char c :: nat) < 256" by simp
  then have "unhex (upper_hex (of_char c div 16)) = Some (of_char c div 16)"
    by (intro unhex_upper_hex) linarith
  moreover have "char_of (16 * (of_char c div 16) + of_char c mod 16 :: nat) = c" by simp
  ultimately show ?thesis using m by (simp add: pct_def unhex_upper_hex bad_escape_def)
qed

lemma kept_char: "\<not> shouldEscape m c \<Longrightarrow> c \<noteq> CHR ''%'' \<and> (m = QueryComponent \<longrightarrow> c \<noteq> CHR ''+'')"
  by (auto simp: shouldEscape_def is_alnum_def split: if_splits)

text \<open>What was escaped reads back, whatever follows it.\<close>

lemma unescape_escape_append: "free_mode m \<Longrightarrow> unescape m (escape m s @ t) = map_option ((@) s) (unescape m t)"
proof (induction s)
  case Nil
  then show ?case by (simp add: map_option.identity [unfolded id_def] option.map_ident)
next
  case (Cons c s)
  then show ?case
    by (cases "shouldEscape m c"; cases "m = QueryComponent \<and> c = CHR '' ''")
       (auto simp: escape_Cons escape_char_def unescape_pct bad_plain_def option.map_comp comp_def dest: kept_char)
qed

lemma unescape_escape [url_simps]: "free_mode m \<Longrightarrow> unescape m (escape m s) = Some s"
  using unescape_escape_append [of m s "[]"] by simp

text \<open>An escaped text keeps to the alphabet of its component.\<close>

lemma upper_hex_alnum: "n < 16 \<Longrightarrow> is_alnum (upper_hex n)"
  by (auto simp: upper_hex_def is_alnum_def Let_def)

lemma escape_chars:
  "d \<in> set (escape m s) \<Longrightarrow> is_alnum d \<or> d = CHR ''%'' \<or> \<not> shouldEscape m d \<or> m = QueryComponent \<and> d = CHR ''+''"
proof (induction s)
  case (Cons c s)
  have "(of_char c :: nat) < 256" by simp
  then have "is_alnum (upper_hex (of_char c div 16))" "is_alnum (upper_hex (of_char c mod 16))"
    by (intro upper_hex_alnum; linarith)+
  with Cons show ?case by (auto simp: escape_Cons escape_char_def pct_def split: if_splits)
qed simp

text \<open>\<^verbatim>\<open>url.Values.Encode\<close> of single-valued parameters, given in the order of their keys.\<close>

fun encode_pairs :: "(string \<times> string) list \<Rightarrow> string" where
  "encode_pairs [] = []"
| "encode_pairs [(k, v)] = QueryEscape k @ ''='' @ QueryEscape v"
| "encode_pairs ((k, v) # p # ps) = QueryEscape k @ ''='' @ QueryEscape v @ ''&'' @ encode_pairs (p # ps)"

section \<open>Decimal numbers\<close>

lemma digits_fuel_length: "n < 10 ^ Suc k \<Longrightarrow> length (digits_fuel f 10 n acc) \<le> Suc k + length acc"
proof (induction f arbitrary: n k acc)
  case (Suc f)
  show ?case
  proof (cases "n < 10")
    case False
    with Suc.prems obtain j where "k = Suc j" by (cases k) auto
    with Suc.prems have "n div 10 < 10 ^ Suc j" by (simp add: div_less_iff_less_mult mult.commute)
    with Suc.IH [of "n div 10" j "digit (n mod 10) # acc"] \<open>k = Suc j\<close> False show ?thesis by simp
  qed simp
qed simp

lemma digit_range: "0 \<le> n \<Longrightarrow> n < 10 \<Longrightarrow> n \<in> {0, 1, 2, 3, 4, 5, 6, 7, 8, 9 :: int}"
  unfolding insert_iff empty_iff by presburger

lemma digit_is_digit: "0 \<le> n \<Longrightarrow> n < 10 \<Longrightarrow> is_digit (digit n)"
  using digit_range [of n] by (auto simp: is_digit_def digit_def)

lemma digits_fuel_digits:
  "0 \<le> n \<Longrightarrow> list_all is_digit acc \<Longrightarrow> list_all is_digit (digits_fuel f 10 n acc)"
  by (induction f arbitrary: n acc) (simp_all add: digit_is_digit)

lemma show_num_digits: "0 \<le> n \<Longrightarrow> list_all is_digit (show_num 10 n)"
  by (simp add: show_num_def digits_fuel_digits)

lemma show_num_length: "n < 10 ^ Suc k \<Longrightarrow> length (show_num 10 n) \<le> Suc k"
  using digits_fuel_length [of n k 20 "[]"] by (simp add: show_num_def)

text \<open>The value of a text of digits; it reads back a number of at most nineteen digits.\<close>

definition dec_value :: "string \<Rightarrow> int" where
  "dec_value s = foldl (\<lambda>v c. 10 * v + (of_char c - 48)) 0 s"

lemma dec_value_snoc: "dec_value (s @ [c]) = 10 * dec_value s + (of_char c - 48)"
  by (simp add: dec_value_def)

lemma foldl_digits:
  "foldl (\<lambda>v c. 10 * v + (of_char c - 48)) a (digits_fuel f 10 n acc) =
   foldl (\<lambda>v c. 10 * v + (of_char c - 48)) a (digits_fuel f 10 n []  @ acc)"
proof -
  have "digits_fuel f 10 n acc = digits_fuel f 10 n [] @ acc"
  proof (induction f arbitrary: n acc)
    case (Suc f)
    show ?case
      using Suc.IH [of "n div 10" "digit (n mod 10) # acc"] Suc.IH [of "n div 10" "[digit (n mod 10)]"] by simp
  qed simp
  then show ?thesis by simp
qed

lemma of_char_digit: "0 \<le> n \<Longrightarrow> n < 10 \<Longrightarrow> (of_char (digit n) :: int) = 48 + n"
  using digit_range [of n] by (auto simp: digit_def)

lemma dec_value_digits_fuel: "0 \<le> n \<Longrightarrow> n < 10 ^ f \<Longrightarrow> dec_value (digits_fuel f 10 n []) = n"
proof (induction f arbitrary: n)
  case (Suc f)
  show ?case
  proof (cases "n < 10")
    case False
    have "n div 10 < 10 ^ f" using Suc.prems by (simp add: div_less_iff_less_mult mult.commute)
    then have "dec_value (digits_fuel f 10 (n div 10) []) = n div 10" using Suc by simp
    moreover have "dec_value (digits_fuel f 10 (n div 10) [digit (n mod 10)]) =
        dec_value (digits_fuel f 10 (n div 10) [] @ [digit (n mod 10)])"
      unfolding dec_value_def by (rule foldl_digits)
    ultimately show ?thesis using False by (simp add: dec_value_snoc of_char_digit)
  qed (use Suc.prems in \<open>simp add: dec_value_def of_char_digit\<close>)
qed (simp add: dec_value_def)

lemma dec_value_show_num: "0 \<le> n \<Longrightarrow> n < 10 ^ 20 \<Longrightarrow> dec_value (show_num 10 n) = n"
  by (simp add: show_num_def dec_value_digits_fuel)

definition pad0 :: "nat \<Rightarrow> string \<Rightarrow> string" where
  "pad0 k s = replicate (k - length s) (CHR ''0'') @ s"

lemma dec_value_pad0 [simp]: "dec_value (pad0 k s) = dec_value s"
proof -
  have "dec_value (replicate n (CHR ''0'') @ s) = dec_value s" for n
    by (induction n) (simp_all add: dec_value_def)
  then show ?thesis by (simp add: pad0_def)
qed

lemma pad0_show_num:
  assumes "0 \<le> n" and "n < 10 ^ Suc k"
  shows "length (pad0 (Suc k) (show_num 10 n)) = Suc k" and "list_all is_digit (pad0 (Suc k) (show_num 10 n))"
  using show_num_length [OF assms(2)] show_num_digits [OF assms(1)] by (auto simp: pad0_def list_all_iff is_digit_def)

end
