(* ===== verification/Totp.thy ===== *)
theory Totp
  imports Encoding UrlText
begin

text \<open>
  \<^verbatim>\<open>util/totp.go\<close> and \<^verbatim>\<open>util/password.go\<close>: one-time codes (RFC 6238) and stored passwords. A key and a digest are byte
  strings. HMAC-SHA1 is the argument \<open>mac\<close> (key, then message), of which the theorems use only that a digest has twenty bytes;
  bcrypt is the pair of arguments \<open>hash\<close> (which can fail) and \<open>matches\<close>. The counter is an unsigned 64-bit word, as in the code.
\<close>

unbundle bit_operations_syntax

definition totpDigits :: nat where "totpDigits = 6"
definition totpModulus :: "32 word" where "totpModulus = 1000000"
definition totpPeriod :: "64 word" where "totpPeriod = 30"
definition totpSkew :: int where "totpSkew = 1"
definition totpSecretBytes :: nat where "totpSecretBytes = 20"

text \<open>\<open>rnd\<close> is what \<^verbatim>\<open>rand.Read\<close> did with the buffer.\<close>

definition GenerateTOTPSecret :: "string res \<Rightarrow> string res" where
  "GenerateTOTPSecret rnd = rbind rnd (\<lambda>buf. Inr (base32_encode buf))"

definition TOTPKeyURI :: "string \<Rightarrow> string \<Rightarrow> string \<Rightarrow> string" where
  "TOTPKeyURI secret account issuer =
     ''otpauth://totp/'' @ PathEscape (issuer @ '':'' @ account) @ ''?'' @
     encode_pairs [(''issuer'', issuer), (''secret'', secret)]"

definition drop_separators :: "string \<Rightarrow> string" where
  "drop_separators s = filter (\<lambda>c. c \<noteq> CHR '' '' \<and> c \<noteq> CHR ''-'') s"

definition TrimRightEq :: "string \<Rightarrow> string" where
  "TrimRightEq s = rev (dropWhile (\<lambda>c. c = CHR ''='') (rev s))"

definition decodeTOTPSecret :: "(string \<Rightarrow> string) \<Rightarrow> string \<Rightarrow> string option" where
  "decodeTOTPSecret upper secret = base32_decode (TrimRightEq (ToUpper upper (drop_separators secret)))"

definition normalizeTOTPCode :: "string \<Rightarrow> string" where
  "normalizeTOTPCode code = drop_separators (TrimSpace code)"

text \<open>\<^verbatim>\<open>binary.BigEndian\<close>.\<close>

definition PutUint64 :: "64 word \<Rightarrow> string" where
  "PutUint64 n = map (\<lambda>i. char_of (uint (drop_bit (8 * (7 - i)) n AND 0xFF))) [0..<8]"

definition Uint32 :: "string \<Rightarrow> 32 word" where
  "Uint32 s = foldl (\<lambda>a c. push_bit 8 a OR word_of_int (of_char c)) 0 s"

definition dt_offset :: "string \<Rightarrow> nat" where
  "dt_offset digest = unat ((word_of_int (of_char (digest ! (length digest - 1))) :: 8 word) AND 0x0F)"

definition totpCodeAt :: "(string \<Rightarrow> string \<Rightarrow> string) \<Rightarrow> string \<Rightarrow> 64 word \<Rightarrow> string" where
  "totpCodeAt mac key counter =
     (let digest = mac key (PutUint64 counter);
          offset = dt_offset digest;
          truncated = Uint32 (take 4 (drop offset digest)) AND 0x7FFFFFFF
      in pad0 totpDigits (show_num 10 (uint (truncated mod totpModulus))))"

text \<open>The loop over the steps; what it returns is the counter as a signed integer.\<close>

fun totp_search ::
  "(string \<Rightarrow> string \<Rightarrow> string) \<Rightarrow> string \<Rightarrow> string \<Rightarrow> int \<Rightarrow> 64 word \<Rightarrow> int list \<Rightarrow> int option" where
  "totp_search mac key code after counter [] = None"
| "totp_search mac key code after counter (skew # skews) =
     (if skew < 0 \<and> counter < word_of_int (- skew) then totp_search mac key code after counter skews
      else
        let candidate = word_of_int (sint counter + skew) :: 64 word
        in if after > 0 \<and> candidate \<le> word_of_int after then totp_search mac key code after counter skews
           else if totpCodeAt mac key candidate = code then Some (sint candidate)
           else totp_search mac key code after counter skews)"

definition validateTOTPAt ::
  "(string \<Rightarrow> string) \<Rightarrow> (string \<Rightarrow> string \<Rightarrow> string) \<Rightarrow> string \<Rightarrow> string \<Rightarrow> int \<Rightarrow> int \<Rightarrow> int option" where
  "validateTOTPAt upper mac secret code after now =
     (case decodeTOTPSecret upper secret of
        None \<Rightarrow> None
      | Some key \<Rightarrow>
          if key = [] then None
          else
            let code' = normalizeTOTPCode code
            in if length code' \<noteq> totpDigits then None
               else totp_search mac key code' after (word_of_int now div totpPeriod) [- totpSkew .. totpSkew])"

definition IsHashedPassword :: "string \<Rightarrow> bool" where
  "IsHashedPassword stored = has_prefix stored ''$2''"

definition HashPassword :: "(string \<Rightarrow> string option) \<Rightarrow> string \<Rightarrow> string res" where
  "HashPassword hash plain = (case hash plain of None \<Rightarrow> Inl (EMsg ''bcrypt'') | Some h \<Rightarrow> Inr h)"

definition CheckPassword :: "(string \<Rightarrow> string \<Rightarrow> bool) \<Rightarrow> string \<Rightarrow> string \<Rightarrow> bool" where
  "CheckPassword matches plain stored =
     (if IsHashedPassword stored then matches stored plain else plain = stored)"

section \<open>Codes\<close>

lemma dt_offset_bound: "dt_offset digest \<le> 15"
proof -
  have "x AND 0x0F \<le> (0x0F :: 8 word)" for x by (rule word_and_le1)
  then have "unat (x AND 0x0F) \<le> unat (0x0F :: 8 word)" for x :: "8 word"
    by (simp only: word_le_nat_alt)
  then show ?thesis by (simp add: dt_offset_def)
qed

lemma totp_value_bound: "uint (x mod totpModulus) < 10 ^ 6"
proof -
  have "x mod totpModulus < totpModulus" by (rule word_mod_less_divisor) (simp add: totpModulus_def)
  then show ?thesis by (simp add: word_less_def totpModulus_def)
qed

lemma totpCodeAt_shape:
  "length (totpCodeAt mac key c) = totpDigits" "list_all is_digit (totpCodeAt mac key c)"
  using pad0_show_num [of "uint (x mod totpModulus)" 5 for x] totp_value_bound
  by (simp_all add: totpCodeAt_def totpDigits_def Let_def numeral_eq_Suc)

section \<open>The search over the steps\<close>

text \<open>The counter of a moment, as a number: also before the epoch it stays far below \<open>2 ^ 63\<close>.\<close>

definition totp_step :: "int \<Rightarrow> int" where
  "totp_step now = now mod 2 ^ 64 div 30"

lemma totp_step_range: "0 \<le> totp_step now \<and> totp_step now < 2 ^ 62"
proof -
  have "0 \<le> now mod 2 ^ 64" "now mod 2 ^ 64 < 2 ^ 64" by simp_all
  then show ?thesis unfolding totp_step_def by (auto simp: div_less_iff_less_mult)
qed

lemma totp_step_small: "0 \<le> now \<Longrightarrow> now < 2 ^ 63 \<Longrightarrow> totp_step now = now div 30"
  by (simp add: totp_step_def)

lemma uint_counter: "uint (word_of_int now div totpPeriod) = totp_step now"
  by (simp add: uint_div_distrib totp_step_def totpPeriod_def uint_word_of_int)

lemma word64_of_nonneg:
  assumes "0 \<le> x" and "x < 2 ^ 63"
  shows "uint (word_of_int x :: 64 word) = x" and "sint (word_of_int x :: 64 word) = x"
  using assms by (simp_all add: uint_word_of_int signed_of_int signed_take_bit_int_eq_self)

text \<open>What a counter has to satisfy to be accepted.\<close>

definition admissible :: "(string \<Rightarrow> string \<Rightarrow> string) \<Rightarrow> string \<Rightarrow> string \<Rightarrow> int \<Rightarrow> int \<Rightarrow> bool" where
  "admissible mac key code after m \<longleftrightarrow>
     0 \<le> m \<and> (0 < after \<longrightarrow> after < m) \<and> totpCodeAt mac key (word_of_int m) = code"

lemma totp_search_find:
  assumes "uint counter < 2 ^ 62" and "after < 2 ^ 63" and "set skews \<subseteq> {- 1, 0, 1}"
  shows "totp_search mac key code after counter skews =
    find (admissible mac key code after) (map (\<lambda>s. uint counter + s) skews)"
  using assms(3)
proof (induction skews)
  case (Cons s skews)
  have c0: "0 \<le> uint counter" by simp
  have sc: "sint counter = uint counter"
    using assms(1) word64_of_nonneg(2) [of "uint counter"] by simp
  have skip: "s < 0 \<and> counter < word_of_int (- s) \<longleftrightarrow> uint counter + s < 0"
  proof -
    consider "s = - 1" | "s = 0" | "s = 1" using Cons.prems by auto
    then show ?thesis
    proof cases
      case 1
      then show ?thesis using c0 by (auto simp: word_less_def)
    next
      case 3
      have "\<not> uint counter + 1 < 0" using c0 by linarith
      with 3 show ?thesis by simp
    qed simp
  qed
  show ?case
  proof (cases "uint counter + s < 0")
    case True
    then have "\<not> admissible mac key code after (uint counter + s)" by (simp add: admissible_def)
    with True skip Cons show ?thesis
      by (simp only: totp_search.simps list.map find.simps if_True if_False set_simps insert_subset)
  next
    case False
    then have m: "0 \<le> uint counter + s" "uint counter + s < 2 ^ 63" using assms(1) Cons.prems by auto
    have "word_of_int (uint counter + s) \<le> (word_of_int after :: 64 word) \<longleftrightarrow> uint counter + s \<le> after" if "0 < after"
      using that assms(2) word64_of_nonneg [OF m] word64_of_nonneg [of after] by (simp only: word_le_def)
    then show ?thesis
      using Cons skip False word64_of_nonneg(2) [OF m] by (auto simp: Let_def sc admissible_def not_le)
  qed
qed simp

lemma skews_eq: "[- totpSkew .. totpSkew] = [- 1, 0, 1]"
  by (simp add: totpSkew_def upto.simps)

text \<open>
  The whole validation over the integers: the first of the three counters around the present step that is admissible.
\<close>

definition totp_spec ::
  "(string \<Rightarrow> string) \<Rightarrow> (string \<Rightarrow> string \<Rightarrow> string) \<Rightarrow> string \<Rightarrow> string \<Rightarrow> int \<Rightarrow> int \<Rightarrow> int option" where
  "totp_spec upper mac secret code after k =
     (case decodeTOTPSecret upper secret of
        None \<Rightarrow> None
      | Some key \<Rightarrow>
          if key = [] then None else find (admissible mac key (normalizeTOTPCode code) after) [k - 1, k, k + 1])"

lemma find_admissible_none: "length code \<noteq> totpDigits \<Longrightarrow> find (admissible mac key code after) ms = None"
  using totpCodeAt_shape(1) by (auto simp: find_None_iff admissible_def)

lemma validateTOTPAt_spec:
  "after < 2 ^ 63 \<Longrightarrow> validateTOTPAt upper mac secret code after now = totp_spec upper mac secret code after (totp_step now)"
proof -
  assume a: "after < 2 ^ 63"
  have "totp_search mac key c after (word_of_int now div totpPeriod) [- 1, 0, 1] =
      find (admissible mac key c after) [totp_step now - 1, totp_step now, totp_step now + 1]" for key c
    using totp_step_range [of now] a by (subst totp_search_find) (simp_all add: uint_counter)
  note search = this
  show ?thesis
    unfolding validateTOTPAt_def totp_spec_def skews_eq Let_def search
    by (cases "decodeTOTPSecret upper secret"; cases "length (normalizeTOTPCode code) = totpDigits")
       (simp_all add: find_admissible_none del: find.simps)
qed

lemma totp_spec_SomeD:
  assumes "totp_spec upper mac secret code after k = Some n"
  shows "k - 1 \<le> n" "n \<le> k + 1" "0 \<le> n" "0 < after \<Longrightarrow> after < n"
    "\<exists>key. decodeTOTPSecret upper secret = Some key \<and> key \<noteq> [] \<and> totpCodeAt mac key (word_of_int n) = normalizeTOTPCode code"
proof -
  obtain key where key: "decodeTOTPSecret upper secret = Some key" "key \<noteq> []"
    and f: "find (admissible mac key (normalizeTOTPCode code) after) [k - 1, k, k + 1] = Some n"
    using assms by (auto simp: totp_spec_def split: option.splits if_splits)
  from f have n: "n \<in> set [k - 1, k, k + 1]" "admissible mac key (normalizeTOTPCode code) after n"
    unfolding find_Some_iff by (metis nth_mem)+
  then show "k - 1 \<le> n" "n \<le> k + 1" "0 \<le> n" "0 < after \<Longrightarrow> after < n"
    by (auto simp: admissible_def)
  show "\<exists>key. decodeTOTPSecret upper secret = Some key \<and> key \<noteq> [] \<and> totpCodeAt mac key (word_of_int n) = normalizeTOTPCode code"
    using key n by (auto simp: admissible_def)
qed

section \<open>Secrets\<close>

lemma map_ascii_upper_id: "(\<And>c. c \<in> set s \<Longrightarrow> \<not> (97 \<le> (of_char c :: nat) \<and> of_char c \<le> (122 :: nat))) \<Longrightarrow> map ascii_upper s = s"
  by (rule map_idI) (auto simp: ascii_upper_def Let_def)

lemma dropWhile_id: "(\<And>c. c \<in> set s \<Longrightarrow> \<not> P c) \<Longrightarrow> dropWhile P s = s"
  by (cases s) simp_all

lemma TrimRightEq_padding: "(\<And>c. c \<in> set s \<Longrightarrow> c \<noteq> CHR ''='') \<Longrightarrow> TrimRightEq (s @ replicate n (CHR ''='')) = s"
proof -
  assume a: "\<And>c. c \<in> set s \<Longrightarrow> c \<noteq> CHR ''=''"
  have "dropWhile (\<lambda>c. c = CHR ''='') (replicate n (CHR ''='') @ rev s) = dropWhile (\<lambda>c. c = CHR ''='') (rev s)"
    by (induction n) simp_all
  also have "\<dots> = rev s" by (rule dropWhile_id) (use a in auto)
  finally show ?thesis by (simp add: TrimRightEq_def)
qed

text \<open>A secret as it was handed out reads back however it is typed: lower case, in groups, padded.\<close>

lemma decodeTOTPSecret_typed:
  assumes "\<forall>c \<in> set typed. (of_char c :: nat) < 128"
    and "map ascii_upper (drop_separators typed) = base32_encode buf @ replicate n (CHR ''='')"
  shows "decodeTOTPSecret upper typed = Some buf"
proof -
  have "\<forall>c \<in> set (drop_separators typed). (of_char c :: nat) < 128"
    using assms(1) by (auto simp: drop_separators_def)
  then have "ToUpper upper (drop_separators typed) = base32_encode buf @ replicate n (CHR ''='')"
    using assms(2) by (simp add: ToUpper_def)
  moreover have "c \<noteq> CHR ''=''" if "c \<in> set (base32_encode buf)" for c
    using base32_encode_chars [OF that] by auto
  ultimately show ?thesis by (simp add: decodeTOTPSecret_def TrimRightEq_padding base32_round_trip)
qed

lemma base32_encode_plain:
  "map ascii_upper (drop_separators (base32_encode buf)) = base32_encode buf"
  "\<forall>c \<in> set (base32_encode buf). (of_char c :: nat) < 128"
proof -
  have "drop_separators (base32_encode buf) = base32_encode buf"
    unfolding drop_separators_def using base32_encode_chars by (intro filter_True) fastforce
  moreover have "map ascii_upper (base32_encode buf) = base32_encode buf"
    using base32_encode_chars by (intro map_ascii_upper_id) fastforce
  ultimately show "map ascii_upper (drop_separators (base32_encode buf)) = base32_encode buf" by simp
  show "\<forall>c \<in> set (base32_encode buf). (of_char c :: nat) < 128"
    using base32_encode_chars by fastforce
qed

lemma decodeTOTPSecret_plain: "decodeTOTPSecret upper (base32_encode buf) = Some buf"
  using decodeTOTPSecret_typed [of "base32_encode buf" buf 0] base32_encode_plain by simp

end
