(* ===== verification/Account.thy ===== *)
theory Account
  imports Totp
begin

text \<open>
  \<^verbatim>\<open>service/user.go\<close>: the accounts of the panel and their API tokens. The two tables are lists of rows in the order of their
  primary keys, so \<^verbatim>\<open>First\<close> is the first row that matches. The column of the replay counter can hold NULL (\<open>None\<close>) on rows
  older than the column: Go reads it as 0, but a comparison in SQL with it never holds. Which statements fail is the argument
  \<open>fails\<close>; the cryptography is the record \<open>auth_env\<close>; moments are arguments.
\<close>

record user =
  us_id :: nat
  us_username :: string
  us_password :: string
  us_last :: string
  us_secret :: string
  us_counter :: "int option"

record token =
  tk_id :: nat
  tk_desc :: string
  tk_token :: string
  tk_expiry :: int
  tk_user :: nat

record accounts =
  ac_users :: "user list"
  ac_tokens :: "token list"
  ac_next_user :: nat
  ac_next_token :: nat

record auth_env =
  ae_upper :: "string \<Rightarrow> string"
  ae_mac :: "string \<Rightarrow> string \<Rightarrow> string"
  ae_hash :: "string \<Rightarrow> string option"
  ae_matches :: "string \<Rightarrow> string \<Rightarrow> bool"
  ae_digest :: "string \<Rightarrow> string"

datatype acc_stmt = AQuery | ACounter | APassword | ALastLogin | ASave | ATwoFa | AList | ACreate | ADelete

definition user_counter :: "user \<Rightarrow> int" where
  "user_counter u = (case us_counter u of None \<Rightarrow> 0 | Some n \<Rightarrow> n)"

section \<open>Statements\<close>

definition first_user :: "(acc_stmt \<Rightarrow> bool) \<Rightarrow> (user \<Rightarrow> bool) \<Rightarrow> user list \<Rightarrow> user res" where
  "first_user fails P us =
     (if fails AQuery then Inl EDb else case find P us of None \<Rightarrow> Inl ENotFound | Some u \<Rightarrow> Inr u)"

definition named :: "string \<Rightarrow> user \<Rightarrow> bool" where
  "named n u \<longleftrightarrow> us_username u = n"

definition update_where :: "(user \<Rightarrow> bool) \<Rightarrow> (user \<Rightarrow> user) \<Rightarrow> user list \<Rightarrow> user list" where
  "update_where P f us = map (\<lambda>u. if P u then f u else u) us"

text \<open>\<^verbatim>\<open>db.Save\<close> writes every column of the row it is given: a counter read as 0 goes back as 0.\<close>

definition save_user :: "user \<Rightarrow> user list \<Rightarrow> user list" where
  "save_user u us =
     (let row = u\<lparr>us_counter := Some (user_counter u)\<rparr>
      in if us_id u \<in> us_id ` set us then update_where (\<lambda>v. us_id v = us_id u) (\<lambda>_. row) us else us @ [row])"

section \<open>Credentials\<close>

definition CredentialFingerprint :: "auth_env \<Rightarrow> (acc_stmt \<Rightarrow> bool) \<Rightarrow> string \<Rightarrow> user list \<Rightarrow> string" where
  "CredentialFingerprint e fails username us =
     (case first_user fails (named username) us of
        Inl _ \<Rightarrow> []
      | Inr u \<Rightarrow> ae_digest e (us_username u @ [CHR 0x00] @ us_password u))"

definition GetFirstUser :: "(acc_stmt \<Rightarrow> bool) \<Rightarrow> user list \<Rightarrow> user res" where
  "GetFirstUser fails us = first_user fails (\<lambda>_. True) us"

definition blank_user :: "nat \<Rightarrow> user" where
  "blank_user i = \<lparr>us_id = i, us_username = [], us_password = [], us_last = [], us_secret = [], us_counter = Some 0\<rparr>"

definition UpdateFirstUser :: "auth_env \<Rightarrow> (acc_stmt \<Rightarrow> bool) \<Rightarrow> string \<Rightarrow> string \<Rightarrow> accounts \<Rightarrow> accounts res" where
  "UpdateFirstUser e fails username password a =
     guard_err (username = []) (EMsg ''username can not be empty'')
     (guard_err (password = []) (EMsg ''password can not be empty'')
     (rbind (HashPassword (ae_hash e) password) (\<lambda>h.
        case first_user fails (\<lambda>_. True) (ac_users a) of
          Inl ENotFound \<Rightarrow>
            guard_err (fails ACreate) EDb
              (Inr (a\<lparr>ac_users := ac_users a @ [(blank_user (ac_next_user a))\<lparr>us_username := username, us_password := h\<rparr>],
                      ac_next_user := Suc (ac_next_user a)\<rparr>))
        | Inl err \<Rightarrow> Inl err
        | Inr u \<Rightarrow>
            guard_err (fails ASave) EDb
              (Inr (a\<lparr>ac_users := save_user (u\<lparr>us_username := username, us_password := h\<rparr>) (ac_users a)\<rparr>)))))"

section \<open>Signing in\<close>

datatype login_err = Rejected string | TwoFaRequired

text \<open>The half of \<^verbatim>\<open>CheckUser\<close> that reads: the row and, with a second factor, the counter its code matched.\<close>

definition check_credentials ::
  "auth_env \<Rightarrow> (acc_stmt \<Rightarrow> bool) \<Rightarrow> int \<Rightarrow> string \<Rightarrow> string \<Rightarrow> string \<Rightarrow> string \<Rightarrow> user list \<Rightarrow> login_err + (user \<times> int option)" where
  "check_credentials e fails now username password code ip us =
     (case first_user fails (named username) us of
        Inl _ \<Rightarrow> Inl (Rejected ip)
      | Inr u \<Rightarrow>
          if \<not> CheckPassword (ae_matches e) password (us_password u) then Inl (Rejected ip)
          else if us_secret u \<noteq> [] then
            if TrimSpace code = [] then Inl TwoFaRequired
            else
              (case validateTOTPAt (ae_upper e) (ae_mac e) (us_secret u) code (user_counter u) now of
                 None \<Rightarrow> Inl (Rejected ip)
               | Some counter \<Rightarrow> Inr (u, Some counter))
          else Inr (u, None))"

text \<open>The conditional update that burns a code; whether a row was affected.\<close>

definition burnable :: "nat \<Rightarrow> int \<Rightarrow> user \<Rightarrow> bool" where
  "burnable i c u \<longleftrightarrow> us_id u = i \<and> (case us_counter u of None \<Rightarrow> False | Some k \<Rightarrow> k < c)"

definition burn_counter :: "nat \<Rightarrow> int \<Rightarrow> user list \<Rightarrow> bool \<times> user list" where
  "burn_counter i c us = (list_ex (burnable i c) us, update_where (burnable i c) (us_counter_update (\<lambda>_. Some c)) us)"

text \<open>What follows once the login is granted: a legacy plain password is hashed, the time is noted.\<close>

definition upgrade_password ::
  "auth_env \<Rightarrow> (acc_stmt \<Rightarrow> bool) \<Rightarrow> string \<Rightarrow> user \<Rightarrow> user list \<Rightarrow> user \<times> user list" where
  "upgrade_password e fails password u us =
     (if IsHashedPassword (us_password u) then (u, us)
      else
        case HashPassword (ae_hash e) password of
          Inl _ \<Rightarrow> (u, us)
        | Inr h \<Rightarrow>
            if fails APassword then (u, us)
            else (u\<lparr>us_password := h\<rparr>, update_where (\<lambda>v. us_id v = us_id u) (us_password_update (\<lambda>_. h)) us))"

definition note_login :: "(acc_stmt \<Rightarrow> bool) \<Rightarrow> string \<Rightarrow> string \<Rightarrow> user list \<Rightarrow> user list" where
  "note_login fails username txt us =
     (if fails ALastLogin then us else update_where (named username) (us_last_update (\<lambda>_. txt)) us)"

definition finish_login ::
  "auth_env \<Rightarrow> (acc_stmt \<Rightarrow> bool) \<Rightarrow> string \<Rightarrow> string \<Rightarrow> string \<Rightarrow> string \<Rightarrow> user \<Rightarrow> user list \<Rightarrow> user \<times> user list" where
  "finish_login e fails stamp username password ip u us =
     (let (u', us') = upgrade_password e fails password u us
      in (u', note_login fails username (stamp @ '' '' @ ip) us'))"

definition CheckUser ::
  "auth_env \<Rightarrow> (acc_stmt \<Rightarrow> bool) \<Rightarrow> int \<Rightarrow> string \<Rightarrow> string \<Rightarrow> string \<Rightarrow> string \<Rightarrow> string \<Rightarrow> user list \<Rightarrow>
     (login_err + user) \<times> user list" where
  "CheckUser e fails now stamp username password code ip us =
     (case check_credentials e fails now username password code ip us of
        Inl err \<Rightarrow> (Inl err, us)
      | Inr (u, oc) \<Rightarrow>
          (case (case oc of
                   None \<Rightarrow> Some us
                 | Some c \<Rightarrow>
                     if fails ACounter then None
                     else (case burn_counter (us_id u) c us of (True, us') \<Rightarrow> Some us' | (False, _) \<Rightarrow> None)) of
             None \<Rightarrow> (Inl (Rejected ip), us)
           | Some us' \<Rightarrow> (case finish_login e fails stamp username password ip u us' of (u', us'') \<Rightarrow> (Inr u', us''))))"

definition Login ::
  "auth_env \<Rightarrow> (acc_stmt \<Rightarrow> bool) \<Rightarrow> int \<Rightarrow> string \<Rightarrow> string \<Rightarrow> string \<Rightarrow> string \<Rightarrow> string \<Rightarrow> user list \<Rightarrow>
     (login_err + string) \<times> user list" where
  "Login e fails now stamp username password code ip us =
     (case CheckUser e fails now stamp username password code ip us of
        (Inl err, us') \<Rightarrow> (Inl err, us')
      | (Inr u, us') \<Rightarrow> (Inr (us_username u), us'))"

section \<open>The account of the caller\<close>

text \<open>What the list of accounts shows: that there is a second factor, never its secret.\<close>

record user_view =
  uv_id :: nat
  uv_username :: string
  uv_last :: string
  uv_two_fa :: bool

definition GetUsers :: "(acc_stmt \<Rightarrow> bool) \<Rightarrow> user list \<Rightarrow> user_view list res" where
  "GetUsers fails us =
     guard_err (fails AList) EDb
       (Inr (map (\<lambda>u. \<lparr>uv_id = us_id u, uv_username = us_username u, uv_last = us_last u, uv_two_fa = us_secret u \<noteq> []\<rparr>) us))"

text \<open>\<^verbatim>\<open>ChangePass\<close> up to the write: the row to save, computed from the row as it was read.\<close>

definition change_row :: "auth_env \<Rightarrow> (acc_stmt \<Rightarrow> bool) \<Rightarrow> string \<Rightarrow> string \<Rightarrow> string \<Rightarrow> string \<Rightarrow> user list \<Rightarrow> user res" where
  "change_row e fails loginUser oldPass newUser newPass us =
     guard_err (loginUser = []) (EMsg ''not logged in'')
     (guard_err (newUser = []) (EMsg ''username can not be empty'')
     (guard_err (newPass = []) (EMsg ''password can not be empty'')
     (rbind (first_user fails (named loginUser) us) (\<lambda>u.
        guard_err (\<not> CheckPassword (ae_matches e) oldPass (us_password u)) (EMsg ''wrong password'')
        (rbind (HashPassword (ae_hash e) newPass) (\<lambda>h.
           Inr (u\<lparr>us_username := newUser, us_password := h\<rparr>)))))))"

definition ChangePass ::
  "auth_env \<Rightarrow> (acc_stmt \<Rightarrow> bool) \<Rightarrow> string \<Rightarrow> string \<Rightarrow> string \<Rightarrow> string \<Rightarrow> user list \<Rightarrow> user list res" where
  "ChangePass e fails loginUser oldPass newUser newPass us =
     rbind (change_row e fails loginUser oldPass newUser newPass us) (\<lambda>row.
       guard_err (fails ASave) EDb (Inr (save_user row us)))"

definition set_two_fa :: "nat \<Rightarrow> string \<Rightarrow> int \<Rightarrow> user list \<Rightarrow> user list" where
  "set_two_fa i secret counter us =
     update_where (\<lambda>v. us_id v = i) (\<lambda>v. v\<lparr>us_secret := secret, us_counter := Some counter\<rparr>) us"

definition EnableTwoFa ::
  "auth_env \<Rightarrow> (acc_stmt \<Rightarrow> bool) \<Rightarrow> int \<Rightarrow> string \<Rightarrow> string \<Rightarrow> string \<Rightarrow> string \<Rightarrow> user list \<Rightarrow> user list res" where
  "EnableTwoFa e fails now username password secret code us =
     (let secret' = TrimSpace secret
      in guard_err (secret' = []) (EMsg ''no secret to enable'')
         (rbind (first_user fails (named username) us) (\<lambda>u.
            guard_err (\<not> CheckPassword (ae_matches e) password (us_password u)) (EMsg ''wrong password'')
            (guard_err (us_secret u \<noteq> [])
               (EMsg ''two-factor authentication is already enabled; disable it first'')
               (case validateTOTPAt (ae_upper e) (ae_mac e) secret' code 0 now of
                  None \<Rightarrow> Inl (EMsg ''wrong code'')
                | Some counter \<Rightarrow>
                    guard_err (fails ATwoFa) EDb (Inr (set_two_fa (us_id u) secret' counter us)))))))"

definition ClearFirstUserTwoFa :: "(acc_stmt \<Rightarrow> bool) \<Rightarrow> user list \<Rightarrow> user list res" where
  "ClearFirstUserTwoFa fails us =
     rbind (first_user fails (\<lambda>_. True) us) (\<lambda>u.
       guard_err (fails ATwoFa) EDb (Inr (set_two_fa (us_id u) [] 0 us)))"

definition DisableTwoFa :: "auth_env \<Rightarrow> (acc_stmt \<Rightarrow> bool) \<Rightarrow> string \<Rightarrow> string \<Rightarrow> user list \<Rightarrow> user list res" where
  "DisableTwoFa e fails username password us =
     rbind (first_user fails (named username) us) (\<lambda>u.
       guard_err (\<not> CheckPassword (ae_matches e) password (us_password u)) (EMsg ''wrong password'')
       (guard_err (fails ATwoFa) EDb (Inr (set_two_fa (us_id u) [] 0 us))))"

section \<open>API tokens\<close>

record mem_token =
  mt_token :: string
  mt_expiry :: int
  mt_username :: string

definition user_by_id :: "nat \<Rightarrow> user list \<Rightarrow> user option" where
  "user_by_id i us = find (\<lambda>u. us_id u = i) us"

definition token_live :: "int \<Rightarrow> token \<Rightarrow> bool" where
  "token_live now t \<longleftrightarrow> tk_expiry t = 0 \<or> tk_expiry t > now"

text \<open>
  \<^verbatim>\<open>LoadTokens\<close>. A token whose owner has no row has a nil \<^verbatim>\<open>User\<close>, and reading its name panics: the outer \<open>None\<close>.
\<close>

definition LoadTokens :: "(acc_stmt \<Rightarrow> bool) \<Rightarrow> int \<Rightarrow> accounts \<Rightarrow> mem_token list res option" where
  "LoadTokens fails now a =
     (if fails AList then Some (Inl EDb)
      else
        let live = filter (token_live now) (ac_tokens a)
        in if list_all (\<lambda>t. user_by_id (tk_user t) (ac_users a) \<noteq> None) live then
             Some (Inr (map (\<lambda>t. \<lparr>mt_token = tk_token t, mt_expiry = tk_expiry t,
                                  mt_username = us_username (the (user_by_id (tk_user t) (ac_users a)))\<rparr>) live))
           else None)"

text \<open>The sub-select for the id of a name: without a row it is NULL, and nothing equals it.\<close>

definition id_of_name :: "string \<Rightarrow> user list \<Rightarrow> nat option" where
  "id_of_name n us = map_option us_id (find (named n) us)"

definition token_of :: "string \<Rightarrow> accounts \<Rightarrow> token \<Rightarrow> bool" where
  "token_of n a t \<longleftrightarrow> id_of_name n (ac_users a) = Some (tk_user t)"

definition GetUserTokens :: "(acc_stmt \<Rightarrow> bool) \<Rightarrow> string \<Rightarrow> accounts \<Rightarrow> token list res" where
  "GetUserTokens fails username a =
     guard_err (fails AList) EDb (Inr (map (\<lambda>t. t\<lparr>tk_token := ''****''\<rparr>) (filter (token_of username a) (ac_tokens a))))"

text \<open>
  \<^verbatim>\<open>AddToken\<close>. \<open>Scan\<close> into a number does not report a missing row: the id stays 0. \<open>rnd\<close> is what \<^verbatim>\<open>common.Random(32)\<close> drew.
\<close>

definition AddToken ::
  "(acc_stmt \<Rightarrow> bool) \<Rightarrow> int \<Rightarrow> string \<Rightarrow> string \<Rightarrow> int \<Rightarrow> string \<Rightarrow> accounts \<Rightarrow> (string \<times> accounts) res" where
  "AddToken fails now rnd username expiry desc a =
     guard_err (fails AQuery) EDb
       (let uid = (case id_of_name username (ac_users a) of None \<Rightarrow> 0 | Some i \<Rightarrow> i);
            expiry' = (if expiry > 0 then i64 (expiry * 86400 + now) else expiry);
            t = \<lparr>tk_id = ac_next_token a, tk_desc = desc, tk_token = rnd, tk_expiry = expiry', tk_user = uid\<rparr>
        in guard_err (fails ACreate) EDb
             (Inr (rnd, a\<lparr>ac_tokens := ac_tokens a @ [t], ac_next_token := Suc (ac_next_token a)\<rparr>)))"

text \<open>The id is a text of the form; \<open>same\<close> is SQLite's comparison of an integer column with it.\<close>

definition DeleteToken ::
  "(nat \<Rightarrow> string \<Rightarrow> bool) \<Rightarrow> (acc_stmt \<Rightarrow> bool) \<Rightarrow> string \<Rightarrow> string \<Rightarrow> accounts \<Rightarrow> accounts res" where
  "DeleteToken same fails loginUser i a =
     guard_err (loginUser = []) (EMsg ''not logged in'')
     (guard_err (fails ADelete) EDb
       (let hit = (\<lambda>t. same (tk_id t) i \<and> token_of loginUser a t)
        in guard_err (\<not> list_ex hit (ac_tokens a)) (EMsg ''no such token'')
             (Inr (a\<lparr>ac_tokens := filter (\<lambda>t. \<not> hit t) (ac_tokens a)\<rparr>))))"

end
