(* ===== verification/AccountInv.thy ===== *)
theory AccountInv
  imports Account
begin

text \<open>
  Signing in under concurrency. Requests interleave between the statements of the database, so a login can sit between
  matching a code and burning its counter, and a change of password between reading the row and saving it. The step relation
  has those halves as separate steps, in any number and order; the log records (newest first) the accepted counters and the
  writes that lower a counter.
\<close>

section \<open>Rows under updates\<close>

lemma update_where_Nil [simp]: "update_where P f [] = []"
  by (simp add: update_where_def)

lemma update_where_ids: "(\<And>u. us_id (f u) = us_id u) \<Longrightarrow> map us_id (update_where P f us) = map us_id us"
  by (simp add: update_where_def)

lemma update_where_mem: "u \<in> set us \<Longrightarrow> (if P u then f u else u) \<in> set (update_where P f us)"
  by (auto simp: update_where_def)

lemma save_user_ids:
  "map us_id (save_user u us) = (if us_id u \<in> us_id ` set us then map us_id us else map us_id us @ [us_id u])"
  by (auto simp: save_user_def update_where_def)

lemma set_two_fa_ids: "map us_id (set_two_fa i s c us) = map us_id us"
  by (simp add: set_two_fa_def update_where_ids)

lemma burn_ids: "map us_id (snd (burn_counter i c us)) = map us_id us"
  by (simp add: burn_counter_def update_where_ids)

lemma finish_login_ids: "map us_id (snd (finish_login e fails stamp n p ip u us)) = map us_id us"
  by (simp add: finish_login_def upgrade_password_def note_login_def update_where_ids split: sum.splits prod.splits)

text \<open>The counter of an account reached at least \<open>c\<close>.\<close>

definition reached :: "nat \<Rightarrow> int \<Rightarrow> user list \<Rightarrow> bool" where
  "reached i c us \<longleftrightarrow> (\<exists>u \<in> set us. us_id u = i \<and> (\<exists>k. us_counter u = Some k \<and> c \<le> k))"

lemma reached_update:
  assumes "reached i c us" and "\<And>u k. P u \<Longrightarrow> us_id u = i \<Longrightarrow> us_counter u = Some k \<Longrightarrow> c \<le> k \<Longrightarrow>
      us_id (f u) = i \<and> (\<exists>k'. us_counter (f u) = Some k' \<and> c \<le> k')"
  shows "reached i c (update_where P f us)"
proof -
  obtain u k where u: "u \<in> set us" "us_id u = i" "us_counter u = Some k" "c \<le> k"
    using assms(1) by (auto simp: reached_def)
  from update_where_mem [OF u(1), of P f] assms(2) [OF _ u(2,3,4)] u show ?thesis
    unfolding reached_def by (cases "P u") (auto intro!: bexI)
qed

lemma reached_finish: "reached i c us \<Longrightarrow> reached i c (snd (finish_login e fails stamp n p ip u us))"
  by (auto simp: finish_login_def upgrade_password_def note_login_def reached_update split: sum.splits prod.splits)

lemma reached_burn_other: "reached i c us \<Longrightarrow> reached i c (snd (burn_counter j d us))"
  by (auto simp: burn_counter_def burnable_def intro!: reached_update)

lemma reached_burnt: "fst (burn_counter i c us) \<Longrightarrow> reached i c (snd (burn_counter i c us))"
proof -
  assume "fst (burn_counter i c us)"
  then obtain u where "u \<in> set us" "burnable i c u" by (auto simp: burn_counter_def list_ex_iff)
  then have "u\<lparr>us_counter := Some c\<rparr> \<in> set (snd (burn_counter i c us))"
    using update_where_mem [of u us "burnable i c" "us_counter_update (\<lambda>_. Some c)"] by (simp add: burn_counter_def)
  then show ?thesis using \<open>burnable i c u\<close> unfolding reached_def
    by (intro bexI [of _ "u\<lparr>us_counter := Some c\<rparr>"]) (auto simp: burnable_def)
qed

text \<open>Only a counter above everything accepted so far can be burnt.\<close>

lemma burn_above:
  assumes "distinct (map us_id us)" and "fst (burn_counter i c us)" and "reached i d us"
  shows "d < c"
proof -
  obtain u where u: "u \<in> set us" "burnable i c u" using assms(2) by (auto simp: burn_counter_def list_ex_iff)
  obtain v k where v: "v \<in> set us" "us_id v = i" "us_counter v = Some k" "d \<le> k"
    using assms(3) by (auto simp: reached_def)
  have "u = v" using assms(1) u v by (auto simp: burnable_def distinct_map dest: inj_onD)
  with u v show ?thesis by (auto simp: burnable_def)
qed

lemma reached_save:
  assumes "reached i c us" and "\<not> list_ex (\<lambda>v. us_id v = us_id row \<and> user_counter row < user_counter v) us"
  shows "reached i c (save_user row us)"
proof (cases "us_id row \<in> us_id ` set us")
  case True
  obtain v k where v: "v \<in> set us" "us_id v = i" "us_counter v = Some k" "c \<le> k"
    using assms(1) by (auto simp: reached_def)
  have "c \<le> user_counter row" if "us_id row = i"
    using assms(2) v that by (auto simp: list_ex_iff user_counter_def)
  with True assms(1) show ?thesis
    by (auto simp: save_user_def Let_def intro!: reached_update)
qed (use assms(1) in \<open>auto simp: save_user_def reached_def\<close>)

section \<open>Interleaved requests\<close>

datatype acc_event = Accepted nat int | Reset nat | Rewrote nat

record acc_sys =
  sy_users :: "user list"
  sy_logins :: "(user \<times> int) list"
  sy_changes :: "user list"
  sy_log :: "acc_event list"

inductive acc_step :: "auth_env \<Rightarrow> acc_sys \<Rightarrow> acc_sys \<Rightarrow> bool" for e :: auth_env where
  match_code:
    "check_credentials e fails now name pass code ip (sy_users s) = Inr (u, Some c) \<Longrightarrow>
     acc_step e s (s\<lparr>sy_logins := (u, c) # sy_logins s\<rparr>)"
| burn:
    "(u, c) \<in> set (sy_logins s) \<Longrightarrow> burn_counter (us_id u) c (sy_users s) = (ok, us') \<Longrightarrow>
     acc_step e s (s\<lparr>sy_users := us', sy_logins := remove1 (u, c) (sy_logins s),
       sy_log := (if ok then Accepted (us_id u) c # sy_log s else sy_log s)\<rparr>)"
| finish:
    "acc_step e s (s\<lparr>sy_users := snd (finish_login e fails stamp name pass ip u (sy_users s))\<rparr>)"
| change_read:
    "change_row e fails name old new pass (sy_users s) = Inr row \<Longrightarrow>
     acc_step e s (s\<lparr>sy_changes := row # sy_changes s\<rparr>)"
| change_save:
    "row \<in> set (sy_changes s) \<Longrightarrow>
     acc_step e s (s\<lparr>sy_users := save_user row (sy_users s), sy_changes := remove1 row (sy_changes s),
       sy_log := (if list_ex (\<lambda>v. us_id v = us_id row \<and> user_counter row < user_counter v) (sy_users s)
                  then Rewrote (us_id row) # sy_log s else sy_log s)\<rparr>)"
| two_fa:
    "acc_step e s (s\<lparr>sy_users := set_two_fa i secret c (sy_users s), sy_log := Reset i # sy_log s\<rparr>)"

inductive acc_reach :: "auth_env \<Rightarrow> user list \<Rightarrow> acc_sys \<Rightarrow> bool" for e :: auth_env and us :: "user list" where
  start: "acc_reach e us \<lparr>sy_users = us, sy_logins = [], sy_changes = [], sy_log = []\<rparr>"
| step: "acc_reach e us s \<Longrightarrow> acc_step e s t \<Longrightarrow> acc_reach e us t"

text \<open>The writes behind \<open>two_fa\<close> are those of the three operations on the second factor.\<close>

lemma two_fa_writes:
  "EnableTwoFa e fails now name pass secret code us = Inr us' \<Longrightarrow> \<exists>i s c. us' = set_two_fa i s c us"
  "DisableTwoFa e fails name pass us = Inr us' \<Longrightarrow> \<exists>i. us' = set_two_fa i [] 0 us"
  "ClearFirstUserTwoFa fails us = Inr us' \<Longrightarrow> \<exists>i. us' = set_two_fa i [] 0 us"
  by (auto simp: EnableTwoFa_def DisableTwoFa_def ClearFirstUserTwoFa_def Let_def res_simps split: option.splits)

section \<open>No code twice\<close>

fun recent :: "nat \<Rightarrow> acc_event list \<Rightarrow> int set" where
  "recent i [] = {}"
| "recent i (Accepted j c # l) = (if j = i then insert c (recent i l) else recent i l)"
| "recent i (Reset j # l) = (if j = i then {} else recent i l)"
| "recent i (Rewrote j # l) = (if j = i then {} else recent i l)"

fun replay_free :: "acc_event list \<Rightarrow> bool" where
  "replay_free [] = True"
| "replay_free (Accepted i c # l) = ((\<forall>d \<in> recent i l. d < c) \<and> replay_free l)"
| "replay_free (_ # l) = replay_free l"

definition acc_inv :: "acc_sys \<Rightarrow> bool" where
  "acc_inv s \<longleftrightarrow> distinct (map us_id (sy_users s)) \<and> replay_free (sy_log s) \<and>
     (\<forall>i. \<forall>c \<in> recent i (sy_log s). reached i c (sy_users s))"

lemma recent_append:
  "Reset i \<notin> set ys \<Longrightarrow> Rewrote i \<notin> set ys \<Longrightarrow> recent i zs \<subseteq> recent i (ys @ zs)"
proof (induction ys)
  case (Cons y ys)
  then show ?case by (cases y) auto
qed simp

lemma replay_free_between:
  assumes "replay_free (xs @ Accepted i c # ys @ Accepted i d # zs)" and "Reset i \<notin> set ys" and "Rewrote i \<notin> set ys"
  shows "d < c"
proof -
  have "replay_free (l1 @ l2) \<Longrightarrow> replay_free l2" for l1 l2
  proof (induction l1)
    case (Cons a l1)
    then show ?case by (cases a) auto
  qed simp
  with assms(1) have "\<forall>d \<in> recent i (ys @ Accepted i d # zs). d < c" by fastforce
  moreover have "d \<in> recent i (ys @ Accepted i d # zs)" using recent_append [OF assms(2,3)] by fastforce
  ultimately show ?thesis by blast
qed

lemma acc_inv_step:
  assumes "acc_step e s t" and "acc_inv s"
  shows "acc_inv t"
  using assms
proof cases
  case (burn u c ok us')
  note inv = assms(2) [unfolded acc_inv_def]
  have us': "us' = snd (burn_counter (us_id u) c (sy_users s))" and ok: "ok = fst (burn_counter (us_id u) c (sy_users s))"
    using burn by simp_all
  have "reached i d us'" if "d \<in> recent i (sy_log s)" for i d
    using inv that by (simp add: us' reached_burn_other)
  moreover have "reached (us_id u) c us'" if ok using reached_burnt that ok us' by simp
  moreover have "\<forall>d \<in> recent (us_id u) (sy_log s). d < c" if ok
    using inv burn_above that ok by blast
  moreover have "distinct (map us_id us')" using inv by (simp add: us' burn_ids)
  ultimately show ?thesis using inv burn by (auto simp: acc_inv_def)
next
  case (change_save row)
  note inv = assms(2) [unfolded acc_inv_def]
  define low where "low = list_ex (\<lambda>v. us_id v = us_id row \<and> user_counter row < user_counter v) (sy_users s)"
  have "distinct (map us_id (save_user row (sy_users s)))" using inv by (auto simp: save_user_ids)
  moreover have "reached i c (save_user row (sy_users s))" if "c \<in> recent i (sy_log s)" "\<not> low \<or> i \<noteq> us_id row" for i c
  proof (cases low)
    case False
    then show ?thesis using inv that reached_save by (simp add: low_def)
  next
    case True
    with that(2) have "i \<noteq> us_id row" by simp
    with inv that(1) show ?thesis by (auto simp: save_user_def Let_def reached_def intro!: reached_update [unfolded reached_def])
  qed
  ultimately show ?thesis using inv change_save by (auto simp: acc_inv_def low_def [symmetric] split: if_splits)
next
  case (two_fa i secret c)
  have "reached j d (set_two_fa i secret c (sy_users s))" if "reached j d (sy_users s)" "i \<noteq> j" for j d
    unfolding set_two_fa_def by (rule reached_update [OF that(1)]) (use that(2) in auto)
  then show ?thesis using assms(2) two_fa by (auto simp: acc_inv_def set_two_fa_ids)
qed (auto simp: acc_inv_def finish_login_ids reached_finish)

lemma acc_reach_inv: "acc_reach e us s \<Longrightarrow> distinct (map us_id us) \<Longrightarrow> acc_inv s"
  by (induction rule: acc_reach.induct) (auto simp: acc_inv_def [of "acc_sys.make _ _ _ _"] acc_inv_step, simp add: acc_inv_def)

end
