(* ===== verification/UrlParse.thy ===== *)
theory UrlParse
  imports UrlText
begin

text \<open>
  \<^verbatim>\<open>url.Parse\<close>, \<^verbatim>\<open>URL.String\<close> and \<^verbatim>\<open>url.ParseQuery\<close> of Go's library, as the same-origin check and the share links use them,
  and what a text put together from a scheme, credentials, a host and a query parses to.
\<close>

section \<open>Cutting texts\<close>

definition cut :: "char \<Rightarrow> string \<Rightarrow> string \<times> string option" where
  "cut c s = (takeWhile (\<lambda>d. d \<noteq> c) s, case dropWhile (\<lambda>d. d \<noteq> c) s of [] \<Rightarrow> None | _ # t \<Rightarrow> Some t)"

definition cut_last :: "char \<Rightarrow> string \<Rightarrow> (string \<times> string) option" where
  "cut_last c s = (case last_byte c s of None \<Rightarrow> None | Some i \<Rightarrow> Some (take i s, drop (Suc i) s))"

text \<open>\<^verbatim>\<open>strings.Split\<close> at a character.\<close>

fun split_on :: "char \<Rightarrow> string \<Rightarrow> string list" where
  "split_on c [] = [[]]"
| "split_on c (d # s) =
     (if d = c then [] # split_on c s
      else case split_on c s of [] \<Rightarrow> [[d]] | p # ps \<Rightarrow> (d # p) # ps)"

fun join_with :: "string \<Rightarrow> string list \<Rightarrow> string" where
  "join_with sep [] = []"
| "join_with sep [p] = p"
| "join_with sep (p # q # ps) = p @ sep @ join_with sep (q # ps)"

lemma cut_absent: "c \<notin> set s \<Longrightarrow> cut c s = (s, None)"
proof -
  assume a: "c \<notin> set s"
  then have "takeWhile (\<lambda>d. d \<noteq> c) s = s" by (auto simp: takeWhile_eq_all_conv)
  moreover have "dropWhile (\<lambda>d. d \<noteq> c) s = []" using a by (auto simp: dropWhile_eq_Nil_conv)
  ultimately show ?thesis unfolding cut_def by (simp only: list.case)
qed

lemma cut_present: "c \<notin> set s \<Longrightarrow> cut c (s @ c # t) = (s, Some t)"
proof -
  assume a: "c \<notin> set s"
  then have "\<And>d. d \<in> set s \<Longrightarrow> d \<noteq> c" by auto
  then have "takeWhile (\<lambda>d. d \<noteq> c) (s @ c # t) = s" "dropWhile (\<lambda>d. d \<noteq> c) (s @ c # t) = c # t"
    by (simp_all add: takeWhile_append2 dropWhile_append2)
  then show ?thesis by (simp add: cut_def)
qed

lemma last_byte_None: "last_byte c s = None \<longleftrightarrow> c \<notin> set s"
  by (induction s) (auto split: option.splits)

lemma last_byte_append: "c \<notin> set t \<Longrightarrow> last_byte c (s @ c # t) = Some (length s)"
proof (induction s)
  case Nil
  then have "last_byte c t = None" by (simp add: last_byte_None)
  then show ?case by simp
qed simp

lemma index_byte_append_fresh: "c \<notin> set s \<Longrightarrow> index_byte c (s @ c # t) = Some (length s)"
  by (induction s) auto

lemma cut_last_present: "c \<notin> set t \<Longrightarrow> cut_last c (s @ c # t) = Some (s, t)"
  by (simp add: cut_last_def last_byte_append)

lemma cut_last_absent: "c \<notin> set s \<Longrightarrow> cut_last c s = None"
  using last_byte_None [of c s] by (simp add: cut_last_def)

lemma split_on_ne [simp]: "split_on c s \<noteq> []"
  by (induction s) (auto split: list.splits)

lemma split_on_absent: "c \<notin> set s \<Longrightarrow> split_on c s = [s]"
  by (induction s) auto

lemma split_on_append: "c \<notin> set s \<Longrightarrow> split_on c (s @ c # t) = s # split_on c t"
  by (induction s) auto

lemma join_with_Cons: "ps \<noteq> [] \<Longrightarrow> join_with sep (p # ps) = p @ sep @ join_with sep ps"
  by (cases ps) simp_all

lemma split_on_join:
  "ps \<noteq> [] \<Longrightarrow> (\<And>p. p \<in> set ps \<Longrightarrow> c \<notin> set p) \<Longrightarrow> split_on c (join_with [c] ps) = ps"
proof (induction ps)
  case (Cons p ps)
  then show ?case by (cases "ps = []") (simp_all add: split_on_absent split_on_append join_with_Cons)
qed simp

lemma join_split: "join_with [c] (split_on c s) = s"
proof (induction s)
  case (Cons d s)
  obtain p ps where p: "split_on c s = p # ps" using split_on_ne by (cases "split_on c s") auto
  with Cons show ?case by (cases ps) (auto simp: join_with_Cons)
qed simp

section \<open>Parsing\<close>

record url =
  ur_scheme :: string
  ur_opaque :: string
  ur_user :: "(string \<times> string option) option"
  ur_host :: string
  ur_path :: string
  ur_raw_path :: string
  ur_omit :: bool
  ur_force :: bool
  ur_query :: string
  ur_fragment :: string
  ur_raw_fragment :: string

definition empty_url :: url where
  "empty_url = \<lparr>ur_scheme = [], ur_opaque = [], ur_user = None, ur_host = [], ur_path = [], ur_raw_path = [],
     ur_omit = False, ur_force = False, ur_query = [], ur_fragment = [], ur_raw_fragment = []\<rparr>"

definition is_ctl :: "char \<Rightarrow> bool" where
  "is_ctl c \<longleftrightarrow> (of_char c :: nat) < 32 \<or> (of_char c :: nat) = 127"

definition is_letter :: "char \<Rightarrow> bool" where
  "is_letter c = (let n = of_char c :: nat in 65 \<le> n \<and> n \<le> 90 \<or> 97 \<le> n \<and> n \<le> 122)"

text \<open>\<^verbatim>\<open>getScheme\<close>: none for a text that starts with a colon, otherwise the scheme (possibly empty) and the rest.\<close>

fun scheme_end :: "string \<Rightarrow> nat \<Rightarrow> nat option" where
  "scheme_end [] i = None"
| "scheme_end (c # s) i =
     (if is_letter c then scheme_end s (Suc i)
      else if is_digit c \<or> c \<in> set ''+-.'' then (if i = 0 then None else scheme_end s (Suc i))
      else if c = CHR '':'' then Some i else None)"

definition getScheme :: "string \<Rightarrow> (string \<times> string) option" where
  "getScheme s =
     (case scheme_end s 0 of
        None \<Rightarrow> Some ([], s)
      | Some i \<Rightarrow> if i = 0 then None else Some (take i s, drop (Suc i) s))"

definition valid_userinfo :: "string \<Rightarrow> bool" where
  "valid_userinfo s \<longleftrightarrow> (\<forall>c \<in> set s. is_alnum c \<or> c \<in> set (CHR 0x27 # ''-._:~!$&()*+,;=%@''))"

definition parse_user :: "string \<Rightarrow> (string \<times> string option) option" where
  "parse_user s =
     (if \<not> valid_userinfo s then None
      else
        case cut CHR '':'' s of
          (n, None) \<Rightarrow> map_option (\<lambda>n. (n, None)) (unescape UserPassword n)
        | (n, Some p) \<Rightarrow>
            (case (unescape UserPassword n, unescape UserPassword p) of
               (Some n', Some p') \<Rightarrow> Some (n', Some p')
             | _ \<Rightarrow> None))"

definition valid_port :: "string \<Rightarrow> bool" where
  "valid_port s = (case s of [] \<Rightarrow> True | c # t \<Rightarrow> c = CHR '':'' \<and> list_all is_digit t)"

text \<open>The address between brackets has to be of version 6; the escape \<open>%25\<close> starts its zone.\<close>

definition unescape_literal :: "string \<Rightarrow> string option" where
  "unescape_literal h =
     (case index_of h ''%25'' of
        None \<Rightarrow> unescape HostMode h
      | Some z \<Rightarrow>
          (case (unescape HostMode (take z h), unescape ZoneMode (drop z h)) of
             (Some a, Some b) \<Rightarrow> Some (a @ b)
           | _ \<Rightarrow> None))"

definition parse_host :: "string \<Rightarrow> string option" where
  "parse_host h =
     (case last_byte CHR ''['' h of
        Some i \<Rightarrow>
          (case last_byte CHR '']'' h of
             None \<Rightarrow> None
           | Some j \<Rightarrow>
               if \<not> valid_port (drop (Suc j) h) then None
               else
                 (case (unescape_literal (take (j - Suc i) (drop (Suc i) h)), unescape HostMode (drop (Suc j) h)) of
                    (Some a, Some p) \<Rightarrow>
                      (case ParseAddr a of
                         Some (V6 w z) \<Rightarrow> Some (''['' @ a @ '']'' @ p)
                       | _ \<Rightarrow> None)
                  | _ \<Rightarrow> None))
      | None \<Rightarrow>
          (case index_byte CHR '':'' h of
             None \<Rightarrow> unescape HostMode h
           | Some i \<Rightarrow>
               if last_byte CHR '':'' h \<noteq> Some i \<or> \<not> valid_port (drop i h) then None else unescape HostMode h))"

definition parse_authority :: "string \<Rightarrow> ((string \<times> string option) option \<times> string) option" where
  "parse_authority a =
     (case cut_last CHR ''@'' a of
        None \<Rightarrow> map_option (\<lambda>h. (None, h)) (parse_host a)
      | Some (u, h) \<Rightarrow>
          (case (parse_host h, parse_user u) of
             (Some h', Some u') \<Rightarrow> Some (Some u', h')
           | _ \<Rightarrow> None))"

definition set_path :: "string \<Rightarrow> url \<Rightarrow> url option" where
  "set_path p u =
     map_option (\<lambda>q. u\<lparr>ur_path := q, ur_raw_path := (if escape Path q = p then [] else p)\<rparr>) (unescape Path p)"

definition split_query :: "string \<Rightarrow> string \<times> bool \<times> string" where
  "split_query s =
     (if s \<noteq> [] \<and> last s = CHR ''?'' \<and> count_list s (CHR ''?'') = 1 then (butlast s, True, [])
      else case cut CHR ''?'' s of (r, q) \<Rightarrow> (r, False, case q of None \<Rightarrow> [] | Some t \<Rightarrow> t))"

definition parse_rest :: "string \<Rightarrow> string \<Rightarrow> url option" where
  "parse_rest sch rest0 =
     (case split_query rest0 of
        (rest, force, query) \<Rightarrow>
          let u = empty_url\<lparr>ur_scheme := sch, ur_force := force, ur_query := query\<rparr>
          in if \<not> has_prefix rest ''/'' \<and> sch \<noteq> [] then Some (u\<lparr>ur_opaque := rest\<rparr>)
             else if \<not> has_prefix rest ''/'' \<and> CHR '':'' \<in> set (takeWhile (\<lambda>c. c \<noteq> CHR ''/'') rest) then None
             else if (sch \<noteq> [] \<or> \<not> has_prefix rest ''///'') \<and> has_prefix rest ''//'' then
               (let body = drop 2 rest;
                    auth = takeWhile (\<lambda>c. c \<noteq> CHR ''/'') body;
                    path = dropWhile (\<lambda>c. c \<noteq> CHR ''/'') body
                in case parse_authority auth of
                     None \<Rightarrow> None
                   | Some (usr, host) \<Rightarrow> set_path path (u\<lparr>ur_user := usr, ur_host := host\<rparr>))
             else set_path rest (u\<lparr>ur_omit := sch \<noteq> [] \<and> has_prefix rest ''/''\<rparr>))"

definition set_fragment :: "string \<Rightarrow> url \<Rightarrow> url option" where
  "set_fragment f u =
     map_option (\<lambda>g. u\<lparr>ur_fragment := g, ur_raw_fragment := (if escape Fragment g = f then [] else f)\<rparr>) (unescape Fragment f)"

definition url_parse :: "string \<Rightarrow> url option" where
  "url_parse s =
     (case cut CHR ''#'' s of
        (raw, frag) \<Rightarrow>
          if list_ex is_ctl raw then None
          else
            (case getScheme raw of
               None \<Rightarrow> None
             | Some (sch, rest) \<Rightarrow>
                 (case parse_rest (map ascii_lower sch) rest of
                    None \<Rightarrow> None
                  | Some u \<Rightarrow>
                      (case frag of
                         None \<Rightarrow> Some u
                       | Some f \<Rightarrow> if f = [] then Some u else set_fragment f u))))"

section \<open>Printing\<close>

definition user_string :: "string \<times> string option \<Rightarrow> string" where
  "user_string u =
     (case u of
        (n, None) \<Rightarrow> escape UserPassword n
      | (n, Some p) \<Rightarrow> escape UserPassword n @ '':'' @ escape UserPassword p)"

definition valid_encoded :: "url_mode \<Rightarrow> string \<Rightarrow> bool" where
  "valid_encoded m s \<longleftrightarrow> (\<forall>c \<in> set s. c \<in> set (CHR 0x27 # ''!$&()*+,;=:@[]%'') \<or> \<not> shouldEscape m c)"

text \<open>\<^verbatim>\<open>EscapedPath\<close> and \<^verbatim>\<open>EscapedFragment\<close>: the spelling that was read, where it stands for the value.\<close>

definition escaped_as :: "url_mode \<Rightarrow> string \<Rightarrow> string \<Rightarrow> string" where
  "escaped_as m raw v =
     (if raw \<noteq> [] \<and> valid_encoded m raw \<and> unescape m raw = Some v then raw
      else if m = Path \<and> v = ''*'' then ''*'' else escape m v)"

definition url_string :: "url \<Rightarrow> string" where
  "url_string u =
     (let head =
        (if ur_scheme u \<noteq> [] then ur_scheme u @ '':'' else []) @
        (if ur_opaque u \<noteq> [] then ur_opaque u
         else if ur_scheme u \<noteq> [] \<or> ur_host u \<noteq> [] \<or> ur_user u \<noteq> None then
           (if ur_omit u \<and> ur_host u = [] \<and> ur_user u = None then []
            else
              (if ur_host u \<noteq> [] \<or> ur_path u \<noteq> [] \<or> ur_user u \<noteq> None then ''//'' else []) @
              (case ur_user u of None \<Rightarrow> [] | Some usr \<Rightarrow> user_string usr @ ''@'') @ escape HostMode (ur_host u))
         else []);
          path = escaped_as Path (ur_raw_path u) (ur_path u)
      in head @
         (if ur_opaque u \<noteq> [] then []
          else
            (if path \<noteq> [] \<and> hd path \<noteq> CHR ''/'' \<and> ur_host u \<noteq> [] then ''/''
             else if head = [] \<and> CHR '':'' \<in> set (takeWhile (\<lambda>c. c \<noteq> CHR ''/'') path) then ''./'' else []) @ path) @
         (if ur_force u \<or> ur_query u \<noteq> [] then ''?'' @ ur_query u else []) @
         (if ur_fragment u \<noteq> [] then ''#'' @ escaped_as Fragment (ur_raw_fragment u) (ur_fragment u) else []))"

text \<open>The shape the link builders fill in: a scheme, credentials, a host and no path.\<close>

definition host_url :: "string \<Rightarrow> (string \<times> string option) option \<Rightarrow> string \<Rightarrow> string \<Rightarrow> string \<Rightarrow> url" where
  "host_url sch usr host query fragment =
     empty_url\<lparr>ur_scheme := sch, ur_user := usr, ur_host := host, ur_query := query, ur_fragment := fragment\<rparr>"

lemma url_string_host_url:
  "sch \<noteq> [] \<Longrightarrow> host \<noteq> [] \<Longrightarrow> url_string (host_url sch usr host query fragment) =
     sch @ ''://'' @ (case usr of None \<Rightarrow> [] | Some u \<Rightarrow> user_string u @ ''@'') @ escape HostMode host @
     (if query = [] then [] else ''?'' @ query) @ (if fragment = [] then [] else ''#'' @ escape Fragment fragment)"
  by (simp add: url_string_def host_url_def empty_url_def escaped_as_def Let_def)

section \<open>Queries\<close>

text \<open>
  \<^verbatim>\<open>url.ParseQuery\<close> with its error not looked at: the pairs that decode, in order. \<^verbatim>\<open>Values.Get\<close> is the first value of a key.
\<close>

definition parse_pair :: "string \<Rightarrow> (string \<times> string) list" where
  "parse_pair p =
     (if CHR '';'' \<in> set p \<or> p = [] then []
      else
        case cut CHR ''='' p of
          (k, v) \<Rightarrow>
            (case (unescape QueryComponent k, unescape QueryComponent (case v of None \<Rightarrow> [] | Some t \<Rightarrow> t)) of
               (Some k', Some v') \<Rightarrow> [(k', v')]
             | _ \<Rightarrow> []))"

definition parse_query :: "string \<Rightarrow> (string \<times> string) list" where
  "parse_query q = concat (map parse_pair (split_on CHR ''&'' q))"

definition q_get :: "(string \<times> string) list \<Rightarrow> string \<Rightarrow> string" where
  "q_get q k = (case map_of q k of None \<Rightarrow> [] | Some v \<Rightarrow> v)"

end
