(* ===== verification/WebGuard.thy ===== *)
theory WebGuard
  imports UrlParse
begin

text \<open>
  Who is asking, and from where: \<^verbatim>\<open>middleware/sameOrigin.go\<close>, \<^verbatim>\<open>middleware/domainValidator.go\<close>, the address of the caller behind
  trusted proxies (\<^verbatim>\<open>api/utils.go\<close>, \<^verbatim>\<open>parseTrustedProxies\<close> of \<^verbatim>\<open>service/setting.go\<close>) and the spelling of hosts (\<^verbatim>\<open>util/host.go\<close>).
  \<open>eqf\<close> is \<^verbatim>\<open>strings.EqualFold\<close> on texts with characters outside ASCII.
\<close>

section \<open>Texts\<close>

definition ascii :: "string \<Rightarrow> bool" where
  "ascii s \<longleftrightarrow> (\<forall>c \<in> set s. (of_char c :: nat) < 128)"

definition EqualFold :: "(string \<Rightarrow> string \<Rightarrow> bool) \<Rightarrow> string \<Rightarrow> string \<Rightarrow> bool" where
  "EqualFold eqf s t = (if ascii s \<and> ascii t then map ascii_lower s = map ascii_lower t else eqf s t)"

definition trim_brackets :: "string \<Rightarrow> string" where
  "trim_brackets s =
     rev (dropWhile (\<lambda>c. c \<in> {CHR ''['', CHR '']''}) (rev (dropWhile (\<lambda>c. c \<in> {CHR ''['', CHR '']''}) s)))"

definition Itoa :: "int \<Rightarrow> string" where
  "Itoa n = (if n < 0 then ''-'' @ show_num 10 (- n) else show_num 10 n)"

section \<open>Hosts\<close>

definition NormalizeHost :: "string \<Rightarrow> string" where
  "NormalizeHost h =
     (if length h > 2 \<and> hd h = CHR ''['' \<and> last h = CHR '']'' then butlast (tl h) else h)"

definition HostForURI :: "string \<Rightarrow> string" where
  "HostForURI host =
     (let h = NormalizeHost host
      in case ParseAddr h of Some (V6 _ _) \<Rightarrow> ''['' @ h @ '']'' | _ \<Rightarrow> h)"

definition bareHost :: "string \<Rightarrow> string" where
  "bareHost host0 =
     (let host = TrimSpace host0
      in if CHR ''/'' \<in> set host \<or> CHR 0x5C \<in> set host then []
         else if CHR '':'' \<in> set host then
           (case SplitHostPort host of Some (h, _) \<Rightarrow> h | None \<Rightarrow> NormalizeHost host)
         else host)"

definition canonicalHost :: "string res \<Rightarrow> string \<Rightarrow> string res" where
  "canonicalHost domain request_host =
     rbind domain (\<lambda>d. Inr (if bareHost d \<noteq> [] then bareHost d else bareHost request_host))"

section \<open>Kinds of addresses\<close>

definition IsLoopback :: "addr \<Rightarrow> bool" where
  "IsLoopback a = (case a of V4 w \<Rightarrow> v4_byte w 0 = 127 | V6 w _ \<Rightarrow> w = 1 | NoAddr \<Rightarrow> False)"

definition IsPrivate :: "addr \<Rightarrow> bool" where
  "IsPrivate a =
     (case a of
        V4 w \<Rightarrow> v4_byte w 0 = 10 \<or> v4_byte w 0 = 172 \<and> v4_byte w 1 div 16 = 1 \<or> v4_byte w 0 = 192 \<and> v4_byte w 1 = 168
      | V6 w _ \<Rightarrow> v6_group w 0 div 512 = 0xFC00 div 512
      | NoAddr \<Rightarrow> False)"

definition IsLinkLocalUnicast :: "addr \<Rightarrow> bool" where
  "IsLinkLocalUnicast a =
     (case a of
        V4 w \<Rightarrow> v4_byte w 0 = 169 \<and> v4_byte w 1 = 254
      | V6 w _ \<Rightarrow> v6_group w 0 div 64 = 0xFE80 div 64
      | NoAddr \<Rightarrow> False)"

text \<open>A \<^verbatim>\<open>netip.Prefix\<close>: an address and a number of bits. An address with a zone is in none.\<close>

type_synonym netprefix = "addr \<times> nat"

definition prefix_contains :: "netprefix \<Rightarrow> addr \<Rightarrow> bool" where
  "prefix_contains p a =
     (case (fst p, a) of
        (V4 _, V4 _) \<Rightarrow> snd p \<le> 32 \<and> prefix_addr a (snd p) = prefix_addr (fst p) (snd p)
      | (V6 _ _, V6 _ z) \<Rightarrow> z = [] \<and> snd p \<le> 128 \<and> prefix_addr a (snd p) = prefix_addr (fst p) (snd p)
      | _ \<Rightarrow> False)"

definition BitLen :: "addr \<Rightarrow> nat" where
  "BitLen a = (case a of NoAddr \<Rightarrow> 0 | V4 _ \<Rightarrow> 32 | V6 _ _ \<Rightarrow> 128)"

definition cgnat :: netprefix where
  "cgnat = (V4 0x64400000, 10)"

section \<open>The caller behind trusted proxies\<close>

definition generatedProxyPeers :: "netprefix list" where
  "generatedProxyPeers = [(V4 0x7F000000, 8), (V6 1 [], 128)]"

definition generatedProxyPeer :: "string \<Rightarrow> netprefix option" where
  "generatedProxyPeer listen =
     (let host = trim_brackets (TrimSpace listen)
      in if host = [] \<or> host = ''0.0.0.0'' \<or> host = ''::'' then None
         else
           (case ParseAddr host of
              None \<Rightarrow> None
            | Some a \<Rightarrow> Some (case Unmap a of V6 w _ \<Rightarrow> (V6 w [], 128) | b \<Rightarrow> (b, BitLen b))))"

definition addressInPrefixes :: "addr \<Rightarrow> netprefix list \<Rightarrow> bool" where
  "addressInPrefixes a ps = list_ex (\<lambda>p. prefix_contains p a) ps"

text \<open>The loop over the entries of the header, from the last one on.\<close>

fun forwarded_hop :: "netprefix list \<Rightarrow> addr \<Rightarrow> addr \<Rightarrow> string list \<Rightarrow> addr" where
  "forwarded_hop trusted peer leftmost [] = leftmost"
| "forwarded_hop trusted peer leftmost (p # ps) =
     (case ParseAddr (TrimSpace p) of
        None \<Rightarrow> peer
      | Some a \<Rightarrow>
          let b = Unmap a
          in if \<not> addressInPrefixes b trusted then b else forwarded_hop trusted peer b ps)"

definition clientIP :: "string \<Rightarrow> string \<Rightarrow> netprefix list \<Rightarrow> string" where
  "clientIP remoteAddr forwardedFor trusted =
     (let peerText = (case SplitHostPort remoteAddr of Some (h, _) \<Rightarrow> h | None \<Rightarrow> trim_brackets remoteAddr)
      in case ParseAddr peerText of
           None \<Rightarrow> peerText
         | Some a \<Rightarrow>
             let peer = Unmap a
             in if \<not> addressInPrefixes peer trusted \<or> TrimSpace forwardedFor = [] then addr_string peer
                else addr_string (forwarded_hop trusted peer peer (rev (split_on CHR '','' forwardedFor))))"

text \<open>
  The three settings \<^verbatim>\<open>getRemoteIp\<close> reads can each fail: without the list no proxy is trusted by configuration, without the
  reverse-proxy switch the generated ones are not either.
\<close>

definition getRemoteIp :: "netprefix list res \<Rightarrow> bool res \<Rightarrow> string res \<Rightarrow> string \<Rightarrow> string \<Rightarrow> string" where
  "getRemoteIp proxies behind listen remoteAddr forwardedFor =
     (let t0 = (case proxies of Inl _ \<Rightarrow> [] | Inr ps \<Rightarrow> ps);
          t1 = (case behind of
                  Inr True \<Rightarrow>
                    t0 @ generatedProxyPeers @
                    (case listen of Inl _ \<Rightarrow> [] | Inr l \<Rightarrow> (case generatedProxyPeer l of None \<Rightarrow> [] | Some p \<Rightarrow> [p]))
                | _ \<Rightarrow> t0)
      in clientIP remoteAddr forwardedFor t1)"

text \<open>\<^verbatim>\<open>strings.FieldsFunc\<close> at commas and white space; every round consumes a character.\<close>

fun fields_at :: "string list \<Rightarrow> nat \<Rightarrow> string \<Rightarrow> string \<Rightarrow> string list" where
  "fields_at seps 0 acc s = (if acc = [] then [] else [rev acc])"
| "fields_at seps (Suc n) acc s =
     (case s of
        [] \<Rightarrow> if acc = [] then [] else [rev acc]
      | c # t \<Rightarrow>
          (case find (\<lambda>p. p \<noteq> [] \<and> has_prefix s p) seps of
             Some p \<Rightarrow> (if acc = [] then [] else [rev acc]) @ fields_at seps n [] (drop (length p) s)
           | None \<Rightarrow> fields_at seps n (c # acc) t))"

definition ParsePrefix :: "string \<Rightarrow> netprefix option" where
  "ParsePrefix s =
     (case cut_last CHR ''/'' s of
        None \<Rightarrow> None
      | Some (ip, bits) \<Rightarrow>
          (case ParseAddr ip of
             None \<Rightarrow> None
           | Some a \<Rightarrow>
               if (case a of V6 _ z \<Rightarrow> z \<noteq> [] | _ \<Rightarrow> False) \<or> bits = [] \<or> \<not> list_all is_digit bits \<or>
                  length bits > 1 \<and> hd bits = CHR ''0'' \<or> dec_value bits > int (BitLen a) then None
               else Some (a, nat (dec_value bits))))"

definition parseTrustedProxies :: "string \<Rightarrow> netprefix list res" where
  "parseTrustedProxies raw =
     map_res (\<lambda>part.
       case ParsePrefix part of
         Some (a, n) \<Rightarrow> Inr (case prefix_addr a n of Some m \<Rightarrow> (m, n) | None \<Rightarrow> (a, n))
       | None \<Rightarrow>
           (case ParseAddr part of
              None \<Rightarrow> Inl (EMsg ''invalid trusted proxy'')
            | Some a \<Rightarrow> Inr (case Unmap a of V6 w _ \<Rightarrow> (V6 w [], 128) | b \<Rightarrow> (b, BitLen b))))
       (fields_at ('','' # space_runes) (length raw) [] raw)"

section \<open>The same-origin check\<close>

record guard_options =
  op_behind :: bool
  op_domain :: string
  op_port :: int

record web_request =
  rq_method :: string
  rq_host :: string
  rq_origin :: string
  rq_referer :: string
  rq_requested_with :: string
  rq_forwarded_host :: string

definition hostname :: "string \<Rightarrow> string" where
  "hostname host = (case SplitHostPort host of Some (h, _) \<Rightarrow> h | None \<Rightarrow> trim_brackets host)"

definition candidateHosts :: "guard_options \<Rightarrow> web_request \<Rightarrow> string list" where
  "candidateHosts opt rq =
     [rq_host rq] @ (if op_domain opt \<noteq> [] then [op_domain opt] else []) @
     (if op_behind opt then filter (\<lambda>h. h \<noteq> []) (map TrimSpace (split_on CHR '','' (rq_forwarded_host rq))) else [])"

definition hostIsOwnSocket :: "(string \<Rightarrow> string \<Rightarrow> bool) \<Rightarrow> string \<Rightarrow> int \<Rightarrow> bool" where
  "hostIsOwnSocket eqf host port =
     (case SplitHostPort host of
        None \<Rightarrow> False
      | Some (h, p) \<Rightarrow>
          if p \<noteq> Itoa port then False
          else if EqualFold eqf h ''localhost'' then True
          else
            (case ParseAddr h of
               None \<Rightarrow> False
             | Some a \<Rightarrow>
                 let b = Unmap a
                 in IsLoopback b \<or> IsPrivate b \<or> IsLinkLocalUnicast b \<or> prefix_contains cgnat b))"

definition inconclusive :: "(string \<Rightarrow> string \<Rightarrow> bool) \<Rightarrow> guard_options \<Rightarrow> string list \<Rightarrow> bool" where
  "inconclusive eqf opt candidates =
     (if \<not> op_behind opt then False else list_all (\<lambda>c. hostIsOwnSocket eqf c (op_port opt)) candidates)"

datatype verdict = Next | Forbidden string

definition rejectCrossSite :: "string \<Rightarrow> string list \<Rightarrow> verdict" where
  "rejectCrossSite from candidates =
     Forbidden (''cross-site request refused'' @
       (if from = [] then []
        else '': this request says it came from '' @ [CHR 0x22] @ from @ [CHR 0x22] @
          (if candidates = [] then []
           else '', but the panel is reachable as '' @ [CHR 0x22] @
             join_with [CHR 0x22, CHR '','', CHR '' '', CHR 0x22] (map hostname candidates) @ [CHR 0x22])))"

text \<open>The check, and whether the one warning about a proxy that hides the host has been written.\<close>

definition SameOrigin ::
  "(string \<Rightarrow> string \<Rightarrow> bool) \<Rightarrow> guard_options \<Rightarrow> web_request \<Rightarrow> bool \<Rightarrow> verdict \<times> bool" where
  "SameOrigin eqf opt rq warned =
     (if rq_method rq \<in> {''GET'', ''HEAD'', ''OPTIONS''} then (Next, warned)
      else
        let origin = (if rq_origin rq = [] then rq_referer rq else rq_origin rq)
        in if origin = [] then
             (if rq_requested_with rq = ''XMLHttpRequest'' then Next else rejectCrossSite [] [], warned)
           else
             case url_parse origin of
               None \<Rightarrow> (rejectCrossSite origin [], warned)
             | Some u \<Rightarrow>
                 if ur_host u = [] then (rejectCrossSite origin [], warned)
                 else
                   let candidates = candidateHosts opt rq; from = hostname (ur_host u)
                   in if list_ex (\<lambda>c. EqualFold eqf from (hostname c)) candidates then (Next, warned)
                      else if inconclusive eqf opt candidates then (Next, True)
                      else (rejectCrossSite from candidates, warned))"

definition DomainValidator :: "(string \<Rightarrow> string \<Rightarrow> bool) \<Rightarrow> string \<Rightarrow> web_request \<Rightarrow> verdict" where
  "DomainValidator eqf domain rq =
     (let host = (if CHR '':'' \<in> set (rq_host rq)
                  then (case SplitHostPort (rq_host rq) of Some (h, _) \<Rightarrow> h | None \<Rightarrow> []) else rq_host rq)
      in if \<not> EqualFold eqf host domain then Forbidden [] else Next)"

section \<open>What passes\<close>

lemma rejectCrossSite_not_Next: "rejectCrossSite from cs \<noteq> Next"
  by (simp add: rejectCrossSite_def)

text \<open>The networks a browser out on the internet cannot dial.\<close>

definition unroutable :: "addr \<Rightarrow> bool" where
  "unroutable a \<longleftrightarrow>
     (case a of
        V4 w \<Rightarrow>
          (let n = uint w
           in n div 2 ^ 24 \<in> {127, 10} \<or> n div 2 ^ 20 = 172 * 16 + 1 \<or> n div 2 ^ 16 \<in> {192 * 256 + 168, 169 * 256 + 254} \<or>
              n div 2 ^ 22 = 100 * 4 + 1)
      | V6 w _ \<Rightarrow> uint w = 1 \<or> uint w div 2 ^ 121 = 0x7E \<or> uint w div 2 ^ 118 = 0x3FA
      | NoAddr \<Rightarrow> False)"

lemma uint_drop: "uint (drop_bit n w) = uint w div 2 ^ n" for w :: "'a::len word"
  using uint_bounded [of w] unfolding unsigned_drop_bit_eq by (simp add: drop_bit_eq_div take_bit_int_eq_self)

lemma v4_byte_div:
  "v4_byte w 0 = uint w div 2 ^ 24" "v4_byte w 1 = uint w div 2 ^ 16 mod 256"
proof -
  have "uint w < 2 ^ 32" using uint_bounded [of w] by simp
  then have r: "uint w div 2 ^ 24 < 256" by (simp add: div_less_iff_less_mult)
  have e: "uint (v AND 0xFF) = uint v mod 256" for v :: "32 word"
    using take_bit_eq_mod [of 8 "uint v"] by (simp add: uint_and take_bit_eq_mask mask_numeral flip: take_bit_eq_mod)
  show "v4_byte w 0 = uint w div 2 ^ 24"
    using r by (simp add: v4_byte_def e uint_drop pos_imp_zdiv_nonneg_iff)
  show "v4_byte w 1 = uint w div 2 ^ 16 mod 256"
    by (simp add: v4_byte_def e uint_drop)
qed

lemma v6_group_div: "v6_group w 0 = uint w div 2 ^ 112"
proof -
  have "uint w < 2 ^ 128" using uint_bounded [of w] by simp
  then have r: "uint w div 2 ^ 112 < 65536" by (simp add: div_less_iff_less_mult)
  have e: "uint (v AND 0xFFFF) = uint v mod 65536" for v :: "128 word"
    using take_bit_eq_mod [of 16 "uint v"] by (simp add: uint_and take_bit_eq_mask mask_numeral flip: take_bit_eq_mod)
  show ?thesis using r by (simp add: v6_group_def e uint_drop pos_imp_zdiv_nonneg_iff)
qed

lemma cgnat_iff: "prefix_contains cgnat (V4 w) \<longleftrightarrow> uint w div 2 ^ 22 = 100 * 4 + 1"
proof -
  have d: "(v AND NOT (mask 22) = x AND NOT (mask 22)) = (drop_bit 22 v = drop_bit 22 x)" for v x :: "32 word"
  proof -
    have "x AND NOT (mask 22) = push_bit 22 (drop_bit 22 x)" for x :: "32 word"
      by (rule bit_word_eqI) (auto simp: bit_simps)
    moreover have "drop_bit 22 (push_bit 22 (drop_bit 22 x)) = drop_bit 22 x" for x :: "32 word"
      by (rule bit_word_eqI) (auto simp: bit_simps dest: bit_imp_le_length)
    ultimately show ?thesis by metis
  qed
  show ?thesis
    unfolding prefix_contains_def cgnat_def
    by (simp add: prefix_addr_def d) (simp add: word_uint_eq_iff uint_drop)
qed

lemma two_digits:
  fixes a b k r t x :: int
  assumes "0 \<le> r" "r < k" "0 \<le> t" "t < k" "x = k * a + r"
  shows "a = b \<and> r = t \<longleftrightarrow> x = k * b + t"
proof
  assume x: "x = k * b + t"
  have e: "(k * u + v) div k = u" "(k * u + v) mod k = v" if "0 \<le> v" "v < k" for u v using that by simp_all
  show "a = b \<and> r = t" using e [of r a] e [of t b] assms x by metis
qed (use assms in simp)

lemma v4_ranges:
  "(q div 256 = 127 \<or> (q div 256 = 10 \<or> q div 256 = 172 \<and> q mod 256 div 16 = 1 \<or> q div 256 = 192 \<and> q mod 256 = 168) \<or>
      q div 256 = 169 \<and> q mod 256 = 254 \<or> p) \<longleftrightarrow>
   (q div 256 = 127 \<or> q div 256 = 10 \<or> q div 16 = 172 * 16 + 1 \<or> q = 192 * 256 + 168 \<or> q = 169 * 256 + 254 \<or> p)" for q :: int
proof -
  have q: "q = 256 * (q div 256) + q mod 256" and m: "0 \<le> q mod 256" "q mod 256 < 256" by simp_all
  have "q div 16 = (16 * (16 * (q div 256)) + q mod 256) div 16" by simp
  also have "\<dots> = 16 * (q div 256) + q mod 256 div 16" by (rule div_mult_self4) simp
  finally have d: "q div 16 = 16 * (q div 256) + q mod 256 div 16" .
  have "0 \<le> q mod 256 div 16" "q mod 256 div 16 < 16" using m by (simp_all add: pos_imp_zdiv_nonneg_iff div_less_iff_less_mult)
  then have "q div 256 = 172 \<and> q mod 256 div 16 = 1 \<longleftrightarrow> q div 16 = 172 * 16 + 1"
    using two_digits [of "q mod 256 div 16" 16 1 "q div 16" "q div 256" 172] d by simp
  moreover have "q div 256 = 192 \<and> q mod 256 = 168 \<longleftrightarrow> q = 192 * 256 + 168"
    using two_digits [of "q mod 256" 256 168 q "q div 256" 192] q m by simp
  moreover have "q div 256 = 169 \<and> q mod 256 = 254 \<longleftrightarrow> q = 169 * 256 + 254"
    using two_digits [of "q mod 256" 256 254 q "q div 256" 169] q m by simp
  ultimately show ?thesis by blast
qed

lemma kinds_unroutable:
  "IsLoopback b \<or> IsPrivate b \<or> IsLinkLocalUnicast b \<or> prefix_contains cgnat b \<longleftrightarrow> unroutable b"
proof (cases b)
  case NoAddr
  then show ?thesis
    by (simp add: IsLoopback_def IsPrivate_def IsLinkLocalUnicast_def prefix_contains_def cgnat_def unroutable_def)
next
  case (V4 w)
  have q: "uint w div 2 ^ 24 = uint w div 2 ^ 16 div 256" "uint w div 2 ^ 20 = uint w div 2 ^ 16 div 16"
    by (simp_all add: zdiv_zmult2_eq [symmetric])
  show ?thesis
    unfolding V4 IsLoopback_def IsPrivate_def IsLinkLocalUnicast_def unroutable_def addr.case cgnat_iff v4_byte_div Let_def q
    using v4_ranges [of "uint w div 2 ^ 16" "uint w div 2 ^ 22 = 100 * 4 + 1"] by blast
next
  case (V6 w z)
  have "uint w div 2 ^ 121 = uint w div 2 ^ 112 div 512" "uint w div 2 ^ 118 = uint w div 2 ^ 112 div 64"
    by (simp_all add: zdiv_zmult2_eq [symmetric])
  then show ?thesis
    by (simp add: V6 IsLoopback_def IsPrivate_def IsLinkLocalUnicast_def prefix_contains_def cgnat_def unroutable_def
        v6_group_div word_uint_eq_iff)
qed

lemma own_socket_iff:
  "hostIsOwnSocket eqf host port \<longleftrightarrow>
   (\<exists>h. SplitHostPort host = Some (h, Itoa port) \<and>
     (EqualFold eqf h ''localhost'' \<or> (\<exists>a. ParseAddr h = Some a \<and> unroutable (Unmap a))))"
  unfolding hostIsOwnSocket_def Let_def kinds_unroutable
  by (auto split: option.splits)

text \<open>A state-changing request with an origin passes on a match, or where nothing could have matched.\<close>

lemma SameOrigin_Next:
  assumes "rq_method rq \<notin> {''GET'', ''HEAD'', ''OPTIONS''}"
    and "origin = (if rq_origin rq = [] then rq_referer rq else rq_origin rq)" and "origin \<noteq> []"
    and "fst (SameOrigin eqf opt rq warned) = Next"
  shows "\<exists>u. url_parse origin = Some u \<and> ur_host u \<noteq> [] \<and>
    ((\<exists>c \<in> set (candidateHosts opt rq). EqualFold eqf (hostname (ur_host u)) (hostname c)) \<or>
     inconclusive eqf opt (candidateHosts opt rq))"
proof -
  have "fst (rejectCrossSite f cs, w) \<noteq> Next" for f cs w using rejectCrossSite_not_Next by simp
  with assms show ?thesis
    unfolding SameOrigin_def Let_def by (auto simp: list_ex_iff split: option.splits if_splits)
qed

section \<open>The hop the proxies saw\<close>

lemma forwarded_hop_trusted:
  assumes "\<And>p. p \<in> set ps \<Longrightarrow> \<exists>a. ParseAddr (TrimSpace p) = Some a \<and> addressInPrefixes (Unmap a) trusted"
  shows "\<exists>l. forwarded_hop trusted peer l0 (ps @ qs) = forwarded_hop trusted peer l qs"
  using assms
proof (induction ps arbitrary: l0)
  case (Cons p ps)
  obtain a where "ParseAddr (TrimSpace p) = Some a" "addressInPrefixes (Unmap a) trusted"
    using Cons.prems [of p] by auto
  with Cons.IH [of "Unmap a"] Cons.prems show ?case by (simp add: Let_def)
qed auto

lemma split_on_join_split:
  "split_on c (join_with [c] (map f xs)) = map f xs" if "xs \<noteq> []" "\<And>x. x \<in> set xs \<Longrightarrow> c \<notin> set (f x)"
  using that by (intro split_on_join) auto

end
