(* ===== verification/AccountApi.thy ===== *)
theory AccountApi
  imports AccountInv WebGuard GuardProps Notify
begin

text \<open>
  The accounts as the HTTP interface uses them: sessions (\<^verbatim>\<open>api/session.go\<close>), the sign-in handler with the login guard and the
  notifications (\<^verbatim>\<open>api/apiService.go\<close>), API tokens in memory (\<^verbatim>\<open>api/apiV2Handler.go\<close>) and which requests reach a handler at all
  (\<^verbatim>\<open>api/apiHandler.go\<close>). A session is the contents of a signed cookie; nothing of it is kept by the panel.
\<close>

section \<open>Sessions\<close>

record cookie_options =
  co_path :: string
  co_http_only :: bool
  co_lax :: bool
  co_max_age :: int
  co_secure :: bool

definition BaseSessionOptions :: "int \<Rightarrow> cookie_options" where
  "BaseSessionOptions maxAgeMinutes =
     \<lparr>co_path = ''/'', co_http_only = True, co_lax = True,
      co_max_age = (if maxAgeMinutes > 0 then i64 (maxAgeMinutes * 60) else 0), co_secure = False\<rparr>"

text \<open>\<^verbatim>\<open>net.ParseIP\<close> knows no zones.\<close>

definition requestIsHTTPS :: "(string \<Rightarrow> string \<Rightarrow> bool) \<Rightarrow> bool \<Rightarrow> string \<Rightarrow> string \<Rightarrow> bool" where
  "requestIsHTTPS eqf tls proto remoteIP =
     (if tls then True
      else if \<not> EqualFold eqf proto ''https'' then False
      else
        (case ParseAddr remoteIP of
           None \<Rightarrow> False
         | Some (V6 w z) \<Rightarrow>
             z = [] \<and> (let a = Unmap (V6 w z) in IsLoopback a \<or> IsPrivate a \<or> IsLinkLocalUnicast a)
         | Some a \<Rightarrow> IsLoopback a \<or> IsPrivate a \<or> IsLinkLocalUnicast a))"

definition sessionOptions :: "bool \<Rightarrow> int \<Rightarrow> cookie_options" where
  "sessionOptions https maxAge = (BaseSessionOptions maxAge)\<lparr>co_secure := https\<rparr>"

record session =
  ss_user :: "string option"
  ss_cred :: "string option"

definition no_session :: session where
  "no_session = \<lparr>ss_user = None, ss_cred = None\<rparr>"

definition SetLoginUser :: "auth_env \<Rightarrow> (acc_stmt \<Rightarrow> bool) \<Rightarrow> bool \<Rightarrow> string \<Rightarrow> user list \<Rightarrow> session res" where
  "SetLoginUser e fails saves userName us =
     (if saves then Inr \<lparr>ss_user = Some userName, ss_cred = Some (CredentialFingerprint e fails userName us)\<rparr>
      else Inl (EMsg ''session''))"

definition GetLoginUser :: "auth_env \<Rightarrow> (acc_stmt \<Rightarrow> bool) \<Rightarrow> session \<Rightarrow> user list \<Rightarrow> string" where
  "GetLoginUser e fails s us =
     (case ss_user s of
        None \<Rightarrow> []
      | Some name \<Rightarrow>
          if name = [] then []
          else
            let want = CredentialFingerprint e fails name us
            in if want = [] then [] else if ss_cred s \<noteq> Some want then [] else name)"

definition IsLogin :: "auth_env \<Rightarrow> (acc_stmt \<Rightarrow> bool) \<Rightarrow> session \<Rightarrow> user list \<Rightarrow> bool" where
  "IsLogin e fails s us \<longleftrightarrow> GetLoginUser e fails s us \<noteq> []"

definition ClearSession :: session where
  "ClearSession = no_session"

section \<open>The sign-in handler\<close>

record login_form =
  lf_user :: string
  lf_pass :: string
  lf_code :: string

text \<open>The moments at which the clock is read: for the ban, the code, the record of the attempt and the second look at the ban.\<close>

record login_clock =
  lc_ban :: int
  lc_code :: int
  lc_record :: int
  lc_after :: int
  lc_stamp :: string

datatype login_reply = Wait int int | AskCode | LoginRefused login_err | NoSession | LoggedIn session

definition ban_minutes :: "int \<Rightarrow> int" where
  "ban_minutes wait = (wait * 10 ^ 9 + 60 * 10 ^ 9 - 1) div (60 * 10 ^ 9)"

definition login_event :: "kind \<Rightarrow> string \<Rightarrow> login_data \<Rightarrow> event" where
  "login_event k subject d = \<lparr>ev_kind = k, ev_subject = subject, ev_data = LoginData d, ev_text = [], ev_at = None\<rparr>"

record login_env =
  le_auth :: auth_env
  le_fails :: "acc_stmt \<Rightarrow> bool"
  le_gfails :: "lfault \<Rightarrow> bool"
  le_lower :: "string \<Rightarrow> string"
  le_guard :: "guard_config res"
  le_saves :: bool

definition ApiLogin ::
  "login_env \<Rightarrow> login_clock \<Rightarrow> string \<Rightarrow> login_form \<Rightarrow> user list \<times> attempts \<Rightarrow>
     login_reply \<times> event list \<times> user list \<times> attempts" where
  "ApiLogin e t ip f w =
     (case w of
        (us, att) \<Rightarrow>
          let ban = (\<lambda>now att. BanRemaining (le_gfails e) (le_lower e) (le_guard e) now ip (lf_user f) att);
              wait = ban (lc_ban t) att
          in if wait > 0 then (Wait wait (ban_minutes wait), [], us, att)
             else
               case Login (le_auth e) (le_fails e) (lc_code t) (lc_stamp t) (lf_user f) (lf_pass f) (lf_code f) ip us of
                 (Inl TwoFaRequired, us') \<Rightarrow>
                   (AskCode, [], us', RecordPrompt (le_gfails e) (le_guard e) (lc_record t) ip att)
               | (Inl err, us') \<Rightarrow>
                   (let att' = RecordFailure (le_gfails e) (le_lower e) (le_guard e) (lc_record t) ip (lf_user f) att;
                        wait' = ban (lc_after t) att';
                        ev = (if wait' > 0
                              then login_event LoginBanned ip
                                     \<lparr>ld_username = lf_user f, ld_ip = ip, ld_failures = 0, ld_ban_minutes = ban_minutes wait'\<rparr>
                              else login_event LoginFailed ip
                                     \<lparr>ld_username = lf_user f, ld_ip = ip, ld_failures = 1, ld_ban_minutes = 0\<rparr>)
                    in (LoginRefused err, [ev], us', att'))
               | (Inr name, us') \<Rightarrow>
                   (let att' = RecordSuccess (le_gfails e) (le_lower e) ip (lf_user f) att;
                        ev = login_event LoginSuccess (lf_user f)
                               \<lparr>ld_username = lf_user f, ld_ip = ip, ld_failures = 0, ld_ban_minutes = 0\<rparr>
                    in (case SetLoginUser (le_auth e) (le_fails e) (le_saves e) name us' of
                          Inl _ \<Rightarrow> NoSession
                        | Inr s \<Rightarrow> LoggedIn s, [ev], us', att')))"

section \<open>API tokens in memory\<close>

definition findUsername :: "string \<Rightarrow> int \<Rightarrow> mem_token list option \<Rightarrow> string" where
  "findUsername tok now tokens =
     (if tok = [] then []
      else
        case tokens of
          None \<Rightarrow> []
        | Some ts \<Rightarrow>
            (case find (\<lambda>t. \<not> (mt_expiry t > 0 \<and> mt_expiry t < now) \<and> mt_token t = tok) ts of
               None \<Rightarrow> []
             | Some t \<Rightarrow> mt_username t))"

definition checkToken :: "string \<Rightarrow> int \<Rightarrow> mem_token list option \<Rightarrow> string option" where
  "checkToken tok now tokens =
     (let u = findUsername tok now tokens in if u \<noteq> [] then Some u else None)"

text \<open>\<^verbatim>\<open>ReloadTokens\<close>: what is in memory is replaced only by a list that was read; the outer \<open>None\<close> is a panic.\<close>

definition ReloadTokens :: "(acc_stmt \<Rightarrow> bool) \<Rightarrow> int \<Rightarrow> accounts \<Rightarrow> mem_token list option \<Rightarrow> mem_token list option option" where
  "ReloadTokens fails now a old =
     (case LoadTokens fails now a of
        None \<Rightarrow> None
      | Some (Inl _) \<Rightarrow> Some old
      | Some (Inr ts) \<Rightarrow> Some (Some ts))"

section \<open>What reaches a handler\<close>

datatype api_reply = Handled string | UnknownAction string | Unauthorized | RedirectLogin

definition has_suffix :: "string \<Rightarrow> string \<Rightarrow> bool" where
  "has_suffix s t \<longleftrightarrow> has_prefix (rev s) (rev t)"

definition post_actions :: "string list" where
  "post_actions =
     [''login'', ''changePass'', ''twoFaSetup'', ''twoFaEnable'', ''twoFaDisable'', ''save'', ''adoptInbounds'', ''reconcileNode'',
      ''restartApp'', ''restartSb'', ''maintenance'', ''updatePanel'', ''resetTraffic'', ''linkConvert'', ''subConvert'', ''testAcme'',
      ''testNotify'', ''issueCert'', ''syncNginxProxy'', ''checkNginxProxy'', ''deleteCert'', ''saveManualCert'', ''importdb'',
      ''addToken'', ''deleteToken'', ''getCertPing'', ''closeSessions'', ''testNode'']"

definition get_actions :: "string list" where
  "get_actions =
     [''logout'', ''load'', ''inbounds'', ''outbounds'', ''endpoints'', ''services'', ''tls'', ''clients'', ''config'', ''nodes'', ''users'',
      ''settings'', ''stats'', ''targetStats'', ''status'', ''onlines'', ''onlineIps'', ''sessions'', ''logs'', ''changes'', ''keypairs'', ''getdb'',
      ''tokens'', ''singbox-config'', ''checkOutbound'', ''nodeInbounds'', ''detectNginx'', ''certs'', ''updateInfo'', ''updateStatus'']"

definition checkLogin :: "bool \<Rightarrow> string \<Rightarrow> api_reply option" where
  "checkLogin logged_in requested_with =
     (if logged_in then None
      else if requested_with = ''XMLHttpRequest'' then Some Unauthorized else Some RedirectLogin)"

text \<open>
  A request for one path segment below the group; \<open>base\<close> is the path of the group with its closing slash, so the path of the
  request is \<open>base @ action\<close>.
\<close>

definition api_request :: "string \<Rightarrow> bool \<Rightarrow> bool \<Rightarrow> string \<Rightarrow> string \<Rightarrow> api_reply" where
  "api_request base logged_in post requested_with action =
     (let path = base @ action
      in case (if \<not> has_suffix path ''login'' \<and> \<not> has_suffix path ''logout'' then checkLogin logged_in requested_with else None) of
           Some r \<Rightarrow> r
         | None \<Rightarrow>
             if action \<in> set (if post then post_actions else get_actions) then Handled action else UnknownAction action)"

section \<open>Sessions and credentials\<close>

lemma find_named: "find (named n) us = Some u \<Longrightarrow> us_username u = n \<and> u \<in> set us"
  by (auto simp: find_Some_iff named_def)

lemma CredentialFingerprint_row:
  "CredentialFingerprint e fails n us =
   (if fails AQuery then [] else case find (named n) us of None \<Rightarrow> [] | Some u \<Rightarrow> ae_digest e (n @ [CHR 0x00] @ us_password u))"
  using find_named by (auto simp: CredentialFingerprint_def first_user_def split: option.splits)

lemma GetLoginUser_SomeD:
  assumes "GetLoginUser e fails s us = n" and "n \<noteq> []"
  shows "ss_user s = Some n" and "\<exists>u. find (named n) us = Some u \<and> ss_cred s = Some (ae_digest e (n @ [CHR 0x00] @ us_password u))"
  using assms
  by (auto simp: GetLoginUser_def Let_def CredentialFingerprint_row split: option.splits if_splits)

text \<open>Once the credentials of an account have changed, no session issued under the old ones is accepted.\<close>

lemma update_id_named:
  assumes "distinct (map us_id us)" and "distinct (map us_username us)" and "find (named n) us = Some u" and "us_id row = us_id u"
  shows "find (named n) (update_where (\<lambda>v. us_id v = us_id row) (\<lambda>_. row) us) = (if us_username row = n then Some row else None)"
proof -
  let ?f = "\<lambda>v. if us_id v = us_id row then row else v"
  note u = find_named [OF assms(3)]
  have one: "us_id v = us_id row \<longleftrightarrow> v = u" if "v \<in> set us" for v
    using that u assms(1,4) by (auto simp: distinct_map dest: inj_onD)
  have other: "us_username v \<noteq> n" if "v \<in> set us" "v \<noteq> u" for v
    using that u assms(2) by (auto simp: distinct_map dest: inj_onD)
  have named: "named n (?f v) \<longleftrightarrow> v = u \<and> us_username row = n" if "v \<in> set us" for v
    using one [OF that] other [OF that] by (auto simp: named_def)
  show ?thesis
  proof (cases "us_username row = n")
    case True
    have "find (named n) (map ?f us) = Some row"
      using u named True
    proof (induction us)
      case (Cons v vs)
      show ?case
      proof (cases "v = u")
        case True
        then show ?thesis using Cons.prems(3) assms(4) \<open>us_username row = n\<close> by (simp add: named_def)
      next
        case False
        then have "\<not> named n (?f v)" using Cons.prems(2) [of v] by simp
        then show ?thesis using Cons False by (simp only: list.map find.simps) auto
      qed
    qed simp
    with True show ?thesis by (simp add: update_where_def)
  next
    case False
    then have "\<forall>v \<in> set us. \<not> named n (?f v)" using named by blast
    then have "find (named n) (map ?f us) = None" unfolding find_None_iff set_map by blast
    with False show ?thesis by (simp add: update_where_def)
  qed
qed

lemma ChangePass_row:
  assumes "ChangePass e fails n old new pass us = Inr us'"
  shows "\<exists>u h. find (named n) us = Some u \<and> ae_hash e pass = Some h \<and> n \<noteq> [] \<and> new \<noteq> [] \<and> pass \<noteq> [] \<and>
    CheckPassword (ae_matches e) old (us_password u) \<and> us' = save_user (u\<lparr>us_username := new, us_password := h\<rparr>) us"
  using assms
  by (auto simp: ChangePass_def change_row_def res_simps first_user_def HashPassword_def split: option.splits if_splits)

lemma ChangePass_named:
  assumes "ChangePass e fails n old new pass us = Inr us'" and "distinct (map us_id us)" and "distinct (map us_username us)"
  shows "\<exists>u h. find (named n) us = Some u \<and> ae_hash e pass = Some h \<and>
    (case find (named n) us' of None \<Rightarrow> new \<noteq> n | Some v \<Rightarrow> new = n \<and> us_password v = h)"
proof -
  obtain u h where u: "find (named n) us = Some u" "ae_hash e pass = Some h"
    and us': "us' = save_user (u\<lparr>us_username := new, us_password := h\<rparr>) us"
    using ChangePass_row [OF assms(1)] by auto
  let ?row = "(u\<lparr>us_username := new, us_password := h\<rparr>)\<lparr>us_counter := Some (user_counter (u\<lparr>us_username := new, us_password := h\<rparr>))\<rparr>"
  have "us' = update_where (\<lambda>v. us_id v = us_id ?row) (\<lambda>_. ?row) us"
    using find_named [OF u(1)] by (simp add: us' save_user_def Let_def image_iff) blast
  then have "find (named n) us' = (if new = n then Some ?row else None)"
    using update_id_named [OF assms(2,3) u(1), of ?row] by simp
  with u show ?thesis by auto
qed

section \<open>Unauthenticated requests\<close>

lemma has_suffix_iff: "has_suffix s t \<longleftrightarrow> (\<exists>r. s = r @ t)"
  unfolding has_suffix_def has_prefix_iff
  by (metis rev_append rev_rev_ident)

text \<open>A suffix without a slash lies within the last segment.\<close>

lemma suffix_of_segment:
  assumes "base @ action = r @ t" and "base \<noteq> []" and "last base = CHR ''/''" and "CHR ''/'' \<notin> set t"
  shows "\<exists>r'. action = r' @ t"
proof -
  from assms(1) obtain us where "base = r @ us \<and> us @ action = t \<or> base @ us = r \<and> action = us @ t"
    by (auto simp: append_eq_append_conv2)
  then show ?thesis
  proof
    assume a: "base = r @ us \<and> us @ action = t"
    then have "us = [] \<or> CHR ''/'' \<in> set t" using assms(2,3) by (cases us rule: rev_cases) auto
    with a assms(4) show ?thesis by auto
  qed auto
qed

section \<open>Sequences of sign-ins\<close>

fun api_logins ::
  "login_env \<Rightarrow> (login_clock \<times> string \<times> login_form) list \<Rightarrow> user list \<times> attempts \<Rightarrow> login_reply list \<times> user list \<times> attempts" where
  "api_logins e [] w = ([], w)"
| "api_logins e ((t, ip, f) # rs) w =
     (let (r, _, w') = ApiLogin e t ip f w; (replies, w'') = api_logins e rs w' in (r # replies, w''))"

lemma ApiLogin_refused:
  "ApiLogin e t ip f (us, att) = (LoginRefused err, evs, us', att') \<Longrightarrow>
   att' = RecordFailure (le_gfails e) (le_lower e) (le_guard e) (lc_record t) ip (lf_user f) att"
  by (auto simp: ApiLogin_def Let_def split: if_splits prod.splits sum.splits login_err.splits)

text \<open>Refused requests leave in the table what the same failures leave there.\<close>

lemma api_logins_refused:
  assumes "le_guard e = Inr c" and "le_gfails e = no_fault"
    and "api_logins e rs (us, att) = (replies, us', att')" and "\<forall>r \<in> set replies. \<exists>err. r = LoginRefused err"
  shows "att' = failures_from (le_lower e) c (map (\<lambda>(t, ip, f). (lc_record t, ip, lf_user f)) rs) att"
  using assms(3,4)
proof (induction rs arbitrary: us att replies)
  case (Cons r rs)
  obtain t ip f where r: "r = (t, ip, f)" by (cases r)
  obtain reply evs us1 att1 where 1: "ApiLogin e t ip f (us, att) = (reply, evs, us1, att1)" by (metis prod_cases4)
  obtain reps w where 2: "api_logins e rs (us1, att1) = (reps, w)" by (metis surj_pair)
  have "replies = reply # reps" "w = (us', att')" using Cons.prems(1) 1 2 r by (simp_all add: Let_def)
  moreover from this Cons.prems(2) obtain err where "reply = LoginRefused err" by auto
  ultimately show ?case
    using Cons.IH [of us1 att1 reps] Cons.prems(2) 1 2 r ApiLogin_refused [of e t ip f us att err evs us1 att1] assms(1,2)
    by (simp add: failures_from_def)
qed (simp add: failures_from_def)

section \<open>Tokens and their owners\<close>

definition tokens_owned :: "accounts \<Rightarrow> bool" where
  "tokens_owned a \<longleftrightarrow> list_all (\<lambda>t. user_by_id (tk_user t) (ac_users a) \<noteq> None) (ac_tokens a)"

lemma user_by_id_find:
  "distinct (map us_id us) \<Longrightarrow> u \<in> set us \<Longrightarrow> user_by_id (us_id u) us = Some u"
  by (induction us) (auto simp: user_by_id_def)

end
