(* ===== verification/AccountProps.thy ===== *)
theory AccountProps
  imports AccountApi
begin

text \<open>
  The properties of the accounts: one-time codes, signing in under concurrency and behind the login guard, sessions and API tokens.
\<close>

section \<open>A panel with one account\<close>

definition ax_mac :: "string \<Rightarrow> string \<Rightarrow> string" where
  "ax_mac k m = rev m @ m @ take 4 m"

definition ax_env :: auth_env where
  "ax_env = \<lparr>ae_upper = id, ae_mac = ax_mac, ae_hash = (\<lambda>p. if length p > 72 then None else Some (''$2'' @ p)),
     ae_matches = (\<lambda>h p. h = ''$2'' @ p), ae_digest = id\<rparr>"

definition ax_secret :: string where
  "ax_secret = ''GEZDGNBVGY3TQOJQGEZDGNBVGY3TQOJQ''"

definition ax_user :: user where
  "ax_user = \<lparr>us_id = 1, us_username = ''admin'', us_password = ''$2pw'', us_last = [], us_secret = ax_secret, us_counter = Some 5\<rparr>"

definition ax_ok :: "acc_stmt \<Rightarrow> bool" where
  "ax_ok _ = False"


definition ax_moved :: user where
  "ax_moved = ax_user\<lparr>us_counter := Some 20\<rparr>"

lemma ax_code: "check_credentials ax_env ax_ok 600 ''admin'' ''pw'' ''544 320'' ''192.0.2.1'' [ax_user] = Inr (ax_user, Some 20)"
  by code_simp

section \<open>Properties\<close>

text \<open>
  C26. A one-time code is checked exactly: of the three time steps around the present one, the first that is not negative, lies
  above the last accepted step (when there is one) and has this code is accepted, and no other. The unsigned arithmetic of the
  code, with its wrap-around at the epoch, never shows. Without a secret that decodes to at least one byte nothing is accepted.
\<close>

theorem totp_accepts_first_admissible_step:
  assumes "0 \<le> now" and "now < 2 ^ 63" and "after < 2 ^ 63"
  shows "validateTOTPAt upper mac secret code after now =
    (case decodeTOTPSecret upper secret of
       None \<Rightarrow> None
     | Some key \<Rightarrow>
         if key = [] then None
         else find (\<lambda>m. 0 \<le> m \<and> (0 < after \<longrightarrow> after < m) \<and> totpCodeAt mac key (word_of_int m) = normalizeTOTPCode code)
                [now div 30 - 1, now div 30, now div 30 + 1])"
proof -
  have "admissible mac key c after = (\<lambda>m. 0 \<le> m \<and> (0 < after \<longrightarrow> after < m) \<and> totpCodeAt mac key (word_of_int m) = c)" for key c
    by (rule ext) (simp add: admissible_def)
  note adm = this
  show ?thesis
    unfolding validateTOTPAt_spec [OF assms(3)] totp_step_small [OF assms(1,2)] totp_spec_def adm by (rule refl)
qed

theorem totp_accepts_first_admissible_step_witness:
  "validateTOTPAt id ax_mac ax_secret '' 544320 '' 5 600 = Some 20"
proof -
  have "decodeTOTPSecret id ax_secret = Some ''12345678901234567890''" by code_simp
  moreover have "totpCodeAt ax_mac ''12345678901234567890'' (word_of_int 19) \<noteq> normalizeTOTPCode '' 544320 ''"
    "totpCodeAt ax_mac ''12345678901234567890'' (word_of_int 20) = normalizeTOTPCode '' 544320 ''" by code_simp+
  ultimately show ?thesis
    by (simp add: totp_accepts_first_admissible_step [of 600 5 id ax_mac ax_secret "'' 544320 ''"])
qed

text \<open>
  C27. A code is computed within bounds: the four bytes are taken from inside the digest, and the result is always exactly six
  decimal digits, those of the 31-bit number modulo one million.
\<close>

theorem totp_code_within_bounds:
  assumes "length (mac key (PutUint64 counter)) = 20"
  shows "dt_offset (mac key (PutUint64 counter)) + 4 \<le> length (mac key (PutUint64 counter)) \<and>
    length (totpCodeAt mac key counter) = 6 \<and> list_all is_digit (totpCodeAt mac key counter) \<and>
    dec_value (totpCodeAt mac key counter) =
      uint (Uint32 (take 4 (drop (dt_offset (mac key (PutUint64 counter))) (mac key (PutUint64 counter)))) AND 0x7FFFFFFF) mod 10 ^ 6"
proof (intro conjI)
  show "dt_offset (mac key (PutUint64 counter)) + 4 \<le> length (mac key (PutUint64 counter))"
    using dt_offset_bound [of "mac key (PutUint64 counter)"] assms by simp
  show "length (totpCodeAt mac key counter) = 6" "list_all is_digit (totpCodeAt mac key counter)"
    using totpCodeAt_shape by (simp_all add: totpDigits_def)
  let ?x = "Uint32 (take 4 (drop (dt_offset (mac key (PutUint64 counter))) (mac key (PutUint64 counter)))) AND 0x7FFFFFFF"
  have "uint (?x mod totpModulus) = uint ?x mod 10 ^ 6" by (simp add: uint_mod_distrib totpModulus_def)
  then show "dec_value (totpCodeAt mac key counter) = uint ?x mod 10 ^ 6"
    using totp_value_bound [of ?x] by (simp add: totpCodeAt_def Let_def dec_value_show_num)
qed

theorem totp_code_within_bounds_witness:
  "length (totpCodeAt ax_mac ''12345678901234567890'' 20) = 6 \<and> dec_value (totpCodeAt ax_mac ''12345678901234567890'' 20) = 544320"
proof -
  have l: "length (ax_mac ''12345678901234567890'' (PutUint64 20)) = 20" by code_simp
  have "uint (Uint32 (take 4 (drop (dt_offset (ax_mac ''12345678901234567890'' (PutUint64 20))) (ax_mac ''12345678901234567890'' (PutUint64 20)))) AND 0x7FFFFFFF) mod 10 ^ 6 = 544320"
    by code_simp
  with totp_code_within_bounds [of ax_mac "''12345678901234567890''" 20] l show ?thesis by simp
qed

text \<open>
  C28. A secret survives enrolment: the text handed out has 32 characters, and however it is typed back -- in lower case, in groups
  set off by spaces or dashes, with padding behind it -- it decodes to the bytes that were drawn.
\<close>

theorem enrolled_secret_round_trip:
  assumes "GenerateTOTPSecret (Inr buf) = Inr secret" and "length buf = totpSecretBytes"
    and "\<forall>c \<in> set typed. (of_char c :: nat) < 128"
    and "map ascii_upper (drop_separators typed) = secret @ replicate n (CHR ''='')"
  shows "length secret = 32 \<and> decodeTOTPSecret upper typed = Some buf"
proof -
  have s: "secret = base32_encode buf" using assms(1) by (simp add: GenerateTOTPSecret_def)
  have "length secret = 32"
    using assms(2) by (simp add: s base32_encode_def b32.encode_length totpSecretBytes_def)
  then show ?thesis using decodeTOTPSecret_typed assms(3,4) s by simp
qed

theorem enrolled_secret_round_trip_witness:
  "decodeTOTPSecret id ''gezd gnbv-gy3t qojq gezd gnbv gy3t qojq=='' = Some ''12345678901234567890''"
proof -
  have "GenerateTOTPSecret (Inr ''12345678901234567890'') = Inr ax_secret" "length ''12345678901234567890'' = totpSecretBytes"
    "\<forall>c \<in> set ''gezd gnbv-gy3t qojq gezd gnbv gy3t qojq==''. (of_char c :: nat) < 128"
    "map ascii_upper (drop_separators ''gezd gnbv-gy3t qojq gezd gnbv gy3t qojq=='') = ax_secret @ replicate 2 (CHR ''='')"
    by code_simp+
  from enrolled_secret_round_trip [OF this] show ?thesis by simp
qed

text \<open>
  C29. A code opens the panel at most once: however requests interleave between the statements of the database, the steps accepted
  for an account strictly increase, as long as in between the second factor was not set anew and no change of password wrote
  back a row with an older counter.
\<close>

theorem accepted_codes_strictly_increase:
  assumes "acc_reach e us s" and "distinct (map us_id us)"
    and "sy_log s = later @ Accepted i c # between @ Accepted i d # before"
    and "Reset i \<notin> set between" and "Rewrote i \<notin> set between"
  shows "d < c"
  using acc_reach_inv [OF assms(1,2)] assms(3-5) replay_free_between [of later i c between d before]
  by (simp add: acc_inv_def)

theorem accepted_codes_strictly_increase_witness:
  "\<exists>s. acc_reach ax_env [ax_user] s \<and> sy_log s = [Accepted 1 21, Accepted 1 20] \<and> (20 :: int) < 21"
proof -
  let ?s0 = "\<lparr>sy_users = [ax_user], sy_logins = [], sy_changes = [], sy_log = []\<rparr>"
  have 1: "acc_step ax_env ?s0 (?s0\<lparr>sy_logins := [(ax_user, 20)]\<rparr>)"
    using acc_step.match_code [of ax_env ax_ok 600 "''admin''" "''pw''" "''544 320''" "''192.0.2.1''" ?s0 ax_user 20] ax_code by simp
  have b: "burn_counter 1 20 [ax_user] = (True, [ax_moved])" by code_simp
  have 2: "acc_step ax_env (?s0\<lparr>sy_logins := [(ax_user, 20)]\<rparr>) (?s0\<lparr>sy_users := [ax_moved], sy_log := [Accepted 1 20]\<rparr>)"
    using acc_step.burn [of ax_user 20 "?s0\<lparr>sy_logins := [(ax_user, 20)]\<rparr>" True "[ax_moved]" ax_env] b by (simp add: ax_user_def)
  let ?s2 = "?s0\<lparr>sy_users := [ax_moved], sy_log := [Accepted 1 20]\<rparr>"
  have c: "check_credentials ax_env ax_ok 630 ''admin'' ''pw'' ''321536'' ''192.0.2.1'' [ax_moved] = Inr (ax_moved, Some 21)"
    by code_simp
  have 3: "acc_step ax_env ?s2 (?s2\<lparr>sy_logins := [(ax_moved, 21)]\<rparr>)"
    using acc_step.match_code [of ax_env ax_ok 630 "''admin''" "''pw''" "''321536''" "''192.0.2.1''" ?s2 ax_moved 21] c by simp
  have d: "burn_counter 1 21 [ax_moved] = (True, [ax_moved\<lparr>us_counter := Some 21\<rparr>])" by code_simp
  let ?s4 = "?s0\<lparr>sy_users := [ax_moved\<lparr>us_counter := Some 21\<rparr>], sy_log := [Accepted 1 21, Accepted 1 20]\<rparr>"
  have 4: "acc_step ax_env (?s2\<lparr>sy_logins := [(ax_moved, 21)]\<rparr>) ?s4"
    using acc_step.burn [of ax_moved 21 "?s2\<lparr>sy_logins := [(ax_moved, 21)]\<rparr>" True "[ax_moved\<lparr>us_counter := Some 21\<rparr>]" ax_env] d
    by (simp add: ax_user_def ax_moved_def)
  have r: "acc_reach ax_env [ax_user] ?s4"
    by (rule acc_reach.step [OF acc_reach.step [OF acc_reach.step [OF acc_reach.step [OF acc_reach.start 1] 2] 3] 4])
  from accepted_codes_strictly_increase [OF r, of "[]" 1 21 "[]" 20 "[]"] r show ?thesis by auto
qed

text \<open>
  The exception is real: a change of password that read the account before a login and saves it afterwards writes the old
  counter back with the rest of the row, and the code of that login is accepted a second time.
\<close>

lemma stale_save_reopens_a_code:
  "\<exists>s. acc_reach ax_env [ax_user] s \<and> sy_log s = [Accepted 1 20, Rewrote 1, Accepted 1 20]"
proof -
  let ?s0 = "\<lparr>sy_users = [ax_user], sy_logins = [], sy_changes = [], sy_log = []\<rparr>"
  let ?row = "ax_user\<lparr>us_password := ''$2new''\<rparr>"
  have r: "change_row ax_env ax_ok ''admin'' ''pw'' ''admin'' ''new'' [ax_user] = Inr ?row" by code_simp
  let ?s1 = "?s0\<lparr>sy_changes := [?row]\<rparr>"
  have 1: "acc_step ax_env ?s0 ?s1"
    using acc_step.change_read [of ax_env ax_ok "''admin''" "''pw''" "''admin''" "''new''" ?s0 ?row] r by simp
  have 2: "acc_step ax_env ?s1 (?s1\<lparr>sy_logins := [(ax_user, 20)]\<rparr>)"
    using acc_step.match_code [of ax_env ax_ok 600 "''admin''" "''pw''" "''544 320''" "''192.0.2.1''" ?s1 ax_user 20] ax_code by simp
  have b: "burn_counter 1 20 [ax_user] = (True, [ax_moved])" by code_simp
  let ?s3 = "?s1\<lparr>sy_users := [ax_moved], sy_log := [Accepted 1 20]\<rparr>"
  have 3: "acc_step ax_env (?s1\<lparr>sy_logins := [(ax_user, 20)]\<rparr>) ?s3"
    using acc_step.burn [of ax_user 20 "?s1\<lparr>sy_logins := [(ax_user, 20)]\<rparr>" True "[ax_moved]" ax_env] b by (simp add: ax_user_def)
  have v: "save_user ?row [ax_moved] = [?row]" by code_simp
  let ?s4 = "?s0\<lparr>sy_users := [?row], sy_log := [Rewrote 1, Accepted 1 20]\<rparr>"
  have 4: "acc_step ax_env ?s3 ?s4"
    using acc_step.change_save [of ?row ?s3 ax_env] v by (simp add: ax_user_def ax_moved_def user_counter_def)
  have c: "check_credentials ax_env ax_ok 600 ''admin'' ''new'' ''544 320'' ''192.0.2.1'' [?row] = Inr (?row, Some 20)"
    by code_simp
  have 5: "acc_step ax_env ?s4 (?s4\<lparr>sy_logins := [(?row, 20)]\<rparr>)"
    using acc_step.match_code [of ax_env ax_ok 600 "''admin''" "''new''" "''544 320''" "''192.0.2.1''" ?s4 ?row 20] c by simp
  have d: "burn_counter 1 20 [?row] = (True, [?row\<lparr>us_counter := Some 20\<rparr>])" by code_simp
  let ?s6 = "?s0\<lparr>sy_users := [?row\<lparr>us_counter := Some 20\<rparr>], sy_log := [Accepted 1 20, Rewrote 1, Accepted 1 20]\<rparr>"
  have 6: "acc_step ax_env (?s4\<lparr>sy_logins := [(?row, 20)]\<rparr>) ?s6"
    using acc_step.burn [of ?row 20 "?s4\<lparr>sy_logins := [(?row, 20)]\<rparr>" True "[?row\<lparr>us_counter := Some 20\<rparr>]" ax_env] d
    by (simp add: ax_user_def)
  have "acc_reach ax_env [ax_user] ?s6"
    by (rule acc_reach.step [OF acc_reach.step [OF acc_reach.step [OF acc_reach.step [OF acc_reach.step [OF
          acc_reach.step [OF acc_reach.start 1] 2] 3] 4] 5] 6])
  then show ?thesis by (intro exI [of _ ?s6]) simp
qed



text \<open>
  C31. Changing the credentials retires the sessions issued under the old ones: after a change of password or name, no session of
  the old name is accepted, provided the fingerprints of the two passwords differ. (The stored hash is salted, so they do even
  for the same password.)
\<close>

theorem credential_change_retires_sessions:
  assumes "ChangePass e fails n old new pass us = Inr us'"
    and "distinct (map us_id us)" and "distinct (map us_username us)"
    and "GetLoginUser e fails' s us = n"
    and "\<forall>u h. find (named n) us = Some u \<longrightarrow> ae_hash e pass = Some h \<longrightarrow>
      ae_digest e (n @ [CHR 0x00] @ h) \<noteq> ae_digest e (n @ [CHR 0x00] @ us_password u)"
  shows "\<not> IsLogin e fails'' s us'"
proof -
  have n: "n \<noteq> []" using ChangePass_row [OF assms(1)] by blast
  obtain u where u: "ss_user s = Some n" "find (named n) us = Some u" "ss_cred s = Some (ae_digest e (n @ [CHR 0x00] @ us_password u))"
    using GetLoginUser_SomeD [OF assms(4) n] by auto
  obtain h where h: "ae_hash e pass = Some h" "case find (named n) us' of None \<Rightarrow> new \<noteq> n | Some v \<Rightarrow> new = n \<and> us_password v = h"
    using ChangePass_named [OF assms(1-3)] by auto
  have "ae_digest e (n @ [CHR 0x00] @ h) \<noteq> ae_digest e (n @ [CHR 0x00] @ us_password u)"
    using assms(5) u h by blast
  then show ?thesis
    using u h by (auto simp: IsLogin_def GetLoginUser_def Let_def CredentialFingerprint_row split: option.splits)
qed

theorem credential_change_retires_sessions_witness:
  "\<not> IsLogin ax_env ax_ok \<lparr>ss_user = Some ''admin'', ss_cred = Some (''admin'' @ [CHR 0x00] @ ''$2pw'')\<rparr>
     [ax_user\<lparr>us_password := ''$2new''\<rparr>]"
proof -
  let ?s = "\<lparr>ss_user = Some ''admin'', ss_cred = Some (''admin'' @ [CHR 0x00] @ ''$2pw'')\<rparr>"
  have 1: "ChangePass ax_env ax_ok ''admin'' ''pw'' ''admin'' ''new'' [ax_user] = Inr [ax_user\<lparr>us_password := ''$2new''\<rparr>]" by code_simp
  have 2: "GetLoginUser ax_env ax_ok ?s [ax_user] = ''admin''" by code_simp
  have 3: "find (named ''admin'') [ax_user] = Some ax_user" "us_password ax_user = ''$2pw''" by code_simp+
  have 4: "ae_hash ax_env ''new'' = Some ''$2new''" "ae_digest ax_env = id" by (simp_all add: ax_env_def)
  show ?thesis
    by (rule credential_change_retires_sessions [OF 1 _ _ 2]) (use 3 4 in auto)
qed

text \<open>
  C32. Without a session only signing in and signing out do anything: whatever one-segment path of the API is requested, no other
  handler runs.
\<close>

theorem only_login_without_session:
  assumes "api_request base False post requested_with action = Handled a" and "base \<noteq> []" and "last base = CHR ''/''"
  shows "post \<and> a = ''login'' \<or> \<not> post \<and> a = ''logout''"
proof -
  have a: "a = action" "action \<in> set (if post then post_actions else get_actions)"
    and "has_suffix (base @ action) ''login'' \<or> has_suffix (base @ action) ''logout''"
    using assms(1) by (auto simp: api_request_def checkLogin_def Let_def split: if_splits option.splits)
  moreover have "CHR ''/'' \<notin> set ''login''" "CHR ''/'' \<notin> set ''logout''" by simp_all
  ultimately have "has_suffix action ''login'' \<or> has_suffix action ''logout''"
    using suffix_of_segment [OF _ assms(2,3)] unfolding has_suffix_iff by blast
  with a have "action \<in> set (filter (\<lambda>x. has_suffix x ''login'' \<or> has_suffix x ''logout'') (if post then post_actions else get_actions))"
    by simp
  moreover have "filter (\<lambda>x. has_suffix x ''login'' \<or> has_suffix x ''logout'') post_actions = [''login'']"
    "filter (\<lambda>x. has_suffix x ''login'' \<or> has_suffix x ''logout'') get_actions = [''logout'']" by code_simp+
  ultimately show ?thesis
    unfolding a(1) by (cases post) (simp_all only: if_True if_False list.set singleton_iff simp_thms)
qed

theorem only_login_without_session_witness:
  "api_request ''/app/api/'' False True [] ''login'' = Handled ''login'' \<and> (True \<and> ''login'' = ''login'' \<or> \<not> True \<and> ''login'' = ''logout'')"
proof -
  have h: "api_request ''/app/api/'' False True [] ''login'' = Handled ''login''" by code_simp
  have "last ''/app/api/'' = CHR ''/''" by simp
  with only_login_without_session [OF h] h show ?thesis by simp
qed






text \<open>
  C34. A new API token speaks for the account that asked for it: after the next load of the list it authenticates that account,
  until it expires. For a name without an account the token is stored without an owner, and from then on loading the list panics.
\<close>

theorem new_token_speaks_for_its_owner:
  assumes "AddToken fails now rnd n expiry desc a = Inr (tok, a')"
    and "tokens_owned a" and "distinct (map us_id (ac_users a))" and "rnd \<noteq> []" and "rnd \<notin> tk_token ` set (ac_tokens a)"
    and "x = (if expiry > 0 then i64 (expiry * 86400 + now) else expiry)" and "x = 0 \<or> now' < x" and "\<not> fails' AList"
  shows "case find (named n) (ac_users a) of
      Some u \<Rightarrow> \<exists>mem. ReloadTokens fails' now' a' old = Some (Some mem) \<and>
        (\<forall>t. findUsername tok t (Some mem) = (if 0 < x \<and> x < t then [] else n))
    | None \<Rightarrow> (\<forall>u \<in> set (ac_users a). us_id u \<noteq> 0) \<longrightarrow> ReloadTokens fails' now' a' old = None"
proof -
  define row where "row uid = \<lparr>tk_id = ac_next_token a, tk_desc = desc, tk_token = rnd, tk_expiry = x, tk_user = uid\<rparr>" for uid
  let ?uid = "case id_of_name n (ac_users a) of None \<Rightarrow> 0 | Some i \<Rightarrow> i"
  have a': "tok = rnd" "ac_users a' = ac_users a" "ac_tokens a' = ac_tokens a @ [row ?uid]"
    using assms(1,6) by (auto simp: AddToken_def res_simps Let_def row_def)
  have live: "token_live now' (row uid)" for uid using assms(7) by (simp add: token_live_def row_def)
  let ?live = "filter (token_live now') (ac_tokens a)"
  have owned: "list_all (\<lambda>t. user_by_id (tk_user t) (ac_users a) \<noteq> None) ?live"
    using assms(2) by (auto simp: tokens_owned_def list_all_iff)
  show ?thesis
  proof (cases "find (named n) (ac_users a)")
    case None
    then have uid: "?uid = 0" by (simp add: id_of_name_def)
    have "user_by_id 0 (ac_users a) = None" if "\<forall>u \<in> set (ac_users a). us_id u \<noteq> 0"
      using that by (simp add: user_by_id_def find_None_iff)
    then show ?thesis
      using None a' [unfolded uid] live [of 0] assms(8) by (simp add: ReloadTokens_def LoadTokens_def Let_def row_def)
  next
    case (Some u)
    note u = find_named [OF Some]
    have uid: "?uid = us_id u" "user_by_id (us_id u) (ac_users a) = Some u"
      using Some user_by_id_find [OF assms(3)] u by (simp_all add: id_of_name_def)
    let ?m = "\<lambda>t. \<lparr>mt_token = tk_token t, mt_expiry = tk_expiry t, mt_username = us_username (the (user_by_id (tk_user t) (ac_users a)))\<rparr>"
    let ?mem = "map ?m ?live @ [?m (row (us_id u))]"
    have "ReloadTokens fails' now' a' old = Some (Some ?mem)"
      using a' live owned uid assms(8) by (simp add: ReloadTokens_def LoadTokens_def Let_def row_def)
    moreover have "find (\<lambda>t. \<not> (mt_expiry t > 0 \<and> mt_expiry t < now'') \<and> mt_token t = rnd) (map ?m ?live) = None" for now''
      using assms(5) by (auto simp: find_None_iff)
    then have "findUsername tok t (Some ?mem) = (if 0 < x \<and> x < t then [] else n)" for t
      using a'(1) assms(4) uid u by (simp add: findUsername_def find_append row_def)
    ultimately show ?thesis using Some by auto
  qed
qed

theorem new_token_speaks_for_its_owner_witness:
  "\<exists>mem. ReloadTokens ax_ok 100 \<lparr>ac_users = [ax_user], ac_tokens = [\<lparr>tk_id = 1, tk_desc = [], tk_token = ''tok'', tk_expiry = 0, tk_user = 1\<rparr>],
     ac_next_user = 2, ac_next_token = 2\<rparr> None = Some (Some mem) \<and> findUsername ''tok'' 200 (Some mem) = ''admin''"
proof -
  let ?a = "\<lparr>ac_users = [ax_user], ac_tokens = [], ac_next_user = 2, ac_next_token = 1\<rparr>"
  have f: "find (named ''admin'') (ac_users ?a) = Some ax_user" by code_simp
  have "AddToken ax_ok 50 ''tok'' ''admin'' 0 [] ?a = Inr (''tok'', \<lparr>ac_users = [ax_user], ac_tokens = [\<lparr>tk_id = 1, tk_desc = [], tk_token = ''tok'', tk_expiry = 0, tk_user = 1\<rparr>],
     ac_next_user = 2, ac_next_token = 2\<rparr>)" by code_simp
  from new_token_speaks_for_its_owner [OF this, where x = 0 and fails' = ax_ok and old = None and now' = 100] f show ?thesis
    by (auto simp: tokens_owned_def ax_ok_def)
qed

end
