(* ===== verification/WebProps.thy ===== *)
theory WebProps
  imports WebGuard
begin

text \<open>
  The properties of the checks in front of the handlers: where a write may come from, and which address a caller is known by.
\<close>

section \<open>Helpers\<close>

lemma strip_front_keeps:
  "c \<in> set s \<Longrightarrow> (\<And>p. p \<in> set seqs \<Longrightarrow> c \<notin> set p) \<Longrightarrow> c \<in> set (strip_front seqs n s)"
proof (induction n arbitrary: s)
  case (Suc n)
  show ?case
  proof (cases "find (\<lambda>p. p \<noteq> [] \<and> has_prefix s p) seqs")
    case (Some p)
    then have p: "p \<in> set seqs" "has_prefix s p" by (auto simp: find_Some_iff)
    then obtain t where t: "s = p @ t" by (auto simp: has_prefix_iff)
    with Suc.prems p have "c \<in> set t" by auto
    with Some t Suc show ?thesis by simp
  qed (use Suc.prems in simp)
qed simp

lemma TrimSpace_keeps_comma: "CHR '','' \<in> set s \<Longrightarrow> TrimSpace s \<noteq> []"
proof -
  assume "CHR '','' \<in> set s"
  moreover have n: "CHR '','' \<notin> set p" if "p \<in> set space_runes" for p
    using that unfolding space_runes_code by auto
  ultimately have "CHR '','' \<in> set (strip_front space_runes (length s) s)" by (intro strip_front_keeps) auto
  then have "CHR '','' \<in> set (TrimSpace s)"
    unfolding TrimSpace_def Let_def set_rev by (intro strip_front_keeps) (use n in auto)
  then show ?thesis by auto
qed

lemma split_on_append_split: "split_on c (s @ c # t) = split_on c s @ split_on c t"
proof (induction s)
  case (Cons d s)
  then show ?case by (cases "split_on c s") (auto split: list.splits)
qed simp

section \<open>A proxied panel\<close>

definition wx_opt :: guard_options where
  "wx_opt = \<lparr>op_behind = True, op_domain = [], op_port = 2095\<rparr>"

definition wx_request :: web_request where
  "wx_request = \<lparr>rq_method = ''POST'', rq_host = ''127.0.0.1:2095'', rq_origin = ''https://Panel.example.com:8443'', rq_referer = [],
     rq_requested_with = [], rq_forwarded_host = '' panel.example.com''\<rparr>"

definition wx_proxies :: "netprefix list" where
  "wx_proxies = generatedProxyPeers"

section \<open>Properties\<close>

text \<open>
  C35. A write from another site is refused: a state-changing request that names where it comes from passes only if that host is one
  the panel answers to -- unless the panel is behind a proxy and every name it could compare with is its own socket, an
  address with the panel's port that is this machine's, private, link-local or shared address space, which no browser out on
  the internet can have dialled.
\<close>

theorem cross_site_writes_are_refused:
  assumes "rq_method rq \<notin> {''GET'', ''HEAD'', ''OPTIONS''}"
    and "origin = (if rq_origin rq = [] then rq_referer rq else rq_origin rq)" and "origin \<noteq> []"
    and "fst (SameOrigin eqf opt rq warned) = Next"
    and "op_behind opt \<longrightarrow> (\<exists>c \<in> set (candidateHosts opt rq). \<forall>h. SplitHostPort c = Some (h, Itoa (op_port opt)) \<longrightarrow>
      \<not> EqualFold eqf h ''localhost'' \<and> (\<forall>a. ParseAddr h = Some a \<longrightarrow> \<not> unroutable (Unmap a)))"
  shows "\<exists>u. url_parse origin = Some u \<and>
    (\<exists>c \<in> set (candidateHosts opt rq). EqualFold eqf (hostname (ur_host u)) (hostname c))"
proof -
  have "\<not> inconclusive eqf opt (candidateHosts opt rq)"
  proof (cases "op_behind opt")
    case True
    with assms(5) obtain c where "c \<in> set (candidateHosts opt rq)" "\<not> hostIsOwnSocket eqf c (op_port opt)"
      unfolding own_socket_iff by blast
    with True show ?thesis by (auto simp: inconclusive_def list_all_iff)
  qed (simp add: inconclusive_def)
  with SameOrigin_Next [OF assms(1-4)] show ?thesis by blast
qed

theorem cross_site_writes_are_refused_witness:
  "\<exists>u. url_parse ''https://Panel.example.com:8443'' = Some u \<and>
    (\<exists>c \<in> set (candidateHosts wx_opt wx_request). EqualFold (=) (hostname (ur_host u)) (hostname c))"
proof -
  have passes: "fst (SameOrigin (=) wx_opt wx_request False) = Next" by code_simp
  have "candidateHosts wx_opt wx_request = [''127.0.0.1:2095'', ''panel.example.com'']" by code_simp
  moreover have "SplitHostPort ''panel.example.com'' = None" by code_simp
  ultimately have "\<exists>c \<in> set (candidateHosts wx_opt wx_request). \<forall>h. SplitHostPort c = Some (h, Itoa (op_port wx_opt)) \<longrightarrow>
      \<not> EqualFold (=) h ''localhost'' \<and> (\<forall>a. ParseAddr h = Some a \<longrightarrow> \<not> unroutable (Unmap a))" by simp
  then show ?thesis
    by (intro cross_site_writes_are_refused [OF _ _ _ passes]) (auto simp: wx_request_def)
qed

text \<open>
  C36. A caller cannot choose the address it is known by: behind trusted proxies it is the hop the first of them saw, whatever the
  caller wrote into the header before it, and without a trusted peer the header is not looked at.
\<close>

theorem forged_hops_never_win:
  assumes "SplitHostPort remote = Some (h, p)" and "ParseAddr h = Some peer"
    and "ParseAddr (TrimSpace hop) = Some a" and "\<not> addressInPrefixes (Unmap a) trusted"
    and "\<forall>q \<in> set (hop # proxies). CHR '','' \<notin> set q"
    and "\<forall>q \<in> set proxies. \<exists>b. ParseAddr (TrimSpace q) = Some b \<and> addressInPrefixes (Unmap b) trusted"
  shows "clientIP remote (forged @ '','' @ join_with '','' (hop # proxies)) trusted =
    addr_string (if addressInPrefixes (Unmap peer) trusted then Unmap a else Unmap peer)"
proof -
  let ?hdr = "forged @ '','' @ join_with '','' (hop # proxies)"
  have "split_on CHR '','' (join_with '','' (hop # proxies)) = hop # proxies"
    using assms(5) by (intro split_on_join) blast+
  then have "split_on CHR '','' ?hdr = split_on CHR '','' forged @ hop # proxies" by (simp add: split_on_append_split)
  then have "rev (split_on CHR '','' ?hdr) = rev proxies @ hop # rev (split_on CHR '','' forged)" by simp
  moreover obtain l where "forwarded_hop trusted (Unmap peer) (Unmap peer) (rev proxies @ hop # rev (split_on CHR '','' forged)) =
      forwarded_hop trusted (Unmap peer) l (hop # rev (split_on CHR '','' forged))"
    using forwarded_hop_trusted [of "rev proxies" trusted "Unmap peer" "Unmap peer" "hop # rev (split_on CHR '','' forged)"] assms(6)
    unfolding set_rev by blast
  ultimately have "forwarded_hop trusted (Unmap peer) (Unmap peer) (rev (split_on CHR '','' ?hdr)) = Unmap a"
    using assms(3,4) by (simp add: Let_def)
  moreover have "TrimSpace ?hdr \<noteq> []" by (rule TrimSpace_keeps_comma) simp
  ultimately show ?thesis using assms(1,2) unfolding clientIP_def Let_def by simp
qed

theorem forged_hops_never_win_witness:
  "clientIP ''127.0.0.1:40000'' ''198.51.100.9, 10.0.0.1, 203.0.113.7,::1'' wx_proxies = ''203.0.113.7''"
proof -
  have a: "SplitHostPort ''127.0.0.1:40000'' = Some (''127.0.0.1'', ''40000'')" "ParseAddr ''127.0.0.1'' = Some (V4 0x7F000001)"
    "ParseAddr (TrimSpace '' 203.0.113.7'') = Some (V4 0xCB007107)" "\<not> addressInPrefixes (Unmap (V4 0xCB007107)) wx_proxies"
    "ParseAddr (TrimSpace ''::1'') = Some (V6 1 [])" "addressInPrefixes (Unmap (V6 1 [])) wx_proxies"
    "addressInPrefixes (Unmap (V4 0x7F000001)) wx_proxies" "addr_string (Unmap (V4 0xCB007107)) = ''203.0.113.7''"
    by code_simp+
  from forged_hops_never_win [OF a(1-4), of "[''::1'']" "''198.51.100.9, 10.0.0.1''"] a(5-8) show ?thesis by simp
qed

end
