(* ===== verification/ShareLink.thy ===== *)
theory ShareLink
  imports Encoding WebGuard NodeSync
begin

text \<open>
  \<^verbatim>\<open>util/genLink.go\<close>, \<^verbatim>\<open>util/base64.go\<close>, \<^verbatim>\<open>util/coerce.go\<close> and the TLS readers of \<^verbatim>\<open>util/outJson.go\<close>: the links handed to
  subscribers. A \<^verbatim>\<open>map[string]interface\<close> is an association list of JSON values. A number is its text; what Go prints for it with
  \<open>%.0f\<close>, the integer it truncates to and its sign are computed for the integers of up to fifteen digits and are arguments otherwise, as
  are the JSON encoder, the two JSON decoders (with and without exact numbers), the digest of a certificate and the drawing of a random index.
\<close>

type_synonym jobj = "(string \<times> json) list"

record link_env =
  lk_fmt :: "string \<Rightarrow> string"
  lk_int :: "string \<Rightarrow> int"
  lk_pos :: "string \<Rightarrow> bool"
  lk_marshal :: "json \<Rightarrow> string"
  lk_unmarshal :: "string \<Rightarrow> jobj option"
  lk_decode :: "string \<Rightarrow> jobj option"
  lk_lower :: "string \<Rightarrow> string"
  lk_eqf :: "string \<Rightarrow> string \<Rightarrow> bool"
  lk_cert :: "jobj \<Rightarrow> string"
  lk_pick :: "nat \<Rightarrow> nat"

definition small_int :: "string \<Rightarrow> bool" where
  "small_int t \<longleftrightarrow> t \<noteq> [] \<and> length t \<le> 15 \<and> list_all is_digit t \<and> (hd t = CHR ''0'' \<longrightarrow> t = ''0'')"

definition fmt0 :: "link_env \<Rightarrow> string \<Rightarrow> string" where
  "fmt0 e t = (if small_int t then t else lk_fmt e t)"

definition trunc :: "link_env \<Rightarrow> string \<Rightarrow> int" where
  "trunc e t = (if small_int t then dec_value t else lk_int e t)"

definition positive :: "link_env \<Rightarrow> string \<Rightarrow> bool" where
  "positive e t \<longleftrightarrow> (if small_int t then t \<noteq> ''0'' else lk_pos e t)"

section \<open>Reading values\<close>

definition jstr :: "jobj \<Rightarrow> string \<Rightarrow> string option" where
  "jstr ob k = (case map_of ob k of Some (JStr s) \<Rightarrow> Some s | _ \<Rightarrow> None)"

definition jnum :: "jobj \<Rightarrow> string \<Rightarrow> string option" where
  "jnum ob k = (case map_of ob k of Some (JNum t) \<Rightarrow> Some t | _ \<Rightarrow> None)"

definition jmap :: "jobj \<Rightarrow> string \<Rightarrow> jobj option" where
  "jmap ob k = (case map_of ob k of Some (JObj m) \<Rightarrow> Some m | _ \<Rightarrow> None)"

definition jtrue :: "jobj \<Rightarrow> string \<Rightarrow> bool" where
  "jtrue ob k \<longleftrightarrow> map_of ob k = Some (JBool True)"

definition jtext :: "jobj \<Rightarrow> string \<Rightarrow> string" where
  "jtext ob k = (case jstr ob k of None \<Rightarrow> [] | Some s \<Rightarrow> s)"

definition AsBool :: "json option \<Rightarrow> bool" where
  "AsBool v = (case v of Some (JBool b) \<Rightarrow> b | _ \<Rightarrow> False)"

definition AsStringList :: "json option \<Rightarrow> string list" where
  "AsStringList v =
     (case v of
        Some (JStr s) \<Rightarrow> if s = [] then [] else [s]
      | Some (JArr vs) \<Rightarrow> List.map_filter (\<lambda>x. case x of JStr s \<Rightarrow> Some s | _ \<Rightarrow> None) vs
      | _ \<Rightarrow> [])"

definition TlsServerName :: "jobj \<Rightarrow> string" where
  "TlsServerName tls = TrimSpace (jtext tls ''server_name'')"

definition serverOnlyTlsFields :: "string list" where
  "serverOnlyTlsFields = [''certificate_path'', ''key'', ''key_path'', ''acme'', ''certificate_provider'']"

definition serverOnlyEchFields :: "string list" where
  "serverOnlyEchFields = [''key'', ''key_path'']"

definition strip_keys :: "string list \<Rightarrow> jobj \<Rightarrow> jobj" where
  "strip_keys ks ob = filter (\<lambda>(k, _). k \<notin> set ks) ob"

definition StripServerTlsFields :: "jobj \<Rightarrow> jobj" where
  "StripServerTlsFields tls =
     (let t = strip_keys serverOnlyTlsFields tls
      in case jmap t ''ech'' of
           None \<Rightarrow> t
         | Some ech \<Rightarrow> gput ''ech'' (JObj (strip_keys serverOnlyEchFields ech)) t)"

section \<open>Base64\<close>

definition decodeAnyBase64 :: "string \<Rightarrow> string option" where
  "decodeAnyBase64 s =
     (case base64_decode False True s of
        Some b \<Rightarrow> Some b
      | None \<Rightarrow>
          (case base64_decode True False s of
             Some b \<Rightarrow> Some b
           | None \<Rightarrow> (case base64_decode False False s of Some b \<Rightarrow> Some b | None \<Rightarrow> base64_decode True True s)))"

definition StrOrBase64Encoded :: "string \<Rightarrow> string" where
  "StrOrBase64Encoded s = (case base64_decode False True s of Some b \<Rightarrow> b | None \<Rightarrow> s)"

definition StrOrBase64AnyEncoded :: "string \<Rightarrow> string" where
  "StrOrBase64AnyEncoded s = (case decodeAnyBase64 s of Some b \<Rightarrow> b | None \<Rightarrow> s)"

definition B64StrToByte :: "string \<Rightarrow> string option" where
  "B64StrToByte s = decodeAnyBase64 (TrimSpace s)"

definition toBase64 :: "string \<Rightarrow> string" where
  "toBase64 s = base64_encode False True s"

section \<open>Query parameters\<close>

type_synonym link_param = "string \<times> string"

definition raw_char_ok :: "string \<Rightarrow> char \<Rightarrow> bool" where
  "raw_char_ok key c \<longleftrightarrow>
     is_digit c \<or>
     key = ''mport'' \<and> c \<in> set '',-:'' \<or>
     key = ''alpn'' \<and> (is_letter c \<or> c \<in> set '',.-/+'')"

definition rawParamIsSafe :: "string \<Rightarrow> string \<Rightarrow> bool" where
  "rawParamIsSafe key v \<longleftrightarrow> v \<noteq> [] \<and> list_all (raw_char_ok key) v"

definition encode_param :: "link_param \<Rightarrow> string list" where
  "encode_param p =
     (case p of (k, v) \<Rightarrow>
        if k = ''mport'' \<or> k = ''alpn'' then (if rawParamIsSafe k v then [k @ ''='' @ v] else [])
        else [k @ ''='' @ QueryEscape v])"

definition encodeParams :: "link_param list \<Rightarrow> string" where
  "encodeParams ps = join_with ''&'' (concat (map encode_param ps))"

text \<open>The port is already printed.\<close>

definition linkURL :: "string \<Rightarrow> (string \<times> string option) option \<Rightarrow> string \<Rightarrow> string \<Rightarrow> link_param list \<Rightarrow> string \<Rightarrow> string" where
  "linkURL sch usr host port params remark =
     url_string (host_url sch usr (HostForURI host @ '':'' @ port) (encodeParams params) remark)"

definition addParams :: "string \<Rightarrow> link_param list \<Rightarrow> string \<Rightarrow> string" where
  "addParams uri params remark =
     (case url_parse uri of
        None \<Rightarrow>
          uri @ (if encodeParams params \<noteq> [] then ''?'' @ encodeParams params else []) @
          (if remark \<noteq> [] then ''#'' @ PathEscape remark else [])
      | Some u \<Rightarrow> url_string (u\<lparr>ur_query := encodeParams params, ur_fragment := remark\<rparr>))"

definition port_text :: "link_env \<Rightarrow> jobj \<Rightarrow> string" where
  "port_text e addr = fmt0 e (case jnum addr ''server_port'' of None \<Rightarrow> ''0'' | Some t \<Rightarrow> t)"

section \<open>Port hopping\<close>

text \<open>The entries of a list that are texts or numbers.\<close>

definition port_entries :: "link_env \<Rightarrow> json option \<Rightarrow> string list" where
  "port_entries e v =
     (case v of
        Some (JArr vs) \<Rightarrow> List.map_filter (\<lambda>x. case x of JStr s \<Rightarrow> Some s | JNum t \<Rightarrow> Some (fmt0 e t) | _ \<Rightarrow> None) vs
      | _ \<Rightarrow> [])"

definition replace_char :: "char \<Rightarrow> char \<Rightarrow> string \<Rightarrow> string" where
  "replace_char a b s = map (\<lambda>c. if c = a then b else c) s"

definition render_port :: "string \<Rightarrow> string" where
  "render_port port =
     (case cut CHR '':'' port of
        (start, Some en) \<Rightarrow> replace_char CHR '':'' CHR ''-'' (if start = en then start else port)
      | (_, None) \<Rightarrow> replace_char CHR '':'' CHR ''-'' port)"

definition PortHoppingRanges :: "link_env \<Rightarrow> json option \<Rightarrow> string" where
  "PortHoppingRanges e v = join_with '','' (map render_port (port_entries e v))"

text \<open>\<^verbatim>\<open>strconv.ParseUint(s, 10, 16)\<close> succeeds.\<close>

definition is_uint16 :: "string \<Rightarrow> bool" where
  "is_uint16 s \<longleftrightarrow> s \<noteq> [] \<and> list_all is_digit s \<and> dec_value s < 2 ^ 16"

definition normalizePortRange :: "string \<Rightarrow> string" where
  "normalizePortRange entry0 =
     (let entry = replace_char CHR ''-'' CHR '':'' (TrimSpace entry0)
      in if entry = [] then []
         else
           case cut CHR '':'' entry of
             (start, r) \<Rightarrow>
               let en = (case r of None \<Rightarrow> start | Some t \<Rightarrow> t)
               in if is_uint16 start \<and> is_uint16 en then start @ '':'' @ en else [])"

definition normalize_ports :: "string list \<Rightarrow> string list" where
  "normalize_ports es = filter (\<lambda>p. p \<noteq> []) (map normalizePortRange es)"

definition NormalizePortRanges :: "link_env \<Rightarrow> json option \<Rightarrow> string list" where
  "NormalizePortRanges e v = normalize_ports (port_entries e v)"

definition serverPortsFromMport :: "string \<Rightarrow> string list" where
  "serverPortsFromMport mport = (if mport = [] then [] else normalize_ports (split_on CHR '','' mport))"

text \<open>\<^verbatim>\<open>out_json\<close> as the column has it: the decoded object, or none for no bytes or a text that does not decode.\<close>

definition portHoppingParam :: "link_env \<Rightarrow> jobj option \<Rightarrow> string" where
  "portHoppingParam e out = (case out of None \<Rightarrow> [] | Some ob \<Rightarrow> PortHoppingRanges e (map_of ob ''server_ports''))"

section \<open>Transport and TLS parameters\<close>

definition getTransportParams :: "link_env \<Rightarrow> json option \<Rightarrow> link_param list" where
  "getTransportParams e t =
     (let tr = (case t of Some (JObj m) \<Rightarrow> m | _ \<Rightarrow> []);
          tt = (case jstr tr ''type'' of None \<Rightarrow> ''tcp'' | Some s \<Rightarrow> s)
      in (''type'', tt) #
         (if tt = ''tcp'' then []
          else if tt = ''http'' then
            (let hosts = AsStringList (map_of tr ''host'')
             in (if hosts \<noteq> [] then [(''host'', join_with '','' hosts)] else [])) @
            (case jstr tr ''path'' of None \<Rightarrow> [] | Some p \<Rightarrow> [(''path'', p)])
          else if tt = ''ws'' then
            (case jstr tr ''path'' of
               None \<Rightarrow> []
             | Some p \<Rightarrow>
                 (case jnum tr ''max_early_data'' of
                    None \<Rightarrow> [(''path'', p)]
                  | Some ed \<Rightarrow>
                      if positive e ed \<and> jtext tr ''early_data_header_name'' = ''Sec-WebSocket-Protocol'' then
                        [(''path'', p @ (if CHR ''?'' \<in> set p then ''&'' else ''?'') @ ''ed='' @ Itoa (trunc e ed))]
                      else [(''path'', p)])) @
            (case jmap tr ''headers'' of
               None \<Rightarrow> []
             | Some h \<Rightarrow> (case jstr h ''Host'' of None \<Rightarrow> [] | Some s \<Rightarrow> [(''host'', s)]))
          else if tt = ''grpc'' then
            (case jstr tr ''service_name'' of None \<Rightarrow> [] | Some s \<Rightarrow> [(''serviceName'', s)])
          else if tt = ''httpupgrade'' then
            (case jstr tr ''host'' of None \<Rightarrow> [] | Some s \<Rightarrow> [(''host'', s)]) @
            (case jstr tr ''path'' of None \<Rightarrow> [] | Some p \<Rightarrow> [(''path'', p)])
          else []))"

definition insecureKeyFor :: "string \<Rightarrow> string" where
  "insecureKeyFor protocol = (if protocol \<in> {''vless'', ''trojan'', ''vmess''} then ''allowInsecure'' else ''insecure'')"

definition pcsKeyFor :: "string \<Rightarrow> string" where
  "pcsKeyFor protocol = (if protocol \<in> {''hysteria'', ''hysteria2''} then ''pinSHA256'' else ''pcs'')"

definition getTlsParams :: "jobj \<Rightarrow> string \<Rightarrow> link_param list" where
  "getTlsParams tls protocol =
     (case jmap tls ''reality'' of
        Some reality \<Rightarrow>
          if AsBool (map_of reality ''enabled'') then
            [(''security'', ''reality'')] @
            (case jstr reality ''public_key'' of None \<Rightarrow> [] | Some s \<Rightarrow> [(''pbk'', s)]) @
            (case jstr reality ''short_id'' of None \<Rightarrow> [] | Some s \<Rightarrow> [(''sid'', s)])
          else
            [(''security'', ''tls'')] @
            (if jtrue tls ''insecure'' then [(insecureKeyFor protocol, ''1'')] else []) @
            (if jtext tls ''pinSHA256'' \<noteq> [] then [(pcsKeyFor protocol, jtext tls ''pinSHA256'')] else []) @
            (if jtrue tls ''disable_sni'' then [(''disable_sni'', ''1'')] else [])
      | None \<Rightarrow>
          [(''security'', ''tls'')] @
          (if jtrue tls ''insecure'' then [(insecureKeyFor protocol, ''1'')] else []) @
          (if jtext tls ''pinSHA256'' \<noteq> [] then [(pcsKeyFor protocol, jtext tls ''pinSHA256'')] else []) @
          (if jtrue tls ''disable_sni'' then [(''disable_sni'', ''1'')] else [])) @
     (case jmap tls ''utls'' of
        None \<Rightarrow> []
      | Some u \<Rightarrow> (case jstr u ''fingerprint'' of None \<Rightarrow> [] | Some s \<Rightarrow> [(''fp'', s)])) @
     (if TlsServerName tls \<noteq> [] then [(''sni'', TlsServerName tls)] else []) @
     (if AsStringList (map_of tls ''alpn'') \<noteq> [] then [(''alpn'', join_with '','' (AsStringList (map_of tls ''alpn'')))] else [])"

section \<open>Links by protocol\<close>

definition proxyUserinfo :: "jobj \<Rightarrow> (string \<times> string option) option" where
  "proxyUserinfo cfg =
     (let user = jtext cfg ''username''; pass = jtext cfg ''password''
      in if user = [] \<and> pass = [] then None else Some (user, Some pass))"

definition tls_enabled :: "jobj \<Rightarrow> bool" where
  "tls_enabled addr = (case jmap addr ''tls'' of None \<Rightarrow> False | Some tls \<Rightarrow> AsBool (map_of tls ''enabled''))"

definition socksLink :: "link_env \<Rightarrow> jobj \<Rightarrow> jobj list \<Rightarrow> string \<Rightarrow> string list" where
  "socksLink e cfg addrs sfx =
     map (\<lambda>addr. linkURL ''socks5'' (proxyUserinfo cfg) (jtext addr ''server'') (port_text e addr) []
       (jtext addr ''remark'' @ sfx)) addrs"

definition httpLink :: "link_env \<Rightarrow> jobj \<Rightarrow> jobj list \<Rightarrow> string \<Rightarrow> string list" where
  "httpLink e cfg addrs sfx =
     map (\<lambda>addr. linkURL (if tls_enabled addr then ''https'' else ''http'') (proxyUserinfo cfg) (jtext addr ''server'')
       (port_text e addr) [] (jtext addr ''remark'' @ sfx)) addrs"

definition ShadowsocksClientConfigKey :: "string \<Rightarrow> string" where
  "ShadowsocksClientConfigKey method = (if method = ''2022-blake3-aes-128-gcm'' then ''shadowsocks16'' else ''shadowsocks'')"

definition shadowsocks_secret :: "(string \<times> jobj) list \<Rightarrow> jobj \<Rightarrow> string" where
  "shadowsocks_secret user inbound =
     (let method = jtext inbound ''method'';
          own = (case map_of user (ShadowsocksClientConfigKey method) of None \<Rightarrow> [] | Some c \<Rightarrow> jtext c ''password'')
      in join_with '':'' ((if has_prefix method ''2022'' then [jtext inbound ''password''] else []) @ [own]))"

definition shadowsocksLink :: "link_env \<Rightarrow> (string \<times> jobj) list \<Rightarrow> jobj \<Rightarrow> jobj option \<Rightarrow> jobj list \<Rightarrow> string list" where
  "shadowsocksLink e user inbound out addrs =
     (let method = jtext inbound ''method'';
          userInfo = base64_encode True False (method @ '':'' @ shadowsocks_secret user inbound);
          plugin = (case out of None \<Rightarrow> [] | Some ob \<Rightarrow> jtext ob ''plugin'');
          opts = (case out of None \<Rightarrow> [] | Some ob \<Rightarrow> jtext ob ''plugin_opts'');
          params = (if plugin \<noteq> [] then [(''plugin'', plugin @ (if opts \<noteq> [] then '';'' @ opts else []))] else [])
      in map (\<lambda>addr. ''ss://'' @ userInfo @ ''@'' @ drop 5 (url_string (host_url ''ss'' None
              (HostForURI (jtext addr ''server'') @ '':'' @ port_text e addr) (encodeParams params) (jtext addr ''remark''))))
           addrs)"

definition tfo_param :: "string \<Rightarrow> jobj \<Rightarrow> link_param list" where
  "tfo_param key inbound = [(key, if jtrue inbound ''tcp_fast_open'' then ''1'' else ''0'')]"

definition naive_params :: "jobj \<Rightarrow> jobj \<Rightarrow> link_param list" where
  "naive_params inbound addr =
     [(''padding'', ''1'')] @
     (case jmap addr ''tls'' of
        None \<Rightarrow> []
      | Some tls \<Rightarrow>
          (if TlsServerName tls \<noteq> [] then [(''peer'', TlsServerName tls)] else []) @
          (if AsStringList (map_of tls ''alpn'') \<noteq> [] then [(''alpn'', join_with '','' (AsStringList (map_of tls ''alpn'')))] else []) @
          (if jtrue tls ''insecure'' then [(''insecure'', ''1'')] else [])) @
     tfo_param ''tfo'' inbound"

definition naiveLink :: "link_env \<Rightarrow> jobj \<Rightarrow> jobj \<Rightarrow> jobj list \<Rightarrow> string list" where
  "naiveLink e cfg inbound addrs =
     (let password = jtext cfg ''password''; username = jtext cfg ''username'';
          network = jtext inbound ''network'';
          schemes = (if network = ''tcp'' then [''naive+https''] else if network = ''udp'' then [''naive+quic'']
                     else [''naive+https'', ''naive+quic''])
      in concat (map (\<lambda>addr.
           let params = naive_params inbound addr; port = port_text e addr; server = jtext addr ''server''; remark = jtext addr ''remark''
           in addParams (''http2://'' @ toBase64 (username @ '':'' @ password @ ''@'' @ HostForURI server @ '':'' @ port)) params remark #
              map (\<lambda>scheme. linkURL scheme (Some (username, Some password)) server port params
                (remark @ (if scheme = ''naive+quic'' then ''-h3'' else ''-h2''))) schemes) addrs))"

definition mbps_params :: "link_env \<Rightarrow> jobj \<Rightarrow> link_param list" where
  "mbps_params e inbound =
     (case jnum inbound ''up_mbps'' of None \<Rightarrow> [] | Some t \<Rightarrow> [(''downmbps'', fmt0 e t)]) @
     (case jnum inbound ''down_mbps'' of None \<Rightarrow> [] | Some t \<Rightarrow> [(''upmbps'', fmt0 e t)])"

definition tls_params :: "jobj \<Rightarrow> string \<Rightarrow> link_param list" where
  "tls_params addr protocol = (case jmap addr ''tls'' of None \<Rightarrow> [] | Some tls \<Rightarrow> getTlsParams tls protocol)"

definition hysteria_params :: "link_env \<Rightarrow> jobj \<Rightarrow> jobj \<Rightarrow> jobj option \<Rightarrow> jobj \<Rightarrow> link_param list" where
  "hysteria_params e cfg inbound out addr =
     mbps_params e inbound @
     (case jstr cfg ''auth_str'' of None \<Rightarrow> [] | Some s \<Rightarrow> [(''auth'', s)]) @
     tls_params addr ''hysteria'' @
     (case jstr inbound ''obfs'' of None \<Rightarrow> [] | Some s \<Rightarrow> [(''obfs'', s)]) @
     tfo_param ''fastopen'' inbound @
     (if portHoppingParam e out \<noteq> [] then [(''mport'', portHoppingParam e out)] else [])"

definition hysteriaLink :: "link_env \<Rightarrow> jobj \<Rightarrow> jobj \<Rightarrow> jobj option \<Rightarrow> jobj list \<Rightarrow> string list" where
  "hysteriaLink e cfg inbound out addrs =
     map (\<lambda>addr. linkURL ''hysteria'' None (jtext addr ''server'') (port_text e addr) (hysteria_params e cfg inbound out addr)
       (jtext addr ''remark'')) addrs"

definition hysteria2_params :: "link_env \<Rightarrow> jobj \<Rightarrow> jobj option \<Rightarrow> jobj \<Rightarrow> link_param list" where
  "hysteria2_params e inbound out addr =
     mbps_params e inbound @
     tls_params addr ''hysteria2'' @
     (case jmap inbound ''obfs'' of
        None \<Rightarrow> []
      | Some ob \<Rightarrow>
          (case jstr ob ''type'' of None \<Rightarrow> [] | Some s \<Rightarrow> [(''obfs'', s)]) @
          (case jstr ob ''password'' of None \<Rightarrow> [] | Some s \<Rightarrow> [(''obfs-password'', s)])) @
     tfo_param ''fastopen'' inbound @
     (if portHoppingParam e out \<noteq> [] then [(''mport'', portHoppingParam e out)] else [])"

definition hysteria2Link :: "link_env \<Rightarrow> jobj \<Rightarrow> jobj \<Rightarrow> jobj option \<Rightarrow> jobj list \<Rightarrow> string list" where
  "hysteria2Link e cfg inbound out addrs =
     map (\<lambda>addr. linkURL ''hysteria2'' (Some (jtext cfg ''password'', None)) (jtext addr ''server'') (port_text e addr)
       (hysteria2_params e inbound out addr) (jtext addr ''remark'')) addrs"

definition anytlsLink :: "link_env \<Rightarrow> jobj \<Rightarrow> jobj list \<Rightarrow> string list" where
  "anytlsLink e cfg addrs =
     map (\<lambda>addr. linkURL ''anytls'' (Some (jtext cfg ''password'', None)) (jtext addr ''server'') (port_text e addr)
       (tls_params addr ''anytls'') (jtext addr ''remark'')) addrs"

definition tuic_params :: "jobj \<Rightarrow> jobj option \<Rightarrow> jobj \<Rightarrow> link_param list" where
  "tuic_params inbound out addr =
     tls_params addr ''tuic'' @
     (case jstr inbound ''congestion_control'' of None \<Rightarrow> [] | Some s \<Rightarrow> [(''congestion_control'', s)]) @
     (let m = (case out of None \<Rightarrow> [] | Some ob \<Rightarrow> jtext ob ''udp_relay_mode'') in if m \<noteq> [] then [(''udp_relay_mode'', m)] else [])"

definition tuicLink :: "link_env \<Rightarrow> jobj \<Rightarrow> jobj \<Rightarrow> jobj option \<Rightarrow> jobj list \<Rightarrow> string list" where
  "tuicLink e cfg inbound out addrs =
     map (\<lambda>addr. linkURL ''tuic'' (Some (jtext cfg ''uuid'', Some (jtext cfg ''password''))) (jtext addr ''server'') (port_text e addr)
       (tuic_params inbound out addr) (jtext addr ''remark'')) addrs"

definition vless_params :: "link_env \<Rightarrow> jobj \<Rightarrow> jobj \<Rightarrow> jobj \<Rightarrow> link_param list" where
  "vless_params e cfg inbound addr =
     (let base = getTransportParams e (map_of inbound ''transport''); isTcp = (length base = 1 \<and> snd (hd base) = ''tcp'')
      in base @
         (if tls_enabled addr then
            tls_params addr ''vless'' @
            (case jstr cfg ''flow'' of None \<Rightarrow> [] | Some f \<Rightarrow> if isTcp then [(''flow'', f)] else [])
          else []))"

definition vlessLink :: "link_env \<Rightarrow> jobj \<Rightarrow> jobj \<Rightarrow> jobj list \<Rightarrow> string list" where
  "vlessLink e cfg inbound addrs =
     map (\<lambda>addr. linkURL ''vless'' (Some (jtext cfg ''uuid'', None)) (jtext addr ''server'') (port_text e addr)
       (vless_params e cfg inbound addr) (jtext addr ''remark'')) addrs"

definition trojan_params :: "link_env \<Rightarrow> jobj \<Rightarrow> jobj \<Rightarrow> link_param list" where
  "trojan_params e inbound addr =
     getTransportParams e (map_of inbound ''transport'') @ (if tls_enabled addr then tls_params addr ''trojan'' else [])"

definition trojanLink :: "link_env \<Rightarrow> jobj \<Rightarrow> jobj \<Rightarrow> jobj list \<Rightarrow> string list" where
  "trojanLink e cfg inbound addrs =
     map (\<lambda>addr. linkURL ''trojan'' (Some (jtext cfg ''password'', None)) (jtext addr ''server'') (port_text e addr)
       (trojan_params e inbound addr) (jtext addr ''remark'')) addrs"

text \<open>The last value of a parameter wins in the loop; an empty path is filled from the service name.\<close>

definition last_param :: "string \<Rightarrow> link_param list \<Rightarrow> string" where
  "last_param k ps = fold (\<lambda>(k', v) acc. if k' = k then v else acc) ps []"

definition vmess_path :: "link_param list \<Rightarrow> string" where
  "vmess_path ps =
     fold (\<lambda>(k, v) path. if k = ''path'' then v else if k = ''serviceName'' \<and> path = [] then v else path) ps []"

definition populateVmessTlsParams :: "jobj option \<Rightarrow> jobj" where
  "populateVmessTlsParams tls =
     (case tls of
        None \<Rightarrow> [(''tls'', JStr ''none'')]
      | Some m \<Rightarrow>
          if AsBool (map_of m ''enabled'') then
            fold (\<lambda>(k, v) ob.
              if k = ''allowInsecure'' then gput k (JNum ''1'') ob
              else if k = ''sni'' \<or> k = ''fp'' \<or> k = ''alpn'' then gput k (JStr v) ob else ob)
              (getTlsParams m ''vmess'') [(''tls'', JStr ''tls'')]
          else [(''tls'', JStr ''none'')])"

definition vmess_object :: "link_env \<Rightarrow> jobj \<Rightarrow> jobj \<Rightarrow> jobj \<Rightarrow> jobj" where
  "vmess_object e cfg inbound addr =
     (let ps = getTransportParams e (map_of inbound ''transport''); nt = last_param ''type'' ps; host = last_param ''host'' ps;
          path = vmess_path ps
      in [(''v'', JStr ''2''), (''id'', JStr (jtext cfg ''uuid'')), (''aid'', JNum ''0''),
          (''net'', JStr (if nt = ''http'' \<or> nt = ''tcp'' then ''tcp'' else nt)),
          (''add'', JStr (jtext addr ''server'')), (''port'', JStr (port_text e addr)), (''ps'', JStr (jtext addr ''remark''))] @
         (if nt = ''http'' then [(''type'', JStr ''http'')] else []) @
         (if host \<noteq> [] then [(''host'', JStr host)] else []) @
         (if path \<noteq> [] then [(''path'', JStr path)] else []) @
         populateVmessTlsParams (jmap addr ''tls''))"

definition vmessLink :: "link_env \<Rightarrow> jobj \<Rightarrow> jobj \<Rightarrow> jobj list \<Rightarrow> string list" where
  "vmessLink e cfg inbound addrs =
     map (\<lambda>addr. ''vmess://'' @ toBase64 (lk_marshal e (JObj (vmess_object e cfg inbound addr)))) addrs"

section \<open>One inbound\<close>

definition JoinRemark :: "string \<Rightarrow> string \<Rightarrow> string" where
  "JoinRemark client inbound = (if client \<noteq> [] then client @ ''-'' @ inbound else inbound)"

text \<open>
  \<^verbatim>\<open>prepareTls\<close>: the client half of a TLS row, completed from the server half; none when a half does not decode. The loop over the
  server half touches different keys, so its order does not matter.
\<close>

definition merge_reality :: "link_env \<Rightarrow> json \<Rightarrow> jobj \<Rightarrow> jobj" where
  "merge_reality e v ob =
     (case v of
        JObj reality \<Rightarrow>
          let cr0 = (case jmap ob ''reality'' of None \<Rightarrow> [] | Some m \<Rightarrow> m);
              cr1 = gput ''enabled'' (case map_of reality ''enabled'' of None \<Rightarrow> JNull | Some x \<Rightarrow> x) cr0;
              ids = AsStringList (map_of reality ''short_id'');
              cr2 = (if ids \<noteq> [] then gput ''short_id'' (JStr (ids ! (lk_pick e (length ids) mod length ids))) cr1 else cr1)
          in gput ''reality'' (JObj cr2) ob
      | _ \<Rightarrow> ob)"

definition prepareTls :: "link_env \<Rightarrow> jobj res \<Rightarrow> jobj res \<Rightarrow> jobj option" where
  "prepareTls e client server =
     (case client of
        Inl _ \<Rightarrow> None
      | Inr ob \<Rightarrow>
          (case server of
             Inl _ \<Rightarrow> None
           | Inr i \<Rightarrow>
               let o1 = (if (case map_of ob ''certificate_public_key_sha256'' of None \<Rightarrow> False | Some v \<Rightarrow> v \<noteq> JNull)
                         then gput ''pinSHA256'' (JStr (lk_cert e i)) ob else ob)
               in Some (StripServerTlsFields
                    (fold (\<lambda>(k, v) t.
                       if k = ''enabled'' \<or> k = ''alpn'' then gput k v t
                       else if k = ''server_name'' then (if TlsServerName i \<noteq> [] then gput k (JStr (TlsServerName i)) t else t)
                       else if k = ''reality'' then merge_reality e v t else t) i o1))))"

record link_inbound =
  li_type :: string
  li_tag :: string
  li_tls :: "(jobj res \<times> jobj res) option"
  li_full :: "jobj res"
  li_addrs :: "jobj list res"
  li_out :: "jobj option"

definition link_addrs :: "link_env \<Rightarrow> link_inbound \<Rightarrow> string \<Rightarrow> string \<Rightarrow> jobj \<Rightarrow> jobj list \<Rightarrow> jobj list" where
  "link_addrs e i host_name clientRemark inbound addrs =
     (let tls = (case li_tls i of None \<Rightarrow> None | Some (c, s) \<Rightarrow> Some (prepareTls e c s));
          with_tls = (\<lambda>addr. case tls of
              None \<Rightarrow> addr
            | Some t \<Rightarrow>
                gput ''tls'' (JObj (fold (\<lambda>(k, v). gput k v) (case jmap addr ''tls'' of None \<Rightarrow> [] | Some m \<Rightarrow> m)
                  (case t of None \<Rightarrow> [] | Some m \<Rightarrow> m))) addr)
      in map (\<lambda>addr. case jstr addr ''server'' of None \<Rightarrow> addr | Some s \<Rightarrow> gput ''server'' (JStr (NormalizeHost s)) addr)
           (if addrs = [] then
              [[(''server'', JStr host_name),
                (''server_port'', case map_of inbound ''listen_port'' of None \<Rightarrow> JNull | Some v \<Rightarrow> v),
                (''remark'', JStr (JoinRemark clientRemark (li_tag i)))] @
               (case tls of None \<Rightarrow> [] | Some t \<Rightarrow> [(''tls'', JObj (case t of None \<Rightarrow> [] | Some m \<Rightarrow> m))])]
            else
              map (\<lambda>addr. with_tls (gput ''remark'' (JStr (JoinRemark clientRemark (li_tag i @ jtext addr ''remark''))) addr)) addrs))"

definition LinkGenerator :: "link_env \<Rightarrow> (string \<times> jobj) list res \<Rightarrow> link_inbound \<Rightarrow> string \<Rightarrow> string \<Rightarrow> string list" where
  "LinkGenerator e config i host_name clientRemark =
     (case (li_full i, config, li_addrs i) of
        (Inr inbound, Inr user, Inr addrs0) \<Rightarrow>
          let addrs = link_addrs e i host_name clientRemark inbound addrs0;
              cfg = (\<lambda>k. case map_of user k of None \<Rightarrow> [] | Some m \<Rightarrow> m); t = li_type i
          in if t = ''socks'' then socksLink e (cfg t) addrs []
             else if t = ''http'' then httpLink e (cfg t) addrs []
             else if t = ''mixed'' then socksLink e (cfg ''socks'') addrs ''-socks'' @ httpLink e (cfg ''http'') addrs ''-http''
             else if t = ''shadowsocks'' then shadowsocksLink e user inbound (li_out i) addrs
             else if t = ''naive'' then naiveLink e (cfg t) inbound addrs
             else if t = ''hysteria'' then hysteriaLink e (cfg t) inbound (li_out i) addrs
             else if t = ''hysteria2'' then hysteria2Link e (cfg t) inbound (li_out i) addrs
             else if t = ''tuic'' then tuicLink e (cfg t) inbound (li_out i) addrs
             else if t = ''vless'' then vlessLink e (cfg t) inbound addrs
             else if t = ''anytls'' then anytlsLink e (cfg t) addrs
             else if t = ''trojan'' then trojanLink e (cfg t) inbound addrs
             else if t = ''vmess'' then vmessLink e (cfg t) inbound addrs
             else []
      | _ \<Rightarrow> [])"

end
