(* ===== verification/LinkParse.thy ===== *)
theory LinkParse
  imports ShareLink
begin

text \<open>
  \<^verbatim>\<open>util/linkToJson.go\<close>: share links read into sing-box outbounds. An outbound is the map the source builds, in the order of
  its literal; an integer in it is printed in decimal.
\<close>

section \<open>Numbers and endpoints\<close>

text \<open>
  \<^verbatim>\<open>strconv.Atoi\<close> with its error as a flag: the value of a text that is no number is zero, of one out of range the nearest
  bound. The scan stops at the first thing that is wrong.
\<close>

fun scan_uint :: "int \<Rightarrow> string \<Rightarrow> int \<times> bool" where
  "scan_uint n [] = (n, True)"
| "scan_uint n (c # s) =
     (if \<not> is_digit c then (0, False)
      else let m = 10 * n + (of_char c - 48) in if m \<ge> 2 ^ 64 then (2 ^ 64 - 1, False) else scan_uint m s)"

definition Atoi :: "string \<Rightarrow> int \<times> bool" where
  "Atoi s =
     (let neg = has_prefix s ''-''; d = (if neg \<or> has_prefix s ''+'' then tl s else s)
      in if d = [] then (0, False)
         else
           case scan_uint 0 d of
             (n, ok) \<Rightarrow>
               if \<not> neg \<and> n \<ge> 2 ^ 63 then (2 ^ 63 - 1, False)
               else if neg \<and> n > 2 ^ 63 then (- (2 ^ 63), False)
               else (if neg then - n else n, ok))"

definition split_hp :: "string \<Rightarrow> string \<times> string" where
  "split_hp hp = (case SplitHostPort hp of None \<Rightarrow> ([], []) | Some r \<Rightarrow> r)"

definition jint :: "int \<Rightarrow> json" where
  "jint n = JNum (Itoa n)"

definition link_tag :: "int \<Rightarrow> string \<Rightarrow> string" where
  "link_tag i remark = (if i > 0 then Itoa i @ ''.'' @ remark else remark)"

definition link_port :: "int \<Rightarrow> string \<Rightarrow> int" where
  "link_port dflt portStr = (if portStr \<noteq> [] then fst (Atoi portStr) else dflt)"

definition Username :: "(string \<times> string option) option \<Rightarrow> string" where
  "Username u = (case u of None \<Rightarrow> [] | Some (n, _) \<Rightarrow> n)"

definition Password :: "(string \<times> string option) option \<Rightarrow> string" where
  "Password u = (case u of Some (_, Some p) \<Rightarrow> p | _ \<Rightarrow> [])"

definition unsupported :: "'a res" where
  "unsupported = Inl (EMsg ''Unsupported link format'')"

type_synonym outbound = "(jobj \<times> string) res"

section \<open>Proxies\<close>

definition proxyEndpoint :: "url \<Rightarrow> (string \<times> int) res" where
  "proxyEndpoint u =
     (if ur_path u \<noteq> [] \<and> ur_path u \<noteq> ''/'' then unsupported
      else
        case SplitHostPort (ur_host u) of
          None \<Rightarrow> unsupported
        | Some (host, portStr) \<Rightarrow>
            (case Atoi portStr of
               (port, ok) \<Rightarrow> if \<not> ok \<or> port \<le> 0 \<or> port > 65535 then unsupported else Inr (host, port)))"

definition proxyCredentials :: "url \<Rightarrow> jobj" where
  "proxyCredentials u =
     (case ur_user u of
        None \<Rightarrow> []
      | Some _ \<Rightarrow> [(''username'', JStr (Username (ur_user u))), (''password'', JStr (Password (ur_user u)))])"

definition socksProxy :: "url \<Rightarrow> int \<Rightarrow> outbound" where
  "socksProxy u i =
     rbind (proxyEndpoint u) (\<lambda>(host, port).
       let tag = link_tag i (ur_fragment u)
       in Inr ([(''type'', JStr ''socks''), (''tag'', JStr tag), (''server'', JStr host), (''server_port'', jint port),
                (''version'', JStr ''5'')] @ proxyCredentials u, tag))"

definition httpProxy :: "url \<Rightarrow> int \<Rightarrow> outbound" where
  "httpProxy u i =
     rbind (proxyEndpoint u) (\<lambda>(host, port).
       let tag = link_tag i (ur_fragment u)
       in Inr ([(''type'', JStr ''http''), (''tag'', JStr tag), (''server'', JStr host), (''server_port'', jint port)] @
               (if ur_scheme u = ''https'' then [(''tls'', JObj [(''enabled'', JBool True)])] else []) @
               proxyCredentials u, tag))"

section \<open>Transports and TLS\<close>

definition http_transport :: "string \<Rightarrow> string \<Rightarrow> jobj" where
  "http_transport host path =
     [(''type'', JStr ''http'')] @
     (if host \<noteq> [] then [(''host'', JArr (map JStr (split_on CHR '','' host)))] else []) @ [(''path'', JStr path)]"

definition ws_headers :: "string \<Rightarrow> jobj" where
  "ws_headers host = (if host \<noteq> [] then [(''headers'', JObj [(''Host'', JStr host)])] else [])"

definition getTransport :: "link_env \<Rightarrow> string \<Rightarrow> (string \<times> string) list \<Rightarrow> jobj" where
  "getTransport e tp_type q =
     (let host = q_get q ''host''; path = q_get q ''path''; t = ToLower (lk_lower e) tp_type
      in if t = ''tcp'' \<or> t = [] then (if q_get q ''headerType'' = ''http'' then http_transport host path else [])
         else if t = ''http'' \<or> t = ''h2'' then http_transport host path
         else if t = ''ws'' then [(''type'', JStr ''ws''), (''path'', JStr path)] @ ws_headers host
         else if t = ''quic'' then [(''type'', JStr ''quic'')]
         else if t = ''grpc'' then [(''type'', JStr ''grpc''), (''service_name'', JStr (q_get q ''serviceName''))]
         else if t = ''httpupgrade'' then [(''type'', JStr ''httpupgrade''), (''path'', JStr path), (''host'', JStr host)]
         else [])"

definition is_on :: "string \<Rightarrow> bool" where
  "is_on v \<longleftrightarrow> v = ''1'' \<or> v = ''true''"

definition utls_of :: "string \<Rightarrow> jobj" where
  "utls_of fp = (if fp \<noteq> [] then [(''utls'', JObj [(''enabled'', JBool True), (''fingerprint'', JStr fp)])] else [])"

definition sni_alpn :: "string \<Rightarrow> string \<Rightarrow> jobj" where
  "sni_alpn sni alpn =
     (if sni \<noteq> [] then [(''server_name'', JStr sni)] else []) @
     (if alpn \<noteq> [] then [(''alpn'', JArr (map JStr (split_on CHR '','' alpn)))] else [])"

definition getTls :: "string \<Rightarrow> (string \<times> string) list \<Rightarrow> jobj" where
  "getTls security q =
     (if security = ''tls'' then [(''enabled'', JBool True)]
      else if security = ''reality'' then
        [(''enabled'', JBool True),
         (''reality'', JObj [(''enabled'', JBool True), (''public_key'', JStr (q_get q ''pbk'')), (''short_id'', JStr (q_get q ''sid''))])]
      else []) @
     sni_alpn (q_get q ''sni'') (q_get q ''alpn'') @
     (if is_on (q_get q ''insecure'') \<or> is_on (q_get q ''allowInsecure'') then [(''insecure'', JBool True)] else []) @
     utls_of (q_get q ''fp'') @
     (if q_get q ''ech'' \<noteq> [] then [(''ech'', JObj [(''enabled'', JBool True), (''config'', JArr [JStr (q_get q ''ech'')])])] else []) @
     (if is_on (q_get q ''disable_sni'') then [(''disable_sni'', JBool True)] else [])"

section \<open>VMess\<close>

definition cut_scheme :: "string \<Rightarrow> string \<times> string option" where
  "cut_scheme uri = (case index_of uri ''://'' of None \<Rightarrow> (uri, None) | Some i \<Rightarrow> (take i uri, Some (drop (i + 3) uri)))"

definition vmessPayload :: "string \<Rightarrow> string" where
  "vmessPayload uri =
     takeWhile (\<lambda>c. c \<noteq> CHR ''?'' \<and> c \<noteq> CHR ''#'') (case snd (cut_scheme uri) of None \<Rightarrow> [] | Some p \<Rightarrow> p)"

definition vmess_transport :: "link_env \<Rightarrow> jobj \<Rightarrow> jobj res" where
  "vmess_transport e d =
     (let nt = jtext d ''net''; tp = jtext d ''type''; host = jtext d ''host''; path = jtext d ''path''; t = ToLower (lk_lower e) nt
      in if t = ''tcp'' \<or> t = [] then Inr (if tp = ''http'' then http_transport host path else [])
         else if t = ''http'' \<or> t = ''h2'' then Inr (http_transport host path)
         else if t = ''ws'' then
           Inr ([(''type'', JStr nt), (''path'', JStr path), (''early_data_header_name'', JStr ''Sec-WebSocket-Protocol'')] @ ws_headers host)
         else if t = ''quic'' then Inr [(''type'', JStr nt)]
         else if t = ''grpc'' then Inr [(''type'', JStr nt), (''service_name'', JStr path)]
         else if t = ''httpupgrade'' then Inr [(''type'', JStr nt), (''path'', JStr path), (''host'', JStr host)]
         else Inl (EMsg ''Invalid vmess''))"

definition vmess_tls :: "jobj \<Rightarrow> jobj" where
  "vmess_tls d =
     (if jtext d ''tls'' \<noteq> ''tls'' then []
      else
        [(''enabled'', JBool True)] @ sni_alpn (jtext d ''sni'') (jtext d ''alpn'') @
        (if map_of d ''allowInsecure'' \<noteq> None then [(''insecure'', JBool True)] else []) @ utls_of (jtext d ''fp''))"

definition vmess_port :: "link_env \<Rightarrow> jobj \<Rightarrow> int" where
  "vmess_port e d = (case map_of d ''port'' of Some (JStr p) \<Rightarrow> fst (Atoi p) | Some (JNum t) \<Rightarrow> trunc e t | _ \<Rightarrow> 0)"

definition jany :: "jobj \<Rightarrow> string \<Rightarrow> json" where
  "jany d k = (case map_of d k of None \<Rightarrow> JNull | Some v \<Rightarrow> v)"

definition vmess :: "link_env \<Rightarrow> string \<Rightarrow> int \<Rightarrow> outbound" where
  "vmess e data i =
     (case B64StrToByte data of
        None \<Rightarrow> Inl EDecode
      | Some raw \<Rightarrow>
          (case lk_unmarshal e raw of
             None \<Rightarrow> Inl EDecode
           | Some d \<Rightarrow>
               rbind (vmess_transport e d) (\<lambda>transport.
                 let tag = link_tag i (jtext d ''ps'')
                 in Inr ([(''type'', JStr ''vmess''), (''tag'', JStr tag), (''server'', jany d ''add''),
                          (''server_port'', jint (vmess_port e d)), (''uuid'', jany d ''id''), (''security'', JStr ''auto''),
                          (''alter_id'', jint (case jnum d ''aid'' of None \<Rightarrow> 0 | Some t \<Rightarrow> trunc e t)),
                          (''tls'', JObj (vmess_tls d)), (''transport'', JObj transport)], tag))))"

section \<open>Links that are URLs\<close>

text \<open>The four fields every outbound starts with.\<close>

definition endpoint :: "string \<Rightarrow> int \<Rightarrow> url \<Rightarrow> int \<Rightarrow> jobj" where
  "endpoint ty dflt u i =
     (case split_hp (ur_host u) of (host, portStr) \<Rightarrow>
        [(''type'', JStr ty), (''tag'', JStr (link_tag i (ur_fragment u))), (''server'', JStr host),
         (''server_port'', jint (link_port dflt portStr))])"

definition default_port :: "string \<Rightarrow> int" where
  "default_port security = (if security = ''tls'' \<or> security = ''reality'' then 443 else 80)"

definition vless :: "link_env \<Rightarrow> url \<Rightarrow> int \<Rightarrow> outbound" where
  "vless e u i =
     (let q = parse_query (ur_query u); security = q_get q ''security''
      in Inr (endpoint ''vless'' (default_port security) u i @
              [(''uuid'', JStr (Username (ur_user u))), (''flow'', JStr (q_get q ''flow'')), (''tls'', JObj (getTls security q)),
               (''transport'', JObj (getTransport e (q_get q ''type'') q))], link_tag i (ur_fragment u)))"

definition trojan :: "link_env \<Rightarrow> url \<Rightarrow> int \<Rightarrow> outbound" where
  "trojan e u i =
     (let q = parse_query (ur_query u); security = q_get q ''security''
      in Inr (endpoint ''trojan'' (default_port security) u i @
              [(''password'', JStr (Username (ur_user u))), (''tls'', JObj (getTls security q)),
               (''transport'', JObj (getTransport e (q_get q ''type'') q))], link_tag i (ur_fragment u)))"

definition or_tls :: "string \<Rightarrow> string" where
  "or_tls security = (if security = [] then ''tls'' else security)"

definition opt_int :: "string \<Rightarrow> int \<Rightarrow> jobj" where
  "opt_int k n = (if n > 0 then [(k, jint n)] else [])"

definition hy :: "url \<Rightarrow> int \<Rightarrow> outbound" where
  "hy u i =
     (let q = parse_query (ur_query u); num = (\<lambda>k. fst (Atoi (q_get q k)))
      in if num ''downmbps'' \<le> 0 \<or> num ''upmbps'' \<le> 0 then
           Inl (EMsg ''hysteria link is missing upmbps/downmbps, which sing-box requires'')
         else
           Inr (endpoint ''hysteria'' 443 u i @
                [(''obfs'', JStr (q_get q ''obfsParam'')), (''auth_str'', JStr (q_get q ''auth'')),
                 (''tls'', JObj (getTls (or_tls (q_get q ''security'')) q)),
                 (''down_mbps'', jint (num ''downmbps'')), (''up_mbps'', jint (num ''upmbps''))] @
                opt_int ''recv_window_conn'' (num ''recv_window_conn'') @ opt_int ''recv_window'' (num ''recv_window''),
                link_tag i (ur_fragment u)))"

definition hy2 :: "url \<Rightarrow> int \<Rightarrow> outbound" where
  "hy2 u i =
     (let q = parse_query (ur_query u); mport = serverPortsFromMport (q_get q ''mport'')
      in Inr (endpoint ''hysteria2'' 443 u i @
              [(''password'', JStr (Username (ur_user u))), (''tls'', JObj (getTls (or_tls (q_get q ''security'')) q))] @
              opt_int ''down_mbps'' (fst (Atoi (q_get q ''downmbps''))) @ opt_int ''up_mbps'' (fst (Atoi (q_get q ''upmbps''))) @
              (if q_get q ''obfs'' = ''salamander'' then
                 [(''obfs'', JObj [(''type'', JStr ''salamander''), (''password'', JStr (q_get q ''obfs-password''))])]
               else []) @
              (if mport \<noteq> [] then [(''server_ports'', JArr (map JStr mport))] else []) @
              (if is_on (q_get q ''fastopen'') then [(''fastopen'', JBool True)] else []), link_tag i (ur_fragment u)))"

definition anytls :: "url \<Rightarrow> int \<Rightarrow> outbound" where
  "anytls u i =
     (let q = parse_query (ur_query u)
      in Inr (endpoint ''anytls'' 443 u i @
              [(''password'', JStr (Username (ur_user u))), (''tls'', JObj (getTls (or_tls (q_get q ''security'')) q))],
              link_tag i (ur_fragment u)))"

definition tuic :: "url \<Rightarrow> int \<Rightarrow> outbound" where
  "tuic u i =
     (let q = parse_query (ur_query u)
      in Inr (endpoint ''tuic'' 443 u i @
              [(''uuid'', JStr (Username (ur_user u))), (''password'', JStr (Password (ur_user u))),
               (''congestion_control'', JStr (q_get q ''congestion_control'')),
               (''udp_relay_mode'', JStr (q_get q ''udp_relay_mode'')),
               (''tls'', JObj (getTls (or_tls (q_get q ''security'')) q))], link_tag i (ur_fragment u)))"

section \<open>Shadowsocks\<close>

definition isShadowsocksLink :: "link_env \<Rightarrow> string \<Rightarrow> bool" where
  "isShadowsocksLink e uri =
     (case cut_scheme uri of
        (_, None) \<Rightarrow> False
      | (sch, Some _) \<Rightarrow> EqualFold (lk_eqf e) sch ''ss'' \<or> EqualFold (lk_eqf e) sch ''shadowsocks'')"

definition trim_slash :: "string \<Rightarrow> string" where
  "trim_slash s = (if s \<noteq> [] \<and> last s = CHR ''/'' then butlast s else s)"

text \<open>The user information and what follows it, in a link with an \<open>@\<close> and in one blob.\<close>

definition ss_parts :: "string \<Rightarrow> (string \<times> string) option" where
  "ss_parts rest =
     (case cut CHR ''@'' rest of
        (encoded, Some hostAndRest) \<Rightarrow>
          (case decodeAnyBase64 encoded of
             Some b \<Rightarrow> Some (b, hostAndRest)
           | None \<Rightarrow> map_option (\<lambda>p. (p, hostAndRest)) (unescape PathSegment encoded))
      | (_, None) \<Rightarrow>
          (case cut CHR ''?'' rest of
             (body, query) \<Rightarrow>
               (case (case decodeAnyBase64 body of Some b \<Rightarrow> Some b | None \<Rightarrow> decodeAnyBase64 (trim_slash body)) of
                  None \<Rightarrow> None
                | Some b \<Rightarrow>
                    map_option (\<lambda>(usr, hostPort). (usr, hostPort @ (case query of None \<Rightarrow> [] | Some t \<Rightarrow> ''/?'' @ t)))
                      (cut_last CHR ''@'' b))))"

definition rebuildShadowsocksLink :: "string \<Rightarrow> url option" where
  "rebuildShadowsocksLink uri =
     (case cut_scheme uri of (sch, r) \<Rightarrow>
        (case cut CHR ''#'' (case r of None \<Rightarrow> [] | Some t \<Rightarrow> t) of (rest, fragment) \<Rightarrow>
           (case ss_parts rest of
              None \<Rightarrow> None
            | Some (userInfo, hostAndRest) \<Rightarrow>
                (case cut CHR '':'' userInfo of
                   (method, s) \<Rightarrow>
                     if s = None \<or> method = [] then None
                     else
                       (case url_parse (sch @ ''://'' @ base64_encode True False userInfo @ ''@'' @ hostAndRest @
                                        (case fragment of None \<Rightarrow> [] | Some f \<Rightarrow> ''#'' @ f)) of
                          None \<Rightarrow> None
                        | Some u \<Rightarrow> if ur_user u = None then None else Some u)))))"

definition ss_credentials :: "url \<Rightarrow> (string \<times> string) res" where
  "ss_credentials u =
     (case ur_user u of
        Some (method, Some password) \<Rightarrow> Inr (method, password)
      | usr \<Rightarrow>
          (case split_on CHR '':'' (StrOrBase64AnyEncoded (Username usr)) of
             method # p # ps \<Rightarrow> Inr (method, join_with '':'' (p # ps))
           | _ \<Rightarrow> Inl (EMsg ''Unsupported shadowsocks'')))"

definition ss_v2ray :: "(string \<times> string) list \<Rightarrow> jobj" where
  "ss_v2ray q =
     (if q_get q ''type'' = [] then []
      else
        [(''plugin'', JStr ''v2ray-plugin''),
         (''plugin_opts'', JStr (join_with '';''
            ((if q_get q ''security'' = ''tls'' then [''tls''] else []) @
             (if q_get q ''type'' = ''quic'' then [''mode=quic''] else []) @
             (if q_get q ''host'' \<noteq> [] then [''host='' @ q_get q ''host''] else []))))])"

definition ss_plugin :: "(string \<times> string) list \<Rightarrow> jobj \<Rightarrow> jobj" where
  "ss_plugin q m =
     (if q_get q ''plugin'' = [] then m
      else
        case split_on CHR '';'' (q_get q ''plugin'') of
          [] \<Rightarrow> m
        | p # ps \<Rightarrow> gput ''plugin_opts'' (JStr (join_with '';'' ps)) (gput ''plugin'' (JStr p) m))"

definition ss :: "url \<Rightarrow> int \<Rightarrow> outbound" where
  "ss u i =
     rbind (ss_credentials u) (\<lambda>(method, password).
       let q = parse_query (ur_query u)
       in Inr (endpoint ''shadowsocks'' 443 u i @ [(''method'', JStr method), (''password'', JStr password)] @
               ss_plugin q (ss_v2ray q), link_tag i (ur_fragment u)))"

section \<open>Naive\<close>

definition url_hostname :: "string \<Rightarrow> string" where
  "url_hostname hp =
     (let h = (case last_byte CHR '':'' hp of None \<Rightarrow> hp | Some i \<Rightarrow> if valid_port (drop i hp) then take i hp else hp)
      in if h \<noteq> [] \<and> hd h = CHR ''['' \<and> last h = CHR '']'' then butlast (tl h) else h)"

text \<open>Host, port and credentials of the two spellings.\<close>

definition naive_parts :: "url \<Rightarrow> (string \<times> int \<times> string \<times> string) res" where
  "naive_parts u =
     (if ur_scheme u = ''http2'' then
        (case cut CHR ''@'' (StrOrBase64Encoded (url_hostname (ur_host u))) of
           (_, None) \<Rightarrow> Inl (EMsg ''Invalid naive link (http2)'')
         | (userInfo, Some hostPort) \<Rightarrow>
             (case cut CHR '':'' userInfo of (username, p) \<Rightarrow>
                (case split_hp hostPort of (host, portStr) \<Rightarrow>
                   Inr (host, link_port 443 portStr, username, case p of None \<Rightarrow> [] | Some t \<Rightarrow> t))))
      else if ur_scheme u = ''naive+https'' \<or> ur_scheme u = ''naive+quic'' then
        (case split_hp (ur_host u) of (host, portStr) \<Rightarrow>
           Inr (host, link_port 443 portStr, Username (ur_user u), Password (ur_user u)))
      else Inl (EMsg ''Unsupported naive scheme''))"

definition naive_tls :: "(string \<times> string) list \<Rightarrow> jobj" where
  "naive_tls q =
     [(''enabled'', JBool True)] @
     (if q_get q ''peer'' \<noteq> [] then [(''server_name'', JStr (q_get q ''peer''))] else []) @
     (if is_on (q_get q ''insecure'') then [(''insecure'', JBool True)] else []) @
     (if q_get q ''alpn'' \<noteq> [] then [(''alpn'', JArr (map JStr (split_on CHR '','' (q_get q ''alpn''))))] else [])"

definition naive_tag :: "int \<Rightarrow> string \<Rightarrow> string" where
  "naive_tag i remark = (if link_tag i remark = [] then ''naive-'' @ Itoa i else link_tag i remark)"

definition parseNaiveLink :: "url \<Rightarrow> int \<Rightarrow> outbound" where
  "parseNaiveLink u i =
     rbind (naive_parts u) (\<lambda>(host, port, username, password).
       let tag = naive_tag i (ur_fragment u)
       in Inr ([(''type'', JStr ''naive''), (''tag'', JStr tag), (''server'', JStr host), (''server_port'', jint port),
                (''username'', JStr username), (''password'', JStr password), (''tls'', JObj (naive_tls (parse_query (ur_query u))))] @
               (if ur_scheme u = ''naive+quic'' then [(''quic'', JBool True)] else []), tag))"

section \<open>Any link\<close>

definition link_url :: "link_env \<Rightarrow> string \<Rightarrow> url option" where
  "link_url e uri =
     (let parsed = url_parse uri
      in if isShadowsocksLink e uri \<and> (case parsed of None \<Rightarrow> True | Some u \<Rightarrow> ur_user u = None) then
           (case rebuildShadowsocksLink uri of None \<Rightarrow> parsed | Some u \<Rightarrow> Some u)
         else parsed)"

definition GetOutbound :: "link_env \<Rightarrow> string \<Rightarrow> int \<Rightarrow> outbound" where
  "GetOutbound e uri i =
     (case link_url e uri of
        None \<Rightarrow> unsupported
      | Some u \<Rightarrow>
          let s = ur_scheme u
          in if s = ''vmess'' then vmess e (vmessPayload uri) i
             else if s = ''vless'' then vless e u i
             else if s = ''trojan'' then trojan e u i
             else if s = ''hy'' \<or> s = ''hysteria'' then hy u i
             else if s = ''hy2'' \<or> s = ''hysteria2'' then hy2 u i
             else if s = ''anytls'' then anytls u i
             else if s = ''tuic'' then tuic u i
             else if s = ''ss'' \<or> s = ''shadowsocks'' then ss u i
             else if s = ''naive+https'' \<or> s = ''naive+quic'' \<or> s = ''http2'' then parseNaiveLink u i
             else if s = ''socks'' \<or> s = ''socks5'' then socksProxy u i
             else if s = ''http'' \<or> s = ''https'' then httpProxy u i
             else unsupported)"

text \<open>The Clash export keeps an XHTTP transport, which sing-box has none of.\<close>

definition xhttp_transport :: "link_env \<Rightarrow> (string \<times> string) list \<Rightarrow> jobj" where
  "xhttp_transport e q =
     [(''type'', JStr ''xhttp'')] @
     concat (map (\<lambda>k. case map_of q k of None \<Rightarrow> [] | Some v \<Rightarrow> [(k, JStr v)]) [''host'', ''path'', ''mode'']) @
     (let raw = q_get q ''extra''
      in if raw = [] \<or> raw = ''null'' then []
         else case lk_decode e raw of Some (x # xs) \<Rightarrow> [(''extra'', JObj (x # xs))] | _ \<Rightarrow> [])"

definition GetOutboundForClash :: "link_env \<Rightarrow> string \<Rightarrow> int \<Rightarrow> outbound" where
  "GetOutboundForClash e uri i =
     rbind (GetOutbound e uri i) (\<lambda>(ob, tag).
       case url_parse uri of
         None \<Rightarrow> Inr (ob, tag)
       | Some u \<Rightarrow>
           let q = parse_query (ur_query u); tp = ToLower (lk_lower e) (q_get q ''type'')
           in if ur_scheme u \<noteq> ''vless'' \<or> tp \<noteq> ''xhttp'' \<and> tp \<noteq> ''splithttp'' then Inr (ob, tag)
              else Inr (gput ''transport'' (JObj (xhttp_transport e q)) ob, tag))"

end
