(* ===== verification/LinkInv.thy ===== *)
theory LinkInv
  imports LinkParse
begin

text \<open>
  What a written link reads back as: the URL built from a scheme, credentials, a host and a query parses to exactly those
  parts, and the query to exactly the parameters that were written.
\<close>

section \<open>A printed URL parses to its parts\<close>

lemma escape_free:
  "shouldEscape m c \<Longrightarrow> \<not> is_alnum c \<Longrightarrow> c \<noteq> CHR ''%'' \<Longrightarrow> \<not> (m = QueryComponent \<and> c = CHR ''+'') \<Longrightarrow> c \<notin> set (escape m s)"
  using escape_chars [of c m s] by blast

lemma not_ctl_set: "is_ctl c \<Longrightarrow> list_all (\<lambda>d. \<not> is_ctl d) s \<Longrightarrow> c \<notin> set s"
  by (auto simp: list_all_iff)

lemma ctl_escaped: "is_ctl c \<Longrightarrow> c \<notin> set (escape m s)"
proof -
  assume c: "is_ctl c"
  have a: "\<not> is_alnum c" using c by (auto simp: is_ctl_def is_alnum_def Let_def)
  have n: "c \<notin> set (CHR 0x22 # CHR 0x27 # ''!$&()*+,;=:[]<>'')" "c \<notin> set ''-_.~''" "c \<notin> set ''$&+,/:;=?@''" "c \<notin> set ''!()*''"
    "c \<notin> set ''%+''"
    by (rule not_ctl_set [OF c]; simp add: is_ctl_def)+
  have "shouldEscape m c" unfolding shouldEscape_def using a n(1-4) by (simp only: if_False simp_thms)
  moreover have "c \<noteq> CHR ''%''" "c \<noteq> CHR ''+''" using n(5) by auto
  ultimately show ?thesis using a by (intro escape_free) auto
qed

lemma is_digit_nat: "is_digit c \<longleftrightarrow> 48 \<le> (of_char c :: nat) \<and> (of_char c :: nat) \<le> 57"
proof -
  have "(of_char c :: int) = int (of_char c)" by (cases c) (simp add: of_char_def)
  then show ?thesis unfolding is_digit_def by linarith
qed

definition scheme_ok :: "string \<Rightarrow> bool" where
  "scheme_ok s \<longleftrightarrow> s \<noteq> [] \<and> is_letter (hd s) \<and> list_all (\<lambda>c. is_letter c \<or> is_digit c \<or> c \<in> set ''+-.'') s \<and> map ascii_lower s = s"

lemma scheme_end_past:
  "list_all (\<lambda>c. is_letter c \<or> is_digit c \<or> c \<in> set ''+-.'') s \<Longrightarrow> s = [] \<and> 0 < i \<or> s \<noteq> [] \<and> (0 < i \<or> is_letter (hd s)) \<Longrightarrow>
     scheme_end (s @ CHR '':'' # r) i = Some (i + length s)"
proof (induction s arbitrary: i)
  case Nil
  then show ?case by (simp add: is_letter_def is_digit_def)
next
  case (Cons c s)
  then have "scheme_end (s @ CHR '':'' # r) (Suc i) = Some (Suc i + length s)" by (cases s) auto
  with Cons.prems show ?case by (auto simp: is_letter_def)
qed

lemma getScheme_printed: "scheme_ok s \<Longrightarrow> getScheme (s @ CHR '':'' # r) = Some (s, r)"
  using scheme_end_past [of s 0 r] by (auto simp: getScheme_def scheme_ok_def)

lemma split_query_none: "CHR ''?'' \<notin> set a \<Longrightarrow> split_query a = (a, False, [])"
proof -
  assume a: "CHR ''?'' \<notin> set a"
  then have "a \<noteq> [] \<longrightarrow> last a \<noteq> CHR ''?''" using last_in_set by metis
  with a show ?thesis by (auto simp: split_query_def cut_absent)
qed

lemma split_query_some: "CHR ''?'' \<notin> set a \<Longrightarrow> q \<noteq> [] \<Longrightarrow> split_query (a @ CHR ''?'' # q) = (a, False, q)"
proof -
  assume a: "CHR ''?'' \<notin> set a" and q: "q \<noteq> []"
  have "\<not> (last q = CHR ''?'' \<and> count_list q (CHR ''?'') = 0)"
    using last_in_set [OF q] by (auto simp: count_list_0_iff)
  with a q show ?thesis by (auto simp: split_query_def cut_present count_list_0_iff)
qed

text \<open>A host with its port that stands for itself in a URL.\<close>

definition host_port_ok :: "string \<Rightarrow> bool" where
  "host_port_ok hp \<longleftrightarrow>
     hp \<noteq> [] \<and> escape HostMode hp = hp \<and> parse_host hp = Some hp \<and> list_all (\<lambda>c. c \<notin> set ''/?#@'' \<and> \<not> is_ctl c) hp"

lemma user_string_chars:
  "c \<in> set (user_string u) \<Longrightarrow> c \<notin> set ''/?#@'' \<and> \<not> is_ctl c"
proof -
  assume c: "c \<in> set (user_string u)"
  have e: "d \<notin> set ''/?#@'' \<and> \<not> is_ctl d" if "d \<in> set (escape UserPassword s)" for d s
  proof -
    have "CHR ''/'' \<notin> set (escape UserPassword s)" "CHR ''?'' \<notin> set (escape UserPassword s)"
      "CHR ''#'' \<notin> set (escape UserPassword s)" "CHR ''@'' \<notin> set (escape UserPassword s)"
      by (rule escape_free; simp add: shouldEscape_def is_alnum_def)+
    with that ctl_escaped [of d UserPassword s] show ?thesis by auto
  qed
  obtain n p where "u = (n, p)" by (cases u)
  with c e show ?thesis by (cases p) (auto simp: user_string_def is_ctl_def)
qed

lemma kept_in_user: "\<not> shouldEscape UserPassword c \<Longrightarrow> \<not> is_alnum c \<Longrightarrow> c \<in> set ''-_.~$&+,;=''"
proof (rule ccontr)
  assume s: "\<not> shouldEscape UserPassword c" and a: "\<not> is_alnum c" and n: "c \<notin> set ''-_.~$&+,;=''"
  have m: "c \<notin> set ''-_.~''" using n by auto
  have "c \<in> set ''@/?:''" if "c \<in> set ''$&+,/:;=?@''" using that n by auto
  then have "shouldEscape UserPassword c"
    unfolding shouldEscape_def using a m by (simp only: if_False simp_thms url_mode.distinct url_mode.case split: if_split) simp
  with s show False ..
qed

lemma valid_userinfo_append: "valid_userinfo (a @ b) \<longleftrightarrow> valid_userinfo a \<and> valid_userinfo b"
  unfolding valid_userinfo_def set_append ball_Un ..

lemma parse_user_string: "parse_user (user_string u) = Some u"
proof -
  have colon: "CHR '':'' \<notin> set (escape UserPassword s)" for s
    by (rule escape_free) (simp_all add: shouldEscape_def is_alnum_def)
  have ok: "valid_userinfo (escape UserPassword s)" for s
    unfolding valid_userinfo_def
  proof
    fix c
    define U where "U = set (CHR 0x27 # ''-._:~!$&()*+,;=%@'')"
    assume "c \<in> set (escape UserPassword s)"
    then have "is_alnum c \<or> c = CHR ''%'' \<or> c \<in> set ''-_.~$&+,;=''"
      using escape_chars [of c UserPassword s] kept_in_user [of c] by blast
    moreover have "set ''-_.~$&+,;='' \<subseteq> U" "CHR ''%'' \<in> U" by (simp_all add: U_def)
    ultimately have "is_alnum c \<or> c \<in> U" by blast
    then show "is_alnum c \<or> c \<in> set (CHR 0x27 # ''-._:~!$&()*+,;=%@'')" unfolding U_def .
  qed
  obtain n p where u: "u = (n, p)" by (cases u)
  show ?thesis
  proof (cases p)
    case None
    with ok [of n] show ?thesis
      by (simp add: u parse_user_def user_string_def cut_absent [OF colon] unescape_escape)
  next
    case (Some w)
    have "valid_userinfo (escape UserPassword n @ CHR '':'' # escape UserPassword w)"
      using ok [of n] ok [of w] valid_userinfo_append [of "escape UserPassword n" "CHR '':'' # escape UserPassword w"]
        valid_userinfo_append [of "'':''" "escape UserPassword w"] by (simp add: valid_userinfo_def [of "'':''"])
    with Some show ?thesis
      by (simp add: u parse_user_def user_string_def cut_present [OF colon] unescape_escape)
  qed
qed

definition auth_text :: "(string \<times> string option) option \<Rightarrow> string \<Rightarrow> string" where
  "auth_text usr hp = (case usr of None \<Rightarrow> [] | Some u \<Rightarrow> user_string u @ ''@'') @ hp"

lemma auth_text_chars: "host_port_ok hp \<Longrightarrow> c \<in> set (auth_text usr hp) \<Longrightarrow> c \<notin> set ''/?#'' \<and> \<not> is_ctl c"
proof -
  assume hp: "host_port_ok hp" and c: "c \<in> set (auth_text usr hp)"
  have p: "c \<notin> set ''/?#@'' \<and> \<not> is_ctl c" if "c \<in> set hp" using hp that unfolding host_port_ok_def list_all_iff by blast
  have "\<not> is_ctl (CHR ''@'')" by (simp add: is_ctl_def)
  with c p user_string_chars [of c] show ?thesis by (cases usr) (auto simp: auth_text_def)
qed

lemma parse_auth_text: "host_port_ok hp \<Longrightarrow> parse_authority (auth_text usr hp) = Some (usr, hp)"
proof -
  assume hp: "host_port_ok hp"
  then have at: "CHR ''@'' \<notin> set hp" by (auto simp: host_port_ok_def list_all_iff)
  from hp at show ?thesis
    by (cases usr) (simp_all add: auth_text_def parse_authority_def cut_last_absent cut_last_present parse_user_string host_port_ok_def)
qed

lemma parse_rest_printed:
  assumes "host_port_ok hp" and "sch \<noteq> []"
  shows "parse_rest sch (''//'' @ auth_text usr hp @ (if query = [] then [] else CHR ''?'' # query)) =
    Some (host_url sch usr hp query [])"
proof -
  define a where "a = auth_text usr hp"
  have c: "CHR ''/'' \<notin> set a" "CHR ''?'' \<notin> set a" using auth_text_chars [OF assms(1)] by (force simp: a_def)+
  have q: "split_query (''//'' @ a @ (if query = [] then [] else CHR ''?'' # query)) = (''//'' @ a, False, query)"
    using split_query_none [of "''//'' @ a"] split_query_some [of "''//'' @ a" query] c by auto
  have "takeWhile (\<lambda>c. c \<noteq> CHR ''/'') a = a" "dropWhile (\<lambda>c. c \<noteq> CHR ''/'') a = []"
    using c(1) unfolding takeWhile_eq_all_conv dropWhile_eq_Nil_conv by blast+
  then show ?thesis
    using parse_auth_text [OF assms(1), of usr] assms(2)
    unfolding a_def [symmetric] parse_rest_def q
    by (simp add: has_prefix_iff set_path_def host_url_def empty_url_def Let_def del: takeWhile_eq_all_conv dropWhile_eq_Nil_conv)
qed

text \<open>The round trip of the URLs the link builders make.\<close>

lemma url_parse_host_url:
  assumes "scheme_ok sch" and "host_port_ok hp" and "list_all (\<lambda>c. c \<noteq> CHR ''#'' \<and> \<not> is_ctl c) query"
  shows "url_parse (url_string (host_url sch usr hp query fragment)) = Some (host_url sch usr hp query fragment)"
proof -
  define rest where "rest = ''//'' @ auth_text usr hp @ (if query = [] then [] else CHR ''?'' # query)"
  define raw where "raw = sch @ CHR '':'' # rest"
  have s: "sch \<noteq> []" "map ascii_lower sch = sch" using assms(1) by (auto simp: scheme_ok_def)
  have shown: "url_string (host_url sch usr hp query fragment) = raw @ (if fragment = [] then [] else CHR ''#'' # escape Fragment fragment)"
    using url_string_host_url [of sch hp usr query fragment] assms(2) s
    by (auto simp: raw_def rest_def auth_text_def host_port_ok_def split: option.splits)
  have sc: "c \<noteq> CHR ''#'' \<and> \<not> is_ctl c" if "c \<in> set sch" for c
  proof -
    have "is_letter c \<or> is_digit c \<or> c \<in> set ''+-.''" using that assms(1) unfolding scheme_ok_def list_all_iff by blast
    then show ?thesis by (auto simp: is_letter_def is_digit_nat is_ctl_def Let_def)
  qed
  have parts: "set raw \<subseteq> set sch \<union> set ''://?'' \<union> set (auth_text usr hp) \<union> set query" by (auto simp: raw_def rest_def)
  have punct: "c \<noteq> CHR ''#'' \<and> \<not> is_ctl c" if "c \<in> set ''://?''" for c using that by (auto simp: is_ctl_def)
  have host: "c \<noteq> CHR ''#'' \<and> \<not> is_ctl c" if "c \<in> set (auth_text usr hp)" for c using auth_text_chars [OF assms(2) that] by simp
  have qry: "c \<noteq> CHR ''#'' \<and> \<not> is_ctl c" if "c \<in> set query" for c using that assms(3) by (simp add: list_all_iff)
  have ok: "c \<noteq> CHR ''#'' \<and> \<not> is_ctl c" if "c \<in> set raw" for c
    using that parts sc punct host qry by blast
  from ok have "CHR ''#'' \<notin> set raw" by blast
  then have "cut CHR ''#'' (raw @ (if fragment = [] then [] else CHR ''#'' # escape Fragment fragment)) =
      (raw, if fragment = [] then None else Some (escape Fragment fragment))"
    by (auto simp: cut_absent cut_present)
  moreover have "\<not> list_ex is_ctl raw" using ok by (auto simp: list_ex_iff)
  moreover have "getScheme raw = Some (sch, rest)" unfolding raw_def by (rule getScheme_printed [OF assms(1)])
  moreover have "parse_rest sch rest = Some (host_url sch usr hp query [])"
    unfolding rest_def by (rule parse_rest_printed [OF assms(2) s(1)])
  moreover have "escape Fragment fragment = [] \<longleftrightarrow> fragment = []"
    using unescape_escape [of Fragment fragment] by (cases fragment) auto
  ultimately show ?thesis
    unfolding shown url_parse_def
    by (simp add: s set_fragment_def unescape_escape host_url_def empty_url_def)
qed


section \<open>Hosts and ports\<close>

text \<open>
  The hosts a link can carry: a name or an address of version 4, or an address of version 6, which stands in brackets; and
  the ports, which are digits.
\<close>

definition name_char :: "char \<Rightarrow> bool" where
  "name_char c \<longleftrightarrow> is_alnum c \<or> c = CHR ''-'' \<or> c = CHR ''.'' \<or> c = CHR ''_''"

definition addr_char :: "char \<Rightarrow> bool" where
  "addr_char c \<longleftrightarrow> is_alnum c \<or> c = CHR '':'' \<or> c = CHR ''.''"

definition is_v6 :: "string \<Rightarrow> bool" where
  "is_v6 h = (case ParseAddr h of Some (V6 _ _) \<Rightarrow> True | _ \<Rightarrow> False)"

definition link_host :: "string \<Rightarrow> bool" where
  "link_host h \<longleftrightarrow> h \<noteq> [] \<and> (if is_v6 h then list_all addr_char h else list_all name_char h)"

definition port_ok :: "string \<Rightarrow> bool" where
  "port_ok p \<longleftrightarrow> p \<noteq> [] \<and> list_all is_digit p"

lemma unescape_host_plain:
  "list_all (\<lambda>c. \<not> shouldEscape HostMode c) s \<Longrightarrow> unescape HostMode s = Some s"
proof (induction s)
  case (Cons c s)
  then show ?case using kept_char [of HostMode c] by (simp add: bad_plain_def)
qed simp

lemma escape_plain: "m \<noteq> QueryComponent \<Longrightarrow> list_all (\<lambda>c. \<not> shouldEscape m c) s \<Longrightarrow> escape m s = s"
  by (induction s) (auto simp: escape_Cons escape_char_def)

text \<open>The characters of such a host with its port.\<close>

definition host_char :: "char \<Rightarrow> bool" where
  "host_char c \<longleftrightarrow> is_alnum c \<or> c \<in> set ''-._:[]''"

lemma host_char_plain: "host_char c \<Longrightarrow> \<not> shouldEscape HostMode c"
  by (auto simp: host_char_def shouldEscape_def)

lemma host_char_safe: "host_char c \<Longrightarrow> c \<notin> set ''/?#@'' \<and> \<not> is_ctl c"
  by (auto simp: host_char_def is_alnum_def is_ctl_def Let_def)

lemma digit_alnum: "is_digit c \<Longrightarrow> is_alnum c"
  by (simp add: is_digit_nat is_alnum_def Let_def)

lemma alnum_not: "is_alnum c \<Longrightarrow> c \<notin> set '':[]@/?#%,;&=+ ''"
  by (auto simp: is_alnum_def Let_def)


lemma name_char_host: "name_char c \<Longrightarrow> host_char c \<and> c \<notin> set '':[]''"
  using alnum_not [of c] by (auto simp: name_char_def host_char_def)

lemma addr_char_host: "addr_char c \<Longrightarrow> host_char c \<and> c \<notin> set ''[]%''"
  using alnum_not [of c] by (auto simp: addr_char_def host_char_def)

lemma port_ok_chars: "port_ok p \<Longrightarrow> c \<in> set p \<Longrightarrow> host_char c \<and> c \<notin> set '':[]''"
  using alnum_not [of c] digit_alnum [of c] by (auto simp: port_ok_def host_char_def list_all_iff)

lemma HostForURI_link: "link_host h \<Longrightarrow> HostForURI h = (if is_v6 h then ''['' @ h @ '']'' else h)"
proof -
  assume h: "link_host h"
  then have "hd h \<noteq> CHR ''[''" using name_char_host [of "hd h"] addr_char_host [of "hd h"]
    by (auto simp: link_host_def list_all_iff split: if_splits)
  then have "NormalizeHost h = h" by (simp add: NormalizeHost_def)
  then show ?thesis by (auto simp: HostForURI_def is_v6_def split: option.splits addr.splits)
qed

lemma link_host_port:
  assumes h: "link_host h" and p: "port_ok p" and v: "\<not> is_v6 h"
  shows "host_port_ok (h @ CHR '':'' # p)" and "SplitHostPort (h @ CHR '':'' # p) = Some (h, p)"
proof -
  define hp where "hp = h @ CHR '':'' # p"
  have hc: "host_char c \<and> c \<notin> set '':[]''" if "c \<in> set h" for c
    using h v that name_char_host by (auto simp: link_host_def list_all_iff)
  have no: "CHR '':'' \<notin> set h" "CHR ''['' \<notin> set hp" "CHR '']'' \<notin> set hp" "CHR '':'' \<notin> set p"
    using hc port_ok_chars [OF p] by (force simp: hp_def)+
  have i: "index_byte CHR '':'' hp = Some (length h)" "last_byte CHR '':'' hp = Some (length h)"
    unfolding hp_def using no by (simp_all add: index_byte_append_fresh last_byte_append)
  have chars: "list_all host_char hp"
    using hc port_ok_chars [OF p] by (auto simp: hp_def list_all_iff host_char_def [of "CHR '':''"])
  then have plain: "list_all (\<lambda>c. \<not> shouldEscape HostMode c) hp" "list_all (\<lambda>c. c \<notin> set ''/?#@'' \<and> \<not> is_ctl c) hp"
    using host_char_plain host_char_safe unfolding list_all_iff by blast+
  have "last_byte CHR ''['' hp = None" using no(2) last_byte_None by blast
  moreover have "valid_port (drop (length h) hp)" using p by (simp add: hp_def valid_port_def port_ok_def)
  ultimately have "parse_host hp = Some hp"
    using i unescape_host_plain [OF plain(1)] by (simp add: parse_host_def)
  with plain show "host_port_ok (h @ CHR '':'' # p)"
    unfolding hp_def [symmetric] host_port_ok_def using escape_plain [OF _ plain(1)] by (simp add: hp_def)
  have "hp ! 0 \<noteq> CHR ''[''" using no(2) by (metis hp_def append_is_Nil_conv length_greater_0_conv list.distinct(1) nth_mem)
  then have "SplitHostPort hp = Some (h, p)"
    using i no by (simp add: SplitHostPort_def hp_def)
  then show "SplitHostPort (h @ CHR '':'' # p) = Some (h, p)" unfolding hp_def .
qed


lemma link_addr_port:
  assumes h: "link_host h" and p: "port_ok p" and v: "is_v6 h"
  shows "host_port_ok (''['' @ h @ '']:'' @ p)" and "SplitHostPort (''['' @ h @ '']:'' @ p) = Some (h, p)"
proof -
  define hp where "hp = ''['' @ h @ '']:'' @ p"
  have hc: "host_char c \<and> c \<notin> set ''[]%''" if "c \<in> set h" for c
    using h v that addr_char_host by (auto simp: link_host_def list_all_iff)
  have no: "CHR ''['' \<notin> set h" "CHR '']'' \<notin> set h" "CHR ''%'' \<notin> set h"
    "CHR '':'' \<notin> set p" "CHR ''['' \<notin> set p" "CHR '']'' \<notin> set p"
    using hc port_ok_chars [OF p] by force+
  have l: "last_byte CHR ''['' hp = Some 0" "last_byte CHR '']'' hp = Some (Suc (length h))"
    "last_byte CHR '':'' hp = Some (Suc (Suc (length h)))" "index_byte CHR '']'' hp = Some (Suc (length h))"
    using last_byte_append [of "CHR ''[''" "h @ '']:'' @ p" "[]"] last_byte_append [of "CHR '']''" "'':'' @ p" "''['' @ h"]
      last_byte_append [of "CHR '':''" p "''['' @ h @ '']''"] index_byte_append_fresh [of "CHR '']''" "''['' @ h" "'':'' @ p"] no
    by (simp_all add: hp_def)
  have chars: "list_all host_char hp"
    using hc port_ok_chars [OF p] by (auto simp: hp_def list_all_iff host_char_def [of "CHR '':''"] host_char_def [of "CHR ''[''"]
        host_char_def [of "CHR '']''"])
  then have plain: "list_all (\<lambda>c. \<not> shouldEscape HostMode c) hp" "list_all (\<lambda>c. c \<notin> set ''/?#@'' \<and> \<not> is_ctl c) hp"
    using host_char_plain host_char_safe unfolding list_all_iff by blast+
  then have sub: "list_all (\<lambda>c. \<not> shouldEscape HostMode c) h" "list_all (\<lambda>c. \<not> shouldEscape HostMode c) ('':'' @ p)"
    by (simp_all add: hp_def)
  have "index_of h ''%25'' = None"
  proof (cases "index_of h ''%25''")
    case (Some z)
    then obtain t where "drop z h = ''%25'' @ t" using index_of_Some by blast
    then have "CHR ''%'' \<in> set h" using in_set_dropD [of "CHR ''%''" z h] by simp
    with no(3) show ?thesis by simp
  qed simp
  then have "unescape_literal h = Some h" using unescape_host_plain [OF sub(1)] by (simp add: unescape_literal_def)
  moreover have "unescape HostMode ('':'' @ p) = Some ('':'' @ p)" by (rule unescape_host_plain [OF sub(2)])
  moreover have "valid_port ('':'' @ p)" using p by (simp add: valid_port_def port_ok_def)
  moreover obtain w z where "ParseAddr h = Some (V6 w z)" using v by (auto simp: is_v6_def split: option.splits addr.splits)
  moreover have "take (length h) (drop (Suc 0) hp) = h" "drop (Suc (Suc (length h))) hp = '':'' @ p" by (simp_all add: hp_def)
  ultimately have "parse_host hp = Some hp" using l(1,2) by (simp add: parse_host_def) (simp add: hp_def)
  with plain show "host_port_ok (''['' @ h @ '']:'' @ p)"
    unfolding hp_def [symmetric] host_port_ok_def using escape_plain [OF _ plain(1)] by (simp add: hp_def)
  have "SplitHostPort hp = Some (h, p)"
    using l no by (simp add: SplitHostPort_def hp_def)
  then show "SplitHostPort (''['' @ h @ '']:'' @ p) = Some (h, p)" unfolding hp_def .
qed

lemma link_endpoint:
  assumes "link_host h" and "port_ok p"
  shows "host_port_ok (HostForURI h @ '':'' @ p)" and "SplitHostPort (HostForURI h @ '':'' @ p) = Some (h, p)"
  using link_host_port [OF assms] link_addr_port [OF assms] HostForURI_link [OF assms(1)] by (cases "is_v6 h"; simp)+

text \<open>The number of a printed port.\<close>

lemma scan_uint_digits:
  "list_all is_digit s \<Longrightarrow> 0 \<le> n \<Longrightarrow> foldl (\<lambda>a c. 10 * a + (of_char c - 48)) n s < 2 ^ 64 \<Longrightarrow>
     scan_uint n s = (foldl (\<lambda>a c. 10 * a + (of_char c - 48)) n s, True)"
proof (induction s arbitrary: n)
  case (Cons c s)
  define m where "m = 10 * n + (of_char c - 48 :: int)"
  have m0: "0 \<le> m" using Cons.prems by (simp add: m_def is_digit_def)
  have "k \<le> foldl (\<lambda>a c. 10 * a + (of_char c - 48)) k s" if "0 \<le> k" "list_all is_digit s" for k :: int
    using that
  proof (induction s arbitrary: k)
    case (Cons d s)
    then have "k \<le> 10 * k + (of_char d - 48)" "0 \<le> 10 * k + (of_char d - 48 :: int)" by (simp_all add: is_digit_def)
    with Cons.IH [of "10 * k + (of_char d - 48)"] Cons.prems show ?case by simp
  qed simp
  from this [of m] m0 Cons.prems have "m < 2 ^ 64" by (simp add: m_def)
  with Cons.IH [of m] m0 Cons.prems show ?case by (simp add: m_def Let_def)
qed simp


lemma Atoi_digits:
  assumes "port_ok p" and "dec_value p < 2 ^ 63"
  shows "Atoi p = (dec_value p, True)"
proof -
  obtain c t where p: "p = c # t" "is_digit c" using assms(1) by (cases p) (auto simp: port_ok_def)
  then have "c \<noteq> CHR ''-''" "c \<noteq> CHR ''+''" by (auto simp: is_digit_def)
  moreover have "scan_uint 0 p = (dec_value p, True)"
    using scan_uint_digits [of p 0] assms by (simp add: port_ok_def dec_value_def)
  ultimately show ?thesis using assms(2) p by (simp add: Atoi_def has_prefix_iff)
qed

section \<open>Queries\<close>

text \<open>What a parameter reads back as. The two written raw are left out when they hold a character they cannot hold.\<close>

definition read_param :: "link_param \<Rightarrow> link_param list" where
  "read_param p =
     (case p of (k, v) \<Rightarrow>
        if k = ''mport'' \<or> k = ''alpn'' then (if rawParamIsSafe k v then [(k, replace_char CHR ''+'' CHR '' '' v)] else [])
        else [(k, v)])"

definition plain_key :: "string \<Rightarrow> bool" where
  "plain_key k \<longleftrightarrow> k \<noteq> [] \<and> list_all (\<lambda>c. is_alnum c \<or> c = CHR ''-'' \<or> c = CHR ''_'') k"

abbreviation plain_params :: "link_param list \<Rightarrow> bool" where
  "plain_params ps \<equiv> list_all (\<lambda>p. plain_key (fst p)) ps"

lemma unescape_raw: "CHR ''%'' \<notin> set v \<Longrightarrow> unescape QueryComponent v = Some (replace_char CHR ''+'' CHR '' '' v)"
  by (induction v) (auto simp: replace_char_def bad_plain_def)

lemma alnum_not_ctl: "is_alnum c \<Longrightarrow> \<not> is_ctl c"
  by (auto simp: is_alnum_def is_ctl_def Let_def)

lemma plain_key_chars: "plain_key k \<Longrightarrow> c \<in> set k \<Longrightarrow> c \<notin> set ''%+&;=#'' \<and> \<not> is_ctl c"
proof -
  assume "plain_key k" "c \<in> set k"
  then have "is_alnum c \<or> c = CHR ''-'' \<or> c = CHR ''_''" by (auto simp: plain_key_def list_all_iff)
  then show ?thesis
  proof
    assume "is_alnum c"
    then show ?thesis using alnum_not [of c] alnum_not_ctl by simp
  qed (auto simp: is_ctl_def)
qed

lemma letter_alnum: "is_letter c \<Longrightarrow> is_alnum c"
  by (auto simp: is_letter_def is_alnum_def Let_def)

lemma raw_chars: "rawParamIsSafe k v \<Longrightarrow> c \<in> set v \<Longrightarrow> c \<notin> set ''%&;#'' \<and> \<not> is_ctl c"
proof -
  assume "rawParamIsSafe k v" "c \<in> set v"
  then have "raw_char_ok k c" by (auto simp: rawParamIsSafe_def list_all_iff)
  then have "is_alnum c \<or> c \<in> set '',-:./+''"
    using letter_alnum [of c] digit_alnum [of c] by (auto simp: raw_char_ok_def)
  then show ?thesis
  proof
    assume "is_alnum c"
    then show ?thesis using alnum_not [of c] alnum_not_ctl by simp
  qed (auto simp: is_ctl_def)
qed

lemma query_escape_chars: "c \<in> set (QueryEscape v) \<Longrightarrow> c \<notin> set ''&;#'' \<and> \<not> is_ctl c"
proof -
  assume c: "c \<in> set (QueryEscape v)"
  have "CHR ''&'' \<notin> set (QueryEscape v)" "CHR '';'' \<notin> set (QueryEscape v)" "CHR ''#'' \<notin> set (QueryEscape v)"
    by (rule escape_free; simp add: shouldEscape_def is_alnum_def)+
  with c ctl_escaped [of c QueryComponent v] show ?thesis by auto
qed

lemma parse_pair_written:
  assumes "plain_key k" and "\<And>c. c \<in> set w \<Longrightarrow> c \<notin> set ''&;#'' \<and> \<not> is_ctl c" and "unescape QueryComponent w = Some v"
  shows "parse_pair (k @ ''='' @ w) = [(k, v)]"
proof -
  have k: "CHR ''='' \<notin> set k" "CHR ''%'' \<notin> set k" "CHR '';'' \<notin> set k" "CHR ''+'' \<notin> set k" using plain_key_chars [OF assms(1)] by force+
  have "replace_char CHR ''+'' CHR '' '' k = k" using k(4) by (auto simp: replace_char_def intro!: map_idI)
  then have "unescape QueryComponent k = Some k" using unescape_raw [OF k(2)] by simp
  moreover have "CHR '';'' \<notin> set (k @ ''='' @ w)" using k(3) assms(2) [of "CHR '';''"] by auto
  ultimately show ?thesis using cut_present [OF k(1), of w] assms(3) by (simp add: parse_pair_def)
qed

lemma encode_param_read:
  assumes "plain_key k"
  shows "concat (map parse_pair (encode_param (k, v))) = read_param (k, v)"
    and "p \<in> set (encode_param (k, v)) \<Longrightarrow> c \<in> set p \<Longrightarrow> c \<notin> set ''&#'' \<and> \<not> is_ctl c"
proof -
  have raw: "parse_pair (k @ ''='' @ v) = [(k, replace_char CHR ''+'' CHR '' '' v)]" if s: "rawParamIsSafe k v"
    using raw_chars [OF s] by (intro parse_pair_written [OF assms] unescape_raw) force+
  have esc: "parse_pair (k @ ''='' @ QueryEscape v) = [(k, v)]"
    using query_escape_chars by (intro parse_pair_written [OF assms] unescape_escape) auto
  show "concat (map parse_pair (encode_param (k, v))) = read_param (k, v)"
  proof (cases "k = ''mport'' \<or> k = ''alpn''")
    case True
    show ?thesis unfolding encode_param_def read_param_def prod.case if_P [OF True] using raw by simp
  next
    case False
    show ?thesis unfolding encode_param_def read_param_def prod.case if_not_P [OF False] using esc by simp
  qed
  have "\<not> is_ctl (CHR ''='')" by (simp add: is_ctl_def)
  then show "c \<notin> set ''&#'' \<and> \<not> is_ctl c" if "p \<in> set (encode_param (k, v))" "c \<in> set p"
    using that plain_key_chars [OF assms, of c] raw_chars [of k v c] query_escape_chars [of c v]
    by (auto simp: encode_param_def split: if_splits)
qed

lemma join_chars: "c \<in> set (join_with sep ps) \<Longrightarrow> c \<in> set sep \<or> (\<exists>p \<in> set ps. c \<in> set p)"
  by (induction sep ps rule: join_with.induct) auto

lemma encodeParams_read: "plain_params ps \<Longrightarrow> parse_query (encodeParams ps) = concat (map read_param ps)"
proof -
  assume ps: "plain_params ps"
  define es where "es = concat (map encode_param ps)"
  have amp: "CHR ''&'' \<notin> set p" if p: "p \<in> set es" for p
  proof -
    obtain k v where "(k, v) \<in> set ps" "p \<in> set (encode_param (k, v))" using p by (auto simp: es_def)
    with ps encode_param_read(2) [of k p v "CHR ''&''"] show ?thesis by (auto simp: list_all_iff)
  qed
  have "concat (map parse_pair es) = concat (map read_param ps)"
    using ps unfolding es_def by (induction ps) (auto simp: encode_param_read(1))
  moreover have "parse_query (encodeParams ps) = concat (map parse_pair es)"
  proof (cases "es = []")
    case True
    then show ?thesis by (simp add: parse_query_def encodeParams_def es_def [symmetric] parse_pair_def)
  next
    case False
    then have "split_on CHR ''&'' (join_with ''&'' es) = es" by (intro split_on_join) (use amp in auto)
    then show ?thesis by (simp add: parse_query_def encodeParams_def es_def [symmetric])
  qed
  ultimately show ?thesis by simp
qed

lemma encodeParams_chars: "plain_params ps \<Longrightarrow> list_all (\<lambda>c. c \<noteq> CHR ''#'' \<and> \<not> is_ctl c) (encodeParams ps)"
proof -
  assume ps: "plain_params ps"
  have "c \<noteq> CHR ''#'' \<and> \<not> is_ctl c" if c: "c \<in> set (encodeParams ps)" for c
  proof -
    from c have "c \<in> set ''&'' \<or> (\<exists>p \<in> set (concat (map encode_param ps)). c \<in> set p)"
      unfolding encodeParams_def by (rule join_chars)
    then show ?thesis
    proof
      assume "c \<in> set ''&''"
      then show ?thesis by (simp add: is_ctl_def)
    next
      assume "\<exists>p \<in> set (concat (map encode_param ps)). c \<in> set p"
      then obtain k v p where "(k, v) \<in> set ps" "p \<in> set (encode_param (k, v))" "c \<in> set p" by auto
      with ps encode_param_read(2) [of k p v c] show ?thesis by (auto simp: list_all_iff)
    qed
  qed
  then show ?thesis by (simp add: list_all_iff)
qed

section \<open>Links\<close>

lemma linkURL_parse:
  assumes "scheme_ok sch" and "link_host h" and "port_ok p" and "plain_params ps"
  shows "url_parse (linkURL sch usr h p ps remark) = Some (host_url sch usr (HostForURI h @ '':'' @ p) (encodeParams ps) remark)"
  unfolding linkURL_def
  by (rule url_parse_host_url [OF assms(1) link_endpoint(1) [OF assms(2,3)] encodeParams_chars [OF assms(4)]])


lemma index_of_scheme: "CHR '':'' \<notin> set s \<Longrightarrow> index_of (s @ ''://'' @ r) ''://'' = Some (length s)"
  by (induction s) (auto simp: has_prefix_iff)

lemma scheme_ok_chars: "scheme_ok s \<Longrightarrow> c \<in> set s \<Longrightarrow> c \<noteq> CHR '':'' \<and> (of_char c :: nat) < 128"
proof -
  assume "scheme_ok s" "c \<in> set s"
  then have "is_letter c \<or> is_digit c \<or> c \<in> set ''+-.''" unfolding scheme_ok_def list_all_iff by blast
  then show ?thesis by (auto simp: is_letter_def is_digit_nat Let_def)
qed

lemma isShadowsocksLink_printed:
  "scheme_ok s \<Longrightarrow> isShadowsocksLink e (s @ ''://'' @ r) \<longleftrightarrow> s = ''ss'' \<or> s = ''shadowsocks''"
proof -
  assume s: "scheme_ok s"
  then have "CHR '':'' \<notin> set s" "ascii s" using scheme_ok_chars [OF s] by (auto simp: ascii_def)
  moreover from s have "map ascii_lower s = s" by (simp add: scheme_ok_def)
  moreover have "ascii ''ss''" "ascii ''shadowsocks''" "map ascii_lower ''ss'' = ''ss''" "map ascii_lower ''shadowsocks'' = ''shadowsocks''"
    by code_simp+
  ultimately show ?thesis
    using index_of_scheme [of s r] by (simp add: isShadowsocksLink_def cut_scheme_def EqualFold_def)
qed

lemma linkURL_text:
  assumes "scheme_ok sch"
  obtains r where "linkURL sch usr h p ps remark = sch @ ''://'' @ r"
  using that url_string_host_url [of sch "HostForURI h @ '':'' @ p" usr "encodeParams ps" remark] assms
  by (auto simp: linkURL_def scheme_ok_def)

lemma link_url_written:
  assumes "scheme_ok sch" and "link_host h" and "port_ok p" and "plain_params ps"
    and "usr \<noteq> None \<or> sch \<noteq> ''ss'' \<and> sch \<noteq> ''shadowsocks''"
  shows "link_url e (linkURL sch usr h p ps remark) = Some (host_url sch usr (HostForURI h @ '':'' @ p) (encodeParams ps) remark)"
proof -
  obtain r where r: "linkURL sch usr h p ps remark = sch @ ''://'' @ r" using linkURL_text [OF assms(1)] .
  have "isShadowsocksLink e (linkURL sch usr h p ps remark) \<longleftrightarrow> sch = ''ss'' \<or> sch = ''shadowsocks''"
    unfolding r by (rule isShadowsocksLink_printed [OF assms(1)])
  with assms(5) linkURL_parse [OF assms(1-4), of usr remark] show ?thesis
    by (auto simp: link_url_def host_url_def)
qed

lemma host_url_simps [simp]:
  "ur_scheme (host_url s u h q f) = s" "ur_user (host_url s u h q f) = u" "ur_host (host_url s u h q f) = h"
  "ur_query (host_url s u h q f) = q" "ur_fragment (host_url s u h q f) = f" "ur_path (host_url s u h q f) = []"
  by (simp_all add: host_url_def empty_url_def)

text \<open>The endpoint that was written.\<close>

definition link_target :: "string \<Rightarrow> string \<Rightarrow> bool" where
  "link_target h p \<longleftrightarrow> link_host h \<and> port_ok p \<and> 0 < dec_value p \<and> dec_value p < 65536"

lemma endpoint_written:
  "link_target h p \<Longrightarrow> endpoint ty d (host_url s u (HostForURI h @ CHR '':'' # p) q f) i =
     [(''type'', JStr ty), (''tag'', JStr (link_tag i f)), (''server'', JStr h), (''server_port'', jint (dec_value p))]"
  using link_endpoint(2) [of h p, simplified] Atoi_digits [of p]
  by (auto simp: endpoint_def split_hp_def link_port_def link_target_def port_ok_def)

lemma proxy_written:
  "link_target h p \<Longrightarrow> proxyEndpoint (host_url s u (HostForURI h @ CHR '':'' # p) q f) = Inr (h, dec_value p)"
  using link_endpoint(2) [of h p, simplified] Atoi_digits [of p] by (auto simp: proxyEndpoint_def link_target_def)

section \<open>The parameters of the builders\<close>

lemma plain_keys [simp]:
  "plain_key ''type''" "plain_key ''host''" "plain_key ''path''" "plain_key ''serviceName''" "plain_key ''security''" "plain_key ''pbk''"
  "plain_key ''sid''" "plain_key ''allowInsecure''" "plain_key ''insecure''" "plain_key ''pinSHA256''" "plain_key ''pcs''"
  "plain_key ''disable_sni''" "plain_key ''fp''" "plain_key ''sni''" "plain_key ''alpn''" "plain_key ''downmbps''" "plain_key ''upmbps''"
  "plain_key ''auth''" "plain_key ''obfs''" "plain_key ''obfs-password''" "plain_key ''fastopen''" "plain_key ''tfo''" "plain_key ''mport''"
  "plain_key ''congestion_control''" "plain_key ''udp_relay_mode''" "plain_key ''flow''" "plain_key ''padding''" "plain_key ''peer''"
  "plain_key ''plugin''"
  by code_simp+

text \<open>A property of all keys of a list that is put together from optional parts.\<close>

lemma keys_Nil: "list_all (\<lambda>p. P (fst p)) []"
  by simp

lemma keys_Cons: "P k \<Longrightarrow> list_all (\<lambda>p. P (fst p)) ps \<Longrightarrow> list_all (\<lambda>p. P (fst p)) ((k, v) # ps)"
  by simp

lemma keys_append: "list_all (\<lambda>p. P (fst p)) ps \<Longrightarrow> list_all (\<lambda>p. P (fst p)) qs \<Longrightarrow> list_all (\<lambda>p. P (fst p)) (ps @ qs)"
  by simp

lemma keys_opt:
  "list_all (\<lambda>p. P (fst p)) z \<Longrightarrow> (\<And>u. list_all (\<lambda>p. P (fst p)) (g u)) \<Longrightarrow>
     list_all (\<lambda>p. P (fst p)) (case x of None \<Rightarrow> z | Some u \<Rightarrow> g u)"
  by (cases x) simp_all

lemma keys_if:
  "list_all (\<lambda>p. P (fst p)) ps \<Longrightarrow> list_all (\<lambda>p. P (fst p)) qs \<Longrightarrow> list_all (\<lambda>p. P (fst p)) (if b then ps else qs)"
  by simp

lemmas keys_intros = keys_Nil keys_Cons keys_append keys_opt keys_if

lemma plain_chosen_keys: "plain_key (insecureKeyFor protocol)" "plain_key (pcsKeyFor protocol)"
  by (simp_all add: insecureKeyFor_def pcsKeyFor_def)

lemma plain_getTlsParams [simp]: "plain_params (getTlsParams tls protocol)"
  unfolding getTlsParams_def by (intro keys_intros plain_keys plain_chosen_keys)

lemma plain_tls_params [simp]: "plain_params (tls_params addr protocol)"
  by (simp add: tls_params_def split: option.split)

lemma plain_getTransportParams [simp]: "plain_params (getTransportParams e t)"
  unfolding getTransportParams_def Let_def by (intro keys_intros plain_keys)

lemma plain_builders [simp]:
  "plain_params (vless_params e cfg inbound addr)" "plain_params (trojan_params e inbound addr)"
  "plain_params (hysteria2_params e inbound out addr)" "plain_params (tuic_params inbound out addr)"
  "plain_params (hysteria_params e cfg inbound out addr)" "plain_params (naive_params inbound addr)"
  unfolding vless_params_def trojan_params_def hysteria2_params_def tuic_params_def hysteria_params_def naive_params_def
    mbps_params_def tfo_param_def Let_def
  by (intro keys_intros plain_keys plain_tls_params plain_getTransportParams)+

end
