(* ===== verification/LinkRead.thy ===== *)
theory LinkRead
  imports LinkInv
begin

text \<open>
  The links of each protocol read back: endpoint, tag and credentials, the secret of a Shadowsocks link and the ranges of
  port hopping; and the shape of every outbound that is read.
\<close>

section \<open>Endpoint and credentials\<close>

text \<open>What the link of a subscriber has to hand on of the configuration.\<close>

definition link_secret :: "string \<Rightarrow> jobj \<Rightarrow> jobj" where
  "link_secret t cfg =
     (let field = (\<lambda>k. (k, JStr (jtext cfg k)))
      in if t = ''vless'' then [field ''uuid'']
         else if t = ''tuic'' then [field ''uuid'', field ''password'']
         else if t = ''trojan'' \<or> t = ''hysteria2'' \<or> t = ''anytls'' then [field ''password'']
         else if jtext cfg ''username'' = [] \<and> jtext cfg ''password'' = [] then []
         else [field ''username'', field ''password''])"

definition reads_as :: "link_env \<Rightarrow> int \<Rightarrow> string \<Rightarrow> jobj \<Rightarrow> string \<Rightarrow> string \<Rightarrow> string \<Rightarrow> string \<Rightarrow> bool" where
  "reads_as e n t secret h p remark link \<longleftrightarrow>
     (\<exists>ob. GetOutbound e link n = Inr (ob, link_tag n remark) \<and>
        map_of ob ''type'' = Some (JStr t) \<and> map_of ob ''tag'' = Some (JStr (link_tag n remark)) \<and>
        map_of ob ''server'' = Some (JStr h) \<and> map_of ob ''server_port'' = Some (jint (dec_value p)) \<and>
        (\<forall>(k, v) \<in> set secret. map_of ob k = Some v))"

lemma schemes_ok:
  "scheme_ok ''vless''" "scheme_ok ''trojan''" "scheme_ok ''hysteria2''" "scheme_ok ''anytls''" "scheme_ok ''tuic''"
  "scheme_ok ''socks5''" "scheme_ok ''http''" "scheme_ok ''https''" "scheme_ok ''ss''"
  by code_simp+

lemma target_parts: "link_target h p \<Longrightarrow> link_host h \<and> port_ok p"
  by (simp add: link_target_def)

lemma reads_vless:
  "link_target h p \<Longrightarrow> reads_as e n ''vless'' (link_secret ''vless'' cfg) h p r
     (linkURL ''vless'' (Some (jtext cfg ''uuid'', None)) h p (vless_params e cfg inbound addr) r)"
  using target_parts [of h p]
  by (simp add: reads_as_def GetOutbound_def link_url_written schemes_ok vless_def endpoint_written link_secret_def Username_def Let_def)

lemma reads_trojan:
  "link_target h p \<Longrightarrow> reads_as e n ''trojan'' (link_secret ''trojan'' cfg) h p r
     (linkURL ''trojan'' (Some (jtext cfg ''password'', None)) h p (trojan_params e inbound addr) r)"
  using target_parts [of h p]
  by (simp add: reads_as_def GetOutbound_def link_url_written schemes_ok trojan_def endpoint_written link_secret_def Username_def Let_def)

lemma reads_hysteria2:
  "link_target h p \<Longrightarrow> reads_as e n ''hysteria2'' (link_secret ''hysteria2'' cfg) h p r
     (linkURL ''hysteria2'' (Some (jtext cfg ''password'', None)) h p (hysteria2_params e inbound out addr) r)"
  using target_parts [of h p]
  by (simp add: reads_as_def GetOutbound_def link_url_written schemes_ok hy2_def endpoint_written link_secret_def Username_def Let_def)

lemma reads_anytls:
  "link_target h p \<Longrightarrow> reads_as e n ''anytls'' (link_secret ''anytls'' cfg) h p r
     (linkURL ''anytls'' (Some (jtext cfg ''password'', None)) h p (tls_params addr ''anytls'') r)"
  using target_parts [of h p]
  by (simp add: reads_as_def GetOutbound_def link_url_written schemes_ok anytls_def endpoint_written link_secret_def Username_def Let_def)

lemma reads_tuic:
  "link_target h p \<Longrightarrow> reads_as e n ''tuic'' (link_secret ''tuic'' cfg) h p r
     (linkURL ''tuic'' (Some (jtext cfg ''uuid'', Some (jtext cfg ''password''))) h p (tuic_params inbound out addr) r)"
  using target_parts [of h p]
  by (simp add: reads_as_def GetOutbound_def link_url_written schemes_ok tuic_def endpoint_written link_secret_def Username_def
      Password_def Let_def)

lemma reads_socks:
  "link_target h p \<Longrightarrow> reads_as e n ''socks'' (link_secret ''socks'' cfg) h p r (linkURL ''socks5'' (proxyUserinfo cfg) h p [] r)"
  using target_parts [of h p]
  by (simp add: reads_as_def GetOutbound_def link_url_written schemes_ok socksProxy_def proxy_written link_secret_def Username_def
      Password_def Let_def rbind_def proxyCredentials_def proxyUserinfo_def)

lemma reads_http:
  "link_target h p \<Longrightarrow> sch = ''http'' \<or> sch = ''https'' \<Longrightarrow>
     reads_as e n ''http'' (link_secret ''http'' cfg) h p r (linkURL sch (proxyUserinfo cfg) h p [] r)"
  using target_parts [of h p]
  by (auto simp: reads_as_def GetOutbound_def link_url_written schemes_ok httpProxy_def proxy_written link_secret_def Username_def
      Password_def Let_def rbind_def proxyCredentials_def proxyUserinfo_def)

text \<open>All links of an inbound, one for each address.\<close>

definition target_addr :: "link_env \<Rightarrow> jobj \<Rightarrow> bool" where
  "target_addr e addr \<longleftrightarrow> link_target (jtext addr ''server'') (port_text e addr)"

definition url_types :: "string list" where
  "url_types = [''vless'', ''trojan'', ''hysteria2'', ''anytls'', ''tuic'', ''socks'', ''http'']"

lemma all2_map: "list_all P xs \<Longrightarrow> (\<And>x. P x \<Longrightarrow> R x (f x)) \<Longrightarrow> list_all2 R xs (map f xs)"
  by (auto simp: list_all2_conv_all_nth list_all_length)

lemma links_read_back:
  assumes "li_type i \<in> set url_types" and "li_full i = Inr inbound" and "li_addrs i = Inr addrs"
    and ok: "list_all (target_addr e) (link_addrs e i host clientRemark inbound addrs)"
  shows "list_all2 (\<lambda>addr link. reads_as e n (li_type i)
      (link_secret (li_type i) (case map_of user (li_type i) of None \<Rightarrow> [] | Some c \<Rightarrow> c))
      (jtext addr ''server'') (port_text e addr) (jtext addr ''remark'') link)
    (link_addrs e i host clientRemark inbound addrs) (LinkGenerator e (Inr user) i host clientRemark)"
proof -
  from assms(1) consider "li_type i = ''vless''" | "li_type i = ''trojan''" | "li_type i = ''hysteria2''" | "li_type i = ''anytls''"
    | "li_type i = ''tuic''" | "li_type i = ''socks''" | "li_type i = ''http''" by (auto simp: url_types_def)
  then show ?thesis
    by cases (auto simp: LinkGenerator_def assms(2,3) vlessLink_def trojanLink_def hysteria2Link_def anytlsLink_def
        tuicLink_def socksLink_def httpLink_def target_addr_def Let_def
        intro!: all2_map [OF ok] reads_vless reads_trojan reads_hysteria2 reads_anytls reads_tuic reads_socks reads_http)
qed


section \<open>The identity of the server\<close>

lemma read_get: "k \<noteq> ''mport'' \<Longrightarrow> k \<noteq> ''alpn'' \<Longrightarrow> map_of (concat (map read_param ps)) k = map_of ps k"
proof (induction ps)
  case (Cons p ps)
  then show ?case by (cases p) (auto simp: read_param_def map_add_def split: option.split)
qed simp

lemma map_of_opt: "map_of (case x of None \<Rightarrow> [] | Some u \<Rightarrow> g u) k = (case x of None \<Rightarrow> None | Some u \<Rightarrow> map_of (g u) k)"
  by (cases x) simp_all

lemma map_of_when: "map_of (if b then ps else qs) k = (if b then map_of ps k else map_of qs k)"
  by simp

definition has_reality :: "jobj \<Rightarrow> bool" where
  "has_reality tls = (case jmap tls ''reality'' of None \<Rightarrow> False | Some r \<Rightarrow> AsBool (map_of r ''enabled''))"

text \<open>The parameters in two parts: the kind of security, and what follows it.\<close>

definition tls_kind :: "jobj \<Rightarrow> string \<Rightarrow> link_param list" where
  "tls_kind tls protocol =
     [(''security'', ''tls'')] @
     (if jtrue tls ''insecure'' then [(insecureKeyFor protocol, ''1'')] else []) @
     (if jtext tls ''pinSHA256'' \<noteq> [] then [(pcsKeyFor protocol, jtext tls ''pinSHA256'')] else []) @
     (if jtrue tls ''disable_sni'' then [(''disable_sni'', ''1'')] else [])"

definition reality_kind :: "jobj \<Rightarrow> link_param list" where
  "reality_kind r =
     [(''security'', ''reality'')] @
     (case jstr r ''public_key'' of None \<Rightarrow> [] | Some s \<Rightarrow> [(''pbk'', s)]) @
     (case jstr r ''short_id'' of None \<Rightarrow> [] | Some s \<Rightarrow> [(''sid'', s)])"

definition tls_tail :: "jobj \<Rightarrow> link_param list" where
  "tls_tail tls =
     (case jmap tls ''utls'' of
        None \<Rightarrow> []
      | Some u \<Rightarrow> (case jstr u ''fingerprint'' of None \<Rightarrow> [] | Some s \<Rightarrow> [(''fp'', s)])) @
     (if TlsServerName tls \<noteq> [] then [(''sni'', TlsServerName tls)] else []) @
     (if AsStringList (map_of tls ''alpn'') \<noteq> [] then [(''alpn'', join_with '','' (AsStringList (map_of tls ''alpn'')))] else [])"

lemma getTlsParams_kinds:
  "getTlsParams tls protocol =
     (if has_reality tls then reality_kind (case jmap tls ''reality'' of None \<Rightarrow> [] | Some r \<Rightarrow> r) else tls_kind tls protocol) @ tls_tail tls"
proof (cases "jmap tls ''reality''")
  case None
  show ?thesis unfolding getTlsParams_def has_reality_def tls_kind_def tls_tail_def None option.case if_False append_assoc ..
next
  case (Some r)
  show ?thesis
  proof (cases "AsBool (map_of r ''enabled'')")
    case True
    show ?thesis unfolding getTlsParams_def has_reality_def reality_kind_def tls_tail_def Some option.case if_P [OF True] append_assoc ..
  next
    case False
    show ?thesis unfolding getTlsParams_def has_reality_def tls_kind_def tls_tail_def Some option.case if_not_P [OF False] append_assoc ..
  qed
qed

lemma tls_tail_get:
  "map_of (tls_tail tls) ''sni'' = (if TlsServerName tls \<noteq> [] then Some (TlsServerName tls) else None)"
  "k \<notin> {''fp'', ''sni'', ''alpn''} \<Longrightarrow> map_of (tls_tail tls) k = None"
  by (auto simp: tls_tail_def map_add_def split: option.split)

lemma reality_kind_get:
  "map_of (reality_kind r) ''security'' = Some ''reality''" "map_of (reality_kind r) ''pbk'' = jstr r ''public_key''"
  "map_of (reality_kind r) ''sid'' = jstr r ''short_id''" "k \<notin> {''security'', ''pbk'', ''sid''} \<Longrightarrow> map_of (reality_kind r) k = None"
  by (auto simp: reality_kind_def map_add_def split: option.split)

lemma tls_kind_get:
  "map_of (tls_kind tls protocol) ''security'' = Some ''tls''"
  "map_of (tls_kind tls protocol) (insecureKeyFor protocol) = (if jtrue tls ''insecure'' then Some ''1'' else None)"
  "k \<in> {''insecure'', ''allowInsecure''} \<Longrightarrow> k \<noteq> insecureKeyFor protocol \<Longrightarrow> map_of (tls_kind tls protocol) k = None"
  "k \<in> {''sni'', ''pbk'', ''sid''} \<Longrightarrow> map_of (tls_kind tls protocol) k = None"
proof -
  define ik pk where k: "ik = insecureKeyFor protocol" "pk = pcsKeyFor protocol"
  have ik: "ik = ''allowInsecure'' \<or> ik = ''insecure''" and pk: "pk = ''pinSHA256'' \<or> pk = ''pcs''"
    by (simp_all add: k insecureKeyFor_def pcsKeyFor_def)
  show "map_of (tls_kind tls protocol) ''security'' = Some ''tls''" by (simp add: tls_kind_def)
  show "map_of (tls_kind tls protocol) (insecureKeyFor protocol) = (if jtrue tls ''insecure'' then Some ''1'' else None)"
    unfolding tls_kind_def k [symmetric] using ik pk by (elim disjE) simp_all
  show "map_of (tls_kind tls protocol) k = None" if "k \<in> {''insecure'', ''allowInsecure''}" "k \<noteq> insecureKeyFor protocol"
    unfolding tls_kind_def k [symmetric] using ik pk that [folded k] by (elim disjE insertE) simp_all
  show "map_of (tls_kind tls protocol) k = None" if "k \<in> {''sni'', ''pbk'', ''sid''}"
    unfolding tls_kind_def k [symmetric] using ik pk that by (elim disjE insertE) simp_all
qed


definition tls_value :: "jobj \<Rightarrow> string \<Rightarrow> string \<Rightarrow> string" where
  "tls_value tls protocol k = q_get (getTlsParams tls protocol) k"

definition identity_keys :: "string set" where
  "identity_keys = {''security'', ''pbk'', ''sid'', ''sni'', ''insecure'', ''allowInsecure''}"

lemma tls_values:
  "tls_value tls protocol ''security'' = (if has_reality tls then ''reality'' else ''tls'')"
  "tls_value tls protocol ''sni'' = TlsServerName tls"
  "has_reality tls \<Longrightarrow> jmap tls ''reality'' = Some r \<Longrightarrow> tls_value tls protocol ''pbk'' = jtext r ''public_key''"
  "has_reality tls \<Longrightarrow> jmap tls ''reality'' = Some r \<Longrightarrow> tls_value tls protocol ''sid'' = jtext r ''short_id''"
  by (simp_all add: tls_value_def q_get_def getTlsParams_kinds map_add_def tls_tail_get reality_kind_get tls_kind_get jtext_def split: option.split)

lemma tls_value_insecure:
  "is_on (tls_value tls protocol ''insecure'') \<or> is_on (tls_value tls protocol ''allowInsecure'') \<longleftrightarrow>
     jtrue tls ''insecure'' \<and> \<not> has_reality tls"
proof (cases "has_reality tls")
  case True
  then show ?thesis by (simp add: tls_value_def q_get_def getTlsParams_kinds map_add_def tls_tail_get reality_kind_get is_on_def)
next
  case False
  define k where "k = insecureKeyFor protocol"
  then consider "k = ''insecure''" "map_of (tls_kind tls protocol) ''allowInsecure'' = None"
    | "k = ''allowInsecure''" "map_of (tls_kind tls protocol) ''insecure'' = None"
    using tls_kind_get(3) [of "''insecure''" protocol tls] tls_kind_get(3) [of "''allowInsecure''" protocol tls]
    by (cases "k = ''insecure''") (auto simp: insecureKeyFor_def split: if_splits)
  then show ?thesis
    using False tls_kind_get(2) [of tls protocol, folded k_def]
    by cases (simp_all add: tls_value_def q_get_def getTlsParams_kinds map_add_def tls_tail_get is_on_def)
qed

text \<open>What an outbound has to know of the server: that it speaks TLS, its name, its Reality key, and whether to check it.\<close>

definition knows_server :: "jobj \<Rightarrow> jobj \<Rightarrow> bool" where
  "knows_server tls t \<longleftrightarrow>
     jtrue t ''enabled'' \<and> jtext t ''server_name'' = TlsServerName tls \<and>
     (if has_reality tls then
        \<exists>r r'. jmap tls ''reality'' = Some r \<and> jmap t ''reality'' = Some r' \<and> jtrue r' ''enabled'' \<and>
          jtext r' ''public_key'' = jtext r ''public_key'' \<and> jtext r' ''short_id'' = jtext r ''short_id''
      else jmap t ''reality'' = None) \<and>
     (jtrue t ''insecure'' \<longleftrightarrow> jtrue tls ''insecure'' \<and> \<not> has_reality tls)"

lemma getTls_parts:
  "map_of (getTls s q) ''enabled'' = (if s = ''tls'' \<or> s = ''reality'' then Some (JBool True) else None)"
  "jtext (getTls s q) ''server_name'' = q_get q ''sni''"
  "jmap (getTls s q) ''reality'' = (if s = ''reality'' then Some [(''enabled'', JBool True), (''public_key'', JStr (q_get q ''pbk'')),
     (''short_id'', JStr (q_get q ''sid''))] else None)"
  "jtrue (getTls s q) ''insecure'' \<longleftrightarrow> is_on (q_get q ''insecure'') \<or> is_on (q_get q ''allowInsecure'')"
  by (simp_all add: getTls_def sni_alpn_def utls_of_def jtext_def jstr_def jmap_def jtrue_def map_add_def)

lemma getTls_knows:
  assumes "\<And>k. k \<in> identity_keys \<Longrightarrow> q_get q k = tls_value tls protocol k"
  shows "knows_server tls (getTls (q_get q ''security'') q)"
proof -
  have q: "q_get q k = tls_value tls protocol k" if "k \<in> set [''security'', ''pbk'', ''sid'', ''sni'', ''insecure'', ''allowInsecure'']" for k
    using assms that by (simp add: identity_keys_def)
  obtain r where r: "has_reality tls \<Longrightarrow> jmap tls ''reality'' = Some r" by (cases "jmap tls ''reality''") (auto simp: has_reality_def)
  show ?thesis
    unfolding knows_server_def getTls_parts
    using r tls_values(3,4) [of tls r protocol] tls_value_insecure [of tls protocol]
    by (simp add: q tls_values(1,2) getTls_parts jtrue_def) (auto simp: jtext_def jstr_def)
qed


abbreviation not_identity :: "link_param list \<Rightarrow> bool" where
  "not_identity ps \<equiv> list_all (\<lambda>p. fst p \<notin> identity_keys) ps"

lemma q_get_read:
  assumes "not_identity a" and "not_identity b" and k: "k \<in> identity_keys"
  shows "q_get (concat (map read_param (a @ getTlsParams tls protocol @ b))) k = tls_value tls protocol k"
proof -
  have "k \<noteq> ''mport''" "k \<noteq> ''alpn''" using k by (auto simp: identity_keys_def)
  then have "map_of (concat (map read_param (a @ getTlsParams tls protocol @ b))) k = map_of (a @ getTlsParams tls protocol @ b) k"
    by (rule read_get)
  moreover have "map_of a k = None" "map_of b k = None"
    using assms by (auto simp: map_of_eq_None_iff list_all_iff)
  ultimately show ?thesis by (simp add: q_get_def tls_value_def map_add_def split: option.split)
qed

lemma other_keys:
  "''type'' \<notin> identity_keys" "''host'' \<notin> identity_keys" "''path'' \<notin> identity_keys" "''serviceName'' \<notin> identity_keys"
  "''flow'' \<notin> identity_keys" "''downmbps'' \<notin> identity_keys" "''upmbps'' \<notin> identity_keys" "''obfs'' \<notin> identity_keys"
  "''obfs-password'' \<notin> identity_keys" "''fastopen'' \<notin> identity_keys" "''mport'' \<notin> identity_keys"
  "''congestion_control'' \<notin> identity_keys" "''udp_relay_mode'' \<notin> identity_keys"
  by (simp_all add: identity_keys_def)

lemmas other_intros = keys_intros [where P = "\<lambda>k. k \<notin> identity_keys"] other_keys

lemma transport_other: "not_identity (getTransportParams e t)"
  unfolding getTransportParams_def Let_def by (intro other_intros)

text \<open>The parameters around the TLS ones, by protocol.\<close>

definition around_tls :: "link_param list \<Rightarrow> jobj \<Rightarrow> string \<Rightarrow> bool" where
  "around_tls ps tls protocol \<longleftrightarrow>
     (\<exists>a b. ps = a @ getTlsParams tls protocol @ b \<and> not_identity (a @ b))"

lemma around_tls_knows:
  assumes "plain_params ps" and "around_tls ps tls protocol"
  shows "knows_server tls (getTls (q_get (parse_query (encodeParams ps)) ''security'') (parse_query (encodeParams ps)))"
    and "q_get (parse_query (encodeParams ps)) ''security'' \<noteq> []"
proof -
  obtain a b where ab: "ps = a @ getTlsParams tls protocol @ b" "not_identity (a @ b)"
    using assms(2) by (auto simp: around_tls_def)
  have q: "q_get (parse_query (encodeParams ps)) k = tls_value tls protocol k" if "k \<in> identity_keys" for k
    unfolding encodeParams_read [OF assms(1)] unfolding ab(1) by (rule q_get_read [OF _ _ that]) (use ab(2) in simp_all)
  then show "knows_server tls (getTls (q_get (parse_query (encodeParams ps)) ''security'') (parse_query (encodeParams ps)))"
    by (rule getTls_knows)
  have "''security'' \<in> identity_keys" by (simp add: identity_keys_def)
  from q [OF this] show "q_get (parse_query (encodeParams ps)) ''security'' \<noteq> []" by (simp add: tls_values(1))
qed

lemma around_builders:
  assumes "jmap addr ''tls'' = Some tls"
  shows "tls_enabled addr \<Longrightarrow> around_tls (vless_params e cfg inbound addr) tls ''vless''"
    and "tls_enabled addr \<Longrightarrow> around_tls (trojan_params e inbound addr) tls ''trojan''"
    and "around_tls (hysteria2_params e inbound out addr) tls ''hysteria2''"
    and "around_tls (tls_params addr ''anytls'') tls ''anytls''"
    and "around_tls (tuic_params inbound out addr) tls ''tuic''"
proof -
  have t: "tls_params addr p = getTlsParams tls p" for p using assms by (simp add: tls_params_def)
  show "around_tls (vless_params e cfg inbound addr) tls ''vless''" if "tls_enabled addr"
    unfolding around_tls_def vless_params_def t Let_def if_P [OF that]
    by (rule exI [of _ "getTransportParams e (map_of inbound ''transport'')"], rule exI, rule conjI, rule refl)
       (intro other_intros transport_other)
  show "around_tls (trojan_params e inbound addr) tls ''trojan''" if "tls_enabled addr"
    unfolding around_tls_def trojan_params_def t if_P [OF that]
    by (rule exI [of _ "getTransportParams e (map_of inbound ''transport'')"], rule exI [of _ "[]"]) (simp add: transport_other)
  show "around_tls (hysteria2_params e inbound out addr) tls ''hysteria2''"
    unfolding around_tls_def hysteria2_params_def t
    by (rule exI [of _ "mbps_params e inbound"], rule exI, rule conjI, rule refl)
       (unfold mbps_params_def tfo_param_def, intro other_intros)
  show "around_tls (tls_params addr ''anytls'') tls ''anytls''"
    unfolding around_tls_def t by (rule exI [of _ "[]"], rule exI [of _ "[]"]) simp
  show "around_tls (tuic_params inbound out addr) tls ''tuic''"
    unfolding around_tls_def tuic_params_def t Let_def
    by (rule exI [of _ "[]"], rule exI, rule conjI, unfold append.left_neutral, rule refl) (intro other_intros)
qed


text \<open>For an address with TLS the outbound knows the server.\<close>

definition tls_types :: "string list" where
  "tls_types = [''vless'', ''trojan'', ''hysteria2'', ''anytls'', ''tuic'']"

definition serves_tls :: "string \<Rightarrow> jobj \<Rightarrow> jobj \<Rightarrow> bool" where
  "serves_tls t addr tls \<longleftrightarrow> jmap addr ''tls'' = Some tls \<and> (t = ''vless'' \<or> t = ''trojan'' \<longrightarrow> tls_enabled addr)"

definition keeps_server :: "link_env \<Rightarrow> int \<Rightarrow> string \<Rightarrow> jobj \<Rightarrow> string \<Rightarrow> bool" where
  "keeps_server e n t addr link \<longleftrightarrow>
     (\<forall>tls. serves_tls t addr tls \<longrightarrow>
        (\<exists>ob tag o_tls. GetOutbound e link n = Inr (ob, tag) \<and> jmap ob ''tls'' = Some o_tls \<and> knows_server tls o_tls))"

lemma or_tls_id: "s \<noteq> [] \<Longrightarrow> or_tls s = s"
  by (simp add: or_tls_def)

lemma keeps_server_link:
  assumes p: "link_target h p"
  shows "keeps_server e n ''vless'' addr (linkURL ''vless'' (Some (u, None)) h p (vless_params e cfg inbound addr) r)"
    and "keeps_server e n ''trojan'' addr (linkURL ''trojan'' (Some (u, None)) h p (trojan_params e inbound addr) r)"
    and "keeps_server e n ''hysteria2'' addr (linkURL ''hysteria2'' (Some (u, None)) h p (hysteria2_params e inbound out addr) r)"
    and "keeps_server e n ''anytls'' addr (linkURL ''anytls'' (Some (u, None)) h p (tls_params addr ''anytls'') r)"
    and "keeps_server e n ''tuic'' addr (linkURL ''tuic'' (Some (u, Some w)) h p (tuic_params inbound out addr) r)"
proof -
  note parsed = GetOutbound_def link_url_written schemes_ok endpoint_written [OF p] jmap_def Let_def
  note t = target_parts [OF p]
  note kn = around_tls_knows(1) [OF _ around_builders(1)] around_tls_knows(1) [OF _ around_builders(2)]
    around_tls_knows [OF _ around_builders(3)] around_tls_knows [OF _ around_builders(4)] around_tls_knows [OF _ around_builders(5)]
  show "keeps_server e n ''vless'' addr (linkURL ''vless'' (Some (u, None)) h p (vless_params e cfg inbound addr) r)"
    using t kn(1) by (simp add: keeps_server_def serves_tls_def vless_def parsed)
  show "keeps_server e n ''trojan'' addr (linkURL ''trojan'' (Some (u, None)) h p (trojan_params e inbound addr) r)"
    using t kn(2) by (simp add: keeps_server_def serves_tls_def trojan_def parsed)
  show "keeps_server e n ''hysteria2'' addr (linkURL ''hysteria2'' (Some (u, None)) h p (hysteria2_params e inbound out addr) r)"
    using t kn(3,4) by (simp add: keeps_server_def serves_tls_def hy2_def parsed or_tls_id)
  show "keeps_server e n ''anytls'' addr (linkURL ''anytls'' (Some (u, None)) h p (tls_params addr ''anytls'') r)"
    using t kn(5,6) by (simp add: keeps_server_def serves_tls_def anytls_def parsed or_tls_id)
  show "keeps_server e n ''tuic'' addr (linkURL ''tuic'' (Some (u, Some w)) h p (tuic_params inbound out addr) r)"
    using t kn(7,8) by (simp add: keeps_server_def serves_tls_def tuic_def parsed or_tls_id)
qed


lemma links_keep_server:
  assumes "li_type i \<in> set tls_types" and "li_full i = Inr inbound" and "li_addrs i = Inr addrs"
    and ok: "list_all (target_addr e) (link_addrs e i host clientRemark inbound addrs)"
  shows "list_all2 (keeps_server e n (li_type i))
    (link_addrs e i host clientRemark inbound addrs) (LinkGenerator e (Inr user) i host clientRemark)"
proof -
  from assms(1) consider "li_type i = ''vless''" | "li_type i = ''trojan''" | "li_type i = ''hysteria2''" | "li_type i = ''anytls''"
    | "li_type i = ''tuic''" by (auto simp: tls_types_def)
  then show ?thesis
    by cases (auto simp: LinkGenerator_def assms(2,3) vlessLink_def trojanLink_def hysteria2Link_def anytlsLink_def
        tuicLink_def target_addr_def Let_def intro!: all2_map [OF ok] keeps_server_link)
qed

section \<open>Shadowsocks\<close>

lemma decodeAnyBase64_encode: "decodeAnyBase64 (base64_encode u p s) = Some s"
proof -
  have r: "base64_decode u p (base64_encode u p s) = Some s" by (rule base64_round_trip)
  then have a: "a = s" if "base64_decode u' p' (base64_encode u p s) = Some a" for u' p' a
    using base64_forms_agree that by blast
  have "\<exists>b. decodeAnyBase64 (base64_encode u p s) = Some b"
    using r by (cases u; cases p) (auto simp: decodeAnyBase64_def split: option.split)
  with a show ?thesis by (auto simp: decodeAnyBase64_def split: option.splits)
qed

lemma sym64_plain: "v < 64 \<Longrightarrow> \<not> shouldEscape UserPassword (sym64 True v)"
proof -
  assume v: "v < 64"
  have "is_alnum (sym64 True v) \<or> sym64 True v \<in> set ''-_.~''"
    using v by (auto simp: sym64_def is_alnum_def Let_def)
  then show ?thesis unfolding shouldEscape_def by (auto simp del: list.set)
qed

lemma base64_user: "escape UserPassword (base64_encode True False s) = base64_encode True False s"
  using b64.encode_alphabet [of _ True s] sym64_plain
  by (intro escape_plain) (force simp: base64_encode_def list_all_iff)+

lemma ss_link_text:
  assumes "link_target h p"
  shows "''ss://'' @ base64_encode True False s @ ''@'' @
      drop 5 (url_string (host_url ''ss'' None (HostForURI h @ '':'' @ p) (encodeParams ps) r)) =
    linkURL ''ss'' (Some (base64_encode True False s, None)) h p ps r"
  unfolding linkURL_def using url_string_host_url [of "''ss''" "HostForURI h @ '':'' @ p" _ "encodeParams ps" r]
  by (simp add: user_string_def base64_user)

lemma ss_credentials_written:
  assumes "CHR '':'' \<notin> set method"
  shows "ss_credentials (host_url sch (Some (base64_encode True False (method @ '':'' @ secret), None)) hp q r) = Inr (method, secret)"
proof -
  obtain x xs where x: "split_on CHR '':'' secret = x # xs" by (cases "split_on CHR '':'' secret") auto
  then have "join_with '':'' (x # xs) = secret" using join_split [of "CHR '':''" secret] by simp
  with x show ?thesis
    using split_on_append [OF assms, of secret]
    by (simp add: ss_credentials_def Username_def StrOrBase64AnyEncoded_def decodeAnyBase64_encode)
qed

lemma reads_shadowsocks:
  assumes "link_target h p" and "CHR '':'' \<notin> set method" and "plain_params ps"
  shows "reads_as e n ''shadowsocks'' [(''method'', JStr method), (''password'', JStr secret)] h p r
    (linkURL ''ss'' (Some (base64_encode True False (method @ '':'' @ secret), None)) h p ps r)"
  using target_parts [OF assms(1)] assms(3)
  by (simp add: reads_as_def GetOutbound_def link_url_written schemes_ok ss_def rbind_def ss_credentials_written [OF assms(2), simplified]
      endpoint_written [OF assms(1)] Let_def)

lemma shadowsocks_links_read_back:
  assumes "CHR '':'' \<notin> set (jtext inbound ''method'')" and "list_all (target_addr e) addrs"
  shows "list_all2 (\<lambda>addr link. reads_as e n ''shadowsocks''
      [(''method'', JStr (jtext inbound ''method'')), (''password'', JStr (shadowsocks_secret user inbound))]
      (jtext addr ''server'') (port_text e addr) (jtext addr ''remark'') link) addrs (shadowsocksLink e user inbound out addrs)"
  unfolding shadowsocksLink_def Let_def
  by (rule all2_map [OF assms(2)]) (simp only: target_addr_def ss_link_text, rule reads_shadowsocks [OF _ assms(1)], assumption,
      simp split: option.split)

section \<open>Every outbound\<close>

definition outbound_types :: "string list" where
  "outbound_types = [''socks'', ''http'', ''vmess'', ''vless'', ''trojan'', ''hysteria'', ''hysteria2'', ''anytls'', ''tuic'',
     ''shadowsocks'', ''naive'']"

text \<open>The fields sing-box insists on have their types: texts where it wants texts and a number for the port.\<close>

definition typed_outbound :: "jobj \<Rightarrow> string \<Rightarrow> bool" where
  "typed_outbound ob tag \<longleftrightarrow>
     (\<exists>t \<in> set outbound_types. map_of ob ''type'' = Some (JStr t) \<and> map_of ob ''tag'' = Some (JStr tag) \<and>
        (\<exists>port. map_of ob ''server_port'' = Some (jint port)) \<and>
        (t \<noteq> ''vmess'' \<longrightarrow> (\<exists>server. map_of ob ''server'' = Some (JStr server))))"

lemma typed_start:
  "t \<in> set outbound_types \<Longrightarrow> t \<noteq> ''vmess'' \<Longrightarrow> typed_outbound ((''type'', JStr t) # (''tag'', JStr tag) # (''server'', JStr h) #
     (''server_port'', jint port) # rest) tag"
  by (auto simp: typed_outbound_def)

lemma typed_endpoint:
  "t \<in> set outbound_types \<Longrightarrow> t \<noteq> ''vmess'' \<Longrightarrow> typed_outbound (endpoint t d u i @ rest) (link_tag i (ur_fragment u))"
  unfolding endpoint_def by (cases "split_hp (ur_host u)") (simp add: typed_start)

lemma known_types:
  "''socks'' \<in> set outbound_types" "''http'' \<in> set outbound_types" "''vless'' \<in> set outbound_types" "''trojan'' \<in> set outbound_types"
  "''hysteria'' \<in> set outbound_types" "''hysteria2'' \<in> set outbound_types" "''anytls'' \<in> set outbound_types"
  "''tuic'' \<in> set outbound_types" "''shadowsocks'' \<in> set outbound_types" "''naive'' \<in> set outbound_types"
  "''vmess'' \<in> set outbound_types"
  by (simp_all add: outbound_types_def)

lemmas typed_rules = known_types typed_start typed_endpoint rbind_eq_Inr Let_def

lemma typed_parsers:
  "socksProxy u i = Inr (ob, tag) \<Longrightarrow> typed_outbound ob tag" "httpProxy u i = Inr (ob, tag) \<Longrightarrow> typed_outbound ob tag"
  "vless e u i = Inr (ob, tag) \<Longrightarrow> typed_outbound ob tag" "trojan e u i = Inr (ob, tag) \<Longrightarrow> typed_outbound ob tag"
  "hy u i = Inr (ob, tag) \<Longrightarrow> typed_outbound ob tag" "hy2 u i = Inr (ob, tag) \<Longrightarrow> typed_outbound ob tag"
  "anytls u i = Inr (ob, tag) \<Longrightarrow> typed_outbound ob tag" "tuic u i = Inr (ob, tag) \<Longrightarrow> typed_outbound ob tag"
  "ss u i = Inr (ob, tag) \<Longrightarrow> typed_outbound ob tag" "parseNaiveLink u i = Inr (ob, tag) \<Longrightarrow> typed_outbound ob tag"
  by (auto simp: socksProxy_def httpProxy_def vless_def trojan_def hy_def hy2_def anytls_def tuic_def ss_def parseNaiveLink_def typed_rules
      split: if_splits prod.splits)

lemma typed_vmess: "vmess e data i = Inr (ob, tag) \<Longrightarrow> typed_outbound ob tag"
  unfolding vmess_def typed_outbound_def
  by (intro bexI [of _ "''vmess''"] known_types) (auto simp: rbind_eq_Inr Let_def split: option.splits)

lemma outbounds_typed: "GetOutbound e uri i = Inr (ob, tag) \<Longrightarrow> typed_outbound ob tag"
proof -
  assume g: "GetOutbound e uri i = Inr (ob, tag)"
  then obtain u where u: "link_url e uri = Some u" by (cases "link_url e uri") (auto simp: GetOutbound_def unsupported_def)
  from g show ?thesis
    unfolding GetOutbound_def u option.case Let_def
    by (auto simp: unsupported_def intro: typed_parsers typed_vmess split: if_splits)
qed

end
