(* ===== verification/LinkPorts.thy ===== *)
theory LinkPorts
  imports LinkRead
begin

text \<open>
  Port hopping: the list of an inbound, normalised as the panel stores it, survives the way through the \<^verbatim>\<open>mport\<close> parameter of a
  link and back.
\<close>

section \<open>One entry\<close>

lemma strip_front_id: "(\<And>p. p \<in> set seqs \<Longrightarrow> p \<noteq> [] \<Longrightarrow> \<not> has_prefix s p) \<Longrightarrow> strip_front seqs n s = s"
proof (cases n)
  case (Suc k)
  assume "\<And>p. p \<in> set seqs \<Longrightarrow> p \<noteq> [] \<Longrightarrow> \<not> has_prefix s p"
  then have "find (\<lambda>p. p \<noteq> [] \<and> has_prefix s p) seqs = None" by (auto simp: find_None_iff)
  with Suc show ?thesis by simp
qed simp

lemma TrimSpace_id: "(\<And>c p. c \<in> set s \<Longrightarrow> p \<in> set space_runes \<Longrightarrow> c \<notin> set p) \<Longrightarrow> TrimSpace s = s"
proof -
  assume a: "\<And>c p. c \<in> set s \<Longrightarrow> p \<in> set space_runes \<Longrightarrow> c \<notin> set p"
  have n: "\<not> has_prefix t p" if "set t \<subseteq> set s" "set p \<subseteq> set q" "q \<in> set space_runes" "p \<noteq> []" for t p q
  proof
    assume "has_prefix t p"
    then obtain r where "t = p @ r" by (auto simp: has_prefix_iff)
    with that have "hd p \<in> set s" "hd p \<in> set q" by (auto simp: subset_iff)
    with a that(3) show False by blast
  qed
  have "strip_front space_runes (length s) s = s" by (rule strip_front_id) (use n in blast)
  moreover have "strip_front (map rev space_runes) k (rev s) = rev s" for k
  proof (rule strip_front_id)
    fix p assume "p \<in> set (map rev space_runes)" "p \<noteq> []"
    then obtain q where "q \<in> set space_runes" "p = rev q" by auto
    with n [of "rev s" p q] \<open>p \<noteq> []\<close> show "\<not> has_prefix (rev s) p" by simp
  qed
  ultimately show ?thesis by (simp add: TrimSpace_def)
qed

definition port_char :: "char \<Rightarrow> bool" where
  "port_char c \<longleftrightarrow> is_digit c \<or> c = CHR ''-'' \<or> c = CHR '':''"

lemma runes_no_port: "p \<in> set space_runes \<Longrightarrow> c \<in> set p \<Longrightarrow> \<not> port_char c"
proof -
  have "list_all (list_all (\<lambda>c. \<not> port_char c)) space_runes" by code_simp
  then show "p \<in> set space_runes \<Longrightarrow> c \<in> set p \<Longrightarrow> \<not> port_char c" by (auto simp: list_all_iff)
qed

lemma trim_port: "list_all port_char s \<Longrightarrow> TrimSpace s = s"
  by (rule TrimSpace_id) (use runes_no_port in \<open>auto simp: list_all_iff\<close>)

text \<open>A normalised entry is two ports with a colon between them.\<close>

definition port_range :: "string \<Rightarrow> string \<Rightarrow> string" where
  "port_range a b = a @ '':'' @ b"

lemma normalized_range: "normalizePortRange x \<noteq> [] \<Longrightarrow> \<exists>a b. normalizePortRange x = port_range a b \<and> is_uint16 a \<and> is_uint16 b"
  unfolding normalizePortRange_def Let_def port_range_def
  by (cases "cut CHR '':'' (replace_char CHR ''-'' CHR '':'' (TrimSpace x))") (auto split: if_splits option.splits)

lemma uint16_chars: "is_uint16 a \<Longrightarrow> a \<noteq> [] \<and> CHR '':'' \<notin> set a \<and> CHR ''-'' \<notin> set a \<and> CHR '','' \<notin> set a \<and> list_all port_char a"
proof -
  assume a: "is_uint16 a"
  have "\<not> is_digit (CHR '':'')" "\<not> is_digit (CHR ''-'')" "\<not> is_digit (CHR '','')" by (simp_all add: is_digit_def)
  with a show ?thesis by (auto simp: is_uint16_def list_all_iff port_char_def)
qed

lemma replace_char_absent: "c \<notin> set s \<Longrightarrow> replace_char c d s = s"
  by (auto simp: replace_char_def intro!: map_idI)

lemma replace_char_append: "replace_char c d (s @ t) = replace_char c d s @ replace_char c d t"
  by (simp add: replace_char_def)

lemma render_range:
  assumes "is_uint16 a" and "is_uint16 b"
  shows "render_port (port_range a b) = (if a = b then a else a @ ''-'' @ b)"
proof -
  have "cut CHR '':'' (port_range a b) = (a, Some b)" using uint16_chars [OF assms(1)] cut_present [of "CHR '':''" a b] by (simp add: port_range_def)
  moreover have "replace_char CHR '':'' CHR ''-'' (port_range a b) = a @ ''-'' @ b"
    using uint16_chars [OF assms(1)] uint16_chars [OF assms(2)] replace_char_append [of "CHR '':''" "CHR ''-''" a "'':'' @ b"]
      replace_char_append [of "CHR '':''" "CHR ''-''" "'':''" b]
    by (simp add: port_range_def replace_char_absent) (simp add: replace_char_def)
  ultimately show ?thesis using uint16_chars [OF assms(2)] by (simp add: render_port_def replace_char_absent)
qed

lemma normalize_rendered:
  assumes "is_uint16 a" and "is_uint16 b"
  shows "normalizePortRange (if a = b then a else a @ ''-'' @ b) = port_range a b"
proof -
  note ca = uint16_chars [OF assms(1)] and cb = uint16_chars [OF assms(2)]
  have one: "normalizePortRange a = port_range a a"
    using ca assms(1) trim_port [of a] by (simp add: normalizePortRange_def replace_char_absent cut_absent port_range_def)
  have "port_char (CHR ''-'')" by (simp add: port_char_def)
  then have "TrimSpace (a @ ''-'' @ b) = a @ ''-'' @ b" using ca cb by (intro trim_port) simp
  moreover have "replace_char CHR ''-'' CHR '':'' (a @ ''-'' @ b) = a @ '':'' @ b"
    using ca cb by (simp add: replace_char_append replace_char_absent) (simp add: replace_char_def replace_char_absent [unfolded replace_char_def])
  ultimately have "normalizePortRange (a @ ''-'' @ b) = port_range a b"
    using ca cut_present [of "CHR '':''" a b] assms by (simp add: normalizePortRange_def port_range_def)
  with one show ?thesis by auto
qed


section \<open>Lists\<close>

text \<open>What the panel stores: every entry is a range.\<close>

definition port_ranges :: "string list \<Rightarrow> bool" where
  "port_ranges ps \<longleftrightarrow> (\<forall>x \<in> set ps. \<exists>a b. x = port_range a b \<and> is_uint16 a \<and> is_uint16 b)"

lemma normalized_ranges: "port_ranges (NormalizePortRanges e v)"
  unfolding port_ranges_def NormalizePortRanges_def normalize_ports_def using normalized_range by auto

lemma render_entry:
  assumes "port_ranges ps" and "x \<in> set ps"
  shows "normalizePortRange (render_port x) = x" and "x \<noteq> []" and "CHR '','' \<notin> set (render_port x)"
    and "list_all (raw_char_ok ''mport'') (render_port x)" and "render_port x \<noteq> []"
proof -
  obtain a b where x: "x = port_range a b" "is_uint16 a" "is_uint16 b" using assms by (auto simp: port_ranges_def)
  note r = render_range [OF x(2,3)]
  have ok: "raw_char_ok ''mport'' c" if "port_char c" for c using that by (auto simp: port_char_def raw_char_ok_def)
  then have ok': "list_all (raw_char_ok ''mport'') s" if "list_all port_char s" for s using that by (auto simp: list_all_iff)
  show "normalizePortRange (render_port x) = x" unfolding x(1) r by (rule normalize_rendered [OF x(2,3)])
  show "x \<noteq> []" by (simp add: x(1) port_range_def)
  show "CHR '','' \<notin> set (render_port x)" unfolding x(1) r using uint16_chars [OF x(2)] uint16_chars [OF x(3)] by simp
  show "list_all (raw_char_ok ''mport'') (render_port x)"
    unfolding x(1) r using uint16_chars [OF x(2)] uint16_chars [OF x(3)] ok ok' by (auto simp: port_char_def)
  show "render_port x \<noteq> []" unfolding x(1) r using uint16_chars [OF x(2)] by auto
qed

lemma port_entries_texts: "port_entries e (Some (JArr (map JStr ps))) = ps"
  by (simp add: port_entries_def List.map_filter_def comp_def)

lemma mport_round_trip: "port_ranges ps \<Longrightarrow> serverPortsFromMport (join_with '','' (map render_port ps)) = ps"
proof (cases "ps = []")
  case False
  assume ps: "port_ranges ps"
  have "split_on CHR '','' (join_with '','' (map render_port ps)) = map render_port ps"
    using False render_entry(3) [OF ps] by (intro split_on_join) auto
  moreover have "join_with '','' (map render_port ps) \<noteq> []"
    using False render_entry(5) [OF ps] by (cases ps) (auto simp: join_with_Cons split: list.splits elim: join_with.elims)
  moreover have "map normalizePortRange (map render_port ps) = ps" "filter (\<lambda>p. p \<noteq> []) ps = ps"
    using render_entry(1,2) [OF ps] by (auto simp: filter_id_conv intro!: map_idI)
  ultimately show ?thesis by (simp add: serverPortsFromMport_def normalize_ports_def)
qed (simp add: serverPortsFromMport_def)

lemma mport_safe: "port_ranges ps \<Longrightarrow> ps \<noteq> [] \<Longrightarrow> rawParamIsSafe ''mport'' (join_with '','' (map render_port ps))"
proof -
  assume ps: "port_ranges ps" and ne: "ps \<noteq> []"
  have "raw_char_ok ''mport'' c" if "c \<in> set (join_with '','' (map render_port ps))" for c
    using join_chars [OF that] render_entry(4) [OF ps] by (auto simp: raw_char_ok_def list_all_iff)
  moreover have "join_with '','' (map render_port ps) \<noteq> []"
    using ne render_entry(5) [OF ps] by (cases ps) (auto simp: join_with_Cons split: list.splits elim: join_with.elims)
  ultimately show ?thesis by (simp add: rawParamIsSafe_def list_all_iff)
qed


section \<open>Through a link\<close>

definition hy2_before_ports :: "link_env \<Rightarrow> jobj \<Rightarrow> jobj \<Rightarrow> link_param list" where
  "hy2_before_ports e inbound addr =
     mbps_params e inbound @
     tls_params addr ''hysteria2'' @
     (case jmap inbound ''obfs'' of
        None \<Rightarrow> []
      | Some ob \<Rightarrow>
          (case jstr ob ''type'' of None \<Rightarrow> [] | Some s \<Rightarrow> [(''obfs'', s)]) @
          (case jstr ob ''password'' of None \<Rightarrow> [] | Some s \<Rightarrow> [(''obfs-password'', s)])) @
     tfo_param ''fastopen'' inbound"

lemma hy2_params_ports:
  "hysteria2_params e inbound out addr =
     hy2_before_ports e inbound addr @ (if portHoppingParam e out \<noteq> [] then [(''mport'', portHoppingParam e out)] else [])"
  by (simp only: hysteria2_params_def hy2_before_ports_def append_assoc)

lemma hy2_before_no_mport: "list_all (\<lambda>p. fst p \<noteq> ''mport'') (hy2_before_ports e inbound addr)"
  unfolding hy2_before_ports_def mbps_params_def tls_params_def getTlsParams_def tfo_param_def
  by (intro keys_intros [where P = "\<lambda>k. k \<noteq> ''mport''"]) (simp_all add: insecureKeyFor_def pcsKeyFor_def)

lemma read_no_key: "list_all (\<lambda>p. fst p \<noteq> k) ps \<Longrightarrow> map_of (concat (map read_param ps)) k = None"
  by (auto simp: map_of_eq_None_iff list_all_iff read_param_def split: if_splits)

lemma hy2_mport:
  assumes "port_ranges ps" and that: "map_of out ''server_ports'' = Some (JArr (map JStr ps))"
  shows "q_get (parse_query (encodeParams (hysteria2_params e inbound (Some out) addr))) ''mport'' = join_with '','' (map render_port ps)"
proof -
  define m where "m = join_with '','' (map render_port ps)"
  have p: "portHoppingParam e (Some out) = m"
    by (simp add: portHoppingParam_def PortHoppingRanges_def that port_entries_texts m_def)
  have none: "map_of (concat (map read_param (hy2_before_ports e inbound addr))) ''mport'' = None"
    by (rule read_no_key [OF hy2_before_no_mport])
  have "map_of (concat (map read_param (hysteria2_params e inbound (Some out) addr))) ''mport'' = (if m \<noteq> [] then Some m else None)"
  proof (cases "m = []")
    case True
    with none show ?thesis by (simp add: hy2_params_ports p)
  next
    case False
    then have "ps \<noteq> []" by (auto simp: m_def)
    then have safe: "rawParamIsSafe ''mport'' m" unfolding m_def by (rule mport_safe [OF assms(1)])
    have "\<not> raw_char_ok ''mport'' (CHR ''+'')" by (simp add: raw_char_ok_def is_digit_def)
    with safe have "CHR ''+'' \<notin> set m" by (auto simp: rawParamIsSafe_def list_all_iff)
    then have "read_param (''mport'', m) = [(''mport'', m)]" using safe by (simp add: read_param_def replace_char_absent)
    with False none show ?thesis by (simp add: hy2_params_ports p map_add_def)
  qed
  then show ?thesis
    unfolding encodeParams_read [OF plain_builders(3)] q_get_def m_def [symmetric] by simp
qed

definition keeps_ports :: "link_env \<Rightarrow> int \<Rightarrow> string list \<Rightarrow> string \<Rightarrow> bool" where
  "keeps_ports e n ps link \<longleftrightarrow>
     (\<exists>ob tag. GetOutbound e link n = Inr (ob, tag) \<and>
        map_of ob ''server_ports'' = (if ps = [] then None else Some (JArr (map JStr ps))))"

lemma hy2_keeps_ports:
  assumes "link_target h p" and "port_ranges ps" and "map_of out ''server_ports'' = Some (JArr (map JStr ps))"
  shows "keeps_ports e n ps (linkURL ''hysteria2'' (Some (u, None)) h p (hysteria2_params e inbound (Some out) addr) r)"
proof -
  have "serverPortsFromMport (q_get (parse_query (encodeParams (hysteria2_params e inbound (Some out) addr))) ''mport'') = ps"
    unfolding hy2_mport [OF assms(2,3)] by (rule mport_round_trip [OF assms(2)])
  then show ?thesis
    using target_parts [OF assms(1)]
    by (simp add: keeps_ports_def GetOutbound_def link_url_written schemes_ok hy2_def endpoint_written [OF assms(1)] opt_int_def Let_def)
qed

lemma hysteria2_keeps_ports:
  assumes "list_all (target_addr e) addrs" and "map_of out ''server_ports'' = Some (JArr (map JStr (NormalizePortRanges e v)))"
  shows "list_all (keeps_ports e n (NormalizePortRanges e v)) (hysteria2Link e cfg inbound (Some out) addrs)"
  using assms(1) hy2_keeps_ports [OF _ normalized_ranges assms(2)]
  by (auto simp: hysteria2Link_def list_all_iff target_addr_def)

end
