(* ===== verification/LinkProps.thy ===== *)
theory LinkProps
  imports LinkPorts
begin

text \<open>The properties of share links.\<close>

section \<open>An inbound with two addresses\<close>

definition lx_env :: link_env where
  "lx_env = \<lparr>lk_fmt = (\<lambda>t. t), lk_int = (\<lambda>_. 0), lk_pos = (\<lambda>_. False), lk_marshal = (\<lambda>_. []), lk_unmarshal = (\<lambda>_. None),
     lk_decode = (\<lambda>_. None), lk_lower = (\<lambda>s. s), lk_eqf = (=), lk_cert = (\<lambda>_. []), lk_pick = (\<lambda>_. 0)\<rparr>"


definition lx_addrs :: "jobj list" where
  "lx_addrs = [[(''server'', JStr ''2001:db8::1''), (''server_port'', JNum ''443''), (''remark'', JStr ''-six'')],
     [(''server'', JStr ''a.example.org''), (''server_port'', JNum ''8443'')]]"



section \<open>Reading back what was written\<close>



lemma tls_types_url: "t \<in> set tls_types \<Longrightarrow> t \<in> set url_types"
  by (auto simp: tls_types_def url_types_def)



section \<open>Nothing gets in between\<close>

text \<open>
  C38. No value adds to a link. Whatever the credentials, the parameters and the name hold -- some of them are supplied by other
  nodes -- the link parses to exactly the scheme, credentials, host, port and name it was built from, and its query to the
  parameters that were given, in order, none added and none changed; the two that are written raw are left out when they hold
  a character outside their alphabet, and otherwise read as written but for a plus sign.
\<close>

theorem no_value_adds_to_a_link:
  assumes "scheme_ok sch" and "link_host h" and "port_ok p" and "list_all (\<lambda>q. plain_key (fst q)) ps"
  shows "\<exists>u. url_parse (linkURL sch usr h p ps remark) = Some u \<and> ur_scheme u = sch \<and> ur_user u = usr \<and>
      SplitHostPort (ur_host u) = Some (h, p) \<and> ur_path u = [] \<and> ur_fragment u = remark \<and>
      parse_query (ur_query u) = concat (map read_param ps)"
  using linkURL_parse [OF assms, of usr remark] link_endpoint(2) [OF assms(2,3)] encodeParams_read [OF assms(4)] by simp

theorem no_value_adds_to_a_link_witness:
  "\<exists>u. url_parse (linkURL ''trojan'' (Some (''p@/:?#&'', None)) ''2001:db8::1'' ''443''
        [(''alpn'', ''h2&allowInsecure=1''), (''path'', ''/x?a=b&c''), (''mport'', ''1000-2000'')] ''n #1'') = Some u \<and>
      ur_user u = Some (''p@/:?#&'', None) \<and> parse_query (ur_query u) = [(''path'', ''/x?a=b&c''), (''mport'', ''1000-2000'')]"
proof -
  have "scheme_ok ''trojan''" "link_host ''2001:db8::1''" "port_ok ''443''"
    "list_all (\<lambda>q. plain_key (fst q)) [(''alpn'', ''h2&allowInsecure=1''), (''path'', ''/x?a=b&c''), (''mport'', ''1000-2000'')]"
    by code_simp+
  from no_value_adds_to_a_link [OF this, of "Some (''p@/:?#&'', None)" "''n #1''"]
  obtain u where u: "url_parse (linkURL ''trojan'' (Some (''p@/:?#&'', None)) ''2001:db8::1'' ''443''
        [(''alpn'', ''h2&allowInsecure=1''), (''path'', ''/x?a=b&c''), (''mport'', ''1000-2000'')] ''n #1'') = Some u"
    "ur_user u = Some (''p@/:?#&'', None)"
    "parse_query (ur_query u) = concat (map read_param [(''alpn'', ''h2&allowInsecure=1''), (''path'', ''/x?a=b&c''), (''mport'', ''1000-2000'')])"
    by blast
  moreover have "concat (map read_param [(''alpn'', ''h2&allowInsecure=1''), (''path'', ''/x?a=b&c''), (''mport'', ''1000-2000'')]) =
      [(''path'', ''/x?a=b&c''), (''mport'', ''1000-2000'')]" by code_simp
  ultimately show ?thesis by (intro exI [of _ u]) simp
qed

section \<open>Port hopping\<close>

text \<open>
  C39. Port hopping survives the link: an inbound whose ports are stored as the panel normalises them is read back from each of its
  Hysteria 2 links with exactly that list, a single port as the range of itself, and with no list where none is stored.
\<close>

theorem port_hopping_survives_the_link:
  assumes "list_all (target_addr e) addrs" and "map_of out ''server_ports'' = Some (JArr (map JStr (NormalizePortRanges e v)))"
  shows "list_all (keeps_ports e n (NormalizePortRanges e v)) (hysteria2Link e cfg inbound (Some out) addrs)"
  by (rule hysteria2_keeps_ports [OF assms])

theorem port_hopping_survives_the_link_witness:
  "NormalizePortRanges lx_env (Some (JArr [JStr '' 443'', JNum ''70000'', JStr ''20000-30000''])) = [''443:443'', ''20000:30000''] \<and>
   list_all (keeps_ports lx_env 0 [''443:443'', ''20000:30000''])
     (hysteria2Link lx_env [] [] (Some [(''server_ports'', JArr [JStr ''443:443'', JStr ''20000:30000''])]) lx_addrs)"
proof -
  have n: "NormalizePortRanges lx_env (Some (JArr [JStr '' 443'', JNum ''70000'', JStr ''20000-30000''])) = [''443:443'', ''20000:30000'']"
    by code_simp
  have a: "list_all (target_addr lx_env) lx_addrs" by code_simp
  show ?thesis
    using port_hopping_survives_the_link [OF a, of "[(''server_ports'', JArr [JStr ''443:443'', JStr ''20000:30000''])]"
        "Some (JArr [JStr '' 443'', JNum ''70000'', JStr ''20000-30000''])" 0 "[]" "[]"] n by simp
qed

section \<open>Any link\<close>



end
