(* ===== verification/Spec2Isabelle.thy ===== *)
theory Spec2Isabelle
  imports ClientProps JobProps NotifyProps GuardProps IpProps SessionProps PresenceProps ClusterProps StatsProps NodeProps NodeSvcProps
    AccountProps WebProps LinkProps
begin

text \<open>
  Verification of the 2s-ui panel.

  The program is a panel around an embedded sing-box core. Operators keep \<^emph>\<open>clients\<close> (customers) in a
  database; each is bound to inbounds and may have a traffic volume, an expiry date, a reset schedule and
  a limit on source addresses. The core accounts for traffic and tells who is connected from where; jobs
  of the panel read that, disable and reset clients, ban addresses and publish events; a notifier turns
  the events into messages. The panel's own login has a guard against guessing. Several panels form a
  cluster: a master collects what its nodes see and leases them bans.

  \<^bold>\<open>Theories and sources\<close>

  \<^item> \<open>Prelude\<close>: results (\<open>error + 'a\<close>), Go maps as association lists in their iteration order (interface
    \<open>map_store\<close>), JSON values, 64-bit arithmetic, string helpers of Go's \<^verbatim>\<open>strings\<close>, generic list lemmas and
    the collections of simp rules.
  \<^item> \<open>GoTime\<close>: the calendar, zones and \<^verbatim>\<open>time.Date\<close>, as far as the schedules use them.
  \<^item> \<open>ClientModel\<close>: the rows of \<^verbatim>\<open>database/model\<close>. \<open>ResetSchedule\<close>: \<^verbatim>\<open>validateResetSchedule\<close>, \<^verbatim>\<open>nextMonthlyReset\<close>,
    \<^verbatim>\<open>nextClientReset\<close>, \<^verbatim>\<open>alignNextReset\<close> of \<^verbatim>\<open>service/client.go\<close>. \<open>ClientSave\<close>: \<^verbatim>\<open>ClientService.Save\<close> with its
    seven actions, the rebuilding of links and the updates an inbound makes to its clients.
    \<open>ClientInv\<close>, \<open>ClientNames\<close>, \<open>ClientLinks\<close>, \<open>ClientEdit\<close>: the invariant of the table, uniqueness of names,
    links, and what an edit cannot touch.
  \<^item> \<open>ClientJobs\<close>, \<open>ClientJobsInv\<close>: \<^verbatim>\<open>ResetClients\<close>, \<^verbatim>\<open>DepleteClients\<close>, \<^verbatim>\<open>findExpiring\<close>, \<^verbatim>\<open>ResetAllClientsTraffic\<close>
    and the jobs of \<^verbatim>\<open>cronjob\<close> that drive them, on a transaction whose statements may fail.
  \<^item> \<open>Notify\<close>, \<open>NotifyInv\<close>: \<^verbatim>\<open>service/notify\<close>: events, the suppressor (transitions, cooldowns, tallies) and the bus
    with its bounded queues, as a step relation of publishers, the dispatch loop and a delivery worker.
  \<^item> \<open>LoginGuard\<close>: \<^verbatim>\<open>service/loginguard.go\<close>.
  \<^item> \<open>NetAddr\<close>, \<open>ConnTracker\<close>: addresses and the connection tracker of \<^verbatim>\<open>core/tracker_conn.go\<close>.
    \<open>IpLimit\<close>, \<open>IpLimitInv\<close>: \<^verbatim>\<open>service/iplimit.go\<close>. \<open>ClusterIp\<close>, \<open>ClusterIpInv\<close>: \<^verbatim>\<open>service/clusterIPLimit.go\<close>.
  \<^item> \<open>UserSession\<close>: \<^verbatim>\<open>core/usersession\<close> and \<^verbatim>\<open>core/disconnect.go\<close>. \<open>Presence\<close>: \<^verbatim>\<open>service/presence.go\<close>.

  \<^item> \<open>StatsTracker\<close>, \<open>StatsTrackerInv\<close>: the counters of \<^verbatim>\<open>core/tracker_stats.go\<close>, with connections holding references to
    counters. \<open>StatsService\<close>: \<^verbatim>\<open>service/stats.go\<close>, with \<open>StatsInv\<close> (folding and gathering rows), \<open>StatsFlush\<close> (what a flush
    conserves) and \<open>StatsQuery\<close> (charts, reports, retention).

  The properties stand in the theories \<open>*Props\<close>, each with a concrete run where it has hypotheses.

  \<^bold>\<open>How the model corresponds to the code\<close>

  Tables are lists of rows in the order of their ids; a query is a filter, an SQL condition a predicate on
  exact integers. Statements that can fail are arguments of the jobs; a failed transaction gives back the
  tables it started from. Errors are values of \<open>error\<close>. A Go map is an association list; where the code
  ranges over it, the list's order stands for the order of iteration, and the properties hold for every
  order. Bodies of JSON columns are kept with their spelling, since the code compares them as bytes.
  What is not under the repository's control is an argument: the clock (every separate reading is a
  separate argument), UUIDs, time zones, the parser of cron expressions, host names, the folding of case
  beyond ASCII, the answers of nodes, and the share-link generator. 64-bit counters wrap where the
  Go code adds them; sums inside SQL are exact.

  \<^bold>\<open>Interfaces\<close>

  \<open>map_store\<close> (\<open>Prelude\<close>) is the contract of Go maps, interpreted on association lists. The ban gate of
  the tracker (\<open>ban_gate\<close>, \<open>IpLimitInv\<close>) is interpreted both on the panel's own ban list and on the leased
  one. The other interfaces stand with the components that provide them.

  \<^bold>\<open>Bounds\<close>

  Every loop of the model is structural recursion or has a termination proof; there is no fuel. The search
  for the next monthly boundary looks at 13 months, as the code does; \<open>GoTime\<close> bounds how far zones shift.

  \<^bold>\<open>Not modelled\<close>

  The HTTP API, the web server and its middleware, the command line, logging, database files and
  migrations, the embedded box and its protocol inbounds, certificates, subscriptions, the Telegram bot,
  notification channels, the hub's websockets and the networking of nodes: they are I/O around the parts
  above or calls into libraries the repository does not contain.
\<close>

end
